(* ===== verification/Prelude.thy ===== *)
theory Prelude
  imports Complex_Main "HOL-Library.Word" "HOL-Library.Multiset" "HOL-Library.Monad_Syntax"
begin

text \<open>
  What every component of the development shares: the collections its automation draws on,
  Go's basic types (fixed-width integers, slices that may be nil, errors, panics), the
  strict weak orders the priority queues compare with, exchanging two elements of a list, and the
  bounded arithmetic on \<open>int32\<close> counters.

  Conventions. A Go pointer to a value that is never mutated through a second name is
  an \<open>option\<close> (\<open>None\<close> is \<open>nil\<close>); pointers whose aliasing matters are addresses
  (\<open>nat\<close>) into an explicit store. A Go function that returns \<open>(value, error)\<close> returns a
  sum, \<open>Inl\<close> for the error. A function that can panic returns an \<open>option\<close>, with \<open>None\<close>
  for the panic.
\<close>

named_theorems swap_simps "exchanging two elements of a list"
named_theorems getter_simps "the generated protobuf getters"
named_theorems iface_simps "the method tables of Go interfaces"
named_theorems count_simps "int32 counters without overflow"

section \<open>Go's basic types\<close>

type_synonym int32 = "32 word"
type_synonym int64 = "64 word"
type_synonym uint64 = "64 word"
type_synonym byte = "8 word"

text \<open>A byte slice: \<open>None\<close> is the nil slice, which Go distinguishes from the empty one.\<close>

type_synonym slice = "byte list option"

definition slice_len :: "slice \<Rightarrow> nat" where
  "slice_len b = (case b of None \<Rightarrow> 0 | Some bs \<Rightarrow> length bs)"

text \<open>
  Errors. \<open>ErrNotFound\<close> is the one sentinel the stores compare with (\<open>store.ErrNotFound\<close>);
  every other error is opaque to the code, which only tests it against nil or prints it.
\<close>

datatype goerr = ErrNotFound | Err string

type_synonym 'a result = "goerr + 'a"

section \<open>Strict weak orders\<close>

definition swo_on :: "'a set \<Rightarrow> ('a \<Rightarrow> 'a \<Rightarrow> bool) \<Rightarrow> bool" where
  "swo_on A lt \<longleftrightarrow>
     (\<forall>x\<in>A. \<forall>y\<in>A. lt x y \<longrightarrow> \<not> lt y x) \<and>
     (\<forall>x\<in>A. \<forall>y\<in>A. \<forall>z\<in>A. \<not> lt x y \<longrightarrow> \<not> lt y z \<longrightarrow> \<not> lt x z)"

lemma swo_asym: "swo_on A lt \<Longrightarrow> x \<in> A \<Longrightarrow> y \<in> A \<Longrightarrow> lt x y \<Longrightarrow> \<not> lt y x"
  unfolding swo_on_def by blast

lemma swo_negtrans:
  "swo_on A lt \<Longrightarrow> x \<in> A \<Longrightarrow> y \<in> A \<Longrightarrow> z \<in> A \<Longrightarrow> \<not> lt x y \<Longrightarrow> \<not> lt y z \<Longrightarrow> \<not> lt x z"
  unfolding swo_on_def by blast

lemma swo_irrefl: "swo_on A lt \<Longrightarrow> x \<in> A \<Longrightarrow> \<not> lt x x"
  using swo_asym by fastforce

lemma swo_on_subset: "swo_on A lt \<Longrightarrow> B \<subseteq> A \<Longrightarrow> swo_on B lt"
  unfolding swo_on_def by blast

lemma swo_on_cong:
  "(\<And>x y. x \<in> A \<Longrightarrow> y \<in> A \<Longrightarrow> lt x y = lt' x y) \<Longrightarrow> swo_on A lt = swo_on A lt'"
  by (simp add: swo_on_def)

lemma swo_on_inv_image: "swo_on A lt \<Longrightarrow> f ` B \<subseteq> A \<Longrightarrow> swo_on B (\<lambda>x y. lt (f x) (f y))"
  unfolding swo_on_def by (meson image_subset_iff)

lemma swo_on_less: "swo_on A (\<lambda>x y. f x < (f y :: 'k::linorder))"
  by (auto simp: swo_on_def)

section \<open>Exchanging two elements\<close>

definition swap_at :: "'a list \<Rightarrow> nat \<Rightarrow> nat \<Rightarrow> 'a list" where
  "swap_at xs i j = xs[i := xs ! j, j := xs ! i]"

lemma length_swap_at [simp, swap_simps]: "length (swap_at xs i j) = length xs"
  by (simp add: swap_at_def)

lemma swap_at_nth [swap_simps]:
  "i < length xs \<Longrightarrow> j < length xs \<Longrightarrow>
     swap_at xs i j ! k = (if k = i then xs ! j else if k = j then xs ! i else xs ! k)"
  by (simp add: swap_at_def nth_list_update)

lemma mset_swap_at [swap_simps]:
  "i < length xs \<Longrightarrow> j < length xs \<Longrightarrow> mset (swap_at xs i j) = mset xs"
  by (simp add: swap_at_def mset_swap)

lemma set_swap_at [swap_simps]:
  "i < length xs \<Longrightarrow> j < length xs \<Longrightarrow> set (swap_at xs i j) = set xs"
  using mset_swap_at mset_eq_setD by blast

lemma distinct_swap_at [swap_simps]:
  "i < length xs \<Longrightarrow> j < length xs \<Longrightarrow> distinct (swap_at xs i j) = distinct xs"
  by (metis distinct_swap swap_at_def)

lemma map_swap_at [swap_simps]:
  "i < length xs \<Longrightarrow> j < length xs \<Longrightarrow> map f (swap_at xs i j) = swap_at (map f xs) i j"
  by (simp add: swap_at_def map_update)

lemma swap_at_same [simp]: "swap_at xs i i = xs"
  by (simp add: swap_at_def)

section \<open>Lists\<close>

lemma mset_last_butlast: "xs \<noteq> [] \<Longrightarrow> add_mset (last xs) (mset (butlast xs)) = mset xs"
  by (metis append_butlast_last_id mset_append mset.simps add_mset_add_single)

lemma length_filter_mset_cong:
  "mset xs = mset ys \<Longrightarrow> length (filter P xs) = length (filter P ys)"
  by (metis mset_filter size_mset)

lemma mset_map_filter_cong:
  "mset xs = mset ys \<Longrightarrow> mset (map f (filter P xs)) = mset (map f (filter P ys))"
  by (metis mset_filter mset_map)

text \<open>The two loop shapes the source uses over a snapshot: collecting and counting.\<close>

lemma fold_append_filter:
  "fold (\<lambda>x acc. if P x then acc @ [f x] else acc) xs acc = acc @ map f (filter P xs)"
  by (induction xs arbitrary: acc) auto

text \<open>
  \<open>range\<close> over a Go map visits its entries in an order the language leaves open. A map is an
  association list with distinct keys and the order is what an oracle makes of it; an oracle that does
  not permute is ignored, so a statement about every oracle is one about every order.
\<close>

definition go_range :: "('a list \<Rightarrow> 'a list) \<Rightarrow> 'a list \<Rightarrow> 'a list" where
  "go_range it m = (if mset (it m) = mset m then it m else m)"

lemma mset_go_range [simp]: "mset (go_range it m) = mset m"
  by (simp add: go_range_def)

lemma set_go_range [simp]: "set (go_range it m) = set m"
  by (rule mset_eq_setD [OF mset_go_range])

lemma length_go_range [simp]: "length (go_range it m) = length m"
  by (metis mset_go_range size_mset)

lemma distinct_keys_go_range [simp]: "distinct (map fst (go_range it m)) = distinct (map fst m)"
proof (rule mset_eq_imp_distinct_iff)
  show "mset (map fst (go_range it m)) = mset (map fst m)" by simp
qed

lemma map_of_go_range [simp]: "distinct (map fst m) \<Longrightarrow> map_of (go_range it m) = map_of m"
  by (rule iffD2 [OF map_of_inject_set]) simp_all

section \<open>Counting in int32\<close>

lemma sint_of_nat_int32 [count_simps]: "n < 2 ^ 31 \<Longrightarrow> sint (of_nat n :: int32) = int n"
  by (simp add: sint_uint uint_nat unat_of_nat take_bit_nat_eq_self signed_take_bit_int_eq_self)

lemma sint_plus_int32 [count_simps]:
  "- (2 ^ 31) \<le> sint a + sint b \<Longrightarrow> sint a + sint b < 2 ^ 31 \<Longrightarrow> sint (a + b :: int32) = sint a + sint b"
  by (simp add: signed_take_bit_int_eq_self sint_word_ariths)

lemma sint_minus_int32 [count_simps]:
  "- (2 ^ 31) \<le> sint a - sint b \<Longrightarrow> sint a - sint b < 2 ^ 31 \<Longrightarrow> sint (a - b :: int32) = sint a - sint b"
  by (simp add: signed_take_bit_int_eq_self sint_word_ariths)

lemma sint_of_nat_int64 [count_simps]: "n < 2 ^ 63 \<Longrightarrow> sint (of_nat n :: int64) = int n"
  by (simp add: sint_uint uint_nat unat_of_nat take_bit_nat_eq_self signed_take_bit_int_eq_self)

lemma sint_int32_range: "- (2 ^ 31) \<le> sint (a :: int32)" "sint (a :: int32) < 2 ^ 31"
  using sint_greater_eq [of a] sint_lt [of a] by simp_all

end
