(* ===== verification/GoFloat.thy ===== *)
theory GoFloat
  imports Prelude "HOL-Library.Log_Nat"
begin

text \<open>
  Go's \<open>float32\<close> and \<open>float64\<close>, as far as the program computes with them: the ordered
  comparisons (false as soon as one side is NaN), widening \<open>float32\<close> to \<open>float64\<close> (which keeps
  the value), the conversions from integers, and \<open>float64\<close> addition with IEEE 754 rounding
  to nearest, ties to even. A finite float is its rational value, so the two zeros are one
  value; nothing in the program tells them apart. The type also holds rationals that
  are no float: the comparisons are right for them too, and every lemma below holds of
  them unless it says otherwise.
\<close>

datatype gofloat = Fin rat | PInf | NInf | NaN

fun f_lt :: "gofloat \<Rightarrow> gofloat \<Rightarrow> bool" where
  "f_lt (Fin a) (Fin b) = (a < b)"
| "f_lt (Fin a) PInf = True"
| "f_lt NInf (Fin b) = True"
| "f_lt NInf PInf = True"
| "f_lt _ _ = False"

fun f_eq :: "gofloat \<Rightarrow> gofloat \<Rightarrow> bool" where
  "f_eq NaN _ = False"
| "f_eq _ NaN = False"
| "f_eq a b = (a = b)"

definition f_gt :: "gofloat \<Rightarrow> gofloat \<Rightarrow> bool" where
  "f_gt a b = f_lt b a"

definition f_ge :: "gofloat \<Rightarrow> gofloat \<Rightarrow> bool" where
  "f_ge a b = (f_lt b a \<or> f_eq a b)"

definition f_zero :: gofloat where
  "f_zero = Fin 0"

definition f_of_int :: "int \<Rightarrow> gofloat" where
  "f_of_int n = Fin (of_int n)"

text \<open>
  Off NaN the floats are linearly ordered; \<open>f_rank\<close> embeds them in a product of linear orders
  (the infinities, then the value), which the queue's ordering lemmas compare by.
\<close>

definition f_rank :: "gofloat \<Rightarrow> int" where
  "f_rank a = (case a of NInf \<Rightarrow> -1 | PInf \<Rightarrow> 1 | _ \<Rightarrow> 0)"

definition f_val :: "gofloat \<Rightarrow> rat" where
  "f_val a = (case a of Fin r \<Rightarrow> r | _ \<Rightarrow> 0)"

lemma f_lt_rank:
  "a \<noteq> NaN \<Longrightarrow> b \<noteq> NaN \<Longrightarrow>
     f_lt a b \<longleftrightarrow> f_rank a < f_rank b \<or> (f_rank a = f_rank b \<and> f_val a < f_val b)"
  by (cases a; cases b) (auto simp: f_rank_def f_val_def)

lemma f_eq_rank:
  "a \<noteq> NaN \<Longrightarrow> b \<noteq> NaN \<Longrightarrow> f_eq a b \<longleftrightarrow> f_rank a = f_rank b \<and> f_val a = f_val b"
  by (cases a; cases b) (auto simp: f_rank_def f_val_def)

lemma f_ge_Fin [simp]: "f_ge (Fin a) (Fin b) = (b \<le> a)"
  by (auto simp: f_ge_def)

section \<open>Addition of float64\<close>

text \<open>The exponent of the leading bit of a positive rational.\<close>

definition ilog2 :: "rat \<Rightarrow> int" where
  "ilog2 r = (let (p, q) = quotient_of r; k = bitlen p - bitlen q
              in if 2 powi k \<le> r then k else k - 1)"

text \<open>Round to the nearest integer, to the even one from half way.\<close>

definition round_even :: "rat \<Rightarrow> int" where
  "round_even x =
     (let f = \<lfloor>x\<rfloor>; d = x - of_int f
      in if d < 1 / 2 then f else if 1 / 2 < d then f + 1 else if even f then f else f + 1)"

definition round64 :: "rat \<Rightarrow> gofloat" where
  "round64 r =
     (if r = 0 then Fin 0
      else let e = max (-1074) (ilog2 \<bar>r\<bar> - 52);
               v = of_int (round_even (r / 2 powi e)) * 2 powi e
           in if 2 ^ 1024 \<le> v then PInf else if v \<le> - (2 ^ 1024) then NInf else Fin v)"

fun f_add64 :: "gofloat \<Rightarrow> gofloat \<Rightarrow> gofloat" where
  "f_add64 NaN _ = NaN"
| "f_add64 _ NaN = NaN"
| "f_add64 PInf NInf = NaN"
| "f_add64 NInf PInf = NaN"
| "f_add64 PInf _ = PInf"
| "f_add64 _ PInf = PInf"
| "f_add64 NInf _ = NInf"
| "f_add64 _ NInf = NInf"
| "f_add64 (Fin a) (Fin b) = round64 (a + b)"

lemma round_even_of_int [simp]: "round_even (of_int n) = n"
  by (simp add: round_even_def)

lemma ilog2_of_int: "0 < n \<Longrightarrow> n < 2 ^ 53 \<Longrightarrow> ilog2 (of_int n) \<le> 52"
proof -
  assume n: "0 < n" "n < 2 ^ 53"
  have "0 \<le> log 2 (real_of_int n)" using n by simp
  then have "0 \<le> \<lfloor>log 2 (real_of_int n)\<rfloor>" by linarith
  moreover have "bitlen n = 1 + \<lfloor>log 2 (real_of_int n)\<rfloor>"
    using n calculation by (simp add: bitlen_def floorlog_def del: zero_le_floor)
  ultimately have b: "0 < bitlen n" by linarith
  have "2 ^ nat (bitlen n - 1) \<le> n" using bitlen_bounds [of n] n by simp
  note b = this b
  have "(2::int) ^ nat (bitlen n - 1) < 2 ^ 53" using b(1) n(2) by linarith
  then have "nat (bitlen n - 1) < 53" by (rule power_less_imp_less_exp [rotated]) simp
  moreover have "bitlen 1 = 1" by (simp add: bitlen_def floorlog_def)
  ultimately show ?thesis using b by (auto simp: ilog2_def Let_def)
qed

lemma round64_of_int: "\<bar>n\<bar> < 2 ^ 53 \<Longrightarrow> round64 (of_int n) = Fin (of_int n)"
proof (cases "n = 0")
  case True
  then show ?thesis by (simp add: round64_def)
next
  case False
  assume n: "\<bar>n\<bar> < 2 ^ 53"
  define e where "e = max (-1074) (ilog2 (of_int \<bar>n\<bar>) - 52)"
  have "ilog2 (of_int \<bar>n\<bar>) \<le> 52" using ilog2_of_int [of "\<bar>n\<bar>"] n False by simp
  then have "e \<le> 0" by (simp add: e_def)
  then obtain k where k: "e = - int k" by (metis add.inverse_inverse nonneg_int_cases neg_0_le_iff_le)
  have q: "rat_of_int n / 2 powi e = of_int (n * 2 ^ k)" by (simp add: k power_int_minus divide_inverse)
  then have v: "of_int (round_even (rat_of_int n / 2 powi e)) * 2 powi e = (of_int n :: rat)"
    unfolding q round_even_of_int by (simp add: k power_int_minus field_simps)
  have "(2::int) ^ 53 < 2 ^ 1024" by simp
  with n have "n < 2 ^ 1024" "- (2 ^ 1024) < n" by linarith+
  then have "(of_int n :: rat) < 2 ^ 1024" "- (2 ^ 1024) < (of_int n :: rat)"
    by (metis of_int_less_iff of_int_numeral of_int_power of_int_minus)+
  with v False show ?thesis unfolding round64_def by (simp add: e_def Let_def flip: of_int_abs)
qed

lemma f_add64_of_int:
  "\<bar>a + b\<bar> < 2 ^ 53 \<Longrightarrow> f_add64 (f_of_int a) (f_of_int b) = f_of_int (a + b)"
  using round64_of_int [of "a + b"] by (simp add: f_of_int_def)

end
