(* ===== verification/Protocol.thy ===== *)
theory Protocol
  imports GoFloat
begin

text \<open>
  The messages of \<open>src/protocol/exeggutor.pb.go\<close>: one record per message with the fields in
  the order of the source, and one getter per generated \<open>Get\<close> method. A proto2 field is a
  pointer, so every scalar field is an \<open>option\<close>; a getter takes the receiver as an \<open>option\<close>
  too, because the generated code accepts a nil receiver and returns the field's default. The
  byte field \<open>XXX_unrecognized\<close> that carries unknown fields is left out. The enumerations are
  datatypes with the numbers and names of the generated tables.

  \<open>ScheduledApp.App\<close> is an address into a store of applications, since the task queue shares
  the application with whoever submitted it.
\<close>

section \<open>Enumerations\<close>

datatype AppStatus = AppStatus_ABSENT | AppStatus_DEPLOYING | AppStatus_STOPPED | AppStatus_STOPPING | AppStatus_STARTED | AppStatus_FAILED | AppStatus_UNHEALTHY | AppStatus_DISABLING

fun AppStatus_num :: "AppStatus \<Rightarrow> int" where
  "AppStatus_num AppStatus_ABSENT = 1"
| "AppStatus_num AppStatus_DEPLOYING = 2"
| "AppStatus_num AppStatus_STOPPED = 3"
| "AppStatus_num AppStatus_STOPPING = 4"
| "AppStatus_num AppStatus_STARTED = 5"
| "AppStatus_num AppStatus_FAILED = 6"
| "AppStatus_num AppStatus_UNHEALTHY = 7"
| "AppStatus_num AppStatus_DISABLING = 8"

definition AppStatus_name :: "int \<rightharpoonup> string" where
  "AppStatus_name = map_of [(1, ''ABSENT''), (2, ''DEPLOYING''), (3, ''STOPPED''), (4, ''STOPPING''), (5, ''STARTED''), (6, ''FAILED''), (7, ''UNHEALTHY''), (8, ''DISABLING'')]"

definition AppStatus_value :: "string \<rightharpoonup> int" where
  "AppStatus_value = map_of [(''ABSENT'', 1), (''DEPLOYING'', 2), (''STOPPED'', 3), (''STOPPING'', 4), (''STARTED'', 5), (''FAILED'', 6), (''UNHEALTHY'', 7), (''DISABLING'', 8)]"

definition AppStatus_of :: "int \<Rightarrow> AppStatus option" where
  "AppStatus_of i = map_of [(1, AppStatus_ABSENT), (2, AppStatus_DEPLOYING), (3, AppStatus_STOPPED), (4, AppStatus_STOPPING), (5, AppStatus_STARTED), (6, AppStatus_FAILED), (7, AppStatus_UNHEALTHY), (8, AppStatus_DISABLING)] i"

datatype ComponentType = ComponentType_SERVICE | ComponentType_TASK | ComponentType_CRON | ComponentType_SPARK_JOB

fun ComponentType_num :: "ComponentType \<Rightarrow> int" where
  "ComponentType_num ComponentType_SERVICE = 0"
| "ComponentType_num ComponentType_TASK = 1"
| "ComponentType_num ComponentType_CRON = 2"
| "ComponentType_num ComponentType_SPARK_JOB = 3"

definition ComponentType_name :: "int \<rightharpoonup> string" where
  "ComponentType_name = map_of [(0, ''SERVICE''), (1, ''TASK''), (2, ''CRON''), (3, ''SPARK_JOB'')]"

definition ComponentType_value :: "string \<rightharpoonup> int" where
  "ComponentType_value = map_of [(''SERVICE'', 0), (''TASK'', 1), (''CRON'', 2), (''SPARK_JOB'', 3)]"

definition ComponentType_of :: "int \<Rightarrow> ComponentType option" where
  "ComponentType_of i = map_of [(0, ComponentType_SERVICE), (1, ComponentType_TASK), (2, ComponentType_CRON), (3, ComponentType_SPARK_JOB)] i"

datatype Distribution = Distribution_PACKAGE | Distribution_DOCKER | Distribution_SCRIPT | Distribution_FAT_JAR

fun Distribution_num :: "Distribution \<Rightarrow> int" where
  "Distribution_num Distribution_PACKAGE = 0"
| "Distribution_num Distribution_DOCKER = 1"
| "Distribution_num Distribution_SCRIPT = 2"
| "Distribution_num Distribution_FAT_JAR = 3"

definition Distribution_name :: "int \<rightharpoonup> string" where
  "Distribution_name = map_of [(0, ''PACKAGE''), (1, ''DOCKER''), (2, ''SCRIPT''), (3, ''FAT_JAR'')]"

definition Distribution_value :: "string \<rightharpoonup> int" where
  "Distribution_value = map_of [(''PACKAGE'', 0), (''DOCKER'', 1), (''SCRIPT'', 2), (''FAT_JAR'', 3)]"

definition Distribution_of :: "int \<Rightarrow> Distribution option" where
  "Distribution_of i = map_of [(0, Distribution_PACKAGE), (1, Distribution_DOCKER), (2, Distribution_SCRIPT), (3, Distribution_FAT_JAR)] i"

datatype HealthCheckMode = HealthCheckMode_HTTP | HealthCheckMode_TCP | HealthCheckMode_METRICS

fun HealthCheckMode_num :: "HealthCheckMode \<Rightarrow> int" where
  "HealthCheckMode_num HealthCheckMode_HTTP = 0"
| "HealthCheckMode_num HealthCheckMode_TCP = 1"
| "HealthCheckMode_num HealthCheckMode_METRICS = 2"

definition HealthCheckMode_name :: "int \<rightharpoonup> string" where
  "HealthCheckMode_name = map_of [(0, ''HTTP''), (1, ''TCP''), (2, ''METRICS'')]"

definition HealthCheckMode_value :: "string \<rightharpoonup> int" where
  "HealthCheckMode_value = map_of [(''HTTP'', 0), (''TCP'', 1), (''METRICS'', 2)]"

definition HealthCheckMode_of :: "int \<Rightarrow> HealthCheckMode option" where
  "HealthCheckMode_of i = map_of [(0, HealthCheckMode_HTTP), (1, HealthCheckMode_TCP), (2, HealthCheckMode_METRICS)] i"

datatype HealthCheckResultCode = HealthCheckResultCode_HEALTHY | HealthCheckResultCode_ERROR | HealthCheckResultCode_TIMEDOUT | HealthCheckResultCode_DOWN | HealthCheckResultCode_UNKNOWN

fun HealthCheckResultCode_num :: "HealthCheckResultCode \<Rightarrow> int" where
  "HealthCheckResultCode_num HealthCheckResultCode_HEALTHY = 0"
| "HealthCheckResultCode_num HealthCheckResultCode_ERROR = 1"
| "HealthCheckResultCode_num HealthCheckResultCode_TIMEDOUT = 2"
| "HealthCheckResultCode_num HealthCheckResultCode_DOWN = 3"
| "HealthCheckResultCode_num HealthCheckResultCode_UNKNOWN = 99"

definition HealthCheckResultCode_name :: "int \<rightharpoonup> string" where
  "HealthCheckResultCode_name = map_of [(0, ''HEALTHY''), (1, ''ERROR''), (2, ''TIMEDOUT''), (3, ''DOWN''), (99, ''UNKNOWN'')]"

definition HealthCheckResultCode_value :: "string \<rightharpoonup> int" where
  "HealthCheckResultCode_value = map_of [(''HEALTHY'', 0), (''ERROR'', 1), (''TIMEDOUT'', 2), (''DOWN'', 3), (''UNKNOWN'', 99)]"

definition HealthCheckResultCode_of :: "int \<Rightarrow> HealthCheckResultCode option" where
  "HealthCheckResultCode_of i = map_of [(0, HealthCheckResultCode_HEALTHY), (1, HealthCheckResultCode_ERROR), (2, HealthCheckResultCode_TIMEDOUT), (3, HealthCheckResultCode_DOWN), (99, HealthCheckResultCode_UNKNOWN)] i"

text \<open>The name table, the value table and the constants agree.\<close>

lemma AppStatus_tables: "AppStatus_name (AppStatus_num x) \<bind> AppStatus_value = Some (AppStatus_num x)" "AppStatus_of (AppStatus_num x) = Some x"
  by (cases x; simp add: AppStatus_name_def AppStatus_value_def AppStatus_of_def)+

lemma ComponentType_tables: "ComponentType_name (ComponentType_num x) \<bind> ComponentType_value = Some (ComponentType_num x)" "ComponentType_of (ComponentType_num x) = Some x"
  by (cases x; simp add: ComponentType_name_def ComponentType_value_def ComponentType_of_def)+

lemma Distribution_tables: "Distribution_name (Distribution_num x) \<bind> Distribution_value = Some (Distribution_num x)" "Distribution_of (Distribution_num x) = Some x"
  by (cases x; simp add: Distribution_name_def Distribution_value_def Distribution_of_def)+

lemma HealthCheckMode_tables: "HealthCheckMode_name (HealthCheckMode_num x) \<bind> HealthCheckMode_value = Some (HealthCheckMode_num x)" "HealthCheckMode_of (HealthCheckMode_num x) = Some x"
  by (cases x; simp add: HealthCheckMode_name_def HealthCheckMode_value_def HealthCheckMode_of_def)+

lemma HealthCheckResultCode_tables: "HealthCheckResultCode_name (HealthCheckResultCode_num x) \<bind> HealthCheckResultCode_value = Some (HealthCheckResultCode_num x)" "HealthCheckResultCode_of (HealthCheckResultCode_num x) = Some x"
  by (cases x; simp add: HealthCheckResultCode_name_def HealthCheckResultCode_value_def HealthCheckResultCode_of_def)+

section \<open>Messages\<close>

text \<open>
  The two identifiers of go-mesos that the messages embed: generated messages with one string.
\<close>

record TaskID =
  tid_Value :: "string option"

record SlaveID =
  sid_Value :: "string option"

definition TaskID_GetValue :: "TaskID option \<Rightarrow> string" where [getter_simps]:
  "TaskID_GetValue m = (case m of None \<Rightarrow> '''' | Some t \<Rightarrow> case_option '''' id (tid_Value t))"

definition SlaveID_GetValue :: "SlaveID option \<Rightarrow> string" where [getter_simps]:
  "SlaveID_GetValue m = (case m of None \<Rightarrow> '''' | Some t \<Rightarrow> case_option '''' id (sid_Value t))"

record StringKeyValue =
  kv_Key :: "string option"
  kv_Value :: "string option"

definition StringKeyValue_GetKey :: "StringKeyValue option \<Rightarrow> string" where [getter_simps]:
  "StringKeyValue_GetKey m = (case m of None \<Rightarrow> '''' | Some x \<Rightarrow> case_option '''' id (kv_Key x))"

definition StringKeyValue_GetValue :: "StringKeyValue option \<Rightarrow> string" where [getter_simps]:
  "StringKeyValue_GetValue m = (case m of None \<Rightarrow> '''' | Some x \<Rightarrow> case_option '''' id (kv_Value x))"

record StringIntKeyValue =
  ikv_Key :: "string option"
  ikv_Value :: "int32 option"

definition StringIntKeyValue_GetKey :: "StringIntKeyValue option \<Rightarrow> string" where [getter_simps]:
  "StringIntKeyValue_GetKey m = (case m of None \<Rightarrow> '''' | Some x \<Rightarrow> case_option '''' id (ikv_Key x))"

definition StringIntKeyValue_GetValue :: "StringIntKeyValue option \<Rightarrow> int32" where [getter_simps]:
  "StringIntKeyValue_GetValue m = (case m of None \<Rightarrow> 0 | Some x \<Rightarrow> case_option 0 id (ikv_Value x))"

record PortMapping =
  pm_Scheme :: "string option"
  pm_PrivatePort :: "int32 option"
  pm_PublicPort :: "int32 option"

definition PortMapping_GetScheme :: "PortMapping option \<Rightarrow> string" where [getter_simps]:
  "PortMapping_GetScheme m = (case m of None \<Rightarrow> '''' | Some x \<Rightarrow> case_option '''' id (pm_Scheme x))"

definition PortMapping_GetPrivatePort :: "PortMapping option \<Rightarrow> int32" where [getter_simps]:
  "PortMapping_GetPrivatePort m = (case m of None \<Rightarrow> 0 | Some x \<Rightarrow> case_option 0 id (pm_PrivatePort x))"

definition PortMapping_GetPublicPort :: "PortMapping option \<Rightarrow> int32" where [getter_simps]:
  "PortMapping_GetPublicPort m = (case m of None \<Rightarrow> 0 | Some x \<Rightarrow> case_option 0 id (pm_PublicPort x))"

record HealthCheck =
  hc_Mode :: "HealthCheckMode option"
  hc_RampUp :: "int64 option"
  hc_IntervalMillis :: "int64 option"
  hc_Timeout :: "int64 option"
  hc_Path :: "string option"
  hc_Scheme :: "string option"

definition HealthCheck_GetMode :: "HealthCheck option \<Rightarrow> HealthCheckMode" where [getter_simps]:
  "HealthCheck_GetMode m = (case m of None \<Rightarrow> HealthCheckMode_HTTP | Some x \<Rightarrow> case_option HealthCheckMode_HTTP id (hc_Mode x))"

definition HealthCheck_GetRampUp :: "HealthCheck option \<Rightarrow> int64" where [getter_simps]:
  "HealthCheck_GetRampUp m = (case m of None \<Rightarrow> 0 | Some x \<Rightarrow> case_option 0 id (hc_RampUp x))"

definition HealthCheck_GetIntervalMillis :: "HealthCheck option \<Rightarrow> int64" where [getter_simps]:
  "HealthCheck_GetIntervalMillis m = (case m of None \<Rightarrow> 0 | Some x \<Rightarrow> case_option 0 id (hc_IntervalMillis x))"

definition HealthCheck_GetTimeout :: "HealthCheck option \<Rightarrow> int64" where [getter_simps]:
  "HealthCheck_GetTimeout m = (case m of None \<Rightarrow> 0 | Some x \<Rightarrow> case_option 0 id (hc_Timeout x))"

definition HealthCheck_GetPath :: "HealthCheck option \<Rightarrow> string" where [getter_simps]:
  "HealthCheck_GetPath m = (case m of None \<Rightarrow> ''/api/api-docs'' | Some x \<Rightarrow> case_option ''/api/api-docs'' id (hc_Path x))"

definition HealthCheck_GetScheme :: "HealthCheck option \<Rightarrow> string" where [getter_simps]:
  "HealthCheck_GetScheme m = (case m of None \<Rightarrow> ''http'' | Some x \<Rightarrow> case_option ''http'' id (hc_Scheme x))"

record ApplicationSLA =
  sla_MinInstances :: "int32 option"
  sla_MaxInstances :: "int32 option"
  sla_HealthCheck :: "HealthCheck option"
  sla_UnhealthyAt :: "int32 option"

definition ApplicationSLA_GetMinInstances :: "ApplicationSLA option \<Rightarrow> int32" where [getter_simps]:
  "ApplicationSLA_GetMinInstances m = (case m of None \<Rightarrow> 1 | Some x \<Rightarrow> case_option 1 id (sla_MinInstances x))"

definition ApplicationSLA_GetMaxInstances :: "ApplicationSLA option \<Rightarrow> int32" where [getter_simps]:
  "ApplicationSLA_GetMaxInstances m = (case m of None \<Rightarrow> 1 | Some x \<Rightarrow> case_option 1 id (sla_MaxInstances x))"

definition ApplicationSLA_GetHealthCheck :: "ApplicationSLA option \<Rightarrow> HealthCheck option" where [getter_simps]:
  "ApplicationSLA_GetHealthCheck m = (case m of None \<Rightarrow> None | Some x \<Rightarrow> sla_HealthCheck x)"

definition ApplicationSLA_GetUnhealthyAt :: "ApplicationSLA option \<Rightarrow> int32" where [getter_simps]:
  "ApplicationSLA_GetUnhealthyAt m = (case m of None \<Rightarrow> 0 | Some x \<Rightarrow> case_option 0 id (sla_UnhealthyAt x))"

record Application =
  app_Id :: "string option"
  app_Name :: "string option"
  app_Cpus :: "gofloat option"
  app_Mem :: "gofloat option"
  app_DiskSpace :: "int64 option"
  app_DistUrl :: "string option"
  app_Command :: "string option"
  app_Env :: "StringKeyValue list"
  app_Ports :: "StringIntKeyValue list"
  app_Version :: "string option"
  app_AppName :: "string option"
  app_Active :: "bool option"
  app_Distribution :: "Distribution option"
  app_ComponentType :: "ComponentType option"
  app_LogDir :: "string option"
  app_WorkDir :: "string option"
  app_ConfDir :: "string option"
  app_Sla :: "ApplicationSLA option"

definition Application_GetId :: "Application option \<Rightarrow> string" where [getter_simps]:
  "Application_GetId m = (case m of None \<Rightarrow> '''' | Some x \<Rightarrow> case_option '''' id (app_Id x))"

definition Application_GetName :: "Application option \<Rightarrow> string" where [getter_simps]:
  "Application_GetName m = (case m of None \<Rightarrow> '''' | Some x \<Rightarrow> case_option '''' id (app_Name x))"

definition Application_GetCpus :: "Application option \<Rightarrow> gofloat" where [getter_simps]:
  "Application_GetCpus m = (case m of None \<Rightarrow> f_zero | Some x \<Rightarrow> case_option f_zero id (app_Cpus x))"

definition Application_GetMem :: "Application option \<Rightarrow> gofloat" where [getter_simps]:
  "Application_GetMem m = (case m of None \<Rightarrow> f_zero | Some x \<Rightarrow> case_option f_zero id (app_Mem x))"

definition Application_GetDiskSpace :: "Application option \<Rightarrow> int64" where [getter_simps]:
  "Application_GetDiskSpace m = (case m of None \<Rightarrow> 0 | Some x \<Rightarrow> case_option 0 id (app_DiskSpace x))"

definition Application_GetDistUrl :: "Application option \<Rightarrow> string" where [getter_simps]:
  "Application_GetDistUrl m = (case m of None \<Rightarrow> '''' | Some x \<Rightarrow> case_option '''' id (app_DistUrl x))"

definition Application_GetCommand :: "Application option \<Rightarrow> string" where [getter_simps]:
  "Application_GetCommand m = (case m of None \<Rightarrow> '''' | Some x \<Rightarrow> case_option '''' id (app_Command x))"

definition Application_GetEnv :: "Application option \<Rightarrow> StringKeyValue list" where [getter_simps]:
  "Application_GetEnv m = (case m of None \<Rightarrow> [] | Some x \<Rightarrow> app_Env x)"

definition Application_GetPorts :: "Application option \<Rightarrow> StringIntKeyValue list" where [getter_simps]:
  "Application_GetPorts m = (case m of None \<Rightarrow> [] | Some x \<Rightarrow> app_Ports x)"

definition Application_GetVersion :: "Application option \<Rightarrow> string" where [getter_simps]:
  "Application_GetVersion m = (case m of None \<Rightarrow> '''' | Some x \<Rightarrow> case_option '''' id (app_Version x))"

definition Application_GetAppName :: "Application option \<Rightarrow> string" where [getter_simps]:
  "Application_GetAppName m = (case m of None \<Rightarrow> '''' | Some x \<Rightarrow> case_option '''' id (app_AppName x))"

definition Application_GetActive :: "Application option \<Rightarrow> bool" where [getter_simps]:
  "Application_GetActive m = (case m of None \<Rightarrow> False | Some x \<Rightarrow> case_option False id (app_Active x))"

definition Application_GetDistribution :: "Application option \<Rightarrow> Distribution" where [getter_simps]:
  "Application_GetDistribution m = (case m of None \<Rightarrow> Distribution_DOCKER | Some x \<Rightarrow> case_option Distribution_DOCKER id (app_Distribution x))"

definition Application_GetComponentType :: "Application option \<Rightarrow> ComponentType" where [getter_simps]:
  "Application_GetComponentType m = (case m of None \<Rightarrow> ComponentType_SERVICE | Some x \<Rightarrow> case_option ComponentType_SERVICE id (app_ComponentType x))"

definition Application_GetLogDir :: "Application option \<Rightarrow> string" where [getter_simps]:
  "Application_GetLogDir m = (case m of None \<Rightarrow> '''' | Some x \<Rightarrow> case_option '''' id (app_LogDir x))"

definition Application_GetWorkDir :: "Application option \<Rightarrow> string" where [getter_simps]:
  "Application_GetWorkDir m = (case m of None \<Rightarrow> '''' | Some x \<Rightarrow> case_option '''' id (app_WorkDir x))"

definition Application_GetConfDir :: "Application option \<Rightarrow> string" where [getter_simps]:
  "Application_GetConfDir m = (case m of None \<Rightarrow> '''' | Some x \<Rightarrow> case_option '''' id (app_ConfDir x))"

definition Application_GetSla :: "Application option \<Rightarrow> ApplicationSLA option" where [getter_simps]:
  "Application_GetSla m = (case m of None \<Rightarrow> None | Some x \<Rightarrow> app_Sla x)"

record Deployment =
  dep_AppId :: "string option"
  dep_TaskId :: "TaskID option"
  dep_Status :: "AppStatus option"
  dep_DeployedAt :: "int64 option"
  dep_Slave :: "SlaveID option"
  dep_HostName :: "string option"
  dep_PortMapping :: "PortMapping list"

definition Deployment_GetAppId :: "Deployment option \<Rightarrow> string" where [getter_simps]:
  "Deployment_GetAppId m = (case m of None \<Rightarrow> '''' | Some x \<Rightarrow> case_option '''' id (dep_AppId x))"

definition Deployment_GetTaskId :: "Deployment option \<Rightarrow> TaskID option" where [getter_simps]:
  "Deployment_GetTaskId m = (case m of None \<Rightarrow> None | Some x \<Rightarrow> dep_TaskId x)"

definition Deployment_GetStatus :: "Deployment option \<Rightarrow> AppStatus" where [getter_simps]:
  "Deployment_GetStatus m = (case m of None \<Rightarrow> AppStatus_ABSENT | Some x \<Rightarrow> case_option AppStatus_ABSENT id (dep_Status x))"

definition Deployment_GetDeployedAt :: "Deployment option \<Rightarrow> int64" where [getter_simps]:
  "Deployment_GetDeployedAt m = (case m of None \<Rightarrow> 0 | Some x \<Rightarrow> case_option 0 id (dep_DeployedAt x))"

definition Deployment_GetSlave :: "Deployment option \<Rightarrow> SlaveID option" where [getter_simps]:
  "Deployment_GetSlave m = (case m of None \<Rightarrow> None | Some x \<Rightarrow> dep_Slave x)"

definition Deployment_GetHostName :: "Deployment option \<Rightarrow> string" where [getter_simps]:
  "Deployment_GetHostName m = (case m of None \<Rightarrow> '''' | Some x \<Rightarrow> case_option '''' id (dep_HostName x))"

definition Deployment_GetPortMapping :: "Deployment option \<Rightarrow> PortMapping list" where [getter_simps]:
  "Deployment_GetPortMapping m = (case m of None \<Rightarrow> [] | Some x \<Rightarrow> dep_PortMapping x)"

record ScheduledApp =
  sa_AppId :: "string option"
  sa_App :: "nat option"
  sa_Position :: "int32 option"
  sa_Since :: "int64 option"

definition ScheduledApp_GetAppId :: "ScheduledApp option \<Rightarrow> string" where [getter_simps]:
  "ScheduledApp_GetAppId m = (case m of None \<Rightarrow> '''' | Some x \<Rightarrow> case_option '''' id (sa_AppId x))"

definition ScheduledApp_GetApp :: "ScheduledApp option \<Rightarrow> nat option" where [getter_simps]:
  "ScheduledApp_GetApp m = (case m of None \<Rightarrow> None | Some x \<Rightarrow> sa_App x)"

definition ScheduledApp_GetPosition :: "ScheduledApp option \<Rightarrow> int32" where [getter_simps]:
  "ScheduledApp_GetPosition m = (case m of None \<Rightarrow> 0 | Some x \<Rightarrow> case_option 0 id (sa_Position x))"

definition ScheduledApp_GetSince :: "ScheduledApp option \<Rightarrow> int64" where [getter_simps]:
  "ScheduledApp_GetSince m = (case m of None \<Rightarrow> 0 | Some x \<Rightarrow> case_option 0 id (sa_Since x))"

section \<open>Zero values\<close>

text \<open>The Go zero value of a message: every pointer nil, every slice empty.\<close>

definition HealthCheck_zero :: HealthCheck where
  "HealthCheck_zero = \<lparr>hc_Mode = None, hc_RampUp = None, hc_IntervalMillis = None, hc_Timeout = None, hc_Path = None, hc_Scheme = None\<rparr>"

definition ApplicationSLA_zero :: ApplicationSLA where
  "ApplicationSLA_zero = \<lparr>sla_MinInstances = None, sla_MaxInstances = None, sla_HealthCheck = None, sla_UnhealthyAt = None\<rparr>"

definition Application_zero :: Application where
  "Application_zero = \<lparr>app_Id = None, app_Name = None, app_Cpus = None, app_Mem = None, app_DiskSpace = None, app_DistUrl = None, app_Command = None, app_Env = [], app_Ports = [], app_Version = None, app_AppName = None, app_Active = None, app_Distribution = None, app_ComponentType = None, app_LogDir = None, app_WorkDir = None, app_ConfDir = None, app_Sla = None\<rparr>"

definition Deployment_zero :: Deployment where
  "Deployment_zero = \<lparr>dep_AppId = None, dep_TaskId = None, dep_Status = None, dep_DeployedAt = None, dep_Slave = None, dep_HostName = None, dep_PortMapping = []\<rparr>"

definition ScheduledApp_zero :: ScheduledApp where
  "ScheduledApp_zero = \<lparr>sa_AppId = None, sa_App = None, sa_Position = None, sa_Since = None\<rparr>"

end
