(* ===== verification/GoHeap.thy ===== *)
theory GoHeap
  imports Prelude
begin

text \<open>
  Go's \<open>container/heap\<close> (Go 1.3.1, the version \<open>Godeps.json\<close> records), which both queues of
  the program are built on: \<open>heap_up\<close>, \<open>heap_down\<close>, \<open>heap_Init\<close>, \<open>heap_Push\<close>, \<open>heap_Pop\<close> and
  \<open>heap_Remove\<close> over a client's \<open>Len\<close>, \<open>Less\<close>, \<open>Swap\<close>, \<open>Push\<close> and \<open>Pop\<close>. A client method
  that indexes out of range panics, which is \<open>None\<close>, and so does the heap operation.

  The locale \<open>heap_client\<close> is the contract of \<open>heap.Interface\<close>: what the five methods
  do to the list of entries the client holds. Inside it every heap operation is shown to
  refine a sifting function on plain lists, to keep the heap order, and to insert or
  remove exactly one entry. The two queues of the program interpret it.
\<close>

section \<open>Sifting on plain lists\<close>

text \<open>The reference: the same loops over a list and a strict order.\<close>

function sift_up :: "('a \<Rightarrow> 'a \<Rightarrow> bool) \<Rightarrow> 'a list \<Rightarrow> nat \<Rightarrow> 'a list" where
  "sift_up lt xs j =
     (let i = (j - 1) div 2
      in if i = j \<or> \<not> lt (xs ! j) (xs ! i) then xs else sift_up lt (swap_at xs i j) i)"
  by pat_completeness auto
termination by (relation "measure (\<lambda>(lt, xs, j). j)") auto

definition down_child :: "('a \<Rightarrow> 'a \<Rightarrow> bool) \<Rightarrow> 'a list \<Rightarrow> nat \<Rightarrow> nat \<Rightarrow> nat" where
  "down_child lt xs i n =
     (let j1 = 2 * i + 1
      in if j1 + 1 < n \<and> \<not> lt (xs ! j1) (xs ! (j1 + 1)) then j1 + 1 else j1)"

function sift_down :: "('a \<Rightarrow> 'a \<Rightarrow> bool) \<Rightarrow> 'a list \<Rightarrow> nat \<Rightarrow> nat \<Rightarrow> 'a list" where
  "sift_down lt xs i n =
     (if n \<le> 2 * i + 1 then xs
      else let j = down_child lt xs i n
           in if \<not> lt (xs ! j) (xs ! i) then xs else sift_down lt (swap_at xs i j) j n)"
  by pat_completeness auto
termination
  by (relation "measure (\<lambda>(lt, xs, i, n). n - i)") (auto simp: down_child_def Let_def)

declare sift_up.simps [simp del] sift_down.simps [simp del]

lemma down_child_bounds:
  "2 * i + 1 < n \<Longrightarrow> i < down_child lt xs i n \<and> down_child lt xs i n < n"
  by (auto simp: down_child_def Let_def)

lemma down_child_cases: "down_child lt xs i n = 2 * i + 1 \<or> down_child lt xs i n = 2 * i + 2"
  by (auto simp: down_child_def Let_def)

lemma down_child_parent: "(down_child lt xs i n - 1) div 2 = i"
  using down_child_cases [of lt xs i n] by auto

subsection \<open>Sifting permutes\<close>

lemma mset_sift_up: "j < length xs \<Longrightarrow> mset (sift_up lt xs j) = mset xs"
proof (induction lt xs j rule: sift_up.induct)
  case (1 lt xs j)
  show ?case
  proof (cases "(j - 1) div 2 = j \<or> \<not> lt (xs ! j) (xs ! ((j - 1) div 2))")
    case True
    then show ?thesis by (subst sift_up.simps) (simp add: Let_def)
  next
    case False
    from False "1.prems" have b: "(j - 1) div 2 < length xs" by linarith
    from "1.IH" [OF refl False] b "1.prems" False show ?thesis
      by (subst sift_up.simps) (simp add: Let_def mset_swap_at)
  qed
qed

lemma length_sift_up [simp]: "j < length xs \<Longrightarrow> length (sift_up lt xs j) = length xs"
  by (metis mset_sift_up size_mset)

lemma mset_sift_down: "n \<le> length xs \<Longrightarrow> mset (sift_down lt xs i n) = mset xs"
proof (induction lt xs i n rule: sift_down.induct)
  case (1 lt xs i n)
  show ?case
  proof (cases "n \<le> 2 * i + 1 \<or> \<not> lt (xs ! down_child lt xs i n) (xs ! i)")
    case True
    then show ?thesis by (subst sift_down.simps) (auto simp: Let_def)
  next
    case False
    with down_child_bounds [of i n lt xs] "1.prems"
    have b: "i < length xs" "down_child lt xs i n < length xs" by auto
    from False b "1.IH" [OF _ refl] "1.prems" show ?thesis
      by (subst sift_down.simps) (simp add: Let_def mset_swap_at)
  qed
qed

lemma length_sift_down [simp]: "n \<le> length xs \<Longrightarrow> length (sift_down lt xs i n) = length xs"
  by (metis mset_sift_down size_mset)

lemma sift_down_nth_outside:
  "n \<le> length xs \<Longrightarrow> k < i \<or> n \<le> k \<Longrightarrow> sift_down lt xs i n ! k = xs ! k"
proof (induction lt xs i n rule: sift_down.induct)
  case (1 lt xs i n)
  show ?case
  proof (cases "n \<le> 2 * i + 1 \<or> \<not> lt (xs ! down_child lt xs i n) (xs ! i)")
    case True
    then show ?thesis by (subst sift_down.simps) (auto simp: Let_def)
  next
    case False
    with down_child_bounds [of i n lt xs]
    have b: "i < down_child lt xs i n" "down_child lt xs i n < n" by auto
    from False b "1.IH" [OF _ refl] "1.prems" show ?thesis
      by (subst sift_down.simps) (auto simp: Let_def swap_at_nth)
  qed
qed

section \<open>The heap order\<close>

definition heap_le :: "('a \<Rightarrow> 'a \<Rightarrow> bool) \<Rightarrow> 'a list \<Rightarrow> nat \<Rightarrow> bool" where
  "heap_le lt xs k \<longleftrightarrow> \<not> lt (xs ! k) (xs ! ((k - 1) div 2))"

definition is_heap :: "('a \<Rightarrow> 'a \<Rightarrow> bool) \<Rightarrow> 'a list \<Rightarrow> nat \<Rightarrow> bool" where
  "is_heap lt xs n \<longleftrightarrow> (\<forall>k < n. 0 < k \<longrightarrow> heap_le lt xs k)"

text \<open>
  \<open>down_pre lt xs m i n\<close>: among the positions below \<open>n\<close> whose parent is at least \<open>m\<close>, every
  one respects the order except \<open>i\<close> and its children, and the children of \<open>i\<close> respect \<open>i\<close>'s
  parent. \<open>up_pre\<close> is what remains to be repaired afterwards: only \<open>i\<close> may be
  smaller than its parent.
\<close>

definition down_pre :: "('a \<Rightarrow> 'a \<Rightarrow> bool) \<Rightarrow> 'a list \<Rightarrow> nat \<Rightarrow> nat \<Rightarrow> nat \<Rightarrow> bool" where
  "down_pre lt xs m i n \<longleftrightarrow>
     (\<forall>k < n. 0 < k \<longrightarrow> m \<le> (k - 1) div 2 \<longrightarrow> k \<noteq> i \<longrightarrow> (k - 1) div 2 \<noteq> i \<longrightarrow> heap_le lt xs k) \<and>
     (\<forall>k < n. 0 < k \<longrightarrow> (k - 1) div 2 = i \<longrightarrow> 0 < i \<longrightarrow> m \<le> (i - 1) div 2 \<longrightarrow>
        \<not> lt (xs ! k) (xs ! ((i - 1) div 2)))"

definition up_pre :: "('a \<Rightarrow> 'a \<Rightarrow> bool) \<Rightarrow> 'a list \<Rightarrow> nat \<Rightarrow> nat \<Rightarrow> nat \<Rightarrow> bool" where
  "up_pre lt xs m i n \<longleftrightarrow>
     (\<forall>k < n. 0 < k \<longrightarrow> m \<le> (k - 1) div 2 \<longrightarrow> k \<noteq> i \<longrightarrow> heap_le lt xs k) \<and>
     (\<forall>k < n. 0 < k \<longrightarrow> (k - 1) div 2 = i \<longrightarrow> 0 < i \<longrightarrow> m \<le> (i - 1) div 2 \<longrightarrow>
        \<not> lt (xs ! k) (xs ! ((i - 1) div 2)))"


lemma down_preD:
  assumes "down_pre lt xs m i n" and "k < n" and "0 < k"
  shows "m \<le> (k - 1) div 2 \<Longrightarrow> k \<noteq> i \<Longrightarrow> (k - 1) div 2 \<noteq> i \<Longrightarrow> heap_le lt xs k"
    and "(k - 1) div 2 = i \<Longrightarrow> 0 < i \<Longrightarrow> m \<le> (i - 1) div 2 \<Longrightarrow> \<not> lt (xs ! k) (xs ! ((i - 1) div 2))"
  using assms unfolding down_pre_def by blast+

lemma up_preD:
  assumes "up_pre lt xs m i n" and "k < n" and "0 < k"
  shows "m \<le> (k - 1) div 2 \<Longrightarrow> k \<noteq> i \<Longrightarrow> heap_le lt xs k"
    and "(k - 1) div 2 = i \<Longrightarrow> 0 < i \<Longrightarrow> m \<le> (i - 1) div 2 \<Longrightarrow> \<not> lt (xs ! k) (xs ! ((i - 1) div 2))"
  using assms unfolding up_pre_def by blast+

text \<open>The child \<open>down\<close> picks is not beaten by any child.\<close>

lemma down_child_least:
  assumes "swo_on A lt" and "set xs \<subseteq> A" and "n \<le> length xs"
    and "k < n" and "0 < k" and "(k - 1) div 2 = i"
  shows "\<not> lt (xs ! k) (xs ! down_child lt xs i n)"
proof -
  from assms(5,6) have k: "k = 2 * i + 1 \<or> k = 2 * i + 2" by auto
  from assms have A: "\<And>l. l < n \<Longrightarrow> xs ! l \<in> A" by (meson nth_mem order_less_le_trans subsetD)
  from k assms(4) A show ?thesis
    using swo_irrefl [OF assms(1)] swo_asym [OF assms(1)]
    by (auto simp: down_child_def Let_def)
qed

lemma sift_down_stop:
  assumes "swo_on A lt" and "set xs \<subseteq> A" and "n \<le> length xs" and "down_pre lt xs m i n"
    and stop: "n \<le> 2 * i + 1 \<or> \<not> lt (xs ! down_child lt xs i n) (xs ! i)"
  shows "up_pre lt xs m i n"
proof -
  have "heap_le lt xs k" if k: "k < n" "0 < k" "(k - 1) div 2 = i" for k
  proof -
    from k have child: "2 * i + 1 < n" by auto
    with stop have st: "\<not> lt (xs ! down_child lt xs i n) (xs ! i)" by auto
    from down_child_bounds [OF child, of lt xs] assms(2,3) k
    have "xs ! k \<in> A" "xs ! i \<in> A" "xs ! down_child lt xs i n \<in> A" by (auto intro!: subsetD [OF assms(2)])
    with down_child_least [OF assms(1-3) k] st k(3) show ?thesis
      unfolding heap_le_def using swo_negtrans [OF assms(1)] by blast
  qed
  with assms(4) show ?thesis unfolding up_pre_def down_pre_def by blast
qed

lemma sift_down_move:
  assumes swo: "swo_on A lt" and A: "set xs \<subseteq> A" and n: "n \<le> length xs" and "m \<le> i"
    and pre: "down_pre lt xs m i n" and child: "2 * i + 1 < n"
    and j: "j = down_child lt xs i n" and less: "lt (xs ! j) (xs ! i)"
  shows "down_pre lt (swap_at xs i j) m j n" and "heap_le lt (swap_at xs i j) j"
proof -
  from down_child_bounds [OF child, of lt xs] j have b: "i < j" "j < n" by auto
  have pj: "(j - 1) div 2 = i" using j down_child_parent by simp
  have inA: "xs ! k \<in> A" if "k < n" for k using that n A by (meson nth_mem order_less_le_trans subsetD)
  note sw = swap_at_nth [of i xs j]
  from b n have bl: "i < length xs" "j < length xs" by auto
  show "heap_le lt (swap_at xs i j) j"
    unfolding heap_le_def pj using swo_asym [OF swo _ _ less] inA b by (simp add: sw bl)
  show "down_pre lt (swap_at xs i j) m j n"
    unfolding down_pre_def
  proof (intro conjI allI impI)
    fix k assume k: "k < n" "0 < k" "m \<le> (k - 1) div 2" "k \<noteq> j" "(k - 1) div 2 \<noteq> j"
    consider "k = i" | "k \<noteq> i" "(k - 1) div 2 = i" | "k \<noteq> i" "(k - 1) div 2 \<noteq> i" by blast
    then show "heap_le lt (swap_at xs i j) k"
    proof cases
      case 1
      with k b pj have "(k - 1) div 2 < i" by linarith
      with 1 k b down_preD(2) [OF pre b(2) _ pj] show ?thesis
        by (auto simp: heap_le_def sw bl)
    next
      case 2
      from down_child_least [OF swo A n k(1,2) 2(2)] have "\<not> lt (xs ! k) (xs ! j)" unfolding j .
      then show ?thesis unfolding heap_le_def 2(2) using 2(1) k(4) b by (simp add: sw bl)
    next
      case 3
      with down_preD(1) [OF pre k(1-3)] k show ?thesis by (simp add: heap_le_def sw bl)
    qed
  next
    fix k assume k: "k < n" "0 < k" "(k - 1) div 2 = j" "0 < j" "m \<le> (j - 1) div 2"
    with b have "k \<noteq> i" "k \<noteq> j" by auto
    moreover have "heap_le lt xs k"
      by (rule down_preD(1) [OF pre k(1,2)]) (use k b pj \<open>m \<le> i\<close> in auto)
    ultimately show "\<not> lt (swap_at xs i j ! k) (swap_at xs i j ! ((j - 1) div 2))"
      using k pj by (simp add: heap_le_def sw bl)
  qed
qed

lemma sift_down_up_pre:
  "swo_on A lt \<Longrightarrow> set xs \<subseteq> A \<Longrightarrow> n \<le> length xs \<Longrightarrow> m \<le> i \<Longrightarrow> i < n \<Longrightarrow> down_pre lt xs m i n \<Longrightarrow>
     up_pre lt (sift_down lt xs i n) m i n \<and>
     (0 < i \<longrightarrow> m \<le> (i - 1) div 2 \<longrightarrow> heap_le lt xs i \<longrightarrow> heap_le lt (sift_down lt xs i n) i)"
proof (induction lt xs i n rule: sift_down.induct)
  case (1 lt xs i n)
  let ?j = "down_child lt xs i n" and ?zs = "swap_at xs i (down_child lt xs i n)"
  note swo = "1.prems"(1) and A = "1.prems"(2) and n = "1.prems"(3)
  show ?case
  proof (cases "n \<le> 2 * i + 1 \<or> \<not> lt (xs ! ?j) (xs ! i)")
    case True
    then have "sift_down lt xs i n = xs" by (subst sift_down.simps) (auto simp: Let_def)
    with sift_down_stop [OF swo A n "1.prems"(6) True] show ?thesis by simp
  next
    case False
    then have child: "2 * i + 1 < n" and less: "lt (xs ! ?j) (xs ! i)" by auto
    from down_child_bounds [OF child, of lt xs] have b: "i < ?j" "?j < n" by auto
    have pj: "(?j - 1) div 2 = i" by (rule down_child_parent)
    let ?ys = "sift_down lt ?zs ?j n"
    have ys: "sift_down lt xs i n = ?ys" using False by (subst sift_down.simps) (simp add: Let_def)
    have zl: "n \<le> length ?zs" "set ?zs \<subseteq> A" using n A b by (simp_all add: set_swap_at)
    note mv = sift_down_move [OF swo A n "1.prems"(4,6) child refl less]
    from "1.IH" [OF _ refl _ swo zl(2,1) _ b(2) mv(1)] child less b "1.prems"(4) mv(2) pj
    have IH: "up_pre lt ?ys m ?j n" "heap_le lt ?ys ?j" by auto
    have outside: "?ys ! k = ?zs ! k" if "k < ?j" for k
      using sift_down_nth_outside [OF zl(1)] that by blast
    have zs: "?zs ! k = (if k = i then xs ! ?j else if k = ?j then xs ! i else xs ! k)" for k
      by (rule swap_at_nth) (use b n in simp_all)
    have yi: "?ys ! i = xs ! ?j" by (simp add: outside [OF b(1)] zs)
    have yp: "?ys ! ((i - 1) div 2) = xs ! ((i - 1) div 2)" if "0 < i"
    proof -
      from that b have "(i - 1) div 2 < i" "(i - 1) div 2 < ?j" by linarith+
      then show ?thesis unfolding outside [OF \<open>(i - 1) div 2 < ?j\<close>] zs by simp
    qed
    have inA: "xs ! k \<in> A" "?ys ! k \<in> A" if "k < n" for k
    proof -
      have "set ?ys \<subseteq> A" using mset_eq_setD [OF mset_sift_down [OF zl(1)]] zl(2) by simp
      with that n A show "xs ! k \<in> A" "?ys ! k \<in> A"
        by (metis length_sift_down nth_mem order_less_le_trans subsetD zl(1) length_swap_at)+
    qed
    have grand: "\<not> lt (xs ! ?j) (xs ! ((i - 1) div 2))" if "0 < i" "m \<le> (i - 1) div 2"
      using down_preD(2) [OF "1.prems"(6) b(2) _ pj that] b by simp
    have all: "heap_le lt ?ys k" if k: "k < n" "0 < k" "m \<le> (k - 1) div 2" "k \<noteq> i" for k
      using up_preD(1) [OF IH(1) k(1-3)] IH(2) by blast
    have "\<not> lt (?ys ! k) (?ys ! ((i - 1) div 2))"
      if k: "k < n" "0 < k" "(k - 1) div 2 = i" "0 < i" "m \<le> (i - 1) div 2" for k
    proof -
      have "k \<noteq> i" using k by auto
      then have "\<not> lt (?ys ! k) (xs ! ?j)" using all [OF k(1,2)] k "1.prems"(4) yi by (simp add: heap_le_def)
      moreover have "(i - 1) div 2 < n" using b by linarith
      ultimately show ?thesis
        using grand [OF k(4,5)] yp [OF k(4)] inA k(1) b(2) swo_negtrans [OF swo] by metis
    qed
    with all have "up_pre lt ?ys m i n" unfolding up_pre_def by blast
    moreover have "heap_le lt ?ys i" if "0 < i" "m \<le> (i - 1) div 2"
      using grand [OF that] yi yp [OF that(1)] by (simp add: heap_le_def)
    ultimately show ?thesis unfolding ys by blast
  qed
qed


lemma sift_up_stop:
  assumes "up_pre lt xs 0 j n" and "(j - 1) div 2 = j \<or> \<not> lt (xs ! j) (xs ! ((j - 1) div 2))"
  shows "is_heap lt xs n"
proof -
  have "(j - 1) div 2 = j \<Longrightarrow> j = 0" by linarith
  with assms show ?thesis unfolding up_pre_def is_heap_def heap_le_def by blast
qed

lemma sift_up_move:
  assumes swo: "swo_on A lt" and A: "set xs \<subseteq> A" and n: "n \<le> length xs" "j < n"
    and pre: "up_pre lt xs 0 j n" and i: "i = (j - 1) div 2" "i \<noteq> j" and less: "lt (xs ! j) (xs ! i)"
  shows "up_pre lt (swap_at xs i j) 0 i n"
proof -
  from i n have b: "i < j" "i < n" "0 < j" by auto
  have inA: "xs ! k \<in> A" if "k < n" for k using that n A by (meson nth_mem order_less_le_trans subsetD)
  have sw: "swap_at xs i j ! k = (if k = i then xs ! j else if k = j then xs ! i else xs ! k)" for k
    by (rule swap_at_nth) (use b n in simp_all)
  note pre1 = up_preD(1) [OF pre, simplified] and pre2 = up_preD(2) [OF pre, simplified]
  have ij: "\<not> lt (xs ! i) (xs ! j)" using swo_asym [OF swo _ _ less] inA b n by blast
  show ?thesis
    unfolding up_pre_def
  proof (intro conjI allI impI)
    fix k assume k: "k < n" "0 < k" "0 \<le> (k - 1) div 2" "k \<noteq> i"
    consider "k = j" | "k \<noteq> j" "(k - 1) div 2 = j" | "k \<noteq> j" "(k - 1) div 2 = i"
      | "k \<noteq> j" "(k - 1) div 2 \<noteq> i" "(k - 1) div 2 \<noteq> j" by blast
    then show "heap_le lt (swap_at xs i j) k"
    proof cases
      case 1
      with ij i show ?thesis unfolding heap_le_def 1 i(1) [symmetric] sw by simp
    next
      case 2
      from up_preD(2) [OF pre k(1,2) 2(2) b(3)] i have "\<not> lt (xs ! k) (xs ! i)" by simp
      with 2 k b show ?thesis unfolding heap_le_def 2(2) sw by simp
    next
      case 3
      from up_preD(1) [OF pre k(1,2,3) 3(1)] have "\<not> lt (xs ! k) (xs ! i)" by (simp add: heap_le_def 3(2)[simplified])
      with ij less have "\<not> lt (xs ! k) (xs ! j)"
        using swo_negtrans [OF swo inA inA inA] k(1) b n by blast
      with 3 k b show ?thesis unfolding heap_le_def 3(2) sw by simp
    next
      case 4
      with up_preD(1) [OF pre k(1,2,3) 4(1)] k b show ?thesis unfolding heap_le_def sw by simp
    qed
  next
    fix k assume k: "k < n" "0 < k" "(k - 1) div 2 = i" "0 < i" "0 \<le> (i - 1) div 2"
    have pi: "(i - 1) div 2 < i" using k(4) by linarith
    have ki: "k \<noteq> i" using k(2,3) by linarith
    have "i \<noteq> j" using b by simp
    from up_preD(1) [OF pre b(2) k(4) _ this] have ip: "\<not> lt (xs ! i) (xs ! ((i - 1) div 2))"
      by (simp add: heap_le_def)
    have "\<not> lt (swap_at xs i j ! k) (xs ! i)" if "k \<noteq> j"
      using up_preD(1) [OF pre k(1,2) _ that] k that ki by (simp add: heap_le_def sw)
    with ip have "\<not> lt (swap_at xs i j ! k) (xs ! ((i - 1) div 2))"
      using swo_negtrans [OF swo inA inA inA, of k i "(i - 1) div 2"] k pi b
      by (cases "k = j") (auto simp: sw)
    with pi b show "\<not> lt (swap_at xs i j ! k) (swap_at xs i j ! ((i - 1) div 2))" unfolding sw by simp
  qed
qed

lemma sift_up_heap:
  "swo_on A lt \<Longrightarrow> set xs \<subseteq> A \<Longrightarrow> n \<le> length xs \<Longrightarrow> j < n \<Longrightarrow> up_pre lt xs 0 j n \<Longrightarrow>
     is_heap lt (sift_up lt xs j) n"
proof (induction lt xs j rule: sift_up.induct)
  case (1 lt xs j)
  let ?i = "(j - 1) div 2"
  show ?case
  proof (cases "?i = j \<or> \<not> lt (xs ! j) (xs ! ?i)")
    case True
    then have "sift_up lt xs j = xs" by (subst sift_up.simps) (simp add: Let_def)
    with sift_up_stop [OF "1.prems"(5) True] show ?thesis by simp
  next
    case False
    then have "up_pre lt (swap_at xs ?i j) 0 ?i n"
      using sift_up_move [OF "1.prems"] by blast
    moreover have "?i < n" "?i < length xs" "j < length xs" using "1.prems"(3,4) by linarith+
    ultimately have "is_heap lt (sift_up lt (swap_at xs ?i j) ?i) n"
      using "1.IH" [OF refl False] "1.prems" by (simp add: set_swap_at)
    with False show ?thesis by (subst sift_up.simps) (simp add: Let_def)
  qed
qed

text \<open>A list that is already a heap is left alone by \<open>sift_up\<close>.\<close>

lemma sift_up_id: "is_heap lt xs n \<Longrightarrow> j < n \<Longrightarrow> sift_up lt xs j = xs"
  by (subst sift_up.simps) (auto simp: Let_def is_heap_def heap_le_def)

text \<open>The first entry of a heap is a least one.\<close>

lemma is_heap_root:
  assumes swo: "swo_on A lt" and "set xs \<subseteq> A" and "n \<le> length xs" and heap: "is_heap lt xs n"
  shows "k < n \<Longrightarrow> \<not> lt (xs ! k) (xs ! 0)"
proof (induction k rule: less_induct)
  case (less k)
  have inA: "xs ! l \<in> A" if "l < n" for l using that assms(2,3) by (meson nth_mem order_less_le_trans subsetD)
  show ?case
  proof (cases "k = 0")
    case True
    with less inA swo_irrefl [OF swo] show ?thesis by blast
  next
    case False
    then have p: "(k - 1) div 2 < k" by linarith
    with less have "\<not> lt (xs ! ((k - 1) div 2)) (xs ! 0)" by simp
    moreover have "\<not> lt (xs ! k) (xs ! ((k - 1) div 2))"
      using heap less.prems False by (simp add: is_heap_def heap_le_def)
    ultimately show ?thesis
      using swo_negtrans [OF swo inA inA inA] less.prems p by (metis order_less_trans False neq0_conv)
  qed
qed


subsection \<open>Adding and removing an entry\<close>

lemma sift_up_nth_outside: "j < length xs \<Longrightarrow> j < k \<Longrightarrow> sift_up lt xs j ! k = xs ! k"
proof (induction lt xs j rule: sift_up.induct)
  case (1 lt xs j)
  let ?i = "(j - 1) div 2"
  have "?i < length xs" "?i \<le> j" using "1.prems" by linarith+
  with "1.IH" [OF refl] "1.prems" show ?case
    by (subst sift_up.simps) (auto simp: Let_def swap_at_nth)
qed

lemma append_up_pre:
  "is_heap lt xs (length xs) \<Longrightarrow> up_pre lt (xs @ [e]) 0 (length xs) (Suc (length xs))"
proof -
  assume heap: "is_heap lt xs (length xs)"
  have par: "(k - 1) div 2 < k" if "0 < k" for k :: nat using that by linarith
  have "heap_le lt (xs @ [e]) k" if "k < length xs" "0 < k" for k
    using heap that par [OF that(2)] by (simp add: is_heap_def heap_le_def nth_append)
  moreover have "(k - 1) div 2 \<noteq> length xs" if "k < Suc (length xs)" "0 < k" for k
    using par [OF that(2)] that(1) by linarith
  ultimately show ?thesis unfolding up_pre_def by (metis less_Suc_eq)
qed

lemma swap_out_down_pre:
  assumes swo: "swo_on (set xs) lt" and heap: "is_heap lt xs (length xs)" and n: "length xs = Suc n" and "i < n"
  shows "down_pre lt (swap_at xs i n) 0 i n"
proof -
  have sw: "swap_at xs i n ! k = (if k = i then xs ! n else if k = n then xs ! i else xs ! k)" for k
    by (rule swap_at_nth) (use assms in simp_all)
  have le: "\<not> lt (xs ! k) (xs ! ((k - 1) div 2))" if "k < n" "0 < k" for k
    using heap that n unfolding is_heap_def heap_le_def by simp
  show ?thesis
    unfolding down_pre_def
  proof (intro conjI allI impI)
    fix k assume k: "k < n" "0 < k" "0 \<le> (k - 1) div 2" "k \<noteq> i" "(k - 1) div 2 \<noteq> i"
    then have "(k - 1) div 2 < n" by linarith
    with le [OF k(1,2)] k show "heap_le lt (swap_at xs i n) k" unfolding heap_le_def sw by simp
  next
    fix k assume k: "k < n" "0 < k" "(k - 1) div 2 = i" "0 < i" "0 \<le> (i - 1) div 2"
    then have d: "(i - 1) div 2 < i" "k \<noteq> i" by linarith+
    have "\<not> lt (xs ! k) (xs ! i)" using le [OF k(1,2)] k(3) by simp
    moreover have "\<not> lt (xs ! i) (xs ! ((i - 1) div 2))" using le [OF \<open>i < n\<close> k(4)] .
    ultimately have "\<not> lt (xs ! k) (xs ! ((i - 1) div 2))"
      by (rule swo_negtrans [OF swo, rotated 3]) (use k d n \<open>i < n\<close> in simp_all)
    with d k \<open>i < n\<close> show "\<not> lt (swap_at xs i n ! k) (swap_at xs i n ! ((i - 1) div 2))"
      unfolding sw by simp
  qed
qed

lemma is_heap_butlast:
  "is_heap lt xs n \<Longrightarrow> length xs = Suc n \<Longrightarrow> is_heap lt (butlast xs) (length (butlast xs))"
  by (auto simp: is_heap_def heap_le_def nth_butlast)

text \<open>Removing position \<open>i\<close> the way \<open>Remove\<close> does: the entry goes, the rest is a heap again.\<close>

lemma remove_list:
  assumes n: "length xs = Suc n" and "i < n" and ys: "ys = sift_up lt (sift_down lt (swap_at xs i n) i n) i"
  shows "length ys = Suc n" and "last ys = xs ! i" and "mset ys = mset xs"
    and "swo_on (set xs) lt \<Longrightarrow> is_heap lt xs (length xs) \<Longrightarrow> is_heap lt ys n"
proof -
  let ?zs = "sift_down lt (swap_at xs i n) i n"
  have zl: "length ?zs = Suc n" using n by simp
  then show len: "length ys = Suc n" using ys \<open>i < n\<close> by simp
  have "ys ! n = ?zs ! n" using sift_up_nth_outside [of i ?zs n lt] zl \<open>i < n\<close> ys by simp
  also have "\<dots> = xs ! i"
    using sift_down_nth_outside [of n "swap_at xs i n" n i lt] n \<open>i < n\<close> by (simp add: swap_at_nth)
  finally show "last ys = xs ! i" using len by (simp add: last_conv_nth flip: length_greater_0_conv)
  have mz: "mset ?zs = mset xs" using n \<open>i < n\<close> by (simp add: mset_sift_down mset_swap_at)
  then show "mset ys = mset xs" using ys zl \<open>i < n\<close> by (simp add: mset_sift_up)
  assume swo: "swo_on (set xs) lt" and heap: "is_heap lt xs (length xs)"
  have "up_pre lt ?zs 0 i n"
    using sift_down_up_pre [OF swo _ _ _ \<open>i < n\<close> swap_out_down_pre [OF swo heap n \<open>i < n\<close>]] n \<open>i < n\<close>
    by (simp add: set_swap_at)
  then show "is_heap lt ys n"
    unfolding ys using sift_up_heap [OF swo _ _ \<open>i < n\<close>] mset_eq_setD [OF mz] zl by simp
qed

section \<open>The operations of container/heap\<close>

text \<open>
  \<open>up\<close> and \<open>down\<close> run at indices the callers have checked, so they take a \<open>nat\<close>; \<open>Pop\<close> and
  \<open>Remove\<close> compute \<open>Len() - 1\<close>, which is \<open>-1\<close> on an empty client, so they work on
  Go's \<open>int\<close>.
\<close>

function heap_up ::
  "('s \<Rightarrow> int \<Rightarrow> int \<Rightarrow> bool option) \<Rightarrow> ('s \<Rightarrow> int \<Rightarrow> int \<Rightarrow> 's option) \<Rightarrow> 's \<Rightarrow> nat \<Rightarrow> 's option" where
  "heap_up hless hswap h j =
     (let i = (j - 1) div 2
      in if i = j then Some h
         else (case hless h (int j) (int i) of
             None \<Rightarrow> None
           | Some b \<Rightarrow>
               if \<not> b then Some h
               else (case hswap h (int i) (int j) of
                   None \<Rightarrow> None
                 | Some h' \<Rightarrow> heap_up hless hswap h' i)))"
  by pat_completeness auto
termination by (relation "measure (\<lambda>(hless, hswap, h, j). j)") auto

text \<open>\<open>j2 := j1 + 1; j2 < n && !h.Less(j1, j2)\<close>: the child that moves up.\<close>

definition heap_down_child ::
  "('s \<Rightarrow> int \<Rightarrow> int \<Rightarrow> bool option) \<Rightarrow> 's \<Rightarrow> nat \<Rightarrow> nat \<Rightarrow> nat option" where
  "heap_down_child hless h j1 n =
     (if j1 + 1 < n
      then case hless h (int j1) (int (j1 + 1)) of
             None \<Rightarrow> None
           | Some b \<Rightarrow> Some (if \<not> b then j1 + 1 else j1)
      else Some j1)"

function heap_down ::
  "('s \<Rightarrow> int \<Rightarrow> int \<Rightarrow> bool option) \<Rightarrow> ('s \<Rightarrow> int \<Rightarrow> int \<Rightarrow> 's option) \<Rightarrow> 's \<Rightarrow> nat \<Rightarrow> nat \<Rightarrow> 's option" where
  "heap_down hless hswap h i n =
     (if n \<le> 2 * i + 1 then Some h
      else (case heap_down_child hless h (2 * i + 1) n of
          None \<Rightarrow> None
        | Some j \<Rightarrow>
            (case hless h (int j) (int i) of
               None \<Rightarrow> None
             | Some b \<Rightarrow>
                 if \<not> b then Some h
                 else (case hswap h (int i) (int j) of
                     None \<Rightarrow> None
                   | Some h' \<Rightarrow> heap_down hless hswap h' j n))))"
  by pat_completeness auto
termination
  by (relation "measure (\<lambda>(hless, hswap, h, i, n). n - i)")
     (auto simp: heap_down_child_def split: if_splits option.splits)

declare heap_up.simps [simp del] heap_down.simps [simp del]

text \<open>\<open>for i := n/2 - 1; i >= 0; i--\<close>, counting the remaining rounds.\<close>

fun heap_Init_loop ::
  "('s \<Rightarrow> int \<Rightarrow> int \<Rightarrow> bool option) \<Rightarrow> ('s \<Rightarrow> int \<Rightarrow> int \<Rightarrow> 's option) \<Rightarrow> 's \<Rightarrow> nat \<Rightarrow> nat \<Rightarrow> 's option" where
  "heap_Init_loop hless hswap h 0 n = Some h"
| "heap_Init_loop hless hswap h (Suc i) n =
     (case heap_down hless hswap h i n of
        None \<Rightarrow> None
      | Some h' \<Rightarrow> heap_Init_loop hless hswap h' i n)"

definition heap_Init ::
  "('s \<Rightarrow> int) \<Rightarrow> ('s \<Rightarrow> int \<Rightarrow> int \<Rightarrow> bool option) \<Rightarrow> ('s \<Rightarrow> int \<Rightarrow> int \<Rightarrow> 's option) \<Rightarrow> 's \<Rightarrow> 's option" where
  "heap_Init hlen hless hswap h = (let n = nat (hlen h) in heap_Init_loop hless hswap h (n div 2) n)"

definition heap_Push ::
  "('s \<Rightarrow> int) \<Rightarrow> ('s \<Rightarrow> int \<Rightarrow> int \<Rightarrow> bool option) \<Rightarrow> ('s \<Rightarrow> int \<Rightarrow> int \<Rightarrow> 's option) \<Rightarrow>
   ('x \<Rightarrow> 's \<Rightarrow> 's) \<Rightarrow> 'x \<Rightarrow> 's \<Rightarrow> 's option" where
  "heap_Push hlen hless hswap hpush x h =
     (let h' = hpush x h in heap_up hless hswap h' (nat (hlen h' - 1)))"

definition heap_Pop ::
  "('s \<Rightarrow> int) \<Rightarrow> ('s \<Rightarrow> int \<Rightarrow> int \<Rightarrow> bool option) \<Rightarrow> ('s \<Rightarrow> int \<Rightarrow> int \<Rightarrow> 's option) \<Rightarrow>
   ('s \<Rightarrow> ('r \<times> 's) option) \<Rightarrow> 's \<Rightarrow> ('r \<times> 's) option" where
  "heap_Pop hlen hless hswap hpop h =
     (let n = hlen h - 1
      in case hswap h 0 n of
           None \<Rightarrow> None
         | Some h' \<Rightarrow>
             (case heap_down hless hswap h' 0 (nat n) of
                None \<Rightarrow> None
              | Some h'' \<Rightarrow> hpop h''))"

definition heap_Remove ::
  "('s \<Rightarrow> int) \<Rightarrow> ('s \<Rightarrow> int \<Rightarrow> int \<Rightarrow> bool option) \<Rightarrow> ('s \<Rightarrow> int \<Rightarrow> int \<Rightarrow> 's option) \<Rightarrow>
   ('s \<Rightarrow> ('r \<times> 's) option) \<Rightarrow> 's \<Rightarrow> int \<Rightarrow> ('r \<times> 's) option" where
  "heap_Remove hlen hless hswap hpop h i =
     (let n = hlen h - 1
      in if n \<noteq> i
         then case hswap h i n of
                None \<Rightarrow> None
              | Some h1 \<Rightarrow>
                  (case heap_down hless hswap h1 (nat i) (nat n) of
                     None \<Rightarrow> None
                   | Some h2 \<Rightarrow>
                       (case heap_up hless hswap h2 (nat i) of
                          None \<Rightarrow> None
                        | Some h3 \<Rightarrow> hpop h3))
         else hpop h)"


section \<open>The contract of heap.Interface\<close>

text \<open>
  \<open>items\<close> reads the client's entries off its state, \<open>inv\<close> is what the client needs to hold
  of its state, \<open>frame\<close> is what no heap operation may touch, \<open>fresh\<close> says what may be
  pushed and \<open>entry\<close> which entry it becomes, and \<open>gives\<close> relates what \<open>Pop\<close> returns to the
  entry it removed.
\<close>

locale heap_client =
  fixes hlen :: "'s \<Rightarrow> int"
    and hless :: "'s \<Rightarrow> int \<Rightarrow> int \<Rightarrow> bool option"
    and hswap :: "'s \<Rightarrow> int \<Rightarrow> int \<Rightarrow> 's option"
    and hpush :: "'x \<Rightarrow> 's \<Rightarrow> 's"
    and hpop :: "'s \<Rightarrow> ('r \<times> 's) option"
    and items :: "'s \<Rightarrow> 'a list"
    and inv :: "'s \<Rightarrow> bool"
    and lt :: "'a \<Rightarrow> 'a \<Rightarrow> bool"
    and frame :: "'s \<Rightarrow> 'f"
    and fresh :: "'x \<Rightarrow> 's \<Rightarrow> bool"
    and entry :: "'x \<Rightarrow> 's \<Rightarrow> 'a"
    and gives :: "'r \<Rightarrow> 'a \<Rightarrow> bool"
  assumes len_items: "inv s \<Longrightarrow> hlen s = int (length (items s))"
    and less_items: "inv s \<Longrightarrow> i < length (items s) \<Longrightarrow> j < length (items s) \<Longrightarrow>
          hless s (int i) (int j) = Some (lt (items s ! i) (items s ! j))"
    and swap_items: "inv s \<Longrightarrow> i < length (items s) \<Longrightarrow> j < length (items s) \<Longrightarrow>
          \<exists>s'. hswap s (int i) (int j) = Some s' \<and> inv s' \<and>
               items s' = swap_at (items s) i j \<and> frame s' = frame s"
    and order_items: "inv s \<Longrightarrow> swo_on (set (items s)) lt"
    and push_items: "inv s \<Longrightarrow> fresh x s \<Longrightarrow>
          inv (hpush x s) \<and> items (hpush x s) = items s @ [entry x s] \<and> frame (hpush x s) = frame s"
    and pop_items: "inv s \<Longrightarrow> items s \<noteq> [] \<Longrightarrow>
          \<exists>r s'. hpop s = Some (r, s') \<and> inv s' \<and> items s' = butlast (items s) \<and>
                 gives r (last (items s)) \<and> frame s' = frame s"
begin

lemma up_refines:
  "inv s \<Longrightarrow> j < length (items s) \<Longrightarrow>
     \<exists>s'. heap_up hless hswap s j = Some s' \<and> inv s' \<and>
          items s' = sift_up lt (items s) j \<and> frame s' = frame s"
proof (induction j arbitrary: s rule: less_induct)
  case (less j)
  let ?i = "(j - 1) div 2"
  show ?case
  proof (cases "?i = j \<or> \<not> lt (items s ! j) (items s ! ?i)")
    case True
    then have "sift_up lt (items s) j = items s" by (subst sift_up.simps) (simp add: Let_def)
    moreover have "heap_up hless hswap s j = Some s"
      using True less.prems less_items [OF less.prems(1,2), of ?i]
      by (subst heap_up.simps) (auto simp: Let_def)
    ultimately show ?thesis using less.prems by simp
  next
    case False
    then have i: "?i < j" "?i < length (items s)" using less.prems(2) by linarith+
    obtain t where t: "hswap s (int ?i) (int j) = Some t" "inv t"
        "items t = swap_at (items s) ?i j" "frame t = frame s"
      using swap_items [OF less.prems(1) i(2) less.prems(2)] by blast
    from less.IH [OF i(1) t(2)] i t(3)
    obtain u where u: "heap_up hless hswap t ?i = Some u" "inv u"
        "items u = sift_up lt (items t) ?i" "frame u = frame t" by auto
    have "heap_up hless hswap s j = Some u"
      using False u(1) t(1) less_items [OF less.prems(1,2) i(2)]
      by (subst heap_up.simps) (simp add: Let_def)
    moreover have "sift_up lt (items s) j = sift_up lt (items t) ?i"
      using False t(3) by (subst sift_up.simps) (simp add: Let_def)
    ultimately show ?thesis using u t(4) by simp
  qed
qed

lemma down_child_refines:
  "inv s \<Longrightarrow> n \<le> length (items s) \<Longrightarrow> 2 * i + 1 < n \<Longrightarrow>
     heap_down_child hless s (2 * i + 1) n = Some (down_child lt (items s) i n)"
  using less_items [of s "2 * i + 1" "2 * i + 2"]
  by (auto simp: heap_down_child_def down_child_def Let_def)

lemma down_refines:
  "inv s \<Longrightarrow> n \<le> length (items s) \<Longrightarrow>
     \<exists>s'. heap_down hless hswap s i n = Some s' \<and> inv s' \<and>
          items s' = sift_down lt (items s) i n \<and> frame s' = frame s"
proof (induction "n - i" arbitrary: s i rule: less_induct)
  case (less i s)
  let ?j = "down_child lt (items s) i n"
  consider "n \<le> 2 * i + 1" | "2 * i + 1 < n" "\<not> lt (items s ! ?j) (items s ! i)"
    | "2 * i + 1 < n" "lt (items s ! ?j) (items s ! i)" by linarith
  then show ?case
  proof cases
    case 1
    then show ?thesis using less.prems
      by (subst heap_down.simps, subst sift_down.simps) simp
  next
    case 2
    with down_child_bounds [OF 2(1), of lt "items s"] less.prems
    have "i < length (items s)" "?j < length (items s)" by auto
    with 2 less.prems down_child_refines [OF less.prems 2(1)] less_items [OF less.prems(1)]
    show ?thesis by (subst heap_down.simps, subst sift_down.simps) (simp add: Let_def)
  next
    case 3
    from down_child_bounds [OF 3(1), of lt "items s"] less.prems
    have b: "i < ?j" "?j < n" "i < length (items s)" "?j < length (items s)" by auto
    obtain t where t: "hswap s (int i) (int ?j) = Some t" "inv t"
        "items t = swap_at (items s) i ?j" "frame t = frame s"
      using swap_items [OF less.prems(1) b(3,4)] by blast
    have "n - ?j < n - i" using b by linarith
    from less.hyps [OF this t(2)] t(3) less.prems(2)
    obtain u where u: "heap_down hless hswap t ?j n = Some u" "inv u"
        "items u = sift_down lt (items t) ?j n" "frame u = frame t" by auto
    have "heap_down hless hswap s i n = Some u"
      using 3 u(1) t(1) down_child_refines [OF less.prems 3(1)] less_items [OF less.prems(1) b(4,3)]
      by (subst heap_down.simps) simp
    moreover have "sift_down lt (items s) i n = sift_down lt (items t) ?j n"
      using 3 t(3) by (subst sift_down.simps) (simp add: Let_def)
    ultimately show ?thesis using u t(4) by simp
  qed
qed


text \<open>The heap order of the whole state.\<close>

definition ordered :: "'s \<Rightarrow> bool" where
  "ordered s \<longleftrightarrow> is_heap lt (items s) (length (items s))"

lemma Push_ok:
  assumes "inv s" and "fresh x s"
  shows "\<exists>s'. heap_Push hlen hless hswap hpush x s = Some s' \<and> inv s' \<and> frame s' = frame s \<and>
              mset (items s') = add_mset (entry x s) (mset (items s)) \<and> (ordered s \<longrightarrow> ordered s')"
proof -
  let ?t = "hpush x s" and ?n = "length (items s)"
  from push_items [OF assms] have t: "inv ?t" "items ?t = items s @ [entry x s]" "frame ?t = frame s" by auto
  have n: "?n < length (items ?t)" using t by simp
  from up_refines [OF t(1) n] obtain u where u: "heap_up hless hswap ?t ?n = Some u" "inv u"
      "items u = sift_up lt (items ?t) ?n" "frame u = frame ?t" by blast
  have "ordered u" if "ordered s"
    using sift_up_heap [OF order_items [OF t(1)] subset_refl, of "Suc ?n" ?n] append_up_pre [of lt "items s"]
      that u(3) t(2) by (simp add: ordered_def)
  with u t n len_items [OF t(1)] show ?thesis by (simp add: heap_Push_def mset_sift_up)
qed

text \<open>\<open>Remove\<close> at any position that exists.\<close>

lemma Remove_ok:
  assumes s: "inv s" and i: "i < length (items s)"
  shows "\<exists>r s'. heap_Remove hlen hless hswap hpop s (int i) = Some (r, s') \<and> inv s' \<and> frame s' = frame s \<and>
                gives r (items s ! i) \<and> add_mset (items s ! i) (mset (items s')) = mset (items s) \<and>
                (ordered s \<longrightarrow> ordered s')"
proof -
  obtain n where n: "length (items s) = Suc n" using i by (cases "length (items s)") auto
  show ?thesis
  proof (cases "i = n")
    case True
    have "items s \<noteq> []" using n by auto
    from pop_items [OF s this] obtain r t where t: "hpop s = Some (r, t)" "inv t"
        "items t = butlast (items s)" "gives r (last (items s))" "frame t = frame s" by blast
    have "last (items s) = items s ! i" using \<open>items s \<noteq> []\<close> n True by (simp add: last_conv_nth)
    with t mset_last_butlast [OF \<open>items s \<noteq> []\<close>] n True is_heap_butlast [OF _ n]
    have "heap_Remove hlen hless hswap hpop s (int i) = Some (r, t)" "gives r (items s ! i)"
      "add_mset (items s ! i) (mset (items t)) = mset (items s)" "ordered s \<longrightarrow> ordered t"
      by (auto simp: heap_Remove_def len_items [OF s] ordered_def is_heap_def)
    with t show ?thesis by blast
  next
    case False
    with i n have "i < n" by simp
    obtain a where a: "hswap s (int i) (int n) = Some a" "inv a" "items a = swap_at (items s) i n" "frame a = frame s"
      using swap_items [OF s i, of n] n by auto
    obtain b where b: "heap_down hless hswap a i n = Some b" "inv b" "items b = sift_down lt (items a) i n" "frame b = frame a"
      using down_refines [OF a(2), of n i] a(3) n by auto
    obtain c where c: "heap_up hless hswap b i = Some c" "inv c" "items c = sift_up lt (items b) i" "frame c = frame b"
      using up_refines [OF b(2), of i] b(3) a(3) n \<open>i < n\<close> by auto
    have ic: "items c = sift_up lt (sift_down lt (swap_at (items s) i n) i n) i" using a b c by simp
    note rl = remove_list [OF n \<open>i < n\<close> ic]
    from rl(1) have ne: "items c \<noteq> []" by auto
    from pop_items [OF c(2) ne] obtain r t where t: "hpop c = Some (r, t)" "inv t"
        "items t = butlast (items c)" "gives r (last (items c))" "frame t = frame c" by blast
    have "heap_Remove hlen hless hswap hpop s (int i) = Some (r, t)"
      using a b c t False by (simp add: heap_Remove_def len_items [OF s] n)
    moreover have "add_mset (items s ! i) (mset (items t)) = mset (items s)"
      using mset_last_butlast [OF ne] rl t(3) by simp
    moreover have "ordered t" if "ordered s"
      using rl(4) [OF order_items [OF s]] that is_heap_butlast [OF _ rl(1)] t(3) by (simp add: ordered_def)
    ultimately show ?thesis using t rl(2) a b c by auto
  qed
qed

text \<open>\<open>Pop\<close> on a non-empty client removes the first entry, and in an ordered state none is less.\<close>

lemma Pop_ok:
  assumes s: "inv s" and ne: "items s \<noteq> []"
  shows "\<exists>r s'. heap_Pop hlen hless hswap hpop s = Some (r, s') \<and> inv s' \<and> frame s' = frame s \<and>
                gives r (items s ! 0) \<and> add_mset (items s ! 0) (mset (items s')) = mset (items s) \<and>
                (ordered s \<longrightarrow> ordered s')"
proof -
  obtain n where n: "length (items s) = Suc n" using ne by (cases "length (items s)") auto
  have 0: "0 < length (items s)" using n by simp
  obtain a where a: "hswap s 0 (int n) = Some a" "inv a" "items a = swap_at (items s) 0 n" "frame a = frame s"
    using swap_items [OF s 0, of n] n by auto
  obtain b where b: "heap_down hless hswap a 0 n = Some b" "inv b" "items b = sift_down lt (items a) 0 n" "frame b = frame a"
    using down_refines [OF a(2), of n 0] a(3) n by auto
  have up: "sift_up lt xs 0 = xs" for xs :: "'a list" by (subst sift_up.simps) simp
  have ib: "items b = sift_up lt (sift_down lt (swap_at (items s) 0 n) 0 n) 0" using a b up by simp
  have rl: "length (items b) = Suc n" "last (items b) = items s ! 0" "mset (items b) = mset (items s)"
    "ordered s \<Longrightarrow> is_heap lt (items b) n"
  proof -
    show len: "length (items b) = Suc n" using a b n by simp
    show "mset (items b) = mset (items s)" using a b n by (simp add: mset_sift_down mset_swap_at)
    have "items b ! n = swap_at (items s) 0 n ! n"
      using sift_down_nth_outside [of n "swap_at (items s) 0 n" n 0 lt] a b n by simp
    then show "last (items b) = items s ! 0"
      using len n by (simp add: last_conv_nth swap_at_nth flip: length_greater_0_conv)
    assume "ordered s"
    then show "is_heap lt (items b) n"
      using remove_list(4) [OF n _ ib order_items [OF s]] by (cases "n = 0") (simp_all add: ordered_def is_heap_def)
  qed
  from rl(1) have neb: "items b \<noteq> []" by auto
  from pop_items [OF b(2) neb] obtain r t where t: "hpop b = Some (r, t)" "inv t"
      "items t = butlast (items b)" "gives r (last (items b))" "frame t = frame b" by blast
  have "heap_Pop hlen hless hswap hpop s = Some (r, t)"
    using a b t by (simp add: heap_Pop_def len_items [OF s] n)
  moreover have "add_mset (items s ! 0) (mset (items t)) = mset (items s)"
    using mset_last_butlast [OF neb] rl t(3) by simp
  moreover have "ordered t" if "ordered s"
    using rl(4) [OF that] is_heap_butlast [OF _ rl(1)] t(3) by (simp add: ordered_def)
  ultimately show ?thesis using t rl(2) a b by auto
qed

lemma ordered_root: "inv s \<Longrightarrow> ordered s \<Longrightarrow> y \<in> set (items s) \<Longrightarrow> \<not> lt y (items s ! 0)"
  using is_heap_root [OF order_items subset_refl order_refl] unfolding ordered_def
  by (metis in_set_conv_nth)

lemma Init_loop_ok:
  "inv s \<Longrightarrow> i \<le> n div 2 \<Longrightarrow> n = length (items s) \<Longrightarrow>
     (\<forall>k < n. 0 < k \<longrightarrow> i \<le> (k - 1) div 2 \<longrightarrow> heap_le lt (items s) k) \<Longrightarrow>
     \<exists>s'. heap_Init_loop hless hswap s i n = Some s' \<and> inv s' \<and> frame s' = frame s \<and>
          mset (items s') = mset (items s) \<and> ordered s'"
proof (induction i arbitrary: s)
  case 0
  then show ?case by (simp add: ordered_def is_heap_def)
next
  case (Suc i)
  obtain t where t: "heap_down hless hswap s i n = Some t" "inv t" "items t = sift_down lt (items s) i n" "frame t = frame s"
    using down_refines [OF Suc.prems(1), of n i] Suc.prems(3) by auto
  have "down_pre lt (items s) i i n" using Suc.prems(4) by (auto simp: down_pre_def)
  with sift_down_up_pre [OF order_items [OF Suc.prems(1)] subset_refl, of n i i] Suc.prems
  have up: "up_pre lt (items t) i i n" by (simp add: t(3))
  have "heap_le lt (items t) k" if k: "k < n" "0 < k" "i \<le> (k - 1) div 2" for k
  proof -
    have "k \<noteq> i" using k(2,3) by linarith
    with up_preD(1) [OF up k] show ?thesis .
  qed
  with Suc.IH [OF t(2)] Suc.prems(2,3) t(3)
  obtain u where "heap_Init_loop hless hswap t i n = Some u" "inv u" "frame u = frame t"
    "mset (items u) = mset (items t)" "ordered u" by auto
  then show ?case using t Suc.prems(3) by (simp add: mset_sift_down)
qed

lemma Init_ok:
  assumes "inv s"
  shows "\<exists>s'. heap_Init hlen hless hswap s = Some s' \<and> inv s' \<and> frame s' = frame s \<and>
              mset (items s') = mset (items s) \<and> ordered s'"
proof -
  let ?n = "length (items s)"
  have "\<forall>k < ?n. 0 < k \<longrightarrow> ?n div 2 \<le> (k - 1) div 2 \<longrightarrow> heap_le lt (items s) k" by auto
  with Init_loop_ok [OF assms order_refl refl] show ?thesis
    by (simp add: heap_Init_def Let_def len_items [OF assms])
qed

end

end
