(* ===== verification/TaskQueue.thy ===== *)
theory TaskQueue
  imports Protocol GoHeap "HOL-Library.Product_Lexorder"
begin

text \<open>
  The task queue, \<open>src/tasks/queue/task_queue.go\<close>: \<open>PrioQueue\<close>, a slice of pointers to
  scheduled apps that implements \<open>heap.Interface\<close> and keeps every item's \<open>Position\<close>, and
  \<open>taskQueue\<close> on top of it. The state is the slice of addresses and the two stores it reads:
  the scheduled apps, which the queue itself mutates (\<open>Position\<close>, \<open>Since\<close>), and the
  applications they point to, which it shares with the submitter. The mutex makes each
  operation atomic, so it leaves no trace in a sequential model. The clock is an argument.

  \<open>pq\<close> interprets the contract \<open>heap_client\<close> with the invariant \<open>queue_wf\<close> (items distinct,
  every \<open>Position\<close> right, no NaN among the compared resources); \<open>pq_init\<close> interprets it for
  \<open>heap.Init\<close>, before the positions are right.
\<close>

record queue_mem =
  slots :: "nat list"
  sas :: "nat \<Rightarrow> ScheduledApp"
  apps :: "nat \<Rightarrow> Application"

definition deref_app :: "queue_mem \<Rightarrow> nat option \<Rightarrow> Application option" where
  "deref_app q p = map_option (apps q) p"

definition in_range :: "queue_mem \<Rightarrow> int \<Rightarrow> bool" where
  "in_range q i \<longleftrightarrow> 0 \<le> i \<and> i < int (length (slots q))"

section \<open>PrioQueue\<close>

definition PrioQueue_Len :: "queue_mem \<Rightarrow> int" where
  "PrioQueue_Len q = int (length (slots q))"

definition byCPU :: "Application option \<Rightarrow> Application option \<Rightarrow> bool" where
  "byCPU l r = f_gt (Application_GetCpus l) (Application_GetCpus r)"

definition byMemorySecondary :: "Application option \<Rightarrow> Application option \<Rightarrow> bool" where
  "byMemorySecondary l r =
     (f_eq (Application_GetCpus l) (Application_GetCpus r) \<and>
      f_gt (Application_GetMem l) (Application_GetMem r))"

definition leastRecent :: "queue_mem \<Rightarrow> ScheduledApp \<Rightarrow> ScheduledApp \<Rightarrow> bool" where
  "leastRecent q left right =
     (let lcomp = deref_app q (sa_App left); rcomp = deref_app q (sa_App right)
      in f_eq (Application_GetCpus lcomp) (Application_GetCpus rcomp) \<and>
         f_eq (Application_GetMem lcomp) (Application_GetMem rcomp) \<and>
         sint (ScheduledApp_GetSince (Some left)) < sint (ScheduledApp_GetSince (Some right)))"

definition PrioQueue_Less :: "queue_mem \<Rightarrow> int \<Rightarrow> int \<Rightarrow> bool option" where
  "PrioQueue_Less q i j =
     (if in_range q i \<and> in_range q j
      then let left = sas q (slots q ! nat i); right = sas q (slots q ! nat j)
           in Some (byCPU (deref_app q (sa_App left)) (deref_app q (sa_App right)) \<or>
                    byMemorySecondary (deref_app q (sa_App left)) (deref_app q (sa_App right)) \<or>
                    leastRecent q left right)
      else None)"

definition set_Position :: "int32 \<Rightarrow> nat \<Rightarrow> queue_mem \<Rightarrow> queue_mem" where
  "set_Position p a q = q\<lparr>sas := (sas q)(a := (sas q a)\<lparr>sa_Position := Some p\<rparr>)\<rparr>"

definition set_Since :: "int64 \<Rightarrow> nat \<Rightarrow> queue_mem \<Rightarrow> queue_mem" where
  "set_Since t a q = q\<lparr>sas := (sas q)(a := (sas q a)\<lparr>sa_Since := Some t\<rparr>)\<rparr>"

definition PrioQueue_Swap :: "queue_mem \<Rightarrow> int \<Rightarrow> int \<Rightarrow> queue_mem option" where
  "PrioQueue_Swap q i j =
     (if in_range q i \<and> in_range q j
      then let s = swap_at (slots q) (nat i) (nat j)
           in Some (set_Position (of_int j) (s ! nat j)
                     (set_Position (of_int i) (s ! nat i) (q\<lparr>slots := s\<rparr>)))
      else None)"

text \<open>\<open>Push\<close> stamps the item with its position and the time it was enqueued.\<close>

definition PrioQueue_Push :: "nat \<times> int64 \<Rightarrow> queue_mem \<Rightarrow> queue_mem" where
  "PrioQueue_Push x q =
     (let (item, now) = x;
          q' = set_Since now item (set_Position (of_nat (length (slots q))) item q)
      in q'\<lparr>slots := slots q @ [item]\<rparr>)"

definition PrioQueue_Pop :: "queue_mem \<Rightarrow> (nat \<times> queue_mem) option" where
  "PrioQueue_Pop q =
     (if slots q = [] then None
      else let item = last (slots q);
               q' = set_Since (-1) item (set_Position (-1) item q)
           in Some (item, q'\<lparr>slots := butlast (slots q)\<rparr>))"

section \<open>taskQueue\<close>

definition NewTaskQueueWithPrioQueue :: "queue_mem \<Rightarrow> queue_mem option" where
  "NewTaskQueueWithPrioQueue q = heap_Init PrioQueue_Len PrioQueue_Less PrioQueue_Swap q"

definition taskQueue_Len :: "queue_mem \<Rightarrow> int" where
  "taskQueue_Len q = PrioQueue_Len q"

definition CountAppsForID :: "queue_mem \<Rightarrow> string \<Rightarrow> int32" where
  "CountAppsForID q appID =
     fold (\<lambda>item count. if ScheduledApp_GetAppId (Some (sas q item)) = appID then count + 1 else count)
       (slots q) 0"

definition CountsForApps :: "queue_mem \<Rightarrow> (string \<rightharpoonup> int32)" where
  "CountsForApps q =
     fold (\<lambda>item counts.
             let appID = ScheduledApp_GetAppId (Some (sas q item));
                 cnt = (case counts appID of None \<Rightarrow> 0 | Some c \<Rightarrow> c)
             in counts(appID \<mapsto> cnt + 1))
       (slots q) Map.empty"

definition Enqueue :: "int64 \<Rightarrow> nat \<Rightarrow> queue_mem \<Rightarrow> queue_mem option" where
  "Enqueue now item q =
     heap_Push PrioQueue_Len PrioQueue_Less PrioQueue_Swap PrioQueue_Push (item, now) q"

definition Dequeue :: "queue_mem \<Rightarrow> (nat \<times> queue_mem) option" where
  "Dequeue q = heap_Pop PrioQueue_Len PrioQueue_Less PrioQueue_Swap PrioQueue_Pop q"

text \<open>
  \<open>DequeueFirst\<close> ranges over the slice as it was on entry and stops at the first item the
  predicate accepts, which it removes by that item's recorded position.
\<close>

definition DequeueFirst ::
  "(queue_mem \<Rightarrow> nat \<Rightarrow> bool) \<Rightarrow> queue_mem \<Rightarrow> (nat option \<times> queue_mem) option" where
  "DequeueFirst shouldDequeue q =
     (case List.find (shouldDequeue q) (slots q) of
        None \<Rightarrow> Some (None, q)
      | Some item \<Rightarrow>
          (case heap_Remove PrioQueue_Len PrioQueue_Less PrioQueue_Swap PrioQueue_Pop q
                  (sint (ScheduledApp_GetPosition (Some (sas q item)))) of
             None \<Rightarrow> None
           | Some (_, q') \<Rightarrow> Some (Some item, q')))"

section \<open>The order of the queue\<close>

text \<open>An entry is an item with what \<open>Less\<close> reads of it.\<close>

type_synonym entry = "nat \<times> Application option \<times> int64"

definition queue_entry :: "queue_mem \<Rightarrow> nat \<Rightarrow> entry" where
  "queue_entry q a = (a, deref_app q (sa_App (sas q a)), ScheduledApp_GetSince (Some (sas q a)))"

definition entries :: "queue_mem \<Rightarrow> entry list" where
  "entries q = map (queue_entry q) (slots q)"

fun before :: "entry \<Rightarrow> entry \<Rightarrow> bool" where
  "before (_, l, s) (_, r, t) =
     (byCPU l r \<or> byMemorySecondary l r \<or>
      (f_eq (Application_GetCpus l) (Application_GetCpus r) \<and>
       f_eq (Application_GetMem l) (Application_GetMem r) \<and> sint s < sint t))"

definition sortable :: "Application option \<Rightarrow> bool" where
  "sortable a \<longleftrightarrow> Application_GetCpus a \<noteq> NaN \<and> Application_GetMem a \<noteq> NaN"

fun sort_key :: "entry \<Rightarrow> int \<times> rat \<times> int \<times> rat \<times> int" where
  "sort_key (_, a, s) =
     (- f_rank (Application_GetCpus a), - f_val (Application_GetCpus a),
      - f_rank (Application_GetMem a), - f_val (Application_GetMem a), sint s)"

lemma before_key:
  "sortable (fst (snd x)) \<Longrightarrow> sortable (fst (snd y)) \<Longrightarrow> before x y \<longleftrightarrow> sort_key x < sort_key y"
  by (cases x; cases y)
     (auto simp: sortable_def byCPU_def byMemorySecondary_def f_gt_def f_lt_rank f_eq_rank)

lemma before_swo: "\<forall>x \<in> A. sortable (fst (snd x)) \<Longrightarrow> swo_on A before"
  using swo_on_less [of A sort_key] swo_on_cong [of A before "\<lambda>x y. sort_key x < sort_key y"] before_key
  by simp


section \<open>The invariant and the contract of heap.Interface\<close>

text \<open>
  \<open>queue_core\<close> is what the comparisons need, \<open>queue_wf\<close> adds that the items are distinct and
  every item's \<open>Position\<close> is its index. Positions are \<open>int32\<close>, hence the bound.
\<close>

definition queue_core :: "queue_mem \<Rightarrow> bool" where
  "queue_core q \<longleftrightarrow> length (slots q) < 2 ^ 31 \<and> (\<forall>a \<in> set (slots q). sortable (deref_app q (sa_App (sas q a))))"

definition positions_ok :: "queue_mem \<Rightarrow> bool" where
  "positions_ok q \<longleftrightarrow> (\<forall>i < length (slots q). sa_Position (sas q (slots q ! i)) = Some (of_nat i))"

definition queue_wf :: "queue_mem \<Rightarrow> bool" where
  "queue_wf q \<longleftrightarrow> queue_core q \<and> distinct (slots q) \<and> positions_ok q"

text \<open>The heap order of the queue, and what no queue operation changes.\<close>

definition queue_ordered :: "queue_mem \<Rightarrow> bool" where
  "queue_ordered q \<longleftrightarrow> is_heap before (entries q) (length (entries q))"

definition queue_frame :: "queue_mem \<Rightarrow> (nat \<Rightarrow> Application) \<times> (nat \<Rightarrow> string option \<times> nat option)" where
  "queue_frame q = (apps q, \<lambda>a. (sa_AppId (sas q a), sa_App (sas q a)))"

definition can_push :: "nat \<times> int64 \<Rightarrow> queue_mem \<Rightarrow> bool" where
  "can_push x q \<longleftrightarrow> fst x \<notin> set (slots q) \<and> Suc (length (slots q)) < 2 ^ 31 \<and>
     sortable (deref_app q (sa_App (sas q (fst x))))"

definition pushed_entry :: "nat \<times> int64 \<Rightarrow> queue_mem \<Rightarrow> entry" where
  "pushed_entry x q = (fst x, deref_app q (sa_App (sas q (fst x))), snd x)"

lemma set_Position_fields [simp]:
  "slots (set_Position p a q) = slots q" "apps (set_Position p a q) = apps q"
  "sas (set_Position p a q) = (sas q)(a := (sas q a)\<lparr>sa_Position := Some p\<rparr>)"
  "queue_entry (set_Position p a q) = queue_entry q"
  by (auto simp: set_Position_def queue_entry_def deref_app_def ScheduledApp_GetSince_def)

lemma set_Since_fields [simp]:
  "slots (set_Since t a q) = slots q" "apps (set_Since t a q) = apps q"
  "sas (set_Since t a q) = (sas q)(a := (sas q a)\<lparr>sa_Since := Some t\<rparr>)"
  "b \<noteq> a \<Longrightarrow> queue_entry (set_Since t a q) b = queue_entry q b"
  by (simp_all add: set_Since_def queue_entry_def deref_app_def ScheduledApp_GetSince_def)

lemma queue_entry_slots [simp]: "queue_entry (q\<lparr>slots := s\<rparr>) = queue_entry q"
  by (auto simp: queue_entry_def deref_app_def)

lemma queue_frame_eqD:
  "queue_frame q' = queue_frame q \<Longrightarrow>
     apps q' = apps q \<and> sa_App (sas q' a) = sa_App (sas q a) \<and> sa_AppId (sas q' a) = sa_AppId (sas q a)"
  by (drule arg_cong [where f = "\<lambda>f. (fst f, snd f a)"]) (simp add: queue_frame_def)

lemma deref_frame:
  "queue_frame q' = queue_frame q \<Longrightarrow> deref_app q' (sa_App (sas q' a)) = deref_app q (sa_App (sas q a))"
  using queue_frame_eqD [of q' q a] by (simp add: deref_app_def)

lemma length_entries [simp]: "length (entries q) = length (slots q)"
  by (simp add: entries_def)

lemma queue_core_swo: "queue_core q \<Longrightarrow> swo_on (set (entries q)) before"
  by (rule before_swo) (auto simp: queue_core_def entries_def queue_entry_def)

lemma PrioQueue_Less_entries:
  "i < length (slots q) \<Longrightarrow> j < length (slots q) \<Longrightarrow>
     PrioQueue_Less q (int i) (int j) = Some (before (entries q ! i) (entries q ! j))"
  by (simp add: PrioQueue_Less_def in_range_def entries_def queue_entry_def leastRecent_def Let_def)

text \<open>What \<open>Swap\<close> does at two indices that exist.\<close>

lemma PrioQueue_Swap_Some:
  assumes "i < length (slots q)" and "j < length (slots q)"
  obtains q' where "PrioQueue_Swap q (int i) (int j) = Some q'"
    and "slots q' = swap_at (slots q) i j" and "entries q' = swap_at (entries q) i j"
    and "queue_frame q' = queue_frame q"
    and "\<And>a. sa_Position (sas q' a) =
           (if a = slots q ! i then Some (of_nat j) else if a = slots q ! j then Some (of_nat i)
            else sa_Position (sas q a))"
proof -
  let ?s = "swap_at (slots q) i j"
  let ?q' = "set_Position (of_nat j) (?s ! j) (set_Position (of_nat i) (?s ! i) (q\<lparr>slots := ?s\<rparr>))"
  have s: "?s ! j = slots q ! i" "?s ! i = slots q ! j" using assms by (simp_all add: swap_at_nth)
  show thesis
  proof (rule that [of ?q'])
    show "PrioQueue_Swap q (int i) (int j) = Some ?q'"
      using assms by (simp add: PrioQueue_Swap_def in_range_def Let_def)
    show "entries ?q' = swap_at (entries q) i j"
      using assms by (simp add: entries_def map_swap_at)
    show "queue_frame ?q' = queue_frame q" by (auto simp: queue_frame_def)
    show "\<And>a. sa_Position (sas ?q' a) =
           (if a = slots q ! i then Some (of_nat j) else if a = slots q ! j then Some (of_nat i)
            else sa_Position (sas q a))" unfolding s by simp
  qed simp
qed

lemma queue_core_frame:
  "queue_core q \<Longrightarrow> queue_frame q' = queue_frame q \<Longrightarrow> set (slots q') \<subseteq> set (slots q) \<Longrightarrow>
     length (slots q') \<le> length (slots q) \<Longrightarrow> queue_core q'"
  using deref_frame [of q' q] by (auto simp: queue_core_def)

lemma PrioQueue_Swap_wf:
  assumes "queue_wf q" and ij: "i < length (slots q)" "j < length (slots q)"
    and q': "slots q' = swap_at (slots q) i j" "queue_frame q' = queue_frame q"
      "\<And>a. sa_Position (sas q' a) =
         (if a = slots q ! i then Some (of_nat j) else if a = slots q ! j then Some (of_nat i)
          else sa_Position (sas q a))"
  shows "queue_wf q'"
proof -
  from assms(1) have d: "distinct (slots q)" and p: "positions_ok q" and c: "queue_core q"
    by (auto simp: queue_wf_def)
  have "queue_core q'" by (rule queue_core_frame [OF c q'(2)]) (simp_all add: q'(1) set_swap_at ij)
  moreover have "positions_ok q'"
    unfolding positions_ok_def
  proof (intro allI impI)
    fix k assume "k < length (slots q')"
    then have "k < length (slots q)" using q'(1) by simp
    with p d ij show "sa_Position (sas q' (slots q' ! k)) = Some (of_nat k)"
      unfolding q'(1,3) by (auto simp: swap_at_nth nth_eq_iff_index_eq positions_ok_def)
  qed
  ultimately show ?thesis using d q'(1) ij by (simp add: queue_wf_def distinct_swap_at)
qed

lemma PrioQueue_Push_facts:
  assumes "fst x \<notin> set (slots q)"
  shows "slots (PrioQueue_Push x q) = slots q @ [fst x]"
    and "entries (PrioQueue_Push x q) = entries q @ [pushed_entry x q]"
    and "queue_frame (PrioQueue_Push x q) = queue_frame q"
    and "sa_Position (sas (PrioQueue_Push x q) a) =
           (if a = fst x then Some (of_nat (length (slots q))) else sa_Position (sas q a))"
  using assms
  by (auto simp: PrioQueue_Push_def entries_def queue_entry_def deref_app_def pushed_entry_def
      ScheduledApp_GetSince_def queue_frame_def split: prod.splits)

lemma PrioQueue_Pop_Some:
  assumes "slots q \<noteq> []"
  obtains q' where "PrioQueue_Pop q = Some (last (slots q), q')" and "slots q' = butlast (slots q)"
    and "queue_frame q' = queue_frame q"
    and "\<And>a. a \<noteq> last (slots q) \<Longrightarrow> sas q' a = sas q a"
    and "sa_Position (sas q' (last (slots q))) = Some (-1)"
    and "distinct (slots q) \<Longrightarrow> entries q' = butlast (entries q)"
proof -
  let ?a = "last (slots q)"
  let ?q' = "(set_Since (-1) ?a (set_Position (-1) ?a q))\<lparr>slots := butlast (slots q)\<rparr>"
  show thesis
  proof (rule that [of ?q'])
    show "PrioQueue_Pop q = Some (?a, ?q')" using assms by (simp add: PrioQueue_Pop_def Let_def)
    show "queue_frame ?q' = queue_frame q" by (auto simp: queue_frame_def)
    assume "distinct (slots q)"
    then have "?a \<notin> set (butlast (slots q))"
      using assms by (metis append_butlast_last_id distinct_append disjoint_iff list.set_intros(1))
    then have "queue_entry ?q' b = queue_entry q b" if "b \<in> set (butlast (slots q))" for b
      using that by (cases "b = ?a") auto
    then show "entries ?q' = butlast (entries q)" by (simp add: entries_def flip: map_butlast)
  qed simp_all
qed


interpretation pq: heap_client PrioQueue_Len PrioQueue_Less PrioQueue_Swap PrioQueue_Push PrioQueue_Pop
  entries queue_wf before queue_frame can_push pushed_entry "\<lambda>r e. r = fst e"
proof (unfold_locales, goal_cases)
  case (1 q)
  show ?case by (simp add: PrioQueue_Len_def)
next
  case (2 q i j)
  then show ?case by (simp add: PrioQueue_Less_entries)
next
  case (3 q i j)
  then have "i < length (slots q)" "j < length (slots q)" by simp_all
  then show ?case using PrioQueue_Swap_Some [of i q j] PrioQueue_Swap_wf [OF 3(1)] by metis
next
  case (4 q)
  then show ?case by (simp add: queue_wf_def queue_core_swo)
next
  case (5 q x)
  let ?q' = "PrioQueue_Push x q"
  from 5 have x: "fst x \<notin> set (slots q)" by (simp add: can_push_def)
  note f = PrioQueue_Push_facts [OF x]
  have "queue_core ?q'"
    using 5 deref_frame [OF f(3)] by (auto simp: queue_wf_def queue_core_def can_push_def f(1))
  moreover have "positions_ok ?q'"
    using 5 x unfolding positions_ok_def queue_wf_def f(1) f(4)
    by (auto simp: nth_append less_Suc_eq) (metis nth_mem)
  ultimately show ?case using 5 x f by (simp add: queue_wf_def)
next
  case (6 q)
  then have ne: "slots q \<noteq> []" by (metis length_0_conv length_entries)
  from 6 have d: "distinct (slots q)" and p: "positions_ok q" by (simp_all add: queue_wf_def)
  obtain q' where q': "PrioQueue_Pop q = Some (last (slots q), q')" "slots q' = butlast (slots q)"
    "queue_frame q' = queue_frame q" "\<And>a. a \<noteq> last (slots q) \<Longrightarrow> sas q' a = sas q a"
    "entries q' = butlast (entries q)"
    using PrioQueue_Pop_Some [OF ne] d by metis
  have "queue_core q'"
    by (rule queue_core_frame [OF _ q'(3)]) (use 6 q'(2) in \<open>auto simp: queue_wf_def dest: in_set_butlastD\<close>)
  moreover have "positions_ok q'"
    unfolding positions_ok_def q'(2)
  proof (intro allI impI)
    fix i assume i: "i < length (butlast (slots q))"
    then have "slots q ! i \<noteq> last (slots q)" using d ne by (auto simp: last_conv_nth nth_eq_iff_index_eq)
    with i q'(4) p show "sa_Position (sas q' (butlast (slots q) ! i)) = Some (of_nat i)"
      by (simp add: nth_butlast positions_ok_def)
  qed
  ultimately have "queue_wf q'" using d q'(2) by (simp add: queue_wf_def distinct_butlast)
  moreover have "fst (last (entries q)) = last (slots q)"
    using ne by (simp add: entries_def last_map queue_entry_def)
  ultimately show ?case using q' by auto
qed

lemma pq_ordered: "pq.ordered = queue_ordered"
  by (rule ext) (simp add: pq.ordered_def queue_ordered_def)


text \<open>The same contract without the positions, for \<open>heap.Init\<close> on a preloaded slice.\<close>

interpretation pq_init: heap_client PrioQueue_Len PrioQueue_Less PrioQueue_Swap
  PrioQueue_Push PrioQueue_Pop entries "\<lambda>q. queue_core q \<and> distinct (slots q)" before queue_frame can_push pushed_entry "\<lambda>r e. r = fst e"
proof (unfold_locales, goal_cases)
  case (1 q)
  show ?case by (simp add: PrioQueue_Len_def)
next
  case (2 q i j)
  then show ?case by (simp add: PrioQueue_Less_entries)
next
  case (3 q i j)
  then have ij: "i < length (slots q)" "j < length (slots q)" by simp_all
  obtain q' where q': "PrioQueue_Swap q (int i) (int j) = Some q'" "slots q' = swap_at (slots q) i j"
    "entries q' = swap_at (entries q) i j" "queue_frame q' = queue_frame q"
    using PrioQueue_Swap_Some [OF ij] by metis
  have "queue_core q'" by (rule queue_core_frame [OF _ q'(4)]) (use 3 q'(2) ij in \<open>simp_all add: set_swap_at\<close>)
  with 3 q' ij show ?case by (auto simp: distinct_swap_at)
next
  case (4 q)
  then show ?case by (simp add: queue_core_swo)
next
  case (5 q x)
  from 5 have x: "fst x \<notin> set (slots q)" by (simp add: can_push_def)
  note f = PrioQueue_Push_facts [OF x]
  have "queue_core (PrioQueue_Push x q)"
    using 5 deref_frame [OF f(3)] by (auto simp: queue_core_def can_push_def f(1))
  with 5 x f show ?case by simp
next
  case (6 q)
  then have ne: "slots q \<noteq> []" by (metis length_0_conv length_entries)
  obtain q' where q': "PrioQueue_Pop q = Some (last (slots q), q')" "slots q' = butlast (slots q)"
    "queue_frame q' = queue_frame q" "entries q' = butlast (entries q)"
    using PrioQueue_Pop_Some [OF ne] 6 by metis
  have "queue_core q'"
    by (rule queue_core_frame [OF _ q'(3)]) (use 6 q'(2) in \<open>auto dest: in_set_butlastD\<close>)
  moreover have "fst (last (entries q)) = last (slots q)"
    using ne by (simp add: entries_def last_map queue_entry_def)
  ultimately show ?case using q' 6 by (auto simp: distinct_butlast)
qed


section \<open>What the operations do\<close>

lemma mset_entries_slots: "mset (slots q) = image_mset fst (mset (entries q))"
  by (simp add: entries_def queue_entry_def comp_def flip: mset_map)

lemma entries_nth: "i < length (slots q) \<Longrightarrow> entries q ! i = queue_entry q (slots q ! i)"
  by (simp add: entries_def)

lemma fst_queue_entry [simp]: "fst (queue_entry q a) = a"
  by (simp add: queue_entry_def)

lemma entries_root: "slots q \<noteq> [] \<Longrightarrow> entries q ! 0 = queue_entry q (hd (slots q))"
  by (simp add: entries_nth hd_conv_nth)

lemma queue_entry_in: "e \<in> set (entries q) \<Longrightarrow> e = queue_entry q (fst e)"
  by (auto simp: entries_def)

text \<open>The recorded position of a queued item is its index.\<close>

lemma position_index:
  assumes "queue_wf q" and "i < length (slots q)"
  shows "sint (ScheduledApp_GetPosition (Some (sas q (slots q ! i)))) = int i"
  using assms by (simp add: queue_wf_def positions_ok_def ScheduledApp_GetPosition_def queue_core_def count_simps)

lemma Enqueue_ok:
  assumes "queue_wf q" and "can_push (item, now) q"
  shows "\<exists>q'. Enqueue now item q = Some q' \<and> queue_wf q' \<and> queue_frame q' = queue_frame q \<and>
              mset (entries q') = add_mset (pushed_entry (item, now) q) (mset (entries q)) \<and>
              (queue_ordered q \<longrightarrow> queue_ordered q')"
  using pq.Push_ok [OF assms] by (simp add: Enqueue_def pq_ordered)

lemma Dequeue_ok:
  assumes "queue_wf q" and ne: "slots q \<noteq> []"
  shows "\<exists>q'. Dequeue q = Some (hd (slots q), q') \<and> queue_wf q' \<and> queue_frame q' = queue_frame q \<and>
              add_mset (queue_entry q (hd (slots q))) (mset (entries q')) = mset (entries q) \<and>
              (queue_ordered q \<longrightarrow> queue_ordered q')"
proof -
  have "entries q \<noteq> []" using ne by (simp add: entries_def)
  from pq.Pop_ok [OF assms(1) this] show ?thesis by (simp add: Dequeue_def pq_ordered entries_root ne)
qed

lemma Dequeue_least:
  assumes "queue_wf q" and "queue_ordered q" and "e \<in> set (entries q)"
  shows "\<not> before e (queue_entry q (hd (slots q)))"
proof -
  have "slots q \<noteq> []" using assms(3) by (auto simp: entries_def)
  then show ?thesis
    using pq.ordered_root [of q e] assms by (simp add: pq_ordered entries_root)
qed

lemma DequeueFirst_ok:
  assumes wf: "queue_wf q" and find: "List.find (P q) (slots q) = Some item"
  shows "\<exists>q'. DequeueFirst P q = Some (Some item, q') \<and> queue_wf q' \<and> queue_frame q' = queue_frame q \<and>
              add_mset (queue_entry q item) (mset (entries q')) = mset (entries q) \<and>
              (queue_ordered q \<longrightarrow> queue_ordered q')"
proof -
  from find obtain i where i: "i < length (slots q)" "slots q ! i = item"
    by (auto simp: find_Some_iff)
  from pq.Remove_ok [OF wf, of i] i position_index [OF wf i(1)] find
  show ?thesis by (auto simp: DequeueFirst_def pq_ordered entries_nth)
qed

lemma fold_count_int32:
  "fold (\<lambda>x c. if P x then c + 1 else c) xs (c :: int32) = c + of_nat (length (filter P xs))"
  by (induction xs arbitrary: c) (auto simp: add.commute add.left_commute)

lemma CountAppsForID_eq:
  "CountAppsForID q appID =
     of_nat (length (filter (\<lambda>a. ScheduledApp_GetAppId (Some (sas q a)) = appID) (slots q)))"
  by (simp add: CountAppsForID_def fold_count_int32)

lemma fold_tally:
  "fold (\<lambda>x m. let k = f x; c = (case m k of None \<Rightarrow> 0 | Some c \<Rightarrow> c) in m(k \<mapsto> c + (1::int32))) xs m k =
     (if filter (\<lambda>x. f x = k) xs = [] then m k
      else Some ((case m k of None \<Rightarrow> 0 | Some c \<Rightarrow> c) + of_nat (length (filter (\<lambda>x. f x = k) xs))))"
  by (induction xs arbitrary: m) (auto simp: Let_def add.commute add.left_commute split: option.splits)

text \<open>A drained queue: so many \<open>Dequeue\<close> calls in a row, with what they return.\<close>

fun drain :: "nat \<Rightarrow> queue_mem \<Rightarrow> (nat list \<times> queue_mem) option" where
  "drain 0 q = Some ([], q)"
| "drain (Suc n) q =
     (case Dequeue q of
        None \<Rightarrow> None
      | Some (item, q') \<Rightarrow> map_option (\<lambda>(items, q''). (item # items, q'')) (drain n q'))"

lemma entries_subset_agree:
  "mset (entries q') \<subseteq># mset (entries q) \<Longrightarrow> a \<in> set (slots q') \<Longrightarrow> queue_entry q' a = queue_entry q a"
proof -
  assume sub: "mset (entries q') \<subseteq># mset (entries q)" and a: "a \<in> set (slots q')"
  from a have "queue_entry q' a \<in> set (entries q')" by (simp add: entries_def)
  with sub have "queue_entry q' a \<in> set (entries q)" by (metis mset_subset_eqD set_mset_mset)
  from queue_entry_in [OF this] show ?thesis by simp
qed

lemma drain_ok:
  "queue_wf q \<Longrightarrow> queue_ordered q \<Longrightarrow> n = length (slots q) \<Longrightarrow>
     \<exists>items q'. drain n q = Some (items, q') \<and> slots q' = [] \<and> mset items = mset (slots q) \<and>
       sorted_wrt (\<lambda>a b. \<not> before (queue_entry q b) (queue_entry q a)) items"
proof (induction n arbitrary: q)
  case 0
  then show ?case by simp
next
  case (Suc n)
  then have ne: "slots q \<noteq> []" by auto
  let ?i = "hd (slots q)"
  obtain q' where q': "Dequeue q = Some (?i, q')" "queue_wf q'" "queue_ordered q'"
    "add_mset (queue_entry q ?i) (mset (entries q')) = mset (entries q)"
    using Dequeue_ok [OF Suc.prems(1) ne] Suc.prems(2) by blast
  have ms: "mset (slots q) = add_mset ?i (mset (slots q'))"
    unfolding mset_entries_slots q'(4) [symmetric] by simp
  then have len: "n = length (slots q')" using Suc.prems(3) by (metis size_add_mset size_mset nat.inject)
  have agree: "queue_entry q' a = queue_entry q a" if "a \<in> set (slots q')" for a
    using entries_subset_agree [OF _ that] q'(4) by (metis mset_subset_eq_add_right add_mset_add_single union_commute)
  obtain items q'' where d: "drain n q' = Some (items, q'')" "slots q'' = []" "mset items = mset (slots q')"
    and srt: "sorted_wrt (\<lambda>a b. \<not> before (queue_entry q' b) (queue_entry q' a)) items"
    using Suc.IH [OF q'(2,3) len] by blast
  have set: "set items = set (slots q')" using d(3) mset_eq_setD by blast
  have "sorted_wrt (\<lambda>a b. \<not> before (queue_entry q b) (queue_entry q a)) items"
    by (rule sorted_wrt_mono_rel [OF _ srt]) (simp add: agree set)
  moreover have "\<not> before (queue_entry q b) (queue_entry q ?i)" if "b \<in> set items" for b
    using Dequeue_least [OF Suc.prems(1,2)] that set ms
    by (metis insert_iff set_mset_add_mset_insert set_mset_mset image_eqI entries_def list.set_map)
  ultimately show ?case using q'(1) d ms by simp
qed

section \<open>Sample queues\<close>

text \<open>A queue of items with the given CPU, memory and enqueueing time, in slice order.\<close>

definition sample_app :: "rat \<times> rat \<Rightarrow> Application" where
  "sample_app r = Application_zero\<lparr>app_Cpus := Some (Fin (fst r)), app_Mem := Some (Fin (snd r))\<rparr>"

definition sample_queue :: "(rat \<times> rat) list \<Rightarrow> queue_mem" where
  "sample_queue rs =
     \<lparr>slots = [0..<length rs],
      sas = (\<lambda>a. \<lparr>sa_AppId = Some ''app'', sa_App = Some a, sa_Position = Some (of_nat a), sa_Since = Some (of_nat a)\<rparr>),
      apps = (\<lambda>a. if a < length rs then sample_app (rs ! a) else Application_zero)\<rparr>"

lemma sortable_sample: "sortable (Some (sample_app r))" "sortable (Some Application_zero)"
  by (simp_all add: sortable_def sample_app_def Application_zero_def getter_simps f_zero_def)

lemma sample_queue_wf: "length rs < 2 ^ 31 \<Longrightarrow> queue_wf (sample_queue rs)"
  by (auto simp: queue_wf_def queue_core_def positions_ok_def sample_queue_def deref_app_def sortable_sample)

lemma sample_queue_before:
  "i < length rs \<Longrightarrow> j < length rs \<Longrightarrow>
     before (queue_entry (sample_queue rs) i) (queue_entry (sample_queue rs) j) \<longleftrightarrow>
       fst (rs ! j) < fst (rs ! i) \<or>
       (fst (rs ! j) = fst (rs ! i) \<and> snd (rs ! j) < snd (rs ! i)) \<or>
       (rs ! j = rs ! i \<and> sint (of_nat i :: int64) < sint (of_nat j :: int64))"
  by (auto simp: queue_entry_def sample_queue_def deref_app_def sample_app_def Application_zero_def
      byCPU_def byMemorySecondary_def getter_simps f_gt_def prod_eq_iff)

text \<open>A queue of two items, the bigger one first, for the witnesses.\<close>

definition two_items :: queue_mem where
  "two_items = sample_queue [(2, 1), (1, 1)]"

lemma two_items_slots: "slots two_items = [0, 1]"
  by (simp add: two_items_def sample_queue_def upt_rec)

lemma two_items_wf: "queue_wf two_items"
  unfolding two_items_def by (rule sample_queue_wf) simp

lemma two_items_ordered: "queue_ordered two_items"
proof -
  have "heap_le before (entries two_items) k" if "k < 2" "0 < k" for k
  proof -
    from that have "k = 1" by simp
    then show ?thesis using two_items_slots sample_queue_before [of 1 "[(2, 1), (1, 1)]" 0]
      by (simp add: heap_le_def entries_nth) (simp add: two_items_def)
  qed
  then show ?thesis by (simp add: queue_ordered_def is_heap_def two_items_slots)
qed

lemma two_items_can_push: "can_push (5, now) two_items"
proof -
  have "deref_app two_items (sa_App (sas two_items 5)) = Some Application_zero"
    by (simp add: two_items_def sample_queue_def deref_app_def)
  then show ?thesis by (simp add: can_push_def two_items_slots sortable_sample)
qed

section \<open>Properties\<close>

text \<open>C28. \<open>Enqueue\<close> of an item that is not queued yet always succeeds: the queue gains
  exactly that item, stamped with its app and the time of the call, keeps the heap order that
  \<open>Less\<close> defines, and every queued item's \<open>Position\<close> is still its index.\<close>

theorem Enqueue_adds_in_order:
  assumes "queue_wf q" and "queue_ordered q" and "can_push (item, now) q"
  shows "\<exists>q'. Enqueue now item q = Some q' \<and> queue_wf q' \<and> queue_ordered q' \<and> apps q' = apps q \<and>
              mset (entries q') = add_mset (item, deref_app q (sa_App (sas q item)), now) (mset (entries q))"
proof -
  obtain q' where "Enqueue now item q = Some q'" "queue_wf q'" "queue_frame q' = queue_frame q"
    "mset (entries q') = add_mset (pushed_entry (item, now) q) (mset (entries q))" "queue_ordered q'"
    using Enqueue_ok [OF assms(1,3)] assms(2) by blast
  moreover from this queue_frame_eqD have "apps q' = apps q" by blast
  ultimately show ?thesis by (simp add: pushed_entry_def)
qed

theorem Enqueue_adds_in_order_witness:
  "\<exists>q'. Enqueue 7 5 two_items = Some q' \<and> queue_wf q' \<and> queue_ordered q' \<and> length (slots q') = 3"
proof -
  obtain q' where q': "Enqueue 7 5 two_items = Some q'" "queue_wf q'" "queue_ordered q'"
    "mset (entries q') = add_mset (5, deref_app two_items (sa_App (sas two_items 5)), 7) (mset (entries two_items))"
    using Enqueue_adds_in_order [OF two_items_wf two_items_ordered two_items_can_push] by blast
  from arg_cong [OF q'(4), of size] have "length (slots q') = 3" by (simp add: two_items_slots)
  with q' show ?thesis by blast
qed

text \<open>\<open>Dequeue\<close> on a non-empty queue returns an item that no other queued item comes
  before (most CPU, then most memory, then the longest waiting) and removes exactly that one,
  leaving an ordered queue with correct positions.\<close>

theorem Dequeue_takes_a_first_item:
  assumes "queue_wf q" and "queue_ordered q" and "slots q \<noteq> []"
  shows "\<exists>item q'. Dequeue q = Some (item, q') \<and> item \<in> set (slots q) \<and>
            (\<forall>other \<in> set (slots q). \<not> before (queue_entry q other) (queue_entry q item)) \<and>
            queue_wf q' \<and> queue_ordered q' \<and>
            mset (slots q) = add_mset item (mset (slots q'))"
proof -
  let ?i = "hd (slots q)"
  obtain q' where q': "Dequeue q = Some (?i, q')" "queue_wf q'" "queue_ordered q'"
    "add_mset (queue_entry q ?i) (mset (entries q')) = mset (entries q)"
    using Dequeue_ok [OF assms(1,3)] assms(2) by blast
  have "mset (slots q) = add_mset ?i (mset (slots q'))"
    unfolding mset_entries_slots q'(4) [symmetric] by simp
  moreover have "\<forall>other \<in> set (slots q). \<not> before (queue_entry q other) (queue_entry q ?i)"
    using Dequeue_least [OF assms(1,2)] by (simp add: entries_def)
  ultimately show ?thesis using q' assms(3) by auto
qed

theorem Dequeue_takes_a_first_item_witness:
  "\<exists>q'. Dequeue two_items = Some (0, q') \<and> slots q' = [1]"
proof -
  have "slots two_items \<noteq> []" by (simp add: two_items_slots)
  from Dequeue_takes_a_first_item [OF two_items_wf two_items_ordered this]
  obtain item q' where q': "Dequeue two_items = Some (item, q')" "item \<in> {0, 1}"
    "\<forall>other \<in> {0, 1}. \<not> before (queue_entry two_items other) (queue_entry two_items item)"
    "mset [0, 1] = add_mset item (mset (slots q'))"
    by (auto simp: two_items_slots)
  have "before (queue_entry two_items 0) (queue_entry two_items 1)"
    by (simp add: two_items_def sample_queue_before)
  with q'(2,3) have item: "item = 0" by auto
  with q'(4) have "mset (slots q') = {#1#}" by simp
  with q'(1) item show ?thesis by simp
qed

text \<open>\<open>DequeueFirst\<close> returns the first item, in slice order, that the predicate accepts;
  \<open>heap.Remove\<close> at that item's recorded position removes that item and no other. When nothing
  matches, the queue is unchanged.\<close>

theorem DequeueFirst_removes_what_it_returns:
  assumes "queue_wf q" and "queue_ordered q"
  shows "\<exists>found q'. DequeueFirst P q = Some (found, q') \<and> found = List.find (P q) (slots q) \<and>
            queue_wf q' \<and> queue_ordered q' \<and>
            mset (slots q) = mset (slots q') + mset (case found of None \<Rightarrow> [] | Some item \<Rightarrow> [item])"
proof (cases "List.find (P q) (slots q)")
  case None
  then show ?thesis using assms by (simp add: DequeueFirst_def)
next
  case (Some item)
  then obtain q' where q': "DequeueFirst P q = Some (Some item, q')" "queue_wf q'" "queue_ordered q'"
    "add_mset (queue_entry q item) (mset (entries q')) = mset (entries q)"
    using DequeueFirst_ok [OF assms(1)] assms(2) by blast
  have "mset (slots q) = add_mset item (mset (slots q'))"
    unfolding mset_entries_slots q'(4) [symmetric] by simp
  with q' Some show ?thesis by simp
qed

theorem DequeueFirst_removes_what_it_returns_witness:
  "\<exists>q'. DequeueFirst (\<lambda>_ a. a = 1) two_items = Some (Some 1, q') \<and> slots q' = [0]"
proof -
  obtain q' where "DequeueFirst (\<lambda>_ a. a = 1) two_items = Some (Some 1, q')"
    "mset (slots two_items) = mset (slots q') + mset [1]"
    using DequeueFirst_removes_what_it_returns [OF two_items_wf two_items_ordered, of "\<lambda>_ a. a = 1"]
    by (auto simp: two_items_slots)
  then show ?thesis by (simp add: two_items_slots)
qed

text \<open>\<open>CountsForApps\<close> tallies the queue in one pass, and agrees with \<open>CountAppsForID\<close> for every
  app: an app is in the map exactly when it is queued, with the number of its queued items.\<close>

theorem CountsForApps_agrees:
  "CountsForApps q appID =
     (if \<exists>a \<in> set (slots q). ScheduledApp_GetAppId (Some (sas q a)) = appID
      then Some (CountAppsForID q appID) else None)"
  unfolding CountsForApps_def fold_tally CountAppsForID_eq by (auto simp: filter_empty_conv)



text \<open>Draining the queue terminates with every queued item returned exactly once, in priority
  order: no item comes out after one it goes before.\<close>

theorem drain_sorted:
  assumes "queue_wf q" and "queue_ordered q"
  shows "\<exists>items q'. drain (length (slots q)) q = Some (items, q') \<and> slots q' = [] \<and>
           mset items = mset (slots q) \<and>
           sorted_wrt (\<lambda>a b. \<not> before (queue_entry q b) (queue_entry q a)) items"
  using drain_ok [OF assms refl] .

theorem drain_sorted_witness: "\<exists>items q'. drain 2 two_items = Some (items, q') \<and> mset items = {#0, 1#}"
  using drain_sorted [OF two_items_wf two_items_ordered] by (auto simp: two_items_slots numeral_2_eq_2)

text \<open>Creating the queue over a preloaded slice heapifies it in place: whatever order the
  items were in, the result satisfies the heap order and holds the same items. Their recorded
  positions are not part of the result: \<open>heap.Init\<close> only touches those it exchanges.\<close>

theorem NewTaskQueueWithPrioQueue_heapifies:
  assumes "queue_core q" and "distinct (slots q)"
  shows "\<exists>q'. NewTaskQueueWithPrioQueue q = Some q' \<and> queue_ordered q' \<and>
              mset (entries q') = mset (entries q) \<and> apps q' = apps q"
proof -
  have ord: "pq_init.ordered = queue_ordered" by (rule ext) (simp add: pq_init.ordered_def queue_ordered_def)
  obtain q' where "NewTaskQueueWithPrioQueue q = Some q'" "queue_ordered q'"
    "mset (entries q') = mset (entries q)" "queue_frame q' = queue_frame q"
    using pq_init.Init_ok [of q] assms unfolding ord NewTaskQueueWithPrioQueue_def by blast
  with queue_frame_eqD show ?thesis by blast
qed

theorem NewTaskQueueWithPrioQueue_heapifies_witness:
  "\<exists>q'. NewTaskQueueWithPrioQueue (sample_queue [(1, 1), (2, 1)]) = Some q' \<and> queue_ordered q'"
proof -
  have "queue_wf (sample_queue [(1, 1), (2, 1)])" by (rule sample_queue_wf) simp
  then show ?thesis using NewTaskQueueWithPrioQueue_heapifies [of "sample_queue [(1, 1), (2, 1)]"]
    by (auto simp: queue_wf_def)
qed

text \<open>\<open>DequeueFirst\<close> looks at the items in slice order, which is not priority order: there is a
  well-formed, ordered queue where it returns an accepted item although a bigger accepted
  item is queued.\<close>

theorem DequeueFirst_not_by_priority:
  "\<exists>q P found other q'. queue_wf q \<and> queue_ordered q \<and>
     DequeueFirst P q = Some (Some found, q') \<and>
     other \<in> set (slots q) \<and> P q other \<and> before (queue_entry q other) (queue_entry q found)"
proof -
  let ?rs = "[(10, 1), (1, 1), (9, 1)] :: (rat \<times> rat) list"
  let ?q = "sample_queue ?rs" and ?P = "\<lambda>(q::queue_mem) a. a \<noteq> (0::nat)"
  have wf: "queue_wf ?q" by (rule sample_queue_wf) simp
  have sl: "slots ?q = [0, 1, 2]" by (simp add: sample_queue_def upt_rec)
  have "heap_le before (entries ?q) k" if "k < 3" "0 < k" for k
  proof -
    from that have "k = 1 \<or> k = 2" by auto
    then show ?thesis using sl sample_queue_before [of _ ?rs 0]
      by (auto simp: heap_le_def entries_nth)
  qed
  then have ord: "queue_ordered ?q" using sl by (auto simp: queue_ordered_def is_heap_def)
  have "List.find (?P ?q) (slots ?q) = Some 1" by (simp add: sl)
  then obtain q' where "DequeueFirst ?P ?q = Some (Some 1, q')" using DequeueFirst_ok [OF wf, of ?P 1] by auto
  moreover have "before (queue_entry ?q 2) (queue_entry ?q 1)" by (simp add: sample_queue_before)
  ultimately show ?thesis
    using wf ord sl by (intro exI [of _ ?q] exI [of _ ?P] exI [of _ 1] exI [of _ 2] exI [of _ q']) simp
qed

end
