(* ===== verification/Store.thy ===== *)
theory Store
  imports Prelude "HOL-Library.AList"
begin

text \<open>
  The key-value stores, \<open>src/store/store.go\<close> and \<open>src/store/in_memory_store.go\<close>. \<open>KVStore\<close>
  is the Go interface: a record with one field per method, over a state of any type. A method
  that changes the store returns its error, if any, and the new state. A method that takes a callback
  returns the sequence of entries it calls it on, so that a caller's closure is a function of
  that sequence. \<open>InMemoryStore\<close> is the implementation over a Go map.

  The locale \<open>kv_store\<close> is the contract the typed stores rely on: a store behaves like a finite map
  from keys to byte slices. \<open>mem\<close> interprets it on \<open>InMemoryStore\<close>, for every order in
  which Go may iterate over the map.
\<close>

section \<open>The interface\<close>

record KVData =
  kvd_Key :: string
  kvd_Value :: slice

record 's KVStore =
  kv_Get :: "string \<Rightarrow> 's \<Rightarrow> slice result"
  kv_Set :: "string \<Rightarrow> slice \<Rightarrow> 's \<Rightarrow> goerr option \<times> 's"
  kv_Delete :: "string \<Rightarrow> 's \<Rightarrow> goerr option \<times> 's"
  kv_Size :: "'s \<Rightarrow> nat result"
  kv_Keys :: "'s \<Rightarrow> string list result"
  kv_ForEachKey :: "'s \<Rightarrow> string list \<times> goerr option"
  kv_ForEachValue :: "'s \<Rightarrow> slice list \<times> goerr option"
  kv_ForEach :: "'s \<Rightarrow> KVData list \<times> goerr option"
  kv_Find :: "(KVData \<Rightarrow> bool) \<Rightarrow> 's \<Rightarrow> KVData list \<times> KVData option result"
  kv_Contains :: "string \<Rightarrow> 's \<Rightarrow> bool result"
  kv_Start :: "'s \<Rightarrow> goerr option \<times> 's"
  kv_Stop :: "'s \<Rightarrow> goerr option \<times> 's"

section \<open>InMemoryStore\<close>

record InMemoryStore =
  ims_data :: "(string \<times> slice) list"

type_synonym range_order = "(string \<times> slice) list \<Rightarrow> (string \<times> slice) list"

definition NewInMemoryStore :: "(string \<times> slice) list \<Rightarrow> InMemoryStore" where
  "NewInMemoryStore initialData = \<lparr>ims_data = initialData\<rparr>"

definition NewEmptyInMemoryStore :: InMemoryStore where
  "NewEmptyInMemoryStore = \<lparr>ims_data = []\<rparr>"

text \<open>Reading a key a Go map does not have gives the zero value, here the nil slice.\<close>

definition ims_index :: "InMemoryStore \<Rightarrow> string \<Rightarrow> slice" where
  "ims_index i key = (case map_of (ims_data i) key of None \<Rightarrow> None | Some v \<Rightarrow> v)"

definition InMemoryStore_Get :: "string \<Rightarrow> InMemoryStore \<Rightarrow> slice result" where
  "InMemoryStore_Get key i = Inr (ims_index i key)"

definition InMemoryStore_Set :: "string \<Rightarrow> slice \<Rightarrow> InMemoryStore \<Rightarrow> goerr option \<times> InMemoryStore" where
  "InMemoryStore_Set key v i = (None, i\<lparr>ims_data := AList.update key v (ims_data i)\<rparr>)"

definition InMemoryStore_Delete :: "string \<Rightarrow> InMemoryStore \<Rightarrow> goerr option \<times> InMemoryStore" where
  "InMemoryStore_Delete key i = (None, i\<lparr>ims_data := AList.delete key (ims_data i)\<rparr>)"

definition InMemoryStore_Size :: "InMemoryStore \<Rightarrow> nat result" where
  "InMemoryStore_Size i = Inr (length (ims_data i))"

text \<open>The iteration order of \<open>range i.data\<close> is the oracle \<open>it\<close>.\<close>

definition ims_range :: "range_order \<Rightarrow> InMemoryStore \<Rightarrow> KVData list" where
  "ims_range it i = map (\<lambda>(k, v). \<lparr>kvd_Key = k, kvd_Value = v\<rparr>) (go_range it (ims_data i))"

definition InMemoryStore_Keys :: "range_order \<Rightarrow> InMemoryStore \<Rightarrow> string list result" where
  "InMemoryStore_Keys it i =
     Inr (fold (\<lambda>kv keys. if kvd_Key kv \<noteq> [] then keys @ [kvd_Key kv] else keys) (ims_range it i) [])"

definition InMemoryStore_ForEachKey :: "range_order \<Rightarrow> InMemoryStore \<Rightarrow> string list \<times> goerr option" where
  "InMemoryStore_ForEachKey it i = (map kvd_Key (ims_range it i), None)"

definition InMemoryStore_ForEachValue :: "range_order \<Rightarrow> InMemoryStore \<Rightarrow> slice list \<times> goerr option" where
  "InMemoryStore_ForEachValue it i = (map kvd_Value (ims_range it i), None)"

definition InMemoryStore_ForEach :: "range_order \<Rightarrow> InMemoryStore \<Rightarrow> KVData list \<times> goerr option" where
  "InMemoryStore_ForEach it i = (ims_range it i, None)"

text \<open>
  A search with a callback, \<open>for x := range xs { if p(x) { return x } }\<close>: what the callback was
  called on, in order, and the element that was found.
\<close>

fun find_trace :: "('a \<Rightarrow> bool) \<Rightarrow> 'a list \<Rightarrow> 'a list \<times> 'a option" where
  "find_trace p [] = ([], None)"
| "find_trace p (x # xs) =
     (if p x then ([x], Some x) else (let (tested, r) = find_trace p xs in (x # tested, r)))"

definition InMemoryStore_Find ::
  "range_order \<Rightarrow> (KVData \<Rightarrow> bool) \<Rightarrow> InMemoryStore \<Rightarrow> KVData list \<times> KVData option result" where
  "InMemoryStore_Find it p i =
     (let (tested, r) = find_trace p (ims_range it i) in (tested, Inr r))"

definition InMemoryStore_Contains :: "string \<Rightarrow> InMemoryStore \<Rightarrow> bool result" where
  "InMemoryStore_Contains key i = Inr (0 < slice_len (ims_index i key))"

definition InMemoryStore_Start :: "InMemoryStore \<Rightarrow> goerr option \<times> InMemoryStore" where
  "InMemoryStore_Start i = (None, i)"

definition InMemoryStore_Stop :: "InMemoryStore \<Rightarrow> goerr option \<times> InMemoryStore" where
  "InMemoryStore_Stop i = (None, i)"

definition InMemoryStore_kv :: "range_order \<Rightarrow> InMemoryStore KVStore" where
  [iface_simps]: "InMemoryStore_kv it =
     \<lparr>kv_Get = InMemoryStore_Get, kv_Set = InMemoryStore_Set, kv_Delete = InMemoryStore_Delete,
      kv_Size = InMemoryStore_Size, kv_Keys = InMemoryStore_Keys it,
      kv_ForEachKey = InMemoryStore_ForEachKey it, kv_ForEachValue = InMemoryStore_ForEachValue it,
      kv_ForEach = InMemoryStore_ForEach it, kv_Find = InMemoryStore_Find it,
      kv_Contains = InMemoryStore_Contains, kv_Start = InMemoryStore_Start, kv_Stop = InMemoryStore_Stop\<rparr>"

section \<open>Searching\<close>

lemma find_trace_find: "snd (find_trace p xs) = List.find p xs"
  by (induction xs) (auto split: prod.splits)

lemma find_trace_set: "set (fst (find_trace p xs)) \<subseteq> set xs"
  by (induction xs) (auto split: prod.splits)

text \<open>What a closure that records what it accepted holds afterwards: the element found.\<close>

lemma fold_find_trace:
  "fold (\<lambda>x acc. if p x then g x else acc) (fst (find_trace p xs)) acc =
     (case List.find p xs of None \<Rightarrow> acc | Some x \<Rightarrow> g x)"
  by (induction xs arbitrary: acc) (auto split: prod.splits)

section \<open>The contract\<close>

text \<open>
  \<open>inv\<close> is the implementation's invariant and \<open>abs\<close> the finite map a state stands for. A missing
  key is reported either as \<open>ErrNotFound\<close> or, as \<open>InMemoryStore\<close> does, as a nil slice. The
  iteration methods visit every entry once, in some order.
\<close>

definition entries_of :: "(string \<rightharpoonup> slice) \<Rightarrow> KVData list \<Rightarrow> bool" where
  "entries_of m kvs \<longleftrightarrow>
     distinct (map kvd_Key kvs) \<and> (\<forall>k v. m k = Some v \<longleftrightarrow> \<lparr>kvd_Key = k, kvd_Value = v\<rparr> \<in> set kvs)"

locale kv_store =
  fixes kv :: "'s KVStore"
    and inv :: "'s \<Rightarrow> bool"
    and abs :: "'s \<Rightarrow> (string \<rightharpoonup> slice)"
  assumes Get_present: "inv s \<Longrightarrow> abs s k = Some v \<Longrightarrow> kv_Get kv k s = Inr v"
    and Get_missing: "inv s \<Longrightarrow> abs s k = None \<Longrightarrow> kv_Get kv k s \<in> {Inr None, Inl ErrNotFound}"
    and Set_ok: "inv s \<Longrightarrow>
          \<exists>s'. kv_Set kv k v s = (None, s') \<and> inv s' \<and> abs s' = (abs s)(k \<mapsto> v)"
    and Delete_ok: "inv s \<Longrightarrow>
          \<exists>s'. kv_Delete kv k s = (None, s') \<and> inv s' \<and> abs s' = (abs s)(k := None)"
    and ForEach_ok: "inv s \<Longrightarrow> \<exists>kvs. kv_ForEach kv s = (kvs, None) \<and> entries_of (abs s) kvs"
    and Find_ok: "inv s \<Longrightarrow>
          \<exists>kvs. entries_of (abs s) kvs \<and> kv_Find kv p s = (fst (find_trace p kvs), Inr (List.find p kvs))"
    and Size_ok: "inv s \<Longrightarrow> kv_Size kv s = Inr (card (dom (abs s)))"
    and Contains_ok: "inv s \<Longrightarrow> abs s k = Some (Some b) \<Longrightarrow> b \<noteq> [] \<Longrightarrow> kv_Contains kv k s = Inr True"
    and Contains_missing: "inv s \<Longrightarrow> abs s k = None \<Longrightarrow> kv_Contains kv k s = Inr False"
begin

lemma Get_after_Set: "inv s \<Longrightarrow> kv_Get kv k (snd (kv_Set kv k v s)) = Inr v"
  using Set_ok [of s k v] Get_present [of _ k v] by fastforce

lemma Get_Set_other:
  "inv s \<Longrightarrow> j \<noteq> k \<Longrightarrow> abs s j = Some w \<Longrightarrow> kv_Get kv j (snd (kv_Set kv k v s)) = Inr w"
  using Set_ok [of s k v] Get_present [of _ j w] by fastforce

end

section \<open>The in-memory store keeps the contract\<close>

definition ims_wf :: "InMemoryStore \<Rightarrow> bool" where
  "ims_wf i \<longleftrightarrow> distinct (map fst (ims_data i))"

definition ims_abs :: "InMemoryStore \<Rightarrow> (string \<rightharpoonup> slice)" where
  "ims_abs i = map_of (ims_data i)"

lemma ims_range_entries: "ims_wf i \<Longrightarrow> entries_of (ims_abs i) (ims_range it i)"
proof -
  assume wf: "ims_wf i"
  have keys: "map kvd_Key (ims_range it i) = map fst (go_range it (ims_data i))"
    by (simp add: ims_range_def case_prod_unfold)
  have "\<lparr>kvd_Key = k, kvd_Value = v\<rparr> \<in> set (ims_range it i) \<longleftrightarrow> (k, v) \<in> set (ims_data i)" for k v
    by (force simp: ims_range_def image_iff)
  with wf show ?thesis by (simp add: entries_of_def keys ims_wf_def ims_abs_def)
qed

lemma ims_size: "ims_wf i \<Longrightarrow> length (ims_data i) = card (dom (ims_abs i))"
  by (metis ims_wf_def ims_abs_def distinct_card dom_map_of_conv_image_fst length_map set_map)

interpretation mem: kv_store "InMemoryStore_kv it" ims_wf ims_abs for it
proof (unfold_locales, goal_cases)
  case (5 s)
  then show ?case by (simp add: iface_simps InMemoryStore_ForEach_def ims_range_entries)
next
  case (6 s p)
  have "snd (find_trace p (ims_range it s)) = List.find p (ims_range it s)" by (rule find_trace_find)
  with 6 show ?case
    by (intro exI [of _ "ims_range it s"])
       (auto simp: iface_simps InMemoryStore_Find_def ims_range_entries split: prod.split)
next
  case (7 s)
  then show ?case by (simp add: iface_simps InMemoryStore_Size_def ims_size)
qed (auto simp: iface_simps InMemoryStore_Get_def InMemoryStore_Set_def InMemoryStore_Delete_def
  InMemoryStore_Contains_def ims_index_def ims_wf_def ims_abs_def slice_len_def
  update_conv' delete_conv' distinct_update distinct_delete)

section \<open>Counting entries\<close>

lemma KVData_eta [simp]: "\<lparr>kvd_Key = kvd_Key x, kvd_Value = kvd_Value x\<rparr> = x"
  by (cases x) simp

lemma entries_of_in: "entries_of m kvs \<Longrightarrow> x \<in> set kvs \<longleftrightarrow> m (kvd_Key x) = Some (kvd_Value x)"
  by (cases x) (simp add: entries_of_def)

lemma entries_of_filter_card:
  assumes "entries_of m kvs"
  shows "length (filter P kvs) = card {k. \<exists>v. m k = Some v \<and> P \<lparr>kvd_Key = k, kvd_Value = v\<rparr>}"
proof -
  from assms have d: "distinct (map kvd_Key kvs)" by (simp add: entries_of_def)
  have "kvd_Key ` set (filter P kvs) = {k. \<exists>v. m k = Some v \<and> P \<lparr>kvd_Key = k, kvd_Value = v\<rparr>}"
  proof (intro equalityI subsetI)
    fix k assume "k \<in> kvd_Key ` set (filter P kvs)"
    then obtain kv where kv: "kv \<in> set kvs" "P kv" "k = kvd_Key kv" by auto
    then show "k \<in> {k. \<exists>v. m k = Some v \<and> P \<lparr>kvd_Key = k, kvd_Value = v\<rparr>}"
      using entries_of_in [OF assms, of kv] by auto
  next
    fix k assume "k \<in> {k. \<exists>v. m k = Some v \<and> P \<lparr>kvd_Key = k, kvd_Value = v\<rparr>}"
    with assms show "k \<in> kvd_Key ` set (filter P kvs)"
      unfolding entries_of_def by (force simp: image_iff)
  qed
  moreover have "distinct (map kvd_Key (filter P kvs))" using d by (rule distinct_map_filter)
  ultimately show ?thesis by (metis distinct_card length_map list.set_map)
qed

end
