(* ===== verification/TaskStore.thy ===== *)
theory TaskStore
  imports Protocol Store
begin

text \<open>
  The task store, \<open>src/store/tasks/task_store.go\<close>: deployments over a \<open>KVStore\<close>, keyed by
  task id. The wire codec is the protobuf library's: its \<open>Marshal\<close> and \<open>Unmarshal\<close> are the
  arguments \<open>enc\<close> and \<open>dec\<close>, and what the store relies on is \<open>codec_ok\<close>, that what was
  marshalled unmarshals to the same message. A callback's argument is an \<open>option\<close>: \<open>ForEach\<close>
  hands it a nil deployment for an entry that does not decode.

  The lemmas are proved in the locale \<open>kv_store\<close>, for every backing store that keeps its contract,
  and the properties state them for the in-memory store the program uses.
\<close>

type_synonym 'd marshal = "'d \<Rightarrow> slice result"
type_synonym 'd unmarshal = "slice \<Rightarrow> 'd result"

definition codec_ok :: "'d marshal \<Rightarrow> 'd unmarshal \<Rightarrow> bool" where
  "codec_ok enc dec \<longleftrightarrow> (\<forall>d b. enc d = Inr b \<longrightarrow> dec b = Inr d)"

record 's DefaultTaskStore =
  dts_store :: 's
  dts_runningAppsCount :: int32

definition TaskStore_New :: "InMemoryStore DefaultTaskStore result" where
  "TaskStore_New = Inr \<lparr>dts_store = NewEmptyInMemoryStore, dts_runningAppsCount = 0\<rparr>"

definition TaskStore_NewWithStore :: "'s \<Rightarrow> 's DefaultTaskStore" where
  "TaskStore_NewWithStore s = \<lparr>dts_store = s, dts_runningAppsCount = 0\<rparr>"

definition DefaultTaskStore_Start ::
  "'s KVStore \<Rightarrow> 's DefaultTaskStore \<Rightarrow> goerr option \<times> 's DefaultTaskStore" where
  "DefaultTaskStore_Start kv t =
     (let (err, s) = kv_Start kv (dts_store t) in (err, t\<lparr>dts_store := s\<rparr>))"

definition DefaultTaskStore_Stop ::
  "'s KVStore \<Rightarrow> 's DefaultTaskStore \<Rightarrow> goerr option \<times> 's DefaultTaskStore" where
  "DefaultTaskStore_Stop kv t =
     (let (err, s) = kv_Stop kv (dts_store t) in (err, t\<lparr>dts_store := s\<rparr>))"

definition task_readBytes :: "Deployment unmarshal \<Rightarrow> slice \<Rightarrow> Deployment result" where
  "task_readBytes dec data = (case dec data of Inl err \<Rightarrow> Inl err | Inr deploy \<Rightarrow> Inr deploy)"

definition task_writeBytes :: "Deployment marshal \<Rightarrow> Deployment \<Rightarrow> slice result" where
  "task_writeBytes enc target = enc target"

definition DefaultTaskStore_Get ::
  "'s KVStore \<Rightarrow> Deployment unmarshal \<Rightarrow> string \<Rightarrow> 's DefaultTaskStore \<Rightarrow> Deployment option result" where
  "DefaultTaskStore_Get kv dec key t =
     (case kv_Get kv key (dts_store t) of
        Inl err \<Rightarrow> if err = ErrNotFound then Inr None else Inl err
      | Inr data \<Rightarrow> map_sum id Some (task_readBytes dec data))"

definition DefaultTaskStore_Save ::
  "'s KVStore \<Rightarrow> Deployment marshal \<Rightarrow> Deployment \<Rightarrow> 's DefaultTaskStore \<Rightarrow>
     goerr option \<times> 's DefaultTaskStore" where
  "DefaultTaskStore_Save kv enc value t =
     (case task_writeBytes enc value of
        Inl err \<Rightarrow> (Some err, t)
      | Inr ser \<Rightarrow>
          let key = TaskID_GetValue (dep_TaskId value);
              (err, s) = kv_Set kv key ser (dts_store t)
          in (err, t\<lparr>dts_store := s\<rparr>))"

definition DefaultTaskStore_Delete ::
  "'s KVStore \<Rightarrow> string \<Rightarrow> 's DefaultTaskStore \<Rightarrow> goerr option \<times> 's DefaultTaskStore" where
  "DefaultTaskStore_Delete kv key t =
     (let (err, s) = kv_Delete kv key (dts_store t) in (err, t\<lparr>dts_store := s\<rparr>))"

definition DefaultTaskStore_Size :: "'s KVStore \<Rightarrow> 's DefaultTaskStore \<Rightarrow> nat result" where
  "DefaultTaskStore_Size kv t = kv_Size kv (dts_store t)"

definition DefaultTaskStore_Keys :: "'s KVStore \<Rightarrow> 's DefaultTaskStore \<Rightarrow> string list result" where
  "DefaultTaskStore_Keys kv t = kv_Keys kv (dts_store t)"

text \<open>What \<open>ForEach\<close> passes to its callback for one entry of the store.\<close>

definition task_item :: "Deployment unmarshal \<Rightarrow> KVData \<Rightarrow> Deployment option" where
  "task_item dec item =
     (case task_readBytes dec (kvd_Value item) of Inl _ \<Rightarrow> None | Inr deploy \<Rightarrow> Some deploy)"

definition DefaultTaskStore_ForEach ::
  "'s KVStore \<Rightarrow> Deployment unmarshal \<Rightarrow> 's DefaultTaskStore \<Rightarrow> Deployment option list \<times> goerr option" where
  "DefaultTaskStore_ForEach kv dec t =
     (let (items, err) = kv_ForEach kv (dts_store t) in (map (task_item dec) items, err))"

definition DefaultTaskStore_Filter ::
  "'s KVStore \<Rightarrow> Deployment unmarshal \<Rightarrow> (Deployment option \<Rightarrow> bool) \<Rightarrow> 's DefaultTaskStore \<Rightarrow>
     Deployment option list result" where
  "DefaultTaskStore_Filter kv dec predicate t =
     (let (items, err) = DefaultTaskStore_ForEach kv dec t;
          res = fold (\<lambda>item res. if predicate item then res @ [item] else res) items []
      in case err of Some e \<Rightarrow> Inl e | None \<Rightarrow> Inr res)"

text \<open>The field access \<open>item.TaskId\<close> panics on a nil item that the predicate accepted.\<close>

definition DefaultTaskStore_FilterToTaskIds ::
  "'s KVStore \<Rightarrow> Deployment unmarshal \<Rightarrow> (Deployment option \<Rightarrow> bool) \<Rightarrow> 's DefaultTaskStore \<Rightarrow>
     TaskID option list result option" where
  "DefaultTaskStore_FilterToTaskIds kv dec predicate t =
     (let (items, err) = DefaultTaskStore_ForEach kv dec t;
          res = fold (\<lambda>item res. case res of
                        None \<Rightarrow> None
                      | Some ids \<Rightarrow>
                          if predicate item
                          then map_option (\<lambda>d. ids @ [dep_TaskId d]) item
                          else Some ids) items (Some [])
      in map_option (\<lambda>ids. case err of Some e \<Rightarrow> Inl e | None \<Rightarrow> Inr ids) res)"

text \<open>\<open>lastTested\<close> is set by the closure whenever it accepts an entry.\<close>

definition DefaultTaskStore_Find ::
  "'s KVStore \<Rightarrow> Deployment unmarshal \<Rightarrow> (Deployment option \<Rightarrow> bool) \<Rightarrow> 's DefaultTaskStore \<Rightarrow>
     Deployment option result" where
  "DefaultTaskStore_Find kv dec predicate t =
     (let accepts = (\<lambda>item. case task_readBytes dec (kvd_Value item) of
                              Inl _ \<Rightarrow> False | Inr d \<Rightarrow> predicate (Some d));
          (tested, res) = kv_Find kv accepts (dts_store t);
          lastTested = fold (\<lambda>item l. if accepts item then task_item dec item else l) tested None
      in case res of Inl err \<Rightarrow> Inl err | Inr _ \<Rightarrow> Inr lastTested)"

definition DefaultTaskStore_Contains :: "'s KVStore \<Rightarrow> string \<Rightarrow> 's DefaultTaskStore \<Rightarrow> bool result" where
  "DefaultTaskStore_Contains kv key t = kv_Contains kv key (dts_store t)"

definition DefaultTaskStore_RunningApps ::
  "'s KVStore \<Rightarrow> Deployment unmarshal \<Rightarrow> string \<Rightarrow> 's DefaultTaskStore \<Rightarrow> Deployment option list result" where
  "DefaultTaskStore_RunningApps kv dec appID t =
     DefaultTaskStore_Filter kv dec
       (\<lambda>i. Deployment_GetAppId i = appID \<and> Deployment_GetStatus i = AppStatus_STARTED) t"

definition DefaultTaskStore_RunningAppsCount ::
  "'s KVStore \<Rightarrow> Deployment unmarshal \<Rightarrow> string \<Rightarrow> 's DefaultTaskStore \<Rightarrow> int32" where
  "DefaultTaskStore_RunningAppsCount kv dec appID t =
     (case DefaultTaskStore_RunningApps kv dec appID t of Inl _ \<Rightarrow> 0 | Inr a \<Rightarrow> of_nat (length a))"

section \<open>Over any store that keeps the contract\<close>

text \<open>The deployments a finite map of byte slices holds.\<close>

definition decoded :: "'d unmarshal \<Rightarrow> (string \<rightharpoonup> slice) \<Rightarrow> (string \<rightharpoonup> 'd)" where
  "decoded dec m k = (case m k of None \<Rightarrow> None | Some v \<Rightarrow> (case dec v of Inl _ \<Rightarrow> None | Inr d \<Rightarrow> Some d))"

lemma decoded_Some: "decoded dec m k = Some d \<longleftrightarrow> (\<exists>v. m k = Some v \<and> dec v = Inr d)"
  by (auto simp: decoded_def split: option.splits sum.splits)

lemma decoded_upd: "dec b = Inr d \<Longrightarrow> decoded dec (m(k \<mapsto> b)) = (decoded dec m)(k \<mapsto> d)"
  by (rule ext) (simp add: decoded_def)

lemma decoded_del: "decoded dec (m(k := None)) = (decoded dec m)(k := None)"
  by (rule ext) (simp add: decoded_def)

lemma task_readBytes_eq [simp]: "task_readBytes dec = dec"
  by (rule ext) (simp add: task_readBytes_def split: sum.split)

lemma task_item_Some: "task_item dec i = Some d \<longleftrightarrow> dec (kvd_Value i) = Inr d"
  by (auto simp: task_item_def split: sum.splits)

lemma fold_filter: "fold (\<lambda>x r. if P x then r @ [x] else r) xs r = r @ filter P xs"
  using fold_append_filter [of P "\<lambda>x. x"] by simp

lemma filter_task_items:
  "\<not> P None \<Longrightarrow> length (filter P (map (task_item dec) kvs)) =
     length (filter (\<lambda>i. \<exists>d. dec (kvd_Value i) = Inr d \<and> P (Some d)) kvs)"
  by (induction kvs) (auto simp: task_item_def split: sum.splits)

context kv_store
begin

lemma Save_task:
  assumes "inv (dts_store t)" and "enc d = Inr b"
  shows "\<exists>t'. DefaultTaskStore_Save kv enc d t = (None, t') \<and> inv (dts_store t') \<and>
              abs (dts_store t') = (abs (dts_store t))(TaskID_GetValue (dep_TaskId d) \<mapsto> b)"
proof -
  obtain s' where "kv_Set kv (TaskID_GetValue (dep_TaskId d)) b (dts_store t) = (None, s')" "inv s'"
    "abs s' = (abs (dts_store t))(TaskID_GetValue (dep_TaskId d) \<mapsto> b)"
    using Set_ok [OF assms(1)] by blast
  with assms(2) show ?thesis by (simp add: DefaultTaskStore_Save_def task_writeBytes_def)
qed

lemma Get_task:
  "inv (dts_store t) \<Longrightarrow> abs (dts_store t) k = Some v \<Longrightarrow>
     DefaultTaskStore_Get kv dec k t = map_sum id Some (dec v)"
  by (simp add: DefaultTaskStore_Get_def Get_present)

lemma Filter_task:
  assumes "inv (dts_store t)"
  obtains kvs where "entries_of (abs (dts_store t)) kvs"
    and "DefaultTaskStore_ForEach kv dec t = (map (task_item dec) kvs, None)"
    and "DefaultTaskStore_Filter kv dec P t = Inr (filter P (map (task_item dec) kvs))"
  using ForEach_ok [OF assms]
  by (auto simp: DefaultTaskStore_Filter_def DefaultTaskStore_ForEach_def fold_filter)

lemma RunningAppsCount_task:
  assumes "inv (dts_store t)"
  shows "DefaultTaskStore_RunningAppsCount kv dec appID t =
    of_nat (card {k. \<exists>d. decoded dec (abs (dts_store t)) k = Some d \<and>
                         Deployment_GetAppId (Some d) = appID \<and> Deployment_GetStatus (Some d) = AppStatus_STARTED})"
proof -
  let ?P = "\<lambda>i. Deployment_GetAppId i = appID \<and> Deployment_GetStatus i = AppStatus_STARTED"
  obtain kvs where kvs: "entries_of (abs (dts_store t)) kvs"
    "DefaultTaskStore_Filter kv dec ?P t = Inr (filter ?P (map (task_item dec) kvs))"
    by (rule Filter_task [OF assms])
  have np: "\<not> ?P None" by (simp add: getter_simps)
  have "DefaultTaskStore_RunningAppsCount kv dec appID t =
      of_nat (length (filter ?P (map (task_item dec) kvs)))"
    by (simp only: DefaultTaskStore_RunningAppsCount_def DefaultTaskStore_RunningApps_def kvs(2) sum.case)
  also have "\<dots> = of_nat (length (filter (\<lambda>i. \<exists>d. dec (kvd_Value i) = Inr d \<and> ?P (Some d)) kvs))"
    by (simp only: filter_task_items [of ?P, OF np])
  finally have "DefaultTaskStore_RunningAppsCount kv dec appID t =
      of_nat (length (filter (\<lambda>i. \<exists>d. dec (kvd_Value i) = Inr d \<and> ?P (Some d)) kvs))" .
  moreover have "{k. \<exists>v. abs (dts_store t) k = Some v \<and> (\<exists>d. dec v = Inr d \<and> ?P (Some d))} =
      {k. \<exists>d. decoded dec (abs (dts_store t)) k = Some d \<and> ?P (Some d)}"
    by (auto simp: decoded_Some)
  ultimately show ?thesis by (simp only: entries_of_filter_card [OF kvs(1)] KVData.simps)
qed

lemma Find_task:
  assumes "inv (dts_store t)"
  shows "\<exists>r. DefaultTaskStore_Find kv dec P t = Inr r \<and>
     (case r of
        None \<Rightarrow> \<forall>k d. decoded dec (abs (dts_store t)) k = Some d \<longrightarrow> \<not> P (Some d)
      | Some d \<Rightarrow> P (Some d) \<and> (\<exists>k. decoded dec (abs (dts_store t)) k = Some d))"
proof -
  let ?acc = "\<lambda>item. case dec (kvd_Value item) of Inl _ \<Rightarrow> False | Inr d \<Rightarrow> P (Some d)"
  obtain kvs where kvs: "entries_of (abs (dts_store t)) kvs"
    "kv_Find kv ?acc (dts_store t) = (fst (find_trace ?acc kvs), Inr (List.find ?acc kvs))"
    using Find_ok [OF assms] by metis
  have r: "DefaultTaskStore_Find kv dec P t =
      Inr (case List.find ?acc kvs of None \<Rightarrow> None | Some x \<Rightarrow> task_item dec x)"
    by (simp add: DefaultTaskStore_Find_def kvs(2) fold_find_trace)
  show ?thesis
  proof (cases "List.find ?acc kvs")
    case None
    then have "\<not> ?acc \<lparr>kvd_Key = k, kvd_Value = v\<rparr>" if "abs (dts_store t) k = Some v" for k v
      using that kvs(1) by (auto simp: find_None_iff entries_of_def)
    then show ?thesis using r None by (fastforce simp: decoded_Some)
  next
    case (Some x)
    then have "x \<in> set kvs" "?acc x" by (auto simp: find_Some_iff)
    with kvs(1) have "abs (dts_store t) (kvd_Key x) = Some (kvd_Value x)" by (simp add: entries_of_in)
    with \<open>?acc x\<close> r Some show ?thesis
      by (auto simp: decoded_Some task_item_def split: sum.splits)
  qed
qed

end

section \<open>A concrete codec\<close>

text \<open>
  A codec for the messages of a table, so that hypotheses about the parameters can be met: a
  message is encoded as its index, and no bytes decode to an error, as with the required
  fields of the real messages.
\<close>

definition table_enc :: "'d list \<Rightarrow> 'd marshal" where
  "table_enc ds d =
     (case List.find (\<lambda>i. ds ! i = d) [0..<length ds] of
        None \<Rightarrow> Inl (Err ''not in the table'')
      | Some i \<Rightarrow> Inr (Some [of_nat i]))"

fun table_dec :: "'d list \<Rightarrow> 'd unmarshal" where
  "table_dec ds (Some [b]) =
     (if unat b < length ds then Inr (ds ! unat b) else Inl (Err ''not in the table''))"
| "table_dec ds _ = Inl (Err ''required field not set'')"

lemma table_codec_ok: "length ds \<le> 256 \<Longrightarrow> codec_ok (table_enc ds) (table_dec ds)"
  by (auto simp: codec_ok_def table_enc_def find_Some_iff unat_of_nat take_bit_nat_eq_self
      split: option.splits)

section \<open>Properties\<close>

lemma ims_Get: "DefaultTaskStore_Get (InMemoryStore_kv it) dec k t =
    (case ims_abs (dts_store t) k of None \<Rightarrow> map_sum id Some (dec None) | Some v \<Rightarrow> map_sum id Some (dec v))"
  by (simp add: DefaultTaskStore_Get_def iface_simps InMemoryStore_Get_def ims_index_def ims_abs_def
      split: option.split)

lemma ims_Save_Get:
  assumes "ims_wf (dts_store t)" and "codec_ok enc dec" and "enc d = Inr b"
  shows "\<exists>t'. DefaultTaskStore_Save (InMemoryStore_kv it) enc d t = (None, t') \<and> ims_wf (dts_store t') \<and>
           DefaultTaskStore_Get (InMemoryStore_kv it) dec (TaskID_GetValue (dep_TaskId d)) t' = Inr (Some d) \<and>
           (\<forall>k. k \<noteq> TaskID_GetValue (dep_TaskId d) \<longrightarrow>
              DefaultTaskStore_Get (InMemoryStore_kv it) dec k t' = DefaultTaskStore_Get (InMemoryStore_kv it) dec k t)"
proof -
  obtain t' where t': "DefaultTaskStore_Save (InMemoryStore_kv it) enc d t = (None, t')" "ims_wf (dts_store t')"
    "ims_abs (dts_store t') = (ims_abs (dts_store t))(TaskID_GetValue (dep_TaskId d) \<mapsto> b)"
    using mem.Save_task [of t, OF assms(1), of enc d b, OF assms(3)] by blast
  have "dec b = Inr d" using assms(2,3) by (simp add: codec_ok_def)
  with t' show ?thesis by (simp add: ims_Get)
qed

text \<open>A deployment that was saved is read back, whatever was stored before and under whatever
  encoding, and saving it changes nothing for any other task id.\<close>

theorem Save_Get_roundtrip:
  assumes "ims_wf (dts_store t)" and "codec_ok enc dec" and "enc d = Inr b"
  shows "\<exists>t'. DefaultTaskStore_Save (InMemoryStore_kv it) enc d t = (None, t') \<and> ims_wf (dts_store t') \<and>
           DefaultTaskStore_Get (InMemoryStore_kv it) dec (TaskID_GetValue (dep_TaskId d)) t' = Inr (Some d) \<and>
           (\<forall>k. k \<noteq> TaskID_GetValue (dep_TaskId d) \<longrightarrow>
              DefaultTaskStore_Get (InMemoryStore_kv it) dec k t' = DefaultTaskStore_Get (InMemoryStore_kv it) dec k t)"
  by (rule ims_Save_Get [OF assms])

definition sample_deployment :: Deployment where
  "sample_deployment = Deployment_zero\<lparr>dep_AppId := Some ''web'',
     dep_TaskId := Some \<lparr>tid_Value = Some ''task-1''\<rparr>, dep_Status := Some AppStatus_STARTED\<rparr>"

lemma table_enc_single: "table_enc [d] d = Inr (Some [0])"
  by (simp add: table_enc_def upt_rec)

definition empty_tasks :: "InMemoryStore DefaultTaskStore" where
  "empty_tasks = TaskStore_NewWithStore NewEmptyInMemoryStore"

lemma empty_tasks_wf: "ims_wf (dts_store empty_tasks)"
  by (simp add: empty_tasks_def TaskStore_NewWithStore_def NewEmptyInMemoryStore_def ims_wf_def)

theorem Save_Get_roundtrip_witness:
  "\<exists>t'. DefaultTaskStore_Save (InMemoryStore_kv rev) (table_enc [sample_deployment]) sample_deployment empty_tasks =
          (None, t') \<and>
        DefaultTaskStore_Get (InMemoryStore_kv rev) (table_dec [sample_deployment]) ''task-1'' t' =
          Inr (Some sample_deployment)"
proof -
  have "codec_ok (table_enc [sample_deployment]) (table_dec [sample_deployment])"
    by (rule table_codec_ok) simp
  from Save_Get_roundtrip [OF empty_tasks_wf this table_enc_single, of rev]
  show ?thesis by (auto simp: sample_deployment_def TaskID_GetValue_def)
qed

text \<open>The number of running instances of an app is the number of stored tasks that decode to
  a STARTED deployment of that app, in whatever order the store iterates; entries that do not
  decode never count.\<close>

theorem RunningAppsCount_counts_started:
  assumes "ims_wf (dts_store t)"
  shows "DefaultTaskStore_RunningAppsCount (InMemoryStore_kv it) dec appID t =
    of_nat (card {k. \<exists>d. decoded dec (ims_abs (dts_store t)) k = Some d \<and>
                         Deployment_GetAppId (Some d) = appID \<and> Deployment_GetStatus (Some d) = AppStatus_STARTED})"
  using mem.RunningAppsCount_task [OF assms] .

definition one_task :: "InMemoryStore DefaultTaskStore" where
  "one_task = TaskStore_NewWithStore (NewInMemoryStore [(''task-1'', Some [0])])"

lemma one_task_wf: "ims_wf (dts_store one_task)"
  by (simp add: one_task_def TaskStore_NewWithStore_def NewInMemoryStore_def ims_wf_def)

lemma one_task_decoded:
  "decoded (table_dec [d]) (ims_abs (dts_store one_task)) k = (if k = ''task-1'' then Some d else None)"
  by (simp add: one_task_def TaskStore_NewWithStore_def NewInMemoryStore_def ims_abs_def decoded_def)

theorem RunningAppsCount_counts_started_witness:
  "DefaultTaskStore_RunningAppsCount (InMemoryStore_kv rev) (table_dec [sample_deployment]) ''web'' one_task = 1"
proof -
  have "{k. \<exists>d. decoded (table_dec [sample_deployment]) (ims_abs (dts_store one_task)) k = Some d \<and>
        Deployment_GetAppId (Some d) = ''web'' \<and> Deployment_GetStatus (Some d) = AppStatus_STARTED} = {''task-1''}"
    by (auto simp: one_task_decoded sample_deployment_def getter_simps)
  then show ?thesis by (simp add: RunningAppsCount_counts_started [OF one_task_wf])
qed

text \<open>\<open>Find\<close> returns a stored deployment the predicate accepts, and nil only when no stored
  deployment is accepted.\<close>

theorem Find_finds:
  assumes "ims_wf (dts_store t)"
  shows "\<exists>r. DefaultTaskStore_Find (InMemoryStore_kv it) dec P t = Inr r \<and>
     (case r of
        None \<Rightarrow> \<forall>k d. decoded dec (ims_abs (dts_store t)) k = Some d \<longrightarrow> \<not> P (Some d)
      | Some d \<Rightarrow> P (Some d) \<and> (\<exists>k. decoded dec (ims_abs (dts_store t)) k = Some d))"
  using mem.Find_task [OF assms] .

theorem Find_finds_witness:
  "DefaultTaskStore_Find (InMemoryStore_kv rev) (table_dec [sample_deployment])
     (\<lambda>d. Deployment_GetAppId d = ''web'') one_task = Inr (Some sample_deployment)"
proof -
  have "Deployment_GetAppId (Some sample_deployment) = ''web''"
    by (simp add: sample_deployment_def getter_simps)
  then show ?thesis
    using Find_finds [OF one_task_wf, of rev "table_dec [sample_deployment]" "\<lambda>d. Deployment_GetAppId d = ''web''"]
    by (auto simp: one_task_decoded split: option.splits if_splits)
qed

text \<open>Over the in-memory store \<open>Get\<close> never answers a missing key with a nil deployment and
  no error: the store reports it as a nil slice, not as \<open>ErrNotFound\<close>, so \<open>Get\<close> unmarshals no
  bytes and returns the codec's error, or a message decoded from nothing.\<close>

theorem Get_missing_is_not_nil:
  "ims_abs (dts_store t) k = None \<Longrightarrow>
     DefaultTaskStore_Get (InMemoryStore_kv it) dec k t = map_sum id Some (dec None) \<and>
     DefaultTaskStore_Get (InMemoryStore_kv it) dec k t \<noteq> Inr None"
  by (simp add: ims_Get) (cases "dec None"; simp)

theorem Get_missing_is_not_nil_witness:
  "DefaultTaskStore_Get (InMemoryStore_kv rev) (table_dec [sample_deployment]) ''gone'' one_task \<noteq> Inr None"
proof -
  have "ims_abs (dts_store one_task) ''gone'' = None"
    by (simp add: one_task_def TaskStore_NewWithStore_def NewInMemoryStore_def ims_abs_def)
  from Get_missing_is_not_nil [OF this] show ?thesis by blast
qed

end
