(* ===== verification/AppStore.thy ===== *)
theory AppStore
  imports TaskStore
begin

text \<open>
  The application store, \<open>src/store/apps/app_store.go\<close>: applications over a \<open>KVStore\<close>, keyed by
  the application's id. It differs from the task store in \<open>Get\<close>, which answers a nil slice with
  no application and no error. The codec is an argument, as in the task store; \<open>New\<close>'s
  \<open>NewMdbStore\<close> is an argument too, since LMDB is not part of the repository.
\<close>

record 's DefaultAppStore =
  das_store :: 's

definition AppStore_New :: "(string \<Rightarrow> 's result) \<Rightarrow> string \<Rightarrow> 's DefaultAppStore result" where
  "AppStore_New newMdbStore dataDirectory =
     (case newMdbStore (dataDirectory @ ''/apps'') of
        Inl err \<Rightarrow> Inl err | Inr s \<Rightarrow> Inr \<lparr>das_store = s\<rparr>)"

definition AppStore_NewWithStore :: "'s \<Rightarrow> 's DefaultAppStore" where
  "AppStore_NewWithStore s = \<lparr>das_store = s\<rparr>"

definition DefaultAppStore_Start ::
  "'s KVStore \<Rightarrow> 's DefaultAppStore \<Rightarrow> goerr option \<times> 's DefaultAppStore" where
  "DefaultAppStore_Start kv a =
     (let (err, s) = kv_Start kv (das_store a) in (err, a\<lparr>das_store := s\<rparr>))"

definition DefaultAppStore_Stop ::
  "'s KVStore \<Rightarrow> 's DefaultAppStore \<Rightarrow> goerr option \<times> 's DefaultAppStore" where
  "DefaultAppStore_Stop kv a =
     (let (err, s) = kv_Stop kv (das_store a) in (err, a\<lparr>das_store := s\<rparr>))"

definition app_readBytes :: "Application unmarshal \<Rightarrow> slice \<Rightarrow> Application result" where
  "app_readBytes dec data = (case dec data of Inl err \<Rightarrow> Inl err | Inr deploy \<Rightarrow> Inr deploy)"

definition app_writeBytes :: "Application marshal \<Rightarrow> Application \<Rightarrow> slice result" where
  "app_writeBytes enc target = enc target"

definition DefaultAppStore_Get ::
  "'s KVStore \<Rightarrow> Application unmarshal \<Rightarrow> string \<Rightarrow> 's DefaultAppStore \<Rightarrow> Application option result" where
  "DefaultAppStore_Get kv dec key a =
     (case kv_Get kv key (das_store a) of
        Inl err \<Rightarrow> if err = ErrNotFound then Inr None else Inl err
      | Inr None \<Rightarrow> Inr None
      | Inr (Some bs) \<Rightarrow> map_sum id Some (app_readBytes dec (Some bs)))"

definition DefaultAppStore_Save ::
  "'s KVStore \<Rightarrow> Application marshal \<Rightarrow> Application \<Rightarrow> 's DefaultAppStore \<Rightarrow>
     goerr option \<times> 's DefaultAppStore" where
  "DefaultAppStore_Save kv enc value a =
     (case app_writeBytes enc value of
        Inl err \<Rightarrow> (Some err, a)
      | Inr ser \<Rightarrow>
          (let (err, s) = kv_Set kv (Application_GetId (Some value)) ser (das_store a)
           in (err, a\<lparr>das_store := s\<rparr>)))"

definition DefaultAppStore_Delete ::
  "'s KVStore \<Rightarrow> string \<Rightarrow> 's DefaultAppStore \<Rightarrow> goerr option \<times> 's DefaultAppStore" where
  "DefaultAppStore_Delete kv key a =
     (let (err, s) = kv_Delete kv key (das_store a) in (err, a\<lparr>das_store := s\<rparr>))"

definition DefaultAppStore_Size :: "'s KVStore \<Rightarrow> 's DefaultAppStore \<Rightarrow> nat result" where
  "DefaultAppStore_Size kv a = kv_Size kv (das_store a)"

definition DefaultAppStore_Keys :: "'s KVStore \<Rightarrow> 's DefaultAppStore \<Rightarrow> string list result" where
  "DefaultAppStore_Keys kv a = kv_Keys kv (das_store a)"

definition app_item :: "Application unmarshal \<Rightarrow> KVData \<Rightarrow> Application option" where
  "app_item dec item =
     (case app_readBytes dec (kvd_Value item) of Inl _ \<Rightarrow> None | Inr deploy \<Rightarrow> Some deploy)"

definition DefaultAppStore_ForEach ::
  "'s KVStore \<Rightarrow> Application unmarshal \<Rightarrow> 's DefaultAppStore \<Rightarrow> Application option list \<times> goerr option" where
  "DefaultAppStore_ForEach kv dec a =
     (let (items, err) = kv_ForEach kv (das_store a) in (map (app_item dec) items, err))"

definition DefaultAppStore_Filter ::
  "'s KVStore \<Rightarrow> Application unmarshal \<Rightarrow> (Application option \<Rightarrow> bool) \<Rightarrow> 's DefaultAppStore \<Rightarrow>
     Application option list result" where
  "DefaultAppStore_Filter kv dec predicate a =
     (let (items, err) = DefaultAppStore_ForEach kv dec a;
          res = fold (\<lambda>item res. if predicate item then res @ [item] else res) items []
      in case err of Some e \<Rightarrow> Inl e | None \<Rightarrow> Inr res)"

definition DefaultAppStore_Find ::
  "'s KVStore \<Rightarrow> Application unmarshal \<Rightarrow> (Application option \<Rightarrow> bool) \<Rightarrow> 's DefaultAppStore \<Rightarrow>
     Application option result" where
  "DefaultAppStore_Find kv dec predicate a =
     (let accepts = (\<lambda>item. case app_readBytes dec (kvd_Value item) of
                              Inl _ \<Rightarrow> False | Inr d \<Rightarrow> predicate (Some d));
          (tested, res) = kv_Find kv accepts (das_store a);
          lastTested = fold (\<lambda>item l. if accepts item then app_item dec item else l) tested None
      in case res of Inl err \<Rightarrow> Inl err | Inr _ \<Rightarrow> Inr lastTested)"

definition DefaultAppStore_Contains :: "'s KVStore \<Rightarrow> string \<Rightarrow> 's DefaultAppStore \<Rightarrow> bool result" where
  "DefaultAppStore_Contains kv key a = kv_Contains kv key (das_store a)"

section \<open>Over any store that keeps the contract\<close>

lemma app_readBytes_eq [simp]: "app_readBytes dec = dec"
  by (rule ext) (simp add: app_readBytes_def split: sum.split)

lemma app_item_Some: "app_item dec i = Some v \<longleftrightarrow> dec (kvd_Value i) = Inr v"
  by (simp add: app_item_def split: sum.split)

context kv_store
begin

lemma Save_app:
  assumes "inv (das_store a)" and "enc v = Inr b"
  shows "\<exists>a'. DefaultAppStore_Save kv enc v a = (None, a') \<and> inv (das_store a') \<and>
              abs (das_store a') = (abs (das_store a))(Application_GetId (Some v) \<mapsto> b)"
proof -
  obtain s' where "kv_Set kv (Application_GetId (Some v)) b (das_store a) = (None, s')" "inv s'"
    "abs s' = (abs (das_store a))(Application_GetId (Some v) \<mapsto> b)"
    using Set_ok [OF assms(1)] by blast
  with assms(2) show ?thesis by (simp add: DefaultAppStore_Save_def app_writeBytes_def)
qed

lemma Get_app_present:
  "inv (das_store a) \<Longrightarrow> abs (das_store a) k = Some (Some bs) \<Longrightarrow>
     DefaultAppStore_Get kv dec k a = map_sum id Some (dec (Some bs))"
  by (simp add: DefaultAppStore_Get_def Get_present)

lemma Get_app_missing:
  "inv (das_store a) \<Longrightarrow> abs (das_store a) k = None \<Longrightarrow> DefaultAppStore_Get kv dec k a = Inr None"
  using Get_missing [of "das_store a" k] by (auto simp: DefaultAppStore_Get_def)

lemma ForEach_app:
  assumes "inv (das_store a)"
  obtains kvs where "entries_of (abs (das_store a)) kvs"
    and "DefaultAppStore_ForEach kv dec a = (map (app_item dec) kvs, None)"
  using ForEach_ok [OF assms] by (auto simp: DefaultAppStore_ForEach_def)

text \<open>The number of applications \<open>Filter\<close> collects is the number of keys that decode to one.\<close>

lemma Filter_app_count:
  assumes "inv (das_store a)" and "\<not> P None"
  shows "\<exists>res. DefaultAppStore_Filter kv dec P a = Inr res \<and>
     length res = card {k. \<exists>v. decoded dec (abs (das_store a)) k = Some v \<and> P (Some v)}"
proof -
  obtain kvs where kvs: "entries_of (abs (das_store a)) kvs"
    "DefaultAppStore_ForEach kv dec a = (map (app_item dec) kvs, None)"
    by (rule ForEach_app [OF assms(1)])
  have "length (filter P (map (app_item dec) kvs)) =
      length (filter (\<lambda>i. \<exists>d. dec (kvd_Value i) = Inr d \<and> P (Some d)) kvs)"
    using assms(2) by (induction kvs) (auto simp: app_item_def split: sum.splits)
  moreover have "{k. \<exists>v. abs (das_store a) k = Some v \<and> (\<exists>d. dec v = Inr d \<and> P (Some d))} =
      {k. \<exists>d. decoded dec (abs (das_store a)) k = Some d \<and> P (Some d)}"
    by (auto simp: decoded_Some)
  ultimately show ?thesis
    by (simp add: DefaultAppStore_Filter_def kvs(2) fold_filter entries_of_filter_card [OF kvs(1)])
qed

end

section \<open>Properties\<close>

text \<open>An application that was saved is read back under its id, and an id that was never saved,
  or was deleted, is answered with no application and no error.\<close>

theorem AppStore_Save_Get_Delete:
  assumes "ims_wf (das_store a)" and "codec_ok enc dec" and "enc v = Inr (Some bs)"
  shows "\<exists>a' a''. DefaultAppStore_Save (InMemoryStore_kv it) enc v a = (None, a') \<and>
           DefaultAppStore_Get (InMemoryStore_kv it) dec (Application_GetId (Some v)) a' = Inr (Some v) \<and>
           DefaultAppStore_Delete (InMemoryStore_kv it) (Application_GetId (Some v)) a' = (None, a'') \<and>
           DefaultAppStore_Get (InMemoryStore_kv it) dec (Application_GetId (Some v)) a'' = Inr None"
proof -
  let ?k = "Application_GetId (Some v)"
  obtain a' where a': "DefaultAppStore_Save (InMemoryStore_kv it) enc v a = (None, a')" "ims_wf (das_store a')"
    "ims_abs (das_store a') = (ims_abs (das_store a))(?k \<mapsto> Some bs)"
    using mem.Save_app [of a, OF assms(1), of enc v "Some bs", OF assms(3)] by blast
  obtain s where s: "kv_Delete (InMemoryStore_kv it) ?k (das_store a') = (None, s)" "ims_wf s"
    "ims_abs s = (ims_abs (das_store a'))(?k := None)"
    using mem.Delete_ok [OF a'(2)] by blast
  have "dec (Some bs) = Inr v" using assms(2,3) by (simp add: codec_ok_def)
  then have "DefaultAppStore_Get (InMemoryStore_kv it) dec ?k a' = Inr (Some v)"
    using mem.Get_app_present [of a' ?k bs] a' by simp
  moreover have "DefaultAppStore_Get (InMemoryStore_kv it) dec ?k (a'\<lparr>das_store := s\<rparr>) = Inr None"
    using mem.Get_app_missing [of "a'\<lparr>das_store := s\<rparr>" ?k] s by simp
  ultimately show ?thesis using a'(1) s(1) by (simp add: DefaultAppStore_Delete_def)
qed

definition sample_application :: Application where
  "sample_application = Application_zero\<lparr>app_Id := Some ''web'', app_Name := Some ''web'', app_Active := Some True,
     app_Sla := Some (ApplicationSLA_zero\<lparr>sla_MinInstances := Some 1, sla_MaxInstances := Some 2\<rparr>)\<rparr>"

definition empty_apps :: "InMemoryStore DefaultAppStore" where
  "empty_apps = AppStore_NewWithStore NewEmptyInMemoryStore"

lemma empty_apps_wf: "ims_wf (das_store empty_apps)"
  by (simp add: empty_apps_def AppStore_NewWithStore_def NewEmptyInMemoryStore_def ims_wf_def)

theorem AppStore_Save_Get_Delete_witness:
  "\<exists>a'. DefaultAppStore_Save (InMemoryStore_kv rev) (table_enc [sample_application]) sample_application empty_apps =
          (None, a') \<and>
        DefaultAppStore_Get (InMemoryStore_kv rev) (table_dec [sample_application]) ''web'' a' =
          Inr (Some sample_application)"
proof -
  have "codec_ok (table_enc [sample_application]) (table_dec [sample_application])"
    by (rule table_codec_ok) simp
  from AppStore_Save_Get_Delete [OF empty_apps_wf this table_enc_single, of rev]
  show ?thesis by (auto simp: sample_application_def getter_simps)
qed

end
