(* ===== verification/SLA.thy ===== *)
theory SLA
  imports TaskQueue AppStore
begin

text \<open>
  The SLA monitor, \<open>src/health/sla/sla.go\<close>: when an application may or must get another
  instance, and \<open>changeDeployCount\<close>, the periodic comparison of every application with its
  SLA. The monitor has no state of its own but its timer and channels: it reads the task store, the
  app store and the task queue it shares with the task manager, which are its arguments here.
  A tick of the timer is one call of \<open>checkSLAConformance\<close>, whose result is the sequence of
  messages it sends on \<open>needsScaling\<close>.
\<close>

record ChangeDeployCount =
  cdc_App :: "Application option"
  cdc_Tasks :: "TaskID option list"
  cdc_Count :: int32

definition shouldStopForInactive :: "AppStatus \<Rightarrow> bool" where
  "shouldStopForInactive status \<longleftrightarrow>
     status \<noteq> AppStatus_ABSENT \<and> status \<noteq> AppStatus_FAILED \<and> status \<noteq> AppStatus_STOPPED \<and>
     status \<noteq> AppStatus_STOPPING \<and> status \<noteq> AppStatus_DISABLING"

definition countsAsRunningForActive :: "AppStatus \<Rightarrow> bool" where
  "countsAsRunningForActive status \<longleftrightarrow>
     status = AppStatus_STARTED \<or> status = AppStatus_DEPLOYING \<or> status = AppStatus_UNHEALTHY"

text \<open>The body of the closure \<open>changeDeployCount\<close> passes to \<open>appStore.ForEach\<close>.\<close>

definition change_of_app ::
  "'s KVStore \<Rightarrow> Deployment unmarshal \<Rightarrow> 's DefaultTaskStore \<Rightarrow> queue_mem \<Rightarrow>
     Application option \<Rightarrow> ChangeDeployCount list \<Rightarrow> ChangeDeployCount list" where
  "change_of_app kv dec ts q item changes =
     (let queuedCounts = CountsForApps q
      in case DefaultTaskStore_Filter kv dec
                (\<lambda>deployment. Application_GetId item = Deployment_GetAppId deployment) ts of
        Inl _ \<Rightarrow> changes
      | Inr deployments \<Rightarrow>
          if Application_GetActive item
          then (case Application_GetSla item of
                  None \<Rightarrow> changes
                | Some sla \<Rightarrow>
                    let count = fold (\<lambda>d c. if countsAsRunningForActive (Deployment_GetStatus d)
                                            then c + 1 else c) deployments 0;
                        queuedCount = (case queuedCounts (Application_GetId item) of None \<Rightarrow> 0 | Some c \<Rightarrow> c);
                        totalCount = count + queuedCount;
                        minI = ApplicationSLA_GetMinInstances (Some sla);
                        maxI = ApplicationSLA_GetMaxInstances (Some sla)
                    in if sint totalCount < sint minI
                       then changes @ [\<lparr>cdc_App = item, cdc_Tasks = [], cdc_Count = minI - totalCount\<rparr>]
                       else if sint maxI < sint totalCount
                       then changes @ [\<lparr>cdc_App = item, cdc_Tasks = [], cdc_Count = maxI - totalCount\<rparr>]
                       else changes)
          else let toKill = fold (\<lambda>d ids. if shouldStopForInactive (Deployment_GetStatus d)
                                          then ids @ [Deployment_GetTaskId d] else ids) deployments []
               in changes @ [\<lparr>cdc_App = item, cdc_Tasks = toKill,
                              cdc_Count = of_int (int (length toKill) * -1)\<rparr>])"

definition changeDeployCount ::
  "'s KVStore \<Rightarrow> Deployment unmarshal \<Rightarrow> 'a KVStore \<Rightarrow> Application unmarshal \<Rightarrow>
     's DefaultTaskStore \<Rightarrow> 'a DefaultAppStore \<Rightarrow> queue_mem \<Rightarrow> ChangeDeployCount list" where
  "changeDeployCount kv dec akv adec ts as q =
     (let (items, _) = DefaultAppStore_ForEach akv adec as
      in fold (change_of_app kv dec ts q) items [])"

text \<open>What one tick sends on \<open>needsScaling\<close>, in order.\<close>

definition checkSLAConformance ::
  "'s KVStore \<Rightarrow> Deployment unmarshal \<Rightarrow> 'a KVStore \<Rightarrow> Application unmarshal \<Rightarrow>
     's DefaultTaskStore \<Rightarrow> 'a DefaultAppStore \<Rightarrow> queue_mem \<Rightarrow> ChangeDeployCount list" where
  "checkSLAConformance kv dec akv adec ts as q =
     fold (\<lambda>change sent. sent @ [change]) (changeDeployCount kv dec akv adec ts as q) []"

definition NeedsMoreInstances ::
  "'s KVStore \<Rightarrow> Deployment unmarshal \<Rightarrow> 's DefaultTaskStore \<Rightarrow> queue_mem \<Rightarrow> Application option \<Rightarrow> bool" where
  "NeedsMoreInstances kv dec ts q app =
     (if \<not> Application_GetActive app then Application_GetActive app
      else let runningApps = DefaultTaskStore_RunningAppsCount kv dec (Application_GetId app) ts +
                             CountAppsForID q (Application_GetId app)
           in case Application_GetSla app of
                None \<Rightarrow> False
              | Some appSLA \<Rightarrow> sint runningApps < sint (ApplicationSLA_GetMinInstances (Some appSLA)))"

definition CanDeployMoreInstances ::
  "'s KVStore \<Rightarrow> Deployment unmarshal \<Rightarrow> 's DefaultTaskStore \<Rightarrow> queue_mem \<Rightarrow> Application option \<Rightarrow> bool" where
  "CanDeployMoreInstances kv dec ts q app =
     (if \<not> Application_GetActive app then Application_GetActive app
      else case Application_GetSla app of
             None \<Rightarrow> True
           | Some appSLA \<Rightarrow>
               let runningApps = DefaultTaskStore_RunningAppsCount kv dec (Application_GetId app) ts +
                                 CountAppsForID q (Application_GetId app)
               in sint runningApps < sint (ApplicationSLA_GetMaxInstances (Some appSLA)))"

section \<open>What the counts stand for\<close>

text \<open>The tasks of an app whose status satisfies a predicate, and the queued items of an app.\<close>

definition tasks_of_app :: "Deployment unmarshal \<Rightarrow> (string \<rightharpoonup> slice) \<Rightarrow> string \<Rightarrow> (AppStatus \<Rightarrow> bool) \<Rightarrow> string set" where
  "tasks_of_app dec m appID P =
     {k. \<exists>d. decoded dec m k = Some d \<and> Deployment_GetAppId (Some d) = appID \<and> P (Deployment_GetStatus (Some d))}"

definition queued_of_app :: "queue_mem \<Rightarrow> string \<Rightarrow> nat list" where
  "queued_of_app q appID = filter (\<lambda>a. ScheduledApp_GetAppId (Some (sas q a)) = appID) (slots q)"

lemma CountAppsForID_queued: "CountAppsForID q appID = of_nat (length (queued_of_app q appID))"
  by (simp add: CountAppsForID_eq queued_of_app_def)

lemma CountsForApps_queued:
  "(case CountsForApps q appID of None \<Rightarrow> 0 | Some c \<Rightarrow> c) = of_nat (length (queued_of_app q appID))"
  unfolding CountsForApps_def fold_tally by (simp add: queued_of_app_def)

lemma fold_count: "fold (\<lambda>x c. if P x then c + 1 else c) xs (c :: int32) = c + of_nat (length (filter P xs))"
  by (rule fold_count_int32)

context kv_store
begin

lemma RunningAppsCount_tasks:
  "inv (dts_store t) \<Longrightarrow> DefaultTaskStore_RunningAppsCount kv dec appID t =
     of_nat (card (tasks_of_app dec (abs (dts_store t)) appID (\<lambda>s. s = AppStatus_STARTED)))"
  by (simp add: RunningAppsCount_task tasks_of_app_def)

text \<open>Counting among the deployments of one app; a nil deployment is ABSENT, so it counts for nothing.\<close>

lemma app_deployments:
  assumes "inv (dts_store t)"
  obtains ds where
    "DefaultTaskStore_Filter kv dec (\<lambda>d. appID = Deployment_GetAppId d) t = Inr ds"
    and "\<And>P. \<not> P AppStatus_ABSENT \<Longrightarrow>
           length (filter (\<lambda>d. P (Deployment_GetStatus d)) ds) =
             card (tasks_of_app dec (abs (dts_store t)) appID P)"
proof -
  obtain kvs where kvs: "entries_of (abs (dts_store t)) kvs"
    "DefaultTaskStore_Filter kv dec (\<lambda>d. appID = Deployment_GetAppId d) t =
       Inr (filter (\<lambda>d. appID = Deployment_GetAppId d) (map (task_item dec) kvs))"
    by (rule Filter_task [OF assms])
  show thesis
  proof (rule that [OF kvs(2)])
    fix P assume P: "\<not> P AppStatus_ABSENT"
    let ?Q = "\<lambda>d. P (Deployment_GetStatus d) \<and> appID = Deployment_GetAppId d"
    have np: "\<not> ?Q None" using P by (simp add: Deployment_GetStatus_def)
    have "length (filter (\<lambda>d. P (Deployment_GetStatus d))
        (filter (\<lambda>d. appID = Deployment_GetAppId d) (map (task_item dec) kvs))) =
        length (filter ?Q (map (task_item dec) kvs))"
      by (simp add: conj_commute)
    also have "\<dots> = length (filter (\<lambda>i. \<exists>d. dec (kvd_Value i) = Inr d \<and> ?Q (Some d)) kvs)"
      by (rule filter_task_items [of ?Q, OF np])
    also have "\<dots> = card {k. \<exists>v. abs (dts_store t) k = Some v \<and> (\<exists>d. dec v = Inr d \<and> ?Q (Some d))}"
      by (simp add: entries_of_filter_card [OF kvs(1)])
    also have "{k. \<exists>v. abs (dts_store t) k = Some v \<and> (\<exists>d. dec v = Inr d \<and> ?Q (Some d))} =
        tasks_of_app dec (abs (dts_store t)) appID P"
      by (auto simp: tasks_of_app_def decoded_Some)
    finally show "length (filter (\<lambda>d. P (Deployment_GetStatus d))
        (filter (\<lambda>d. appID = Deployment_GetAppId d) (map (task_item dec) kvs))) =
        card (tasks_of_app dec (abs (dts_store t)) appID P)" .
  qed
qed

end

lemma change_of_app_append:
  "change_of_app kv dec ts q item changes = changes @ change_of_app kv dec ts q item []"
  by (simp add: change_of_app_def Let_def split: sum.split option.split)

lemma fold_change_of_app:
  "fold (change_of_app kv dec ts q) items changes =
     changes @ concat (map (\<lambda>item. change_of_app kv dec ts q item []) items)"
proof (induction items arbitrary: changes)
  case (Cons item items)
  then show ?case by (simp add: change_of_app_append [of kv dec ts q item changes])
qed simp

lemma change_of_app_App: "c \<in> set (change_of_app kv dec ts q item []) \<Longrightarrow> cdc_App c = item"
  by (auto simp: change_of_app_def Let_def split: sum.splits option.splits if_splits)

text \<open>The applications \<open>changeDeployCount\<close> goes through are the stored ones, and nil for those
  that do not decode.\<close>

context kv_store
begin

lemma app_items:
  assumes "inv (das_store a)"
  obtains items where "DefaultAppStore_ForEach kv dec a = (items, None)"
    and "\<And>v. Some v \<in> set items \<longleftrightarrow> (\<exists>k. decoded dec (abs (das_store a)) k = Some v)"
proof -
  obtain kvs where kvs: "entries_of (abs (das_store a)) kvs"
    "DefaultAppStore_ForEach kv dec a = (map (app_item dec) kvs, None)"
    by (rule ForEach_app [OF assms])
  show thesis
  proof (rule that [OF kvs(2)])
    fix v
    have "Some v \<in> set (map (app_item dec) kvs) \<longleftrightarrow> (\<exists>i \<in> set kvs. dec (kvd_Value i) = Inr v)"
      by (simp add: image_iff eq_commute [of "Some v"] app_item_Some)
    also have "\<dots> \<longleftrightarrow> (\<exists>k. decoded dec (abs (das_store a)) k = Some v)"
      unfolding decoded_Some using entries_of_in [OF kvs(1)] by (metis KVData.select_convs)
    finally show "Some v \<in> set (map (app_item dec) kvs) \<longleftrightarrow> (\<exists>k. decoded dec (abs (das_store a)) k = Some v)" .
  qed
qed

text \<open>One active application with an SLA, as long as its counters stay within int32.\<close>

lemma change_of_active_app:
  assumes "inv (dts_store ts)" and "Application_GetActive (Some a)" and "Application_GetSla (Some a) = Some sla"
    and n: "tot = card (tasks_of_app dec (abs (dts_store ts)) (Application_GetId (Some a)) countsAsRunningForActive) +
                length (queued_of_app q (Application_GetId (Some a)))"
    and "tot < 2 ^ 31"
    and lo: "lo = sint (ApplicationSLA_GetMinInstances (Some sla))" "0 \<le> lo"
    and hi: "hi = sint (ApplicationSLA_GetMaxInstances (Some sla))" "0 \<le> hi"
  shows "\<exists>c. change_of_app kv dec ts q (Some a) [] =
           (if int tot < lo \<or> hi < int tot
            then [\<lparr>cdc_App = Some a, cdc_Tasks = [], cdc_Count = c\<rparr>] else []) \<and>
           sint c = (if int tot < lo then lo else hi) - int tot"
proof -
  let ?id = "Application_GetId (Some a)"
  obtain ds where ds: "DefaultTaskStore_Filter kv dec (\<lambda>d. ?id = Deployment_GetAppId d) ts = Inr ds"
    "\<And>P. \<not> P AppStatus_ABSENT \<Longrightarrow> length (filter (\<lambda>d. P (Deployment_GetStatus d)) ds) =
        card (tasks_of_app dec (abs (dts_store ts)) ?id P)"
    using app_deployments [OF assms(1), of dec ?id] by blast
  have cnt: "length (filter (\<lambda>d. countsAsRunningForActive (Deployment_GetStatus d)) ds) =
      card (tasks_of_app dec (abs (dts_store ts)) ?id countsAsRunningForActive)"
    by (rule ds(2)) (simp add: countsAsRunningForActive_def)
  let ?t = "of_nat tot :: int32"
  have st: "sint ?t = int tot" using \<open>tot < 2 ^ 31\<close> by (rule sint_of_nat_int32)
  let ?lo = "ApplicationSLA_GetMinInstances (Some sla)" and ?hi = "ApplicationSLA_GetMaxInstances (Some sla)"
  have b: "lo < 2 ^ 31" "hi < 2 ^ 31" using lo(1) hi(1) sint_int32_range by simp_all
  have "sint (?lo - ?t) = lo - int tot" "sint (?hi - ?t) = hi - int tot"
    using b lo hi \<open>tot < 2 ^ 31\<close> st by (subst sint_minus_int32; simp)+
  then show ?thesis
    by (intro exI [of _ "if int tot < lo then ?lo - ?t else ?hi - ?t"])
       (simp add: change_of_app_def ds(1) assms(2,3) fold_count cnt CountsForApps_queued
          n [symmetric] st lo(1) hi(1) Let_def flip: of_nat_add)
qed

end

section \<open>Properties\<close>

text \<open>C25. For an active application with an SLA, one pass of the monitor asks for exactly the
  missing or surplus instances: when its deployed (STARTED, DEPLOYING or UNHEALTHY) and queued
  instances are below the minimum, the requested change brings them to the minimum, when they are
  above the maximum it brings them to the maximum, and within the bounds nothing is requested.\<close>

theorem SLA_change_reaches_bounds:
  assumes "ims_wf (dts_store ts)" and "ims_wf (das_store as)"
    and stored: "decoded adec (ims_abs (das_store as)) k = Some a"
    and "Application_GetActive (Some a)" and "Application_GetSla (Some a) = Some sla"
    and n: "tot = card (tasks_of_app dec (ims_abs (dts_store ts)) (Application_GetId (Some a)) countsAsRunningForActive) +
                length (queued_of_app q (Application_GetId (Some a)))" "tot < 2 ^ 31"
    and lo: "lo = sint (ApplicationSLA_GetMinInstances (Some sla))" "0 \<le> lo"
    and hi: "hi = sint (ApplicationSLA_GetMaxInstances (Some sla))" "0 \<le> hi"
  shows "((\<exists>c \<in> set (checkSLAConformance (InMemoryStore_kv it) dec (InMemoryStore_kv it2) adec ts as q).
             cdc_App c = Some a) \<longleftrightarrow> int tot < lo \<or> hi < int tot) \<and>
         (\<forall>c \<in> set (checkSLAConformance (InMemoryStore_kv it) dec (InMemoryStore_kv it2) adec ts as q).
             cdc_App c = Some a \<longrightarrow>
             cdc_Tasks c = [] \<and> int tot + sint (cdc_Count c) = (if int tot < lo then lo else hi))"
proof -
  let ?changes = "checkSLAConformance (InMemoryStore_kv it) dec (InMemoryStore_kv it2) adec ts as q"
  let ?one = "\<lambda>item. change_of_app (InMemoryStore_kv it) dec ts q item []"
  obtain items where items: "DefaultAppStore_ForEach (InMemoryStore_kv it2) adec as = (items, None)"
    "Some a \<in> set items"
    using mem.app_items [OF assms(2)] stored by metis
  have ch: "set ?changes = (\<Union>item \<in> set items. set (?one item))"
    using fold_append_filter [of "\<lambda>_. True" "\<lambda>c :: ChangeDeployCount. c"]
    by (simp add: checkSLAConformance_def changeDeployCount_def items(1) fold_change_of_app)
  obtain c where c: "?one (Some a) = (if int tot < lo \<or> hi < int tot
      then [\<lparr>cdc_App = Some a, cdc_Tasks = [], cdc_Count = c\<rparr>] else [])"
    "sint c = (if int tot < lo then lo else hi) - int tot"
    using mem.change_of_active_app [OF assms(1,4,5) n lo hi] by blast
  have one: "x \<in> set ?changes \<and> cdc_App x = Some a \<longleftrightarrow> x \<in> set (?one (Some a))" for x
    unfolding ch using items(2) by (auto simp: change_of_app_App)
  have "(\<exists>x \<in> set ?changes. cdc_App x = Some a) \<longleftrightarrow> (\<exists>x. x \<in> set (?one (Some a)))"
    "(\<forall>x \<in> set ?changes. cdc_App x = Some a \<longrightarrow> Q x) \<longleftrightarrow> (\<forall>x \<in> set (?one (Some a)). Q x)" for Q
    using one by blast+
  then show ?thesis using c(2) by (simp add: c(1))
qed

text \<open>The sample application stored and active, with one started task and an empty queue.\<close>

definition one_app :: "InMemoryStore DefaultAppStore" where
  "one_app = AppStore_NewWithStore (NewInMemoryStore [(''web'', Some [0])])"

lemma one_app_wf: "ims_wf (das_store one_app)"
  by (simp add: one_app_def AppStore_NewWithStore_def NewInMemoryStore_def ims_wf_def)

lemma one_app_decoded: "decoded (table_dec [v]) (ims_abs (das_store one_app)) ''web'' = Some v"
  by (simp add: one_app_def AppStore_NewWithStore_def NewInMemoryStore_def ims_abs_def decoded_def)

lemma one_task_of_app:
  "tasks_of_app (table_dec [d]) (ims_abs (dts_store one_task)) appID P =
     (if Deployment_GetAppId (Some d) = appID \<and> P (Deployment_GetStatus (Some d)) then {''task-1''} else {})"
  by (auto simp: tasks_of_app_def one_task_decoded)

definition empty_queue :: queue_mem where
  "empty_queue = sample_queue []"

lemma empty_queue_of_app: "queued_of_app empty_queue appID = []"
  by (simp add: queued_of_app_def empty_queue_def sample_queue_def)

definition sla_app :: "int32 \<Rightarrow> int32 \<Rightarrow> Application" where
  "sla_app lo hi = sample_application\<lparr>app_Sla :=
     Some (ApplicationSLA_zero\<lparr>sla_MinInstances := Some lo, sla_MaxInstances := Some hi\<rparr>)\<rparr>"

lemma sla_app_simps:
  "Application_GetId (Some (sla_app lo hi)) = ''web''"
  "Application_GetActive (Some (sla_app lo hi))"
  "Application_GetSla (Some (sla_app lo hi)) =
     Some (ApplicationSLA_zero\<lparr>sla_MinInstances := Some lo, sla_MaxInstances := Some hi\<rparr>)"
  by (simp_all add: sla_app_def sample_application_def getter_simps)

lemma sla_bounds_simps:
  "ApplicationSLA_GetMinInstances (Some (ApplicationSLA_zero\<lparr>sla_MinInstances := Some lo, sla_MaxInstances := Some hi\<rparr>)) = lo"
  "ApplicationSLA_GetMaxInstances (Some (ApplicationSLA_zero\<lparr>sla_MinInstances := Some lo, sla_MaxInstances := Some hi\<rparr>)) = hi"
  by (simp_all add: getter_simps)

lemma sample_deployment_simps:
  "Deployment_GetAppId (Some sample_deployment) = ''web''"
  "Deployment_GetStatus (Some sample_deployment) = AppStatus_STARTED"
  by (simp_all add: sample_deployment_def getter_simps)

theorem SLA_change_reaches_bounds_witness:
  "\<exists>c \<in> set (checkSLAConformance (InMemoryStore_kv id) (table_dec [sample_deployment])
        (InMemoryStore_kv id) (table_dec [sla_app 3 4]) one_task one_app empty_queue).
     cdc_App c = Some (sla_app 3 4) \<and> sint (cdc_Count c) = 2"
proof -
  have n: "1 = card (tasks_of_app (table_dec [sample_deployment]) (ims_abs (dts_store one_task))
        (Application_GetId (Some (sla_app 3 4))) countsAsRunningForActive) +
      length (queued_of_app empty_queue (Application_GetId (Some (sla_app 3 4))))"
    by (simp add: one_task_of_app empty_queue_of_app sla_app_simps sample_deployment_simps countsAsRunningForActive_def)
  show ?thesis
    using SLA_change_reaches_bounds [OF one_task_wf one_app_wf one_app_decoded sla_app_simps(2,3) n,
        of 3 4 id id]
    by (auto simp: sla_bounds_simps)
qed

text \<open>For a disabled application the monitor always sends one request: to kill exactly those
  of its tasks that are still up in some way, with their number, negated, as the count. It sends it even when
  there is nothing to kill.\<close>

theorem SLA_inactive_app_is_swept:
  assumes "ims_wf (dts_store ts)" and "\<not> Application_GetActive item"
  shows "\<exists>ids. change_of_app (InMemoryStore_kv it) dec ts q item [] =
            [\<lparr>cdc_App = item, cdc_Tasks = ids, cdc_Count = - of_nat (length ids)\<rparr>] \<and>
          length ids = card (tasks_of_app dec (ims_abs (dts_store ts)) (Application_GetId item) shouldStopForInactive)"
proof -
  obtain ds where ds:
    "DefaultTaskStore_Filter (InMemoryStore_kv it) dec (\<lambda>d. Application_GetId item = Deployment_GetAppId d) ts = Inr ds"
    "\<And>P. \<not> P AppStatus_ABSENT \<Longrightarrow> length (filter (\<lambda>d. P (Deployment_GetStatus d)) ds) =
        card (tasks_of_app dec (ims_abs (dts_store ts)) (Application_GetId item) P)"
    using mem.app_deployments [OF assms(1), of it dec "Application_GetId item"] by blast
  have "\<not> shouldStopForInactive AppStatus_ABSENT" by (simp add: shouldStopForInactive_def)
  from ds(2) [of shouldStopForInactive, OF this] show ?thesis
    by (simp add: change_of_app_def ds(1) assms(2) fold_append_filter)
qed

theorem SLA_inactive_app_is_swept_witness:
  "\<exists>ids. change_of_app (InMemoryStore_kv id) (table_dec [sample_deployment]) one_task empty_queue
       (Some (Application_zero\<lparr>app_Id := Some ''web''\<rparr>)) [] =
     [\<lparr>cdc_App = Some (Application_zero\<lparr>app_Id := Some ''web''\<rparr>), cdc_Tasks = ids, cdc_Count = - of_nat (length ids)\<rparr>] \<and>
     length ids = 1"
proof -
  let ?a = "Application_zero\<lparr>app_Id := Some ''web''\<rparr>"
  have "\<not> Application_GetActive (Some ?a)" "Application_GetId (Some ?a) = ''web''"
    by (simp_all add: Application_zero_def getter_simps)
  with SLA_inactive_app_is_swept [OF one_task_wf this(1), of id "table_dec [sample_deployment]" empty_queue]
  show ?thesis by (simp add: one_task_of_app sample_deployment_simps shouldStopForInactive_def)
qed

lemma Needs_CanDeploy_count:
  assumes "ims_wf (dts_store ts)"
    and n: "n = card (tasks_of_app dec (ims_abs (dts_store ts)) (Application_GetId app) (\<lambda>s. s = AppStatus_STARTED)) +
                length (queued_of_app q (Application_GetId app))" "n < 2 ^ 31"
  shows "(NeedsMoreInstances (InMemoryStore_kv it) dec ts q app \<longleftrightarrow>
            Application_GetActive app \<and> (\<exists>sla. Application_GetSla app = Some sla \<and>
               int n < sint (ApplicationSLA_GetMinInstances (Some sla)))) \<and>
         (CanDeployMoreInstances (InMemoryStore_kv it) dec ts q app \<longleftrightarrow>
            Application_GetActive app \<and> (\<forall>sla. Application_GetSla app = Some sla \<longrightarrow>
               int n < sint (ApplicationSLA_GetMaxInstances (Some sla))))"
proof -
  have "sint (DefaultTaskStore_RunningAppsCount (InMemoryStore_kv it) dec (Application_GetId app) ts +
      CountAppsForID q (Application_GetId app)) = int n"
    using sint_of_nat_int32 [OF n(2)] n(1)
    by (simp add: mem.RunningAppsCount_tasks [OF assms(1)] CountAppsForID_queued)
  then show ?thesis
    by (simp add: NeedsMoreInstances_def CanDeployMoreInstances_def Let_def split: option.split)
qed

text \<open>The two questions the task manager asks answer by the same count, the STARTED and
  the queued instances: an application needs another instance when it is active, has an SLA and the
  count is below its minimum, and may get one when it is active and has no SLA or the count is
  below its maximum. An application whose minimum is at most its maximum that needs an instance may get it.\<close>

theorem Needs_and_CanDeploy:
  assumes "ims_wf (dts_store ts)"
    and n: "n = card (tasks_of_app dec (ims_abs (dts_store ts)) (Application_GetId app) (\<lambda>s. s = AppStatus_STARTED)) +
                length (queued_of_app q (Application_GetId app))" "n < 2 ^ 31"
  shows "(NeedsMoreInstances (InMemoryStore_kv it) dec ts q app \<longleftrightarrow>
            Application_GetActive app \<and> (\<exists>sla. Application_GetSla app = Some sla \<and>
               int n < sint (ApplicationSLA_GetMinInstances (Some sla)))) \<and>
         (CanDeployMoreInstances (InMemoryStore_kv it) dec ts q app \<longleftrightarrow>
            Application_GetActive app \<and> (\<forall>sla. Application_GetSla app = Some sla \<longrightarrow>
               int n < sint (ApplicationSLA_GetMaxInstances (Some sla))))"
  by (rule Needs_CanDeploy_count [OF assms])

theorem Needs_and_CanDeploy_witness:
  "\<not> NeedsMoreInstances (InMemoryStore_kv id) (table_dec [sample_deployment]) one_task empty_queue (Some (sla_app 1 2)) \<and>
   CanDeployMoreInstances (InMemoryStore_kv id) (table_dec [sample_deployment]) one_task empty_queue (Some (sla_app 1 2))"
proof -
  have n: "1 = card (tasks_of_app (table_dec [sample_deployment]) (ims_abs (dts_store one_task))
        (Application_GetId (Some (sla_app 1 2))) (\<lambda>s. s = AppStatus_STARTED)) +
      length (queued_of_app empty_queue (Application_GetId (Some (sla_app 1 2))))"
    by (simp add: one_task_of_app empty_queue_of_app sla_app_simps sample_deployment_simps)
  show ?thesis using Needs_and_CanDeploy [OF one_task_wf n, of id]
    by (simp add: sla_app_simps sla_bounds_simps)
qed

text \<open>The guard and the periodic check count differently: an application with an SLA of exactly
  one instance and one instance being deployed may still get another one, because
  \<open>CanDeployMoreInstances\<close> does not count DEPLOYING tasks, although the periodic check
  finds it complete.\<close>

theorem CanDeploy_ignores_deploying:
  "let d = sample_deployment\<lparr>dep_Status := Some AppStatus_DEPLOYING\<rparr> in
   CanDeployMoreInstances (InMemoryStore_kv it) (table_dec [d]) one_task empty_queue (Some (sla_app 1 1)) \<and>
   change_of_app (InMemoryStore_kv it) (table_dec [d]) one_task empty_queue (Some (sla_app 1 1)) [] = []"
proof -
  let ?d = "sample_deployment\<lparr>dep_Status := Some AppStatus_DEPLOYING\<rparr>"
  have d: "Deployment_GetAppId (Some ?d) = ''web''" "Deployment_GetStatus (Some ?d) = AppStatus_DEPLOYING"
    by (simp_all add: sample_deployment_def getter_simps)
  have r: "DefaultTaskStore_RunningAppsCount (InMemoryStore_kv it) (table_dec [?d]) ''web'' one_task = 0"
    by (simp add: mem.RunningAppsCount_tasks [OF one_task_wf] one_task_of_app d)
  have q: "CountAppsForID empty_queue ''web'' = 0" by (simp add: CountAppsForID_queued empty_queue_of_app)
  have "CanDeployMoreInstances (InMemoryStore_kv it) (table_dec [?d]) one_task empty_queue (Some (sla_app 1 1))"
    by (simp add: CanDeployMoreInstances_def sla_app_simps sla_bounds_simps r q)
  moreover have n: "1 = card (tasks_of_app (table_dec [?d]) (ims_abs (dts_store one_task))
        (Application_GetId (Some (sla_app 1 1))) countsAsRunningForActive) +
      length (queued_of_app empty_queue (Application_GetId (Some (sla_app 1 1))))"
    by (simp add: one_task_of_app empty_queue_of_app sla_app_simps d countsAsRunningForActive_def)
  have "change_of_app (InMemoryStore_kv it) (table_dec [?d]) one_task empty_queue (Some (sla_app 1 1)) [] = []"
    using mem.change_of_active_app [OF one_task_wf sla_app_simps(2,3) n, of 1 1 it] by (simp add: sla_bounds_simps)
  ultimately show ?thesis by (simp add: Let_def)
qed

end
