(* ===== verification/Mesos.thy ===== *)
theory Mesos
  imports Protocol
begin

text \<open>
  The messages of the Mesos API the program reads and builds. They belong to the library
  \<open>go-mesos\<close>, which is not part of the repository: the records hold the fields the sources
  name, and the getters behave as every generated protobuf getter does, answering a nil receiver
  or an absent field with the zero value.
\<close>

record Value_Range =
  vr_Begin :: "uint64 option"
  vr_End :: "uint64 option"

definition Value_Range_GetBegin :: "Value_Range option \<Rightarrow> uint64" where [getter_simps]:
  "Value_Range_GetBegin m = (case m of None \<Rightarrow> 0 | Some x \<Rightarrow> case_option 0 id (vr_Begin x))"

definition Value_Range_GetEnd :: "Value_Range option \<Rightarrow> uint64" where [getter_simps]:
  "Value_Range_GetEnd m = (case m of None \<Rightarrow> 0 | Some x \<Rightarrow> case_option 0 id (vr_End x))"

record Value_Ranges =
  vrs_Range :: "Value_Range list"

definition Value_Ranges_GetRange :: "Value_Ranges option \<Rightarrow> Value_Range list" where [getter_simps]:
  "Value_Ranges_GetRange m = (case m of None \<Rightarrow> [] | Some x \<Rightarrow> vrs_Range x)"

record Value_Scalar =
  vs_Value :: "gofloat option"

definition Value_Scalar_GetValue :: "Value_Scalar option \<Rightarrow> gofloat" where [getter_simps]:
  "Value_Scalar_GetValue m = (case m of None \<Rightarrow> f_zero | Some x \<Rightarrow> case_option f_zero id (vs_Value x))"

datatype Value_Type = Value_SCALAR | Value_RANGES | Value_SET | Value_TEXT

record Resource =
  res_Name :: "string option"
  res_Type :: "Value_Type option"
  res_Scalar :: "Value_Scalar option"
  res_Ranges :: "Value_Ranges option"

definition Resource_GetName :: "Resource \<Rightarrow> string" where [getter_simps]:
  "Resource_GetName x = case_option '''' id (res_Name x)"

definition Resource_GetScalar :: "Resource \<Rightarrow> Value_Scalar option" where [getter_simps]:
  "Resource_GetScalar x = res_Scalar x"

definition Resource_GetRanges :: "Resource \<Rightarrow> Value_Ranges option" where [getter_simps]:
  "Resource_GetRanges x = res_Ranges x"

record FrameworkID =
  fid_Value :: "string option"

definition FrameworkID_GetValue :: "FrameworkID option \<Rightarrow> string" where [getter_simps]:
  "FrameworkID_GetValue m = (case m of None \<Rightarrow> [] | Some x \<Rightarrow> case_option [] id (fid_Value x))"

record OfferID =
  oid_Value :: "string option"

record Offer =
  off_Id :: "OfferID option"
  off_FrameworkId :: "FrameworkID option"
  off_SlaveId :: "SlaveID option"
  off_Hostname :: "string option"
  off_Resources :: "Resource list"

record Environment_Variable =
  ev_Name :: "string option"
  ev_Value :: "string option"

record Environment =
  env_Variables :: "Environment_Variable list"

record ContainerInfo =
  ci_Image :: "string option"
  ci_Options :: "string list"

record CommandInfo =
  cmd_Container :: "ContainerInfo option"
  cmd_Environment :: "Environment option"
  cmd_Value :: "string option"

record TaskInfo =
  ti_Name :: "string option"
  ti_TaskId :: "TaskID option"
  ti_SlaveId :: "SlaveID option"
  ti_Command :: "CommandInfo option"
  ti_Resources :: "Resource list"

record FrameworkInfo =
  fi_User :: "string option"
  fi_Name :: "string option"
  fi_Id :: "FrameworkID option"

datatype TaskState = TASK_STAGING | TASK_STARTING | TASK_RUNNING | TASK_FINISHED | TASK_FAILED | TASK_KILLED | TASK_LOST

text \<open>\<open>State\<close> is a required field of a status update.\<close>

record TaskStatus =
  tst_TaskId :: "TaskID option"
  tst_State :: TaskState
  tst_Message :: "string option"
  tst_SlaveId :: "SlaveID option"

end
