(* ===== verification/GoStrings.thy ===== *)
theory GoStrings
  imports Prelude
begin

text \<open>
  What the program uses of Go's \<open>strings\<close> and \<open>strconv\<close>. A Go string is a list of bytes, here
  characters. \<open>ToUpper\<close>, \<open>ToLower\<close> and \<open>EqualFold\<close> are those of ASCII text, which is what the
  program applies them to (port names and URL schemes); other bytes are left alone.
\<close>

definition upper_char :: "char \<Rightarrow> char" where
  "upper_char c = (if 97 \<le> (of_char c :: nat) \<and> (of_char c :: nat) \<le> 122 then char_of ((of_char c :: nat) - 32) else c)"

definition lower_char :: "char \<Rightarrow> char" where
  "lower_char c = (if 65 \<le> (of_char c :: nat) \<and> (of_char c :: nat) \<le> 90 then char_of ((of_char c :: nat) + 32) else c)"

definition ToUpper :: "string \<Rightarrow> string" where
  "ToUpper s = map upper_char s"

definition ToLower :: "string \<Rightarrow> string" where
  "ToLower s = map lower_char s"

definition EqualFold :: "string \<Rightarrow> string \<Rightarrow> bool" where
  "EqualFold s t \<longleftrightarrow> ToLower s = ToLower t"

text \<open>\<open>strconv.Itoa\<close>, and \<open>%d\<close> and \<open>%v\<close> of an integer: its decimal digits.\<close>

definition digit :: "nat \<Rightarrow> char" where
  "digit n = char_of (48 + n)"

fun nat_digits :: "nat \<Rightarrow> string" where
  "nat_digits n = (if n < 10 then [digit n] else nat_digits (n div 10) @ [digit (n mod 10)])"

declare nat_digits.simps [simp del]

definition Itoa :: "int \<Rightarrow> string" where
  "Itoa i = (if i < 0 then CHR ''-'' # nat_digits (nat (- i)) else nat_digits (nat i))"

text \<open>\<open>strings.Join\<close>.\<close>

fun Join :: "string list \<Rightarrow> string \<Rightarrow> string" where
  "Join [] sep = []"
| "Join [a] sep = a"
| "Join (a # b # rest) sep = a @ sep @ Join (b # rest) sep"

section \<open>Decimal numerals are read back\<close>

definition digits_val :: "string \<Rightarrow> nat" where
  "digits_val s = foldl (\<lambda>v c. 10 * v + (of_char c - 48)) 0 s"

definition Atoi :: "string \<Rightarrow> int" where
  "Atoi s = (case s of c # cs \<Rightarrow> if c = CHR ''-'' then - int (digits_val cs) else int (digits_val s) | [] \<Rightarrow> 0)"

lemma of_char_digit: "n < 10 \<Longrightarrow> of_char (digit n) = 48 + n"
  by (simp add: digit_def)

lemma digits_val_nat_digits: "digits_val (nat_digits n) = n"
proof (induction n rule: nat_digits.induct)
  case (1 n)
  show ?case
  proof (cases "n < 10")
    case True
    then show ?thesis by (subst nat_digits.simps) (simp add: digits_val_def of_char_digit)
  next
    case False
    with 1 have "digits_val (nat_digits (n div 10)) = n div 10" by simp
    with False show ?thesis
      by (subst nat_digits.simps) (simp add: digits_val_def of_char_digit)
  qed
qed

lemma nat_digits_head: "\<exists>d < 10. \<exists>ds. nat_digits n = digit d # ds"
proof (induction n rule: nat_digits.induct)
  case (1 n)
  show ?case
  proof (cases "n < 10")
    case True
    then show ?thesis by (subst nat_digits.simps) auto
  next
    case False
    with 1 obtain d ds where "d < 10" "nat_digits (n div 10) = digit d # ds" by blast
    with False show ?thesis by (subst nat_digits.simps) auto
  qed
qed

lemma Atoi_Itoa: "Atoi (Itoa i) = i"
proof (cases "i < 0")
  case True
  then show ?thesis by (simp add: Atoi_def Itoa_def digits_val_nat_digits)
next
  case False
  obtain d ds where d: "d < 10" "nat_digits (nat i) = digit d # ds" using nat_digits_head by blast
  have "of_char (digit d) \<noteq> (of_char CHR ''-'' :: nat)" by (simp add: of_char_digit [OF d(1)])
  then have "digit d \<noteq> CHR ''-''" by auto
  with False d show ?thesis
    using digits_val_nat_digits [of "nat i"] by (simp add: Atoi_def Itoa_def)
qed

lemma Itoa_inj: "Itoa i = Itoa j \<longleftrightarrow> i = j"
  by (metis Atoi_Itoa)

end
