(* ===== verification/Builders.thy ===== *)
theory Builders
  imports Mesos GoStrings
begin

text \<open>
  The message builders, \<open>src/tasks/builders/builders.go\<close>: the port picker, and the translation
  of a scheduled application and an offer into a Mesos task. Go's \<open>int\<close> and \<open>uint64\<close> are 64-bit
  words, so the arithmetic on ports wraps as it does in the code; the loop that lists the reserved
  ports is a partial function, since with \<open>End = 2^64 - 1\<close> it never ends. \<open>rand.Intn\<close> is an argument,
  reduced into its range, and panics for a non-positive bound. A panic is \<open>None\<close>.
\<close>

record PortRange =
  pr_Begin :: uint64
  pr_End :: uint64

definition PortRangeFor :: "int64 \<Rightarrow> PortRange list \<times> int32 list" where
  "PortRangeFor port = ([\<lparr>pr_Begin = port, pr_End = port\<rparr>], [ucast port])"

text \<open>\<open>rand.Intn\<close>: some number below \<open>n\<close>, the argument \<open>pick\<close> says which.\<close>

definition Intn :: "nat \<Rightarrow> int64 \<Rightarrow> int64 option" where
  "Intn pick n = (if sint n \<le> 0 then None else Some (of_int (int pick mod sint n)))"

definition makePortRange :: "nat \<Rightarrow> int64 \<Rightarrow> int64 \<Rightarrow> int64 \<Rightarrow> PortRange option" where
  "makePortRange pick mn mx cnt =
     (let maxValidBeginPort = mx - mn - cnt + 2
      in case Intn pick maxValidBeginPort of
           None \<Rightarrow> None
         | Some r \<Rightarrow> let beginPort = r + mn
                     in Some \<lparr>pr_Begin = beginPort, pr_End = beginPort + cnt - 1\<rparr>)"

text \<open>\<open>for i := Begin; i <= End; i++\<close>.\<close>

partial_function (option) port_loop :: "uint64 \<Rightarrow> uint64 \<Rightarrow> int32 list \<Rightarrow> int32 list option" where
  [code]: "port_loop i e reservedPorts =
     (if i \<le> e then port_loop (i + 1) e (reservedPorts @ [ucast i]) else Some reservedPorts)"

text \<open>The loop over the ranges of one resource, and the one over the resources; \<open>untaken\<close> is
  what remains to be reserved, and both loops break when it is 0.\<close>

type_synonym picked = "int64 \<times> PortRange list \<times> int32 list"

definition take_range :: "nat \<Rightarrow> Value_Range \<Rightarrow> picked \<Rightarrow> picked option" where
  "take_range pick r st =
     (let (untaken, takenRanges, reservedPorts) = st;
          numAvail = Value_Range_GetEnd (Some r) - Value_Range_GetBegin (Some r) + 1
      in if sint untaken < sint numAvail
         then (case makePortRange pick (Value_Range_GetBegin (Some r)) (Value_Range_GetEnd (Some r)) untaken of
                 None \<Rightarrow> None
               | Some prange \<Rightarrow>
                   map_option (\<lambda>ports. (0, takenRanges @ [prange], ports))
                     (port_loop (pr_Begin prange) (pr_End prange) reservedPorts))
         else Some (untaken, takenRanges, reservedPorts))"

fun ranges_loop :: "nat \<Rightarrow> Value_Range list \<Rightarrow> picked \<Rightarrow> picked option" where
  "ranges_loop pick [] st = Some st"
| "ranges_loop pick (r # rs) st =
     (case take_range pick r st of
        None \<Rightarrow> None
      | Some (u, st') \<Rightarrow> if u = 0 then Some (u, st') else ranges_loop pick rs (u, st'))"

fun resources_loop :: "nat \<Rightarrow> Resource list \<Rightarrow> picked \<Rightarrow> picked option" where
  "resources_loop pick [] st = Some st"
| "resources_loop pick (resource # rs) st =
     (case (if Resource_GetName resource = ''ports''
            then ranges_loop pick (Value_Ranges_GetRange (Resource_GetRanges resource)) st
            else Some st) of
        None \<Rightarrow> None
      | Some (u, st') \<Rightarrow> if u = 0 then Some (u, st') else resources_loop pick rs (u, st'))"

definition GetPorts :: "nat \<Rightarrow> Offer \<Rightarrow> int64 \<Rightarrow> (PortRange list \<times> int32 list) option" where
  "GetPorts pick offer cnt =
     map_option (\<lambda>(_, takenRanges, reservedPorts). (takenRanges, reservedPorts))
       (resources_loop pick (off_Resources offer) (cnt, [], []))"

section \<open>MesosMessageBuilder\<close>

text \<open>\<open>mesos.ScalarResource\<close> is the argument \<open>scalar\<close>.\<close>

definition BuildResources ::
  "(string \<Rightarrow> gofloat \<Rightarrow> Resource) \<Rightarrow> Application option \<Rightarrow> PortRange list \<Rightarrow> Resource list" where
  "BuildResources scalar component ports =
     (let pres = fold (\<lambda>port pres. pres @ [\<lparr>vr_Begin = Some (pr_Begin port), vr_End = Some (pr_End port)\<rparr>]) ports []
      in [scalar ''cpus'' (Application_GetCpus component),
          scalar ''mem'' (Application_GetMem component),
          \<lparr>res_Name = Some ''ports'', res_Type = Some Value_RANGES, res_Scalar = None,
           res_Ranges = Some \<lparr>vrs_Range = pres\<rparr>\<rparr>])"

text \<open>The second loop indexes \<open>reservedPorts\<close>, which panics when there are fewer of them than ports.\<close>

fun env_ports_loop ::
  "StringIntKeyValue list \<Rightarrow> int32 list \<Rightarrow> nat \<Rightarrow> Environment_Variable list \<Rightarrow> Environment_Variable list option" where
  "env_ports_loop [] reservedPorts i env = Some env"
| "env_ports_loop (port # ports) reservedPorts i env =
     (if i < length reservedPorts
      then env_ports_loop ports reservedPorts (Suc i)
             (env @ [\<lparr>ev_Name = Some (ToUpper (StringIntKeyValue_GetKey (Some port)) @ ''_PORT''),
                      ev_Value = Some (Itoa (sint (StringIntKeyValue_GetValue (Some port))))\<rparr>,
                     \<lparr>ev_Name = Some (ToUpper (StringIntKeyValue_GetKey (Some port)) @ ''_MAPPING''),
                      ev_Value = Some (Itoa (sint (reservedPorts ! i)))\<rparr>])
      else None)"

definition BuildTaskEnvironment ::
  "StringKeyValue list \<Rightarrow> StringIntKeyValue list \<Rightarrow> int32 list \<Rightarrow> Environment option" where
  "BuildTaskEnvironment envList ports reservedPorts =
     (let env = fold (\<lambda>kv env. env @ [\<lparr>ev_Name = kv_Key kv, ev_Value = kv_Value kv\<rparr>]) envList []
      in map_option (\<lambda>env. \<lparr>env_Variables = env\<rparr>) (env_ports_loop ports reservedPorts 0 env))"

text \<open>The loop over the ports of a docker application consumes the reserved ports from the front.\<close>

fun docker_ports_loop ::
  "StringIntKeyValue list \<Rightarrow> int32 list \<Rightarrow> string list \<Rightarrow> PortMapping list \<Rightarrow>
     (string list \<times> PortMapping list) option" where
  "docker_ports_loop [] av options portMapping = Some (options, portMapping)"
| "docker_ports_loop (port # ports) av options portMapping =
     (case av of
        [] \<Rightarrow> None
      | p # pp \<Rightarrow>
          docker_ports_loop ports pp
            (options @ [''-p'', Itoa (sint p) @ '':'' @ Itoa (sint (StringIntKeyValue_GetValue (Some port)))])
            (portMapping @ [\<lparr>pm_Scheme = Some (ToUpper (StringIntKeyValue_GetKey (Some port))),
                             pm_PrivatePort = ikv_Value port, pm_PublicPort = Some p\<rparr>]))"

definition BuildContainerInfo ::
  "Application option \<Rightarrow> int32 list \<Rightarrow> (ContainerInfo option \<times> PortMapping list) option" where
  "BuildContainerInfo component reservedPorts =
     (case component of
        None \<Rightarrow> None
      | Some c \<Rightarrow>
          if Application_GetDistribution component \<noteq> Distribution_DOCKER
          then Some (None,
                 fold (\<lambda>port pm. pm @ [\<lparr>pm_Scheme = Some (ToUpper (StringIntKeyValue_GetKey (Some port))),
                                        pm_PrivatePort = ikv_Value port, pm_PublicPort = ikv_Value port\<rparr>])
                   (app_Ports c) [])
          else map_option
                 (\<lambda>(options, portMapping).
                    (Some \<lparr>ci_Image = Some (''docker:///'' @ Application_GetName component @ '':'' @
                                           Application_GetVersion component),
                           ci_Options = options\<rparr>, portMapping))
                 (docker_ports_loop (app_Ports c) reservedPorts [] []))"

definition BuildMesosCommand ::
  "Application option \<Rightarrow> int32 list \<Rightarrow> (CommandInfo \<times> PortMapping list) option" where
  "BuildMesosCommand component reservedPorts =
     (case BuildContainerInfo component reservedPorts of
        None \<Rightarrow> None
      | Some (containerInfo, portMapping) \<Rightarrow>
          (case BuildTaskEnvironment (Application_GetEnv component) (Application_GetPorts component) reservedPorts of
             None \<Rightarrow> None
           | Some environment \<Rightarrow>
               (case component of
                  None \<Rightarrow> None
                | Some c \<Rightarrow>
                    Some (\<lparr>cmd_Container = containerInfo, cmd_Environment = Some environment,
                           cmd_Value = app_Command c\<rparr>, portMapping))))"

text \<open>\<open>PortPicker\<close> is an interface, the argument \<open>getPorts\<close>; the default is \<open>GetPorts\<close> above.\<close>

definition BuildTaskInfo ::
  "(Offer \<Rightarrow> int64 \<Rightarrow> (PortRange list \<times> int32 list) option) \<Rightarrow> (string \<Rightarrow> gofloat \<Rightarrow> Resource) \<Rightarrow>
   string \<Rightarrow> Offer \<Rightarrow> Application option \<Rightarrow> ScheduledApp \<Rightarrow> (TaskInfo \<times> PortMapping list) option" where
  "BuildTaskInfo getPorts scalar taskID offer component scheduled =
     (case getPorts offer (of_nat (length (Application_GetPorts component))) of
        None \<Rightarrow> None
      | Some (takenRanges, reservedPorts) \<Rightarrow>
          (case BuildMesosCommand component reservedPorts of
             None \<Rightarrow> None
           | Some (commandInfo, portMapping) \<Rightarrow>
               Some (\<lparr>ti_Name = Some (ScheduledApp_GetAppId (Some scheduled)),
                      ti_TaskId = Some \<lparr>tid_Value = Some (''exeggutor-task-'' @ taskID)\<rparr>,
                      ti_SlaveId = off_SlaveId offer,
                      ti_Command = Some commandInfo,
                      ti_Resources = BuildResources scalar component takenRanges\<rparr>, portMapping)))"

section \<open>Picking ports\<close>

text \<open>An offered range as natural numbers, and the ranges of an offer's port resources in order.\<close>

definition range_begin :: "Value_Range \<Rightarrow> nat" where
  "range_begin r = unat (Value_Range_GetBegin (Some r))"

definition range_end :: "Value_Range \<Rightarrow> nat" where
  "range_end r = unat (Value_Range_GetEnd (Some r))"

definition range_size :: "Value_Range \<Rightarrow> nat" where
  "range_size r = range_end r + 1 - range_begin r"

definition valid_range :: "Value_Range \<Rightarrow> bool" where
  "valid_range r \<longleftrightarrow> range_begin r \<le> range_end r \<and> range_end r < 2 ^ 31"

definition port_ranges :: "Offer \<Rightarrow> Value_Range list" where
  "port_ranges offer =
     concat (map (\<lambda>res. Value_Ranges_GetRange (Resource_GetRanges res))
       (filter (\<lambda>res. Resource_GetName res = ''ports'') (off_Resources offer)))"

text \<open>The first port \<open>makePortRange\<close> takes.\<close>

definition first_port :: "nat \<Rightarrow> nat \<Rightarrow> Value_Range \<Rightarrow> nat" where
  "first_port pick c r = range_begin r + pick mod (range_size r + 1 - c)"

lemma range_words:
  "Value_Range_GetBegin (Some r) = of_nat (range_begin r)" "Value_Range_GetEnd (Some r) = of_nat (range_end r)"
  by (simp_all add: range_begin_def range_end_def)

lemma num_avail:
  "valid_range r \<Longrightarrow>
     Value_Range_GetEnd (Some r) - Value_Range_GetBegin (Some r) + 1 = of_nat (range_size r)"
  by (simp add: range_words range_size_def valid_range_def of_nat_diff)

lemma range_size_bound: "valid_range r \<Longrightarrow> range_size r < 2 ^ 32"
  by (rule le_less_trans [of _ "Suc (range_end r)"]) (simp_all add: valid_range_def range_size_def)

lemma Intn_nat: "0 < k \<Longrightarrow> k < 2 ^ 63 \<Longrightarrow> Intn pick (of_nat k) = Some (of_nat (pick mod k))"
  by (simp only: Intn_def sint_of_nat_int64) (simp flip: zmod_int)

lemma makePortRange_Some:
  assumes "valid_range r" and c: "0 < c" "c < range_size r"
  shows "makePortRange pick (Value_Range_GetBegin (Some r)) (Value_Range_GetEnd (Some r)) (of_nat c) =
    Some \<lparr>pr_Begin = of_nat (first_port pick c r), pr_End = of_nat (first_port pick c r + c - 1)\<rparr>"
proof -
  let ?k = "range_size r + 1 - c"
  have "Value_Range_GetEnd (Some r) - Value_Range_GetBegin (Some r) - of_nat c + 2 =
      (Value_Range_GetEnd (Some r) - Value_Range_GetBegin (Some r) + 1) + 1 - of_nat c" by simp
  also have "\<dots> = of_nat ?k" using c by (simp add: num_avail [OF assms(1)] of_nat_diff)
  finally have k: "Value_Range_GetEnd (Some r) - Value_Range_GetBegin (Some r) - of_nat c + 2 = (of_nat ?k :: int64)" .
  have "?k < 2 ^ 63" using range_size_bound [OF assms(1)] by simp
  then have "Intn pick (of_nat ?k) = Some (of_nat (pick mod ?k))" using c by (intro Intn_nat) simp_all
  moreover have "of_nat (pick mod ?k) + Value_Range_GetBegin (Some r) = (of_nat (first_port pick c r) :: uint64)"
    by (simp add: first_port_def range_words)
  moreover have "of_nat (first_port pick c r) + of_nat c - 1 = (of_nat (first_port pick c r + c - 1) :: uint64)"
    using c by (simp add: of_nat_diff)
  ultimately show ?thesis unfolding makePortRange_def k Let_def by simp
qed

lemma port_loop_Some:
  "e < 2 ^ 64 - 1 \<Longrightarrow> i \<le> Suc e \<Longrightarrow>
     port_loop (of_nat i) (of_nat e) acc = Some (acc @ map of_nat [i..<Suc e])"
proof (induction "Suc e - i" arbitrary: i acc)
  case 0
  then have "i = Suc e" by simp
  moreover have "\<not> (of_nat (Suc e) :: uint64) \<le> of_nat e"
    using 0 by (simp add: word_le_nat_alt unat_of_nat take_bit_nat_eq_self del: of_nat_Suc)
  ultimately show ?case by (subst port_loop.simps) simp
next
  case (Suc n)
  then have le: "i \<le> e" by simp
  then have "(of_nat i :: uint64) \<le> of_nat e"
    using Suc.prems by (simp add: word_le_nat_alt unat_of_nat take_bit_nat_eq_self del: of_nat_Suc)
  moreover have "port_loop (of_nat i + 1) (of_nat e) (acc @ [ucast (of_nat i :: uint64)]) =
      Some ((acc @ [ucast (of_nat i :: uint64)]) @ map of_nat [Suc i..<Suc e])"
    using Suc.hyps(1) [of "Suc i" "acc @ [ucast (of_nat i :: uint64)]"] Suc.hyps(2) Suc.prems le
    by (simp add: add.commute del: upt_Suc)
  moreover have "(ucast (of_nat i :: uint64) :: int32) = of_nat i"
    using Suc.prems(1) le by (simp add: unsigned_of_nat take_bit_nat_eq_self)
  ultimately show ?case using le by (subst port_loop.simps) (simp add: upt_conv_Cons del: upt_Suc)
qed

text \<open>What one range contributes, and the search the loops amount to.\<close>

definition fits :: "nat \<Rightarrow> Value_Range \<Rightarrow> bool" where
  "fits c r \<longleftrightarrow> c < range_size r"

lemma fits_words:
  "valid_range r \<Longrightarrow> c < 2 ^ 31 \<Longrightarrow>
     sint (of_nat c :: int64) < sint (Value_Range_GetEnd (Some r) - Value_Range_GetBegin (Some r) + 1) \<longleftrightarrow> fits c r"
  using range_size_bound [of r]
  by (simp add: num_avail fits_def sint_of_nat_int64)

lemma ranges_loop_find:
  assumes "\<forall>r \<in> set rs. valid_range r" and c: "0 < c" "c < 2 ^ 31"
  shows "ranges_loop pick rs (of_nat c, [], []) =
    Some (case List.find (fits c) rs of
            None \<Rightarrow> (of_nat c, [], [])
          | Some r \<Rightarrow> let x = first_port pick c r
                      in (0, [\<lparr>pr_Begin = of_nat x, pr_End = of_nat (x + c - 1)\<rparr>], map of_nat [x..<x + c]))"
  using assms(1)
proof (induction rs)
  case (Cons r rs)
  then have v: "valid_range r" by simp
  have nz: "(of_nat c :: int64) \<noteq> 0" using c by (simp add: word_unat_eq_iff unat_of_nat take_bit_nat_eq_self)
  show ?case
  proof (cases "fits c r")
    case True
    then have cr: "c < range_size r" by (simp add: fits_def)
    let ?x = "first_port pick c r"
    have "pick mod (range_size r + 1 - c) < range_size r + 1 - c" using cr by simp
    then have "?x + c \<le> range_begin r + range_size r" using cr unfolding first_port_def by linarith
    also have "\<dots> < 2 ^ 32" using v by (simp add: valid_range_def range_size_def)
    finally have "port_loop (of_nat ?x) (of_nat (?x + c - 1)) [] = Some ([] @ map of_nat [?x..<Suc (?x + c - 1)])"
      using c by (intro port_loop_Some) simp_all
    with True show ?thesis
      using c by (simp add: take_range_def fits_words [OF v c(2)] makePortRange_Some [OF v c(1) cr] Let_def)
  next
    case False
    with Cons show ?thesis by (simp add: take_range_def fits_words [OF v c(2)] nz)
  qed
qed simp

lemma ranges_loop_append:
  "u \<noteq> 0 \<Longrightarrow>
     ranges_loop pick (xs @ ys) (u, st) =
       (case ranges_loop pick xs (u, st) of
          None \<Rightarrow> None
        | Some (u', st') \<Rightarrow> if u' = 0 then Some (u', st') else ranges_loop pick ys (u', st'))"
  by (induction xs arbitrary: u st) (auto simp: Let_def split: option.splits prod.splits)

lemma resources_loop_ranges:
  "u \<noteq> 0 \<Longrightarrow>
     resources_loop pick res (u, st) =
       ranges_loop pick (concat (map (\<lambda>r. Value_Ranges_GetRange (Resource_GetRanges r))
         (filter (\<lambda>r. Resource_GetName r = ''ports'') res))) (u, st)"
  by (induction res arbitrary: u st) (auto simp: ranges_loop_append split: option.splits prod.splits)

definition valid_offer :: "Offer \<Rightarrow> bool" where
  "valid_offer offer \<longleftrightarrow> (\<forall>r \<in> set (port_ranges offer). valid_range r)"

lemma GetPorts_eq:
  assumes "valid_offer offer" and c: "0 < c" "c < 2 ^ 31"
  shows "GetPorts pick offer (of_nat c) =
    Some (case List.find (fits c) (port_ranges offer) of
            None \<Rightarrow> ([], [])
          | Some r \<Rightarrow> let x = first_port pick c r
                      in ([\<lparr>pr_Begin = of_nat x, pr_End = of_nat (x + c - 1)\<rparr>], map of_nat [x..<x + c]))"
proof -
  have "(of_nat c :: int64) \<noteq> 0" using c by (simp add: word_unat_eq_iff unat_of_nat take_bit_nat_eq_self)
  then show ?thesis
    using ranges_loop_find [OF _ c, of "port_ranges offer" pick] assms(1)
    by (simp add: GetPorts_def resources_loop_ranges valid_offer_def port_ranges_def Let_def split: option.split)
qed

section \<open>What is built\<close>

lemma env_ports_loop_eq:
  "env_ports_loop ports reserved i env =
     (if ports = [] \<or> i + length ports \<le> length reserved
      then Some (env @ concat (map (\<lambda>(port, p).
             [\<lparr>ev_Name = Some (ToUpper (StringIntKeyValue_GetKey (Some port)) @ ''_PORT''),
               ev_Value = Some (Itoa (sint (StringIntKeyValue_GetValue (Some port))))\<rparr>,
              \<lparr>ev_Name = Some (ToUpper (StringIntKeyValue_GetKey (Some port)) @ ''_MAPPING''),
               ev_Value = Some (Itoa (sint p))\<rparr>]) (zip ports (drop i reserved))))
      else None)"
proof (induction ports arbitrary: i env)
  case (Cons port ports)
  show ?case
  proof (cases "i < length reserved")
    case True
    then show ?thesis using Cons.IH [of "Suc i"] by (auto simp: Cons_nth_drop_Suc [symmetric])
  qed simp
qed simp

definition docker_mapping :: "StringIntKeyValue \<Rightarrow> int32 \<Rightarrow> PortMapping" where
  "docker_mapping port p = \<lparr>pm_Scheme = Some (ToUpper (StringIntKeyValue_GetKey (Some port))),
     pm_PrivatePort = ikv_Value port, pm_PublicPort = Some p\<rparr>"

lemma docker_ports_loop_eq:
  "docker_ports_loop ports av options pm =
     (if length ports \<le> length av
      then Some (options @ concat (map (\<lambda>(port, p).
                   [''-p'', Itoa (sint p) @ '':'' @ Itoa (sint (StringIntKeyValue_GetValue (Some port)))]) (zip ports av)),
                 pm @ map (\<lambda>(port, p). docker_mapping port p) (zip ports av))
      else None)"
  by (induction ports arbitrary: av options pm) (auto simp: docker_mapping_def split: list.split)

text \<open>Whether a command can be built depends on the number of reserved ports alone.\<close>

lemma BuildMesosCommand_defined:
  "(BuildMesosCommand component reserved \<noteq> None) \<longleftrightarrow>
     component \<noteq> None \<and> length (Application_GetPorts component) \<le> length reserved"
  by (cases component)
     (auto simp: BuildMesosCommand_def BuildContainerInfo_def BuildTaskEnvironment_def env_ports_loop_eq
        docker_ports_loop_eq Application_GetPorts_def split: option.splits prod.splits)

lemma find_fits: "List.find (fits c) rs = None \<longleftrightarrow> (\<forall>r \<in> set rs. range_size r \<le> c)"
  by (auto simp: find_None_iff fits_def not_less)

lemma GetPorts_fits:
  assumes "valid_offer offer" and c: "0 < c" "c < 2 ^ 31" and "\<exists>r \<in> set (port_ranges offer). c < range_size r"
  obtains r x where "r \<in> set (port_ranges offer)" and "range_begin r \<le> x"
    and "x + c \<le> range_begin r + range_size r" and "x + c \<le> 2 ^ 31"
    and "GetPorts pick offer (of_nat c) =
      Some ([\<lparr>pr_Begin = of_nat x, pr_End = of_nat (x + c - 1)\<rparr>], map of_nat [x..<x + c])"
proof -
  from assms(4) obtain r where r: "List.find (fits c) (port_ranges offer) = Some r"
    using find_fits [of c "port_ranges offer"] by (metis not_None_eq not_less)
  then have in_r: "r \<in> set (port_ranges offer)" "c < range_size r" by (auto simp: find_Some_iff fits_def)
  let ?x = "first_port pick c r"
  have "pick mod (range_size r + 1 - c) < range_size r + 1 - c" using in_r by simp
  then have x: "?x + c \<le> range_begin r + range_size r" using in_r unfolding first_port_def by linarith
  moreover have "range_begin r + range_size r \<le> 2 ^ 31"
    using in_r assms(1) by (auto simp: valid_offer_def valid_range_def range_size_def)
  ultimately show thesis
    using that [OF in_r(1), of ?x] GetPorts_eq [OF assms(1) c, of pick] r
    by (simp add: first_port_def Let_def)
qed

definition sample_offer :: "nat \<Rightarrow> nat \<Rightarrow> Offer" where
  "sample_offer b e = \<lparr>off_Id = Some \<lparr>oid_Value = Some ''offer-1''\<rparr>, off_FrameworkId = None,
     off_SlaveId = Some \<lparr>sid_Value = Some ''slave-1''\<rparr>, off_Hostname = Some ''host'',
     off_Resources = [\<lparr>res_Name = Some ''cpus'', res_Type = Some Value_SCALAR,
                       res_Scalar = Some \<lparr>vs_Value = Some (Fin 4)\<rparr>, res_Ranges = None\<rparr>,
                      \<lparr>res_Name = Some ''mem'', res_Type = Some Value_SCALAR,
                       res_Scalar = Some \<lparr>vs_Value = Some (Fin 8)\<rparr>, res_Ranges = None\<rparr>,
                      \<lparr>res_Name = Some ''ports'', res_Type = Some Value_RANGES, res_Scalar = None,
                       res_Ranges = Some \<lparr>vrs_Range = [\<lparr>vr_Begin = Some (of_nat b), vr_End = Some (of_nat e)\<rparr>]\<rparr>\<rparr>]\<rparr>"

lemma sample_offer_ranges:
  "port_ranges (sample_offer b e) = [\<lparr>vr_Begin = Some (of_nat b), vr_End = Some (of_nat e)\<rparr>]"
  by (simp add: port_ranges_def sample_offer_def getter_simps)

lemma sample_range:
  assumes "b \<le> e" and "e < 2 ^ 31"
  shows "range_begin \<lparr>vr_Begin = Some (of_nat b), vr_End = Some (of_nat e)\<rparr> = b"
    "range_size \<lparr>vr_Begin = Some (of_nat b), vr_End = Some (of_nat e)\<rparr> = e + 1 - b"
    "valid_offer (sample_offer b e)"
  using assms
  by (simp_all add: range_begin_def range_end_def range_size_def valid_offer_def sample_offer_ranges
      valid_range_def getter_simps unat_of_nat take_bit_nat_eq_self)

section \<open>Properties\<close>

text \<open>C30. The port picker returns: either some offered range has more ports than are asked for, and it
  reserves as many consecutive ports inside one such range, reported as one range and as the list of its
  ports, or no range has, and it reserves nothing. A range of exactly the size asked for is not used.\<close>

theorem GetPorts_reserves:
  assumes "valid_offer offer" and "0 < c" and "c < 2 ^ 31"
  shows "\<exists>taken reserved. GetPorts pick offer (of_nat c) = Some (taken, reserved) \<and>
    (if \<forall>r \<in> set (port_ranges offer). range_size r \<le> c
     then taken = [] \<and> reserved = []
     else \<exists>r \<in> set (port_ranges offer). \<exists>x. range_begin r \<le> x \<and> x + c \<le> range_begin r + range_size r \<and>
            taken = [\<lparr>pr_Begin = of_nat x, pr_End = of_nat (x + c - 1)\<rparr>] \<and>
            reserved = map of_nat [x..<x + c] \<and> distinct reserved)"
proof (cases "\<forall>r \<in> set (port_ranges offer). range_size r \<le> c")
  case True
  then show ?thesis using GetPorts_eq [OF assms, of pick] find_fits [of c "port_ranges offer"] by simp
next
  case False
  then have "\<exists>r \<in> set (port_ranges offer). c < range_size r" by (simp add: not_le)
  then obtain r x where rx: "r \<in> set (port_ranges offer)" "range_begin r \<le> x"
    "x + c \<le> range_begin r + range_size r" "x + c \<le> 2 ^ 31"
    "GetPorts pick offer (of_nat c) =
       Some ([\<lparr>pr_Begin = of_nat x, pr_End = of_nat (x + c - 1)\<rparr>], map of_nat [x..<x + c])"
    by (rule GetPorts_fits [OF assms])
  have "inj_on (of_nat :: nat \<Rightarrow> int32) {x..<x + c}"
    using rx(4) by (auto simp: inj_on_def word_unat_eq_iff unat_of_nat take_bit_nat_eq_self)
  then have "distinct (map (of_nat :: nat \<Rightarrow> int32) [x..<x + c])" by (simp add: distinct_map)
  with False rx show ?thesis by auto
qed

theorem GetPorts_reserves_witness:
  "GetPorts 5 (sample_offer 31000 31000) (of_nat 1) = Some ([], []) \<and>
   (\<exists>x taken. GetPorts 5 (sample_offer 31000 32000) (of_nat 2) = Some (taken, map of_nat [x..<x + 2]) \<and>
      31000 \<le> x \<and> x \<le> 31999)"
proof
  show "GetPorts 5 (sample_offer 31000 31000) (of_nat 1) = Some ([], [])"
    using GetPorts_reserves [OF sample_range(3), of 31000 31000 1 5]
    by (simp add: sample_offer_ranges sample_range del: of_nat_numeral)
  show "\<exists>x taken. GetPorts 5 (sample_offer 31000 32000) (of_nat 2) = Some (taken, map of_nat [x..<x + 2]) \<and>
      31000 \<le> x \<and> x \<le> 31999"
    using GetPorts_reserves [OF sample_range(3), of 31000 32000 2 5]
    by (auto simp: sample_offer_ranges sample_range simp del: of_nat_numeral upt_Suc)
qed

text \<open>C29. When some offered range has more ports than the application declares, building the task
  succeeds and every part of it agrees on the reservation: the task claims one port range inside
  an offered one, every declared port has a \<open>_MAPPING\<close> variable with its reserved port in decimal,
  and for a docker application the port mapping publishes exactly these ports.\<close>

theorem BuildTaskInfo_uses_reserved_ports:
  assumes "valid_offer offer" and n: "n = length (app_Ports c)" "0 < n" "n < 2 ^ 31"
    and "\<exists>r \<in> set (port_ranges offer). n < range_size r"
  shows "\<exists>r \<in> set (port_ranges offer). \<exists>x task pm command environment.
    range_begin r \<le> x \<and> x + n \<le> range_begin r + range_size r \<and>
    BuildTaskInfo (GetPorts pick) scalar taskID offer (Some c) scheduled = Some (task, pm) \<and>
    ti_Resources task =
      [scalar ''cpus'' (Application_GetCpus (Some c)), scalar ''mem'' (Application_GetMem (Some c)),
       \<lparr>res_Name = Some ''ports'', res_Type = Some Value_RANGES, res_Scalar = None, res_Ranges =
          Some \<lparr>vrs_Range = [\<lparr>vr_Begin = Some (of_nat x), vr_End = Some (of_nat (x + n - 1))\<rparr>]\<rparr>\<rparr>] \<and>
    ti_Command task = Some command \<and> cmd_Environment command = Some environment \<and>
    (\<forall>i < n. \<lparr>ev_Name = Some (ToUpper (StringIntKeyValue_GetKey (Some (app_Ports c ! i))) @ ''_MAPPING''),
              ev_Value = Some (Itoa (int (x + i)))\<rparr> \<in> set (env_Variables environment)) \<and>
    (Application_GetDistribution (Some c) = Distribution_DOCKER \<longrightarrow>
       pm = map (\<lambda>i. docker_mapping (app_Ports c ! i) (of_nat (x + i))) [0..<n])"
proof -
  obtain r x where rx: "r \<in> set (port_ranges offer)" "range_begin r \<le> x"
    "x + n \<le> range_begin r + range_size r" "x + n \<le> 2 ^ 31"
    "GetPorts pick offer (of_nat n) =
       Some ([\<lparr>pr_Begin = of_nat x, pr_End = of_nat (x + n - 1)\<rparr>], map of_nat [x..<x + n])"
    by (rule GetPorts_fits [OF assms(1) n(2,3) assms(5)])
  let ?reserved = "map of_nat [x..<x + n] :: int32 list"
  have ports: "Application_GetPorts (Some c) = app_Ports c" by (simp add: getter_simps)
  have len: "length ?reserved = n" by simp
  obtain command pm where cmd: "BuildMesosCommand (Some c) ?reserved = Some (command, pm)"
    using BuildMesosCommand_defined [of "Some c" ?reserved] len n(1) ports by auto
  then obtain environment where env: "cmd_Environment command = Some environment"
    "BuildTaskEnvironment (Application_GetEnv (Some c)) (app_Ports c) ?reserved = Some environment"
    by (auto simp: BuildMesosCommand_def ports split: option.splits prod.splits)
  have pm: "pm = map (\<lambda>i. docker_mapping (app_Ports c ! i) (of_nat (x + i))) [0..<n]"
    if "Application_GetDistribution (Some c) = Distribution_DOCKER"
  proof -
    have "pm = map (\<lambda>(port, p). docker_mapping port p) (zip (app_Ports c) ?reserved)"
      using cmd that n(1) by (auto simp: BuildMesosCommand_def BuildContainerInfo_def docker_ports_loop_eq split: option.splits)
    also have "\<dots> = map (\<lambda>i. docker_mapping (app_Ports c ! i) (of_nat (x + i))) [0..<n]"
      using n(1) by (intro nth_equalityI) auto
    finally show ?thesis .
  qed
  have "\<lparr>ev_Name = Some (ToUpper (StringIntKeyValue_GetKey (Some (app_Ports c ! i))) @ ''_MAPPING''),
         ev_Value = Some (Itoa (int (x + i)))\<rparr> \<in> set (env_Variables environment)" if "i < n" for i
  proof -
    have "(app_Ports c ! i, of_nat (x + i)) \<in> set (zip (app_Ports c) ?reserved)"
      using that n(1) by (auto simp: in_set_zip intro!: exI [of _ i])
    moreover have "sint (of_nat (x + i) :: int32) = int (x + i)"
      using that rx(4) by (intro sint_of_nat_int32) simp
    ultimately show ?thesis
      using env(2) n(1) by (fastforce simp: BuildTaskEnvironment_def env_ports_loop_eq simp del: of_nat_add)
  qed
  then show ?thesis
    using rx cmd env(1) pm n(1)
    by (intro bexI [OF _ rx(1)] exI [of _ x])
       (simp add: BuildTaskInfo_def ports BuildResources_def)
qed

definition docker_app :: Application where
  "docker_app = Application_zero\<lparr>app_Id := Some ''web'', app_Name := Some ''web'', app_Version := Some ''1'',
     app_Cpus := Some (Fin 1), app_Mem := Some (Fin 1), app_Active := Some True,
     app_Ports := [\<lparr>ikv_Key = Some ''http'', ikv_Value = Some 8080\<rparr>],
     app_Distribution := Some Distribution_DOCKER\<rparr>"

lemma docker_app_simps:
  "app_Ports docker_app = [\<lparr>ikv_Key = Some ''http'', ikv_Value = Some 8080\<rparr>]"
  "Application_GetPorts (Some docker_app) = [\<lparr>ikv_Key = Some ''http'', ikv_Value = Some 8080\<rparr>]"
  "Application_GetDistribution (Some docker_app) = Distribution_DOCKER"
  by (simp_all add: docker_app_def Application_zero_def getter_simps)

definition sample_scalar :: "string \<Rightarrow> gofloat \<Rightarrow> Resource" where
  "sample_scalar name v =
     \<lparr>res_Name = Some name, res_Type = Some Value_SCALAR, res_Scalar = Some \<lparr>vs_Value = Some v\<rparr>, res_Ranges = None\<rparr>"

theorem BuildTaskInfo_uses_reserved_ports_witness:
  "\<exists>x task pm. 31000 \<le> x \<and> x \<le> 32000 \<and>
     BuildTaskInfo (GetPorts 7) sample_scalar ''1'' (sample_offer 31000 32000) (Some docker_app) ScheduledApp_zero = Some (task, pm) \<and>
     pm = [docker_mapping \<lparr>ikv_Key = Some ''http'', ikv_Value = Some 8080\<rparr> (of_nat x)]"
proof -
  have "valid_offer (sample_offer 31000 32000)" by (rule sample_range) simp_all
  moreover have "\<exists>r \<in> set (port_ranges (sample_offer 31000 32000)). 1 < range_size r"
    using sample_range(2) [of 31000 32000] by (simp add: sample_offer_ranges)
  ultimately show ?thesis
    using BuildTaskInfo_uses_reserved_ports [of "sample_offer 31000 32000" 1 docker_app 7 sample_scalar "''1''" ScheduledApp_zero]
      sample_range(1,2) [of 31000 32000]
    by (fastforce simp: sample_offer_ranges docker_app_simps)
qed

text \<open>Without a range that has more ports than the application declares, nothing is reserved and
  building the task panics.\<close>

lemma BuildTaskInfo_panics:
  assumes "valid_offer offer" and n: "n = length (app_Ports c)" "0 < n" "n < 2 ^ 31"
    and "\<forall>r \<in> set (port_ranges offer). range_size r \<le> n"
  shows "BuildTaskInfo (GetPorts pick) scalar taskID offer (Some c) scheduled = None"
proof -
  have ports: "Application_GetPorts (Some c) = app_Ports c" by (simp add: getter_simps)
  have "GetPorts pick offer (of_nat n) = Some ([], [])"
    using GetPorts_eq [OF assms(1) n(2,3), of pick] assms(5) find_fits [of n "port_ranges offer"] by simp
  moreover have "BuildMesosCommand (Some c) [] = None"
    using BuildMesosCommand_defined [of "Some c" "[]"] n ports by (cases "BuildMesosCommand (Some c) []") auto
  ultimately show ?thesis using n(1) by (simp add: BuildTaskInfo_def ports)
qed

end
