(* ===== verification/HealthCheckKinds.thy ===== *)
theory HealthCheckKinds
  imports Protocol GoStrings
begin

text \<open>
  The kinds of health check, \<open>src/health/check/common.go\<close>, \<open>tcp.go\<close> and \<open>http.go\<close>: how a check
  is configured from the SLA, what one check reports, and what \<open>Update\<close> changes. Times are
  nanoseconds on an unbounded clock, durations are 64-bit as in Go, so converting milliseconds
  wraps. The network is an argument: \<open>dial\<close> is \<open>net.DialTimeout\<close>, \<open>newRequest\<close> and \<open>send\<close>
  are the HTTP client's.
\<close>

type_synonym go_time = int
type_synonym duration = int64

definition time_Add :: "go_time \<Rightarrow> duration \<Rightarrow> go_time" where
  "time_Add t d = t + sint d"

text \<open>\<open>time.Duration(ms) * time.Millisecond\<close>.\<close>

definition millis :: "int64 \<Rightarrow> duration" where
  "millis ms = ms * 1000000"

record Result =
  r_ID :: string
  r_Code :: HealthCheckResultCode
  r_Reason :: string
  r_NextCheck :: go_time

text \<open>An error of the network: a \<open>net.Error\<close>, which says whether it is a timeout, or another error.\<close>

datatype neterr = NetError string bool | OtherError string

fun err_Error :: "neterr \<Rightarrow> string" where
  "err_Error (NetError m _) = m"
| "err_Error (OtherError m) = m"

fun str_prefix :: "string \<Rightarrow> string \<Rightarrow> bool" where
  "str_prefix [] _ = True"
| "str_prefix (c # cs) [] = False"
| "str_prefix (c # cs) (d # ds) = (c = d \<and> str_prefix cs ds)"

fun str_Contains :: "string \<Rightarrow> string \<Rightarrow> bool" where
  "str_Contains [] t = (t = [])"
| "str_Contains (c # cs) t = (str_prefix t (c # cs) \<or> str_Contains cs t)"

section \<open>Results\<close>

definition successResult :: "string \<Rightarrow> go_time \<Rightarrow> Result" where
  "successResult i next_at = \<lparr>r_ID = i, r_Code = HealthCheckResultCode_HEALTHY, r_Reason = [], r_NextCheck = next_at\<rparr>"

definition faultyResult :: "string \<Rightarrow> go_time \<Rightarrow> Result" where
  "faultyResult i next_at = \<lparr>r_ID = i, r_Code = HealthCheckResultCode_ERROR, r_Reason = [], r_NextCheck = next_at\<rparr>"

definition downResult :: "string \<Rightarrow> go_time \<Rightarrow> Result" where
  "downResult i next_at = \<lparr>r_ID = i, r_Code = HealthCheckResultCode_DOWN, r_Reason = [], r_NextCheck = next_at\<rparr>"

definition timedOutResult :: "string \<Rightarrow> go_time \<Rightarrow> Result" where
  "timedOutResult i next_at = \<lparr>r_ID = i, r_Code = HealthCheckResultCode_TIMEDOUT, r_Reason = [], r_NextCheck = next_at\<rparr>"

definition errorResult :: "neterr \<Rightarrow> string \<Rightarrow> go_time \<Rightarrow> Result" where
  "errorResult err i next_at =
     (if (case err of NetError _ timeout \<Rightarrow> timeout | OtherError _ \<Rightarrow> False) \<or> str_Contains (err_Error err) ''timeout''
      then timedOutResult i next_at else downResult i next_at)"

text \<open>A validator reads the response's status code.\<close>

type_synonym ResponseValidator = "int \<Rightarrow> string \<Rightarrow> go_time \<Rightarrow> Result"

definition StatusCodeValidator :: ResponseValidator where
  "StatusCodeValidator code i next_at =
     (if 200 \<le> code \<and> code < 300 then successResult i next_at
      else if code = 504 then timedOutResult i next_at
      else faultyResult i next_at)"

section \<open>The checks\<close>

record tcpHealthCheck =
  tc_ID :: string
  tc_Address :: string
  tc_Scheme :: string
  tc_Timeout :: duration
  tc_Interval :: duration

text \<open>Of the HTTP client only the timeout of its transport matters, of a request its URI.\<close>

record httpHealthCheck = tcpHealthCheck +
  hh_client :: duration
  hh_Path :: string
  hh_validator :: ResponseValidator
  hh_currentRequest :: "string option"

datatype check = TCP tcpHealthCheck | HTTP httpHealthCheck

definition createTCPHealthCheck :: "string \<Rightarrow> string \<Rightarrow> HealthCheck option \<Rightarrow> tcpHealthCheck" where
  "createTCPHealthCheck i address config =
     \<lparr>tc_ID = i, tc_Address = address, tc_Scheme = HealthCheck_GetScheme config,
      tc_Timeout = millis (HealthCheck_GetTimeout config),
      tc_Interval = millis (HealthCheck_GetIntervalMillis config)\<rparr>"

definition newTCPHealthCheck :: "string \<Rightarrow> string \<Rightarrow> HealthCheck option \<Rightarrow> check" where
  "newTCPHealthCheck i address config = TCP (createTCPHealthCheck i address config)"

definition newHTTPHealthCheck :: "string \<Rightarrow> string \<Rightarrow> HealthCheck option \<Rightarrow> ResponseValidator \<Rightarrow> check" where
  "newHTTPHealthCheck i address config validator =
     (let timeout = millis (HealthCheck_GetTimeout config)
      in HTTP (tcpHealthCheck.extend (createTCPHealthCheck i address config)
           (httpHealthCheck.fields timeout (HealthCheck_GetPath config) validator None)))"

definition check_New :: "string \<Rightarrow> string \<Rightarrow> HealthCheck option \<Rightarrow> check" where
  "check_New i address config =
     (case HealthCheck_GetMode config of
        HealthCheckMode_HTTP \<Rightarrow> newHTTPHealthCheck i address config StatusCodeValidator
      | HealthCheckMode_METRICS \<Rightarrow> newHTTPHealthCheck i address config StatusCodeValidator
      | _ \<Rightarrow> newTCPHealthCheck i address config)"

fun check_GetID :: "check \<Rightarrow> string" where
  "check_GetID (TCP t) = tc_ID t"
| "check_GetID (HTTP h) = tc_ID h"

definition tcp_Check :: "(string \<Rightarrow> duration \<Rightarrow> neterr option) \<Rightarrow> go_time \<Rightarrow> tcpHealthCheck \<Rightarrow> Result" where
  "tcp_Check dial now t =
     (let next_at = time_Add now (tc_Interval t)
      in case dial (tc_Address t) (tc_Timeout t) of
           Some err \<Rightarrow> errorResult err (tc_ID t) next_at
         | None \<Rightarrow> successResult (tc_ID t) next_at)"

definition http_uri :: "httpHealthCheck \<Rightarrow> string" where
  "http_uri h = ToLower (tc_Scheme h) @ ''://'' @ tc_Address h @ hh_Path h"

text \<open>\<open>Check\<close> of an HTTP check up to the moment it waits for the response, and from there on. In between the request is in
  \<open>currentRequest\<close>, where \<open>Cancel\<close> finds it.\<close>

definition http_Check_begin :: "(string \<Rightarrow> neterr option) \<Rightarrow> go_time \<Rightarrow> httpHealthCheck \<Rightarrow> Result + httpHealthCheck" where
  "http_Check_begin newRequest now h =
     (let uri = http_uri h
      in case newRequest uri of
           Some err \<Rightarrow> Inl (errorResult err (tc_ID h) (time_Add now (tc_Interval h)))
         | None \<Rightarrow> Inr (h\<lparr>hh_currentRequest := Some uri\<rparr>))"

definition http_Check_end :: "neterr + int \<Rightarrow> go_time \<Rightarrow> httpHealthCheck \<Rightarrow> Result \<times> httpHealthCheck" where
  "http_Check_end reply next_at h =
     (let h' = h\<lparr>hh_currentRequest := None\<rparr>
      in (case reply of
            Inl err \<Rightarrow> errorResult err (tc_ID h') next_at
          | Inr code \<Rightarrow> hh_validator h' code (tc_ID h') next_at, h'))"

definition http_Check ::
  "(string \<Rightarrow> neterr option) \<Rightarrow> (duration \<Rightarrow> string \<Rightarrow> neterr + int) \<Rightarrow> go_time \<Rightarrow> httpHealthCheck \<Rightarrow> Result \<times> httpHealthCheck" where
  "http_Check newRequest send now h =
     (case http_Check_begin newRequest now h of
        Inl r \<Rightarrow> (r, h)
      | Inr h' \<Rightarrow> http_Check_end (send (hh_client h') (case hh_currentRequest h' of Some req \<Rightarrow> req | None \<Rightarrow> []))
                    (time_Add now (tc_Interval h)) h')"

text \<open>The requests \<open>Cancel\<close> tells the transport to abort.\<close>

definition tcp_Cancel :: "tcpHealthCheck \<Rightarrow> string list" where
  "tcp_Cancel t = []"

definition http_Cancel :: "httpHealthCheck \<Rightarrow> string list" where
  "http_Cancel h = (case hh_currentRequest h of Some req \<Rightarrow> [req] | None \<Rightarrow> [])"

fun check_Cancel :: "check \<Rightarrow> string list" where
  "check_Cancel (TCP t) = tcp_Cancel t"
| "check_Cancel (HTTP h) = http_Cancel h"

definition tcp_Update :: "HealthCheck option \<Rightarrow> tcpHealthCheck \<Rightarrow> tcpHealthCheck" where
  "tcp_Update config t =
     t\<lparr>tc_Timeout := millis (HealthCheck_GetTimeout config),
       tc_Interval := millis (HealthCheck_GetIntervalMillis config)\<rparr>"

definition http_Update :: "HealthCheck option \<Rightarrow> httpHealthCheck \<Rightarrow> httpHealthCheck" where
  "http_Update config h =
     (let timeout = millis (HealthCheck_GetTimeout config);
          h1 = (if timeout \<noteq> tc_Timeout h
                then h\<lparr>tc_Timeout := millis (HealthCheck_GetTimeout config), hh_client := timeout\<rparr> else h);
          h2 = h1\<lparr>tc_Interval := millis (HealthCheck_GetIntervalMillis config)\<rparr>
      in if HealthCheck_GetMode config = HealthCheckMode_METRICS
         then h2\<lparr>hh_validator := StatusCodeValidator\<rparr>
         else h2\<lparr>hh_validator := StatusCodeValidator\<rparr>)"

fun check_Update :: "HealthCheck option \<Rightarrow> check \<Rightarrow> check" where
  "check_Update config (TCP t) = TCP (tcp_Update config t)"
| "check_Update config (HTTP h) = HTTP (http_Update config h)"

text \<open>Everything the network can do: one value of this type per check that is run.\<close>

record network =
  net_dial :: "string \<Rightarrow> duration \<Rightarrow> neterr option"
  net_newRequest :: "string \<Rightarrow> neterr option"
  net_send :: "duration \<Rightarrow> string \<Rightarrow> neterr + int"

fun check_Check :: "network \<Rightarrow> go_time \<Rightarrow> check \<Rightarrow> Result" where
  "check_Check net now (TCP t) = tcp_Check (net_dial net) now t"
| "check_Check net now (HTTP h) = fst (http_Check (net_newRequest net) (net_send net) now h)"

definition check_Interval :: "check \<Rightarrow> duration" where
  "check_Interval c = (case c of TCP t \<Rightarrow> tc_Interval t | HTTP h \<Rightarrow> tc_Interval h)"

definition check_Timeout :: "check \<Rightarrow> duration" where
  "check_Timeout c = (case c of TCP t \<Rightarrow> tc_Timeout t | HTTP h \<Rightarrow> tc_Timeout h)"

lemma check_GetID_New [simp]: "check_GetID (check_New i address config) = i"
  by (simp add: check_New_def newHTTPHealthCheck_def newTCPHealthCheck_def createTCPHealthCheck_def
      tcpHealthCheck.defs httpHealthCheck.defs split: HealthCheckMode.split)

lemma check_GetID_Update [simp]: "check_GetID (check_Update config c) = check_GetID c"
  by (cases c) (simp_all add: tcp_Update_def http_Update_def Let_def)

lemmas http_Check_simps = http_Check_def http_Check_begin_def http_Check_end_def

section \<open>Properties\<close>

text \<open>What every check made by \<open>New\<close> and \<open>Update\<close> satisfies: the client waits as long as the check's
  timeout, and the response is judged by its status code.\<close>

definition check_in_sync :: "check \<Rightarrow> bool" where
  "check_in_sync c =
     (case c of TCP _ \<Rightarrow> True | HTTP h \<Rightarrow> hh_client h = tc_Timeout h \<and> hh_validator h = StatusCodeValidator)"

lemmas result_defs = successResult_def faultyResult_def downResult_def timedOutResult_def errorResult_def

text \<open>A check that was created from an SLA and reconfigured any number of times is in sync:
  its HTTP client uses the configured timeout. Reconfiguring it takes over the new timeout and
  interval and keeps its id, address, scheme and kind.\<close>

theorem New_and_Update_in_sync:
  "check_in_sync (check_New i address config) \<and>
   (check_in_sync c \<longrightarrow>
      check_in_sync (check_Update config c) \<and> check_GetID (check_Update config c) = check_GetID c \<and>
      check_Timeout (check_Update config c) = millis (HealthCheck_GetTimeout config) \<and>
      check_Interval (check_Update config c) = millis (HealthCheck_GetIntervalMillis config) \<and>
      (case (c, check_Update config c) of
         (TCP t, TCP t') \<Rightarrow> tc_Address t' = tc_Address t \<and> tc_Scheme t' = tc_Scheme t
       | (HTTP h, HTTP h') \<Rightarrow> http_uri h' = http_uri h
       | _ \<Rightarrow> False))"
  by (cases c)
     (auto simp: check_in_sync_def check_New_def newHTTPHealthCheck_def newTCPHealthCheck_def
        createTCPHealthCheck_def tcpHealthCheck.defs httpHealthCheck.defs tcp_Update_def http_Update_def
        check_Timeout_def check_Interval_def http_uri_def Let_def split: HealthCheckMode.split)

theorem New_and_Update_in_sync_witness:
  "check_in_sync (check_Update None (check_New ''task-1'' ''host:31000'' None))"
  using New_and_Update_in_sync [of "''task-1''" "''host:31000''" None "check_New ''task-1'' ''host:31000'' None"]
    New_and_Update_in_sync [of "''task-1''" "''host:31000''" None "check_New ''task-1'' ''host:31000'' None"] by blast

text \<open>The verdict of a check: it reports under its own id, asks to be repeated one
  interval later, and is HEALTHY exactly when the connection succeeded (TCP) or a response came back with
  a status in the 200s (HTTP); a response with status 504, or a network error that is a
  timeout, is TIMEDOUT, another response is ERROR and another network error DOWN.\<close>

theorem check_verdict:
  assumes "check_in_sync c"
  shows "r_ID (check_Check net now c) = check_GetID c \<and>
    r_NextCheck (check_Check net now c) = now + sint (check_Interval c) \<and>
    r_Code (check_Check net now c) =
      (case (case c of
               TCP t \<Rightarrow> (case net_dial net (tc_Address t) (tc_Timeout t) of Some err \<Rightarrow> Inl err | None \<Rightarrow> Inr 200)
             | HTTP h \<Rightarrow> (case net_newRequest net (http_uri h) of
                 Some err \<Rightarrow> Inl err | None \<Rightarrow> net_send net (tc_Timeout h) (http_uri h))) of
         Inr code \<Rightarrow> if code \<in> {200..<300} then HealthCheckResultCode_HEALTHY
                     else if code = 504 then HealthCheckResultCode_TIMEDOUT else HealthCheckResultCode_ERROR
       | Inl (NetError m timeout) \<Rightarrow>
           if timeout \<or> str_Contains m ''timeout'' then HealthCheckResultCode_TIMEDOUT else HealthCheckResultCode_DOWN
       | Inl (OtherError m) \<Rightarrow>
           if str_Contains m ''timeout'' then HealthCheckResultCode_TIMEDOUT else HealthCheckResultCode_DOWN)"
proof (cases c)
  case (TCP t)
  then show ?thesis
    by (auto simp: tcp_Check_def Let_def time_Add_def result_defs check_Interval_def
        split: option.split neterr.split)
next
  case (HTTP h)
  then show ?thesis using assms
    by (auto simp: http_Check_simps Let_def time_Add_def result_defs check_Interval_def check_in_sync_def
        StatusCodeValidator_def split: option.split sum.split neterr.split)
qed

theorem check_verdict_witness:
  "r_Code (check_Check \<lparr>net_dial = \<lambda>_ _. Some (NetError ''refused'' False), net_newRequest = \<lambda>_. None,
       net_send = \<lambda>_ _. Inr 504\<rparr> 0 (check_New ''task-1'' ''host:31000'' None)) = HealthCheckResultCode_TIMEDOUT"
proof -
  have "check_in_sync (check_New ''task-1'' ''host:31000'' None)"
    by (simp add: check_in_sync_def check_New_def HealthCheck_GetMode_def newHTTPHealthCheck_def
        createTCPHealthCheck_def tcpHealthCheck.defs httpHealthCheck.defs)
  moreover obtain h where h: "check_New ''task-1'' ''host:31000'' None = HTTP h"
    by (simp add: check_New_def HealthCheck_GetMode_def newHTTPHealthCheck_def)
  ultimately have "check_in_sync (HTTP h)" by simp
  from check_verdict [OF this, of "\<lparr>net_dial = \<lambda>_ _. Some (NetError ''refused'' False), net_newRequest = \<lambda>_. None,
       net_send = \<lambda>_ _. Inr 504\<rparr>" 0]
  show ?thesis unfolding h by simp
qed

text \<open>\<open>Cancel\<close> aborts the request that is in flight, and nothing when none is: a check never has a request to cancel before it is run
  or after it has been run, and one that waits for its response has the request for its own URI.\<close>

theorem Cancel_aborts_the_request_in_flight:
  "check_Cancel (check_New i address config) = []"
  "http_Check_begin newRequest now h = Inr h' \<Longrightarrow> http_Cancel h' = [http_uri h] \<and> http_Cancel (snd (http_Check_end reply next_at h')) = []"
  "http_Cancel h = [] \<Longrightarrow> http_Cancel (snd (http_Check newRequest send now h)) = []"
  by (auto simp: http_Cancel_def tcp_Cancel_def http_Check_simps check_New_def newHTTPHealthCheck_def newTCPHealthCheck_def
      createTCPHealthCheck_def tcpHealthCheck.defs httpHealthCheck.defs Let_def split: HealthCheckMode.split option.splits)

end
