(* ===== verification/HealthQueue.thy ===== *)
theory HealthQueue
  imports HealthCheckKinds GoHeap
begin

text \<open>
  The queue of health checks, \<open>src/health/queue.go\<close>: a heap of pointers to active checks ordered
  by when they expire. The checks live at addresses, because the checker's register and its worker pool
  point to the same objects. The clock is an argument; \<open>hq\<close> interprets the contract of
  \<open>heap.Interface\<close> on this second client, in every state.
\<close>

record activeHealthCheck =
  ahc_HealthCheck :: check
  ahc_ExpiresAt :: go_time
  ahc_index :: int

record health_queue =
  hq_queue :: "nat list"
  hq_checks :: "nat \<Rightarrow> activeHealthCheck"

definition hq_in_range :: "health_queue \<Rightarrow> int \<Rightarrow> bool" where
  "hq_in_range q i \<longleftrightarrow> 0 \<le> i \<and> i < int (length (hq_queue q))"

definition hcp_Len :: "health_queue \<Rightarrow> int" where
  "hcp_Len q = int (length (hq_queue q))"

definition hcp_Less :: "health_queue \<Rightarrow> int \<Rightarrow> int \<Rightarrow> bool option" where
  "hcp_Less q i j =
     (if hcp_Len q = 0 then Some True
      else if hq_in_range q i \<and> hq_in_range q j
      then let left = hq_checks q (hq_queue q ! nat i); right = hq_checks q (hq_queue q ! nat j)
           in Some (ahc_ExpiresAt left < ahc_ExpiresAt right)
      else None)"

definition set_index :: "int \<Rightarrow> nat \<Rightarrow> health_queue \<Rightarrow> health_queue" where
  "set_index i a q = q\<lparr>hq_checks := (hq_checks q)(a := (hq_checks q a)\<lparr>ahc_index := i\<rparr>)\<rparr>"

definition hcp_Swap :: "health_queue \<Rightarrow> int \<Rightarrow> int \<Rightarrow> health_queue option" where
  "hcp_Swap q i j =
     (if length (hq_queue q) = 0 then Some q
      else if hq_in_range q i \<and> hq_in_range q j
      then let s = swap_at (hq_queue q) (nat i) (nat j)
           in Some (set_index j (s ! nat j) (set_index i (s ! nat i) (q\<lparr>hq_queue := s\<rparr>)))
      else None)"

definition hcp_Push :: "nat \<Rightarrow> health_queue \<Rightarrow> health_queue" where
  "hcp_Push x q =
     (let n = length (hq_queue q); q' = set_index (int n) x q
      in q'\<lparr>hq_queue := hq_queue q @ [x]\<rparr>)"

text \<open>\<open>Pop\<close> of an empty queue returns nil; it does not panic.\<close>

definition hcp_Pop :: "health_queue \<Rightarrow> (nat option \<times> health_queue) option" where
  "hcp_Pop q =
     (if hq_queue q = [] then Some (None, q)
      else let item = last (hq_queue q); q' = set_index (-1) item q
           in Some (Some item, q'\<lparr>hq_queue := butlast (hq_queue q)\<rparr>))"

section \<open>healthCheckQueue\<close>

definition newHealthCheckQueue :: "(nat \<Rightarrow> activeHealthCheck) \<Rightarrow> health_queue option" where
  "newHealthCheckQueue checks = heap_Init hcp_Len hcp_Less hcp_Swap \<lparr>hq_queue = [], hq_checks = checks\<rparr>"

definition hq_Len :: "health_queue \<Rightarrow> int" where
  "hq_Len q = hcp_Len q"

definition hq_Push :: "nat \<Rightarrow> health_queue \<Rightarrow> health_queue option" where
  "hq_Push hc q = heap_Push hcp_Len hcp_Less hcp_Swap hcp_Push hc q"

text \<open>\<open>now\<close> is the time of the comparison and \<open>later\<close> the one returned with it, when one is.\<close>

definition hq_Pop ::
  "go_time \<Rightarrow> go_time \<Rightarrow> health_queue \<Rightarrow> ((nat option \<times> go_time \<times> bool) \<times> health_queue) option" where
  "hq_Pop now later q =
     (case heap_Pop hcp_Len hcp_Less hcp_Swap hcp_Pop q of
        None \<Rightarrow> None
      | Some (None, q') \<Rightarrow> Some ((None, now + 1000000000, False), q')
      | Some (Some ac, q') \<Rightarrow>
          if now < ahc_ExpiresAt (hq_checks q' ac)
          then map_option (\<lambda>q''. ((None, ahc_ExpiresAt (hq_checks q'' ac), False), q'')) (hq_Push ac q')
          else Some ((Some ac, later, True), q'))"

definition ac_GetID :: "health_queue \<Rightarrow> nat \<Rightarrow> string" where
  "ac_GetID q a = check_GetID (ahc_HealthCheck (hq_checks q a))"

fun index_of :: "('a \<Rightarrow> bool) \<Rightarrow> 'a list \<Rightarrow> nat \<Rightarrow> nat option" where
  "index_of P [] i = None"
| "index_of P (x # xs) i = (if P x then Some i else index_of P xs (Suc i))"

text \<open>The loop stops at the first check with the id and removes it by its place in the slice.\<close>

definition hq_Remove :: "string \<Rightarrow> health_queue \<Rightarrow> health_queue option" where
  "hq_Remove i q =
     (case index_of (\<lambda>ac. ac_GetID q ac = i) (hq_queue q) 0 of
        None \<Rightarrow> Some q
      | Some n \<Rightarrow> map_option snd (heap_Remove hcp_Len hcp_Less hcp_Swap hcp_Pop q (int n)))"

definition hq_Contains :: "string \<Rightarrow> health_queue \<Rightarrow> bool" where
  "hq_Contains i q = (\<exists>chk \<in> set (hq_queue q). ac_GetID q chk = i)"

section \<open>The contract of heap.Interface\<close>

text \<open>An entry is a check with its id and its expiry; no heap operation changes either.\<close>

type_synonym hq_entry = "nat \<times> string \<times> go_time"

definition hq_entry :: "health_queue \<Rightarrow> nat \<Rightarrow> hq_entry" where
  "hq_entry q a = (a, ac_GetID q a, ahc_ExpiresAt (hq_checks q a))"

definition hq_entries :: "health_queue \<Rightarrow> hq_entry list" where
  "hq_entries q = map (hq_entry q) (hq_queue q)"

definition expires_before :: "hq_entry \<Rightarrow> hq_entry \<Rightarrow> bool" where
  "expires_before x y \<longleftrightarrow> snd (snd x) < snd (snd y)"

definition hq_frame :: "health_queue \<Rightarrow> nat \<Rightarrow> check \<times> go_time" where
  "hq_frame q a = (ahc_HealthCheck (hq_checks q a), ahc_ExpiresAt (hq_checks q a))"

definition hq_ordered :: "health_queue \<Rightarrow> bool" where
  "hq_ordered q \<longleftrightarrow> is_heap expires_before (hq_entries q) (length (hq_entries q))"

lemma set_index_fields [simp]:
  "hq_queue (set_index i a q) = hq_queue q" "hq_entry (set_index i a q) = hq_entry q"
  "hq_frame (set_index i a q) = hq_frame q"
  by (auto simp: set_index_def hq_entry_def ac_GetID_def hq_frame_def)

lemma hq_queue_update [simp]:
  "hq_entry (q\<lparr>hq_queue := s\<rparr>) = hq_entry q" "hq_frame (q\<lparr>hq_queue := s\<rparr>) = hq_frame q"
  by (auto simp: hq_entry_def ac_GetID_def hq_frame_def)

lemma length_hq_entries [simp]: "length (hq_entries q) = length (hq_queue q)"
  by (simp add: hq_entries_def)

lemma fst_hq_entry [simp]: "fst (hq_entry q a) = a"
  by (simp add: hq_entry_def)

lemma hq_entry_frame: "hq_frame q' = hq_frame q \<Longrightarrow> hq_entry q' = hq_entry q"
proof (rule ext)
  fix a assume "hq_frame q' = hq_frame q"
  then have "hq_frame q' a = hq_frame q a" by simp
  then show "hq_entry q' a = hq_entry q a" by (simp add: hq_frame_def hq_entry_def ac_GetID_def)
qed

interpretation hq: heap_client hcp_Len hcp_Less hcp_Swap hcp_Push hcp_Pop
  hq_entries "\<lambda>_. True" expires_before hq_frame "\<lambda>_ _. True" "\<lambda>x q. hq_entry q x"
  "\<lambda>r e. r = Some (fst e)"
proof (unfold_locales, goal_cases)
  case (1 q)
  show ?case by (simp add: hcp_Len_def)
next
  case (2 q i j)
  then show ?case
    by (auto simp: hcp_Less_def hcp_Len_def hq_in_range_def hq_entries_def hq_entry_def expires_before_def)
next
  case (3 q i j)
  then show ?case
    by (auto simp: hcp_Swap_def hq_in_range_def hq_entries_def map_swap_at Let_def)
next
  case (4 q)
  show ?case using swo_on_less [of _ "\<lambda>x. snd (snd x)"] by (simp add: expires_before_def [abs_def])
next
  case (5 q x)
  show ?case by (simp add: hcp_Push_def Let_def hq_entries_def)
next
  case (6 q)
  then have "hq_queue q \<noteq> []" by (auto simp: hq_entries_def)
  then show ?case by (simp add: hcp_Pop_def Let_def hq_entries_def map_butlast last_map)
qed

lemma hq_ordered_eq: "hq.ordered = hq_ordered"
  by (rule ext) (simp add: hq.ordered_def hq_ordered_def)

section \<open>What the operations do\<close>

lemma hq_frame_eqD:
  "hq_frame q' = hq_frame q \<Longrightarrow>
     ahc_ExpiresAt (hq_checks q' a) = ahc_ExpiresAt (hq_checks q a) \<and>
     ahc_HealthCheck (hq_checks q' a) = ahc_HealthCheck (hq_checks q a)"
  by (drule fun_cong [where x = a]) (simp add: hq_frame_def)

lemma mset_hq_queue: "mset (hq_queue q) = image_mset fst (mset (hq_entries q))"
  by (simp add: hq_entries_def comp_def flip: mset_map)

lemma hq_entries_nth: "i < length (hq_queue q) \<Longrightarrow> hq_entries q ! i = hq_entry q (hq_queue q ! i)"
  by (simp add: hq_entries_def)

lemma hq_Push_ok:
  "\<exists>q'. hq_Push a q = Some q' \<and> hq_frame q' = hq_frame q \<and>
        mset (hq_queue q') = add_mset a (mset (hq_queue q)) \<and> (hq_ordered q \<longrightarrow> hq_ordered q')"
  using hq.Push_ok [where s = q and x = a] by (auto simp: hq_Push_def hq_ordered_eq mset_hq_queue simp del: mset_map)

lemma hq_heap_Pop_ok:
  assumes "hq_queue q \<noteq> []"
  shows "\<exists>q'. heap_Pop hcp_Len hcp_Less hcp_Swap hcp_Pop q = Some (Some (hd (hq_queue q)), q') \<and>
              hq_frame q' = hq_frame q \<and> mset (hq_queue q) = add_mset (hd (hq_queue q)) (mset (hq_queue q')) \<and>
              (hq_ordered q \<longrightarrow> hq_ordered q')"
proof -
  have ne: "hq_entries q \<noteq> []" using assms by (simp add: hq_entries_def)
  have root: "hq_entries q ! 0 = hq_entry q (hd (hq_queue q))"
    using assms by (simp add: hq_entries_nth hd_conv_nth)
  obtain q' where q': "heap_Pop hcp_Len hcp_Less hcp_Swap hcp_Pop q = Some (Some (hd (hq_queue q)), q')"
    "hq_frame q' = hq_frame q" "add_mset (hq_entry q (hd (hq_queue q))) (mset (hq_entries q')) = mset (hq_entries q)"
    "hq_ordered q \<longrightarrow> hq_ordered q'"
    using hq.Pop_ok [OF TrueI ne] by (auto simp: hq_ordered_eq root)
  then show ?thesis unfolding mset_hq_queue [of q] q'(3) [symmetric] by (simp add: mset_hq_queue del: mset_map)
qed

lemma hq_root_first:
  "hq_ordered q \<Longrightarrow> b \<in> set (hq_queue q) \<Longrightarrow>
     ahc_ExpiresAt (hq_checks q (hd (hq_queue q))) \<le> ahc_ExpiresAt (hq_checks q b)"
proof -
  assume o: "hq_ordered q" and b: "b \<in> set (hq_queue q)"
  from b have ne: "hq_queue q \<noteq> []" by auto
  have "\<not> expires_before (hq_entry q b) (hq_entries q ! 0)"
    using hq.ordered_root [of q] o b by (auto simp: hq_ordered_eq hq_entries_def)
  with ne show ?thesis by (simp add: hq_entries_nth hd_conv_nth hq_entry_def expires_before_def not_less)
qed

lemma index_of_eq:
  "index_of P xs i = Some n \<longleftrightarrow> i \<le> n \<and> n - i < length xs \<and> P (xs ! (n - i)) \<and> (\<forall>j < n - i. \<not> P (xs ! j))"
proof (induction xs arbitrary: i)
  case (Cons x xs)
  show ?case
  proof (cases "P x")
    case True
    then show ?thesis by (auto simp: nth_Cons split: nat.splits)
  next
    case False
    show ?thesis
    proof (cases "n - i")
      case (Suc m)
      then have "n - Suc i = m" by simp
      with False Suc show ?thesis
        by (auto simp: Cons.IH nth_Cons Suc_le_eq less_Suc_eq_0_disj split: nat.splits)
    qed (use False in \<open>auto simp: Cons.IH\<close>)
  qed
qed simp

lemma index_of_None: "index_of P xs i = None \<longleftrightarrow> (\<forall>x \<in> set xs. \<not> P x)"
  by (induction xs arbitrary: i) auto

lemma hq_Remove_ok:
  "\<exists>q'. hq_Remove i q = Some q' \<and> hq_frame q' = hq_frame q \<and> (hq_ordered q \<longrightarrow> hq_ordered q') \<and>
        (if hq_Contains i q
         then \<exists>a. ac_GetID q a = i \<and> mset (hq_queue q) = add_mset a (mset (hq_queue q'))
         else q' = q)"
proof (cases "index_of (\<lambda>ac. ac_GetID q ac = i) (hq_queue q) 0")
  case None
  with iffD1 [OF index_of_None None] show ?thesis by (simp add: hq_Remove_def hq_Contains_def)
next
  case (Some n)
  then have n: "n < length (hq_queue q)" "ac_GetID q (hq_queue q ! n) = i" by (auto simp: index_of_eq)
  then have c: "hq_Contains i q" by (auto simp: hq_Contains_def)
  have nth: "hq_entries q ! n = hq_entry q (hq_queue q ! n)" using n(1) by (simp add: hq_entries_nth)
  obtain r q' where q': "heap_Remove hcp_Len hcp_Less hcp_Swap hcp_Pop q (int n) = Some (r, q')"
    "hq_frame q' = hq_frame q" "hq_ordered q \<longrightarrow> hq_ordered q'"
    "add_mset (hq_entry q (hq_queue q ! n)) (mset (hq_entries q')) = mset (hq_entries q)"
    using hq.Remove_ok [where s = q and i = n] n(1) by (auto simp: hq_ordered_eq nth)
  have "mset (hq_queue q) = add_mset (hq_queue q ! n) (mset (hq_queue q'))"
    unfolding mset_hq_queue [of q] q'(4) [symmetric] by (simp add: mset_hq_queue del: mset_map)
  with q' n c Some show ?thesis by (auto simp: hq_Remove_def)
qed

lemma hq_Pop_ok:
  assumes "hq_ordered q"
  shows "\<exists>item due q'. hq_Pop now later q = Some ((item, due, item \<noteq> None), q') \<and> hq_ordered q' \<and> hq_frame q' = hq_frame q \<and>
    (case item of
       Some a \<Rightarrow> ahc_ExpiresAt (hq_checks q a) \<le> now \<and>
                 (\<forall>b \<in> set (hq_queue q). ahc_ExpiresAt (hq_checks q a) \<le> ahc_ExpiresAt (hq_checks q b)) \<and>
                 mset (hq_queue q) = add_mset a (mset (hq_queue q'))
     | None \<Rightarrow> mset (hq_queue q') = mset (hq_queue q) \<and>
               (\<forall>b \<in> set (hq_queue q). now < due \<and> due \<le> ahc_ExpiresAt (hq_checks q b)) \<and>
               (if hq_queue q = [] then due = now + 1000000000
                else \<exists>b \<in> set (hq_queue q). due = ahc_ExpiresAt (hq_checks q b)))"
proof (cases "hq_queue q = []")
  case True
  have "heap_Pop hcp_Len hcp_Less hcp_Swap hcp_Pop q = Some (None, q)"
    using True by (subst heap_Pop_def, subst heap_down.simps)
      (simp add: hcp_Len_def hcp_Swap_def hcp_Pop_def Let_def)
  then show ?thesis using True assms
    by (intro exI [of _ None] exI [of _ "now + 1000000000"] exI [of _ q]) (simp add: hq_Pop_def)
next
  case False
  let ?a = "hd (hq_queue q)"
  obtain q' where q': "heap_Pop hcp_Len hcp_Less hcp_Swap hcp_Pop q = Some (Some ?a, q')"
    "hq_frame q' = hq_frame q" "mset (hq_queue q) = add_mset ?a (mset (hq_queue q'))" "hq_ordered q'"
    using hq_heap_Pop_ok [OF False] assms by blast
  have e: "ahc_ExpiresAt (hq_checks q' a) = ahc_ExpiresAt (hq_checks q a)" for a
    using hq_frame_eqD [OF q'(2)] by blast
  note first = hq_root_first [OF assms]
  show ?thesis
  proof (cases "now < ahc_ExpiresAt (hq_checks q ?a)")
    case True
    obtain q'' where q'': "hq_Push ?a q' = Some q''" "hq_frame q'' = hq_frame q'"
      "mset (hq_queue q'') = add_mset ?a (mset (hq_queue q'))" "hq_ordered q''"
      using hq_Push_ok [of ?a q'] q'(4) by blast
    have "hq_Pop now later q = Some ((None, ahc_ExpiresAt (hq_checks q ?a), False), q'')"
      using True q' q''(1) e hq_frame_eqD [OF q''(2), of ?a] by (simp add: hq_Pop_def)
    moreover have "?a \<in> set (hq_queue q)" using False by simp
    ultimately show ?thesis using True False q' q'' first by auto
  next
    case notyet: False
    then have "hq_Pop now later q = Some ((Some ?a, later, True), q')" using q' e by (simp add: hq_Pop_def)
    then show ?thesis using notyet q' first by simp
  qed
qed

lemma ac_GetID_frame: "hq_frame q' = hq_frame q \<Longrightarrow> ac_GetID q' = ac_GetID q"
proof (rule ext)
  fix a assume "hq_frame q' = hq_frame q"
  from hq_frame_eqD [OF this, of a] show "ac_GetID q' a = ac_GetID q a" by (simp add: ac_GetID_def)
qed

lemma hq_ordered_entries: "hq_entries q' = hq_entries q \<Longrightarrow> hq_ordered q' = hq_ordered q"
  by (simp only: hq_ordered_def)

lemma hq_entries_other:
  "a \<notin> set (hq_queue q) \<Longrightarrow> hq_entries (q\<lparr>hq_checks := (hq_checks q)(a := x)\<rparr>) = hq_entries q"
  by (auto simp: hq_entries_def hq_entry_def ac_GetID_def)

section \<open>Properties\<close>

text \<open>C31. \<open>Pop\<close> hands out a check only when it has expired, and then the one that expired
  first, which leaves the queue. Otherwise the queue keeps all its checks and \<open>Pop\<close> returns
  when the earliest of them expires, or one second from now when there is none; it never panics.\<close>

theorem hq_Pop_earliest:
  assumes "hq_ordered q"
  shows "\<exists>item due q'. hq_Pop now later q = Some ((item, due, item \<noteq> None), q') \<and> hq_ordered q' \<and> hq_frame q' = hq_frame q \<and>
    (case item of
       Some a \<Rightarrow> ahc_ExpiresAt (hq_checks q a) \<le> now \<and>
                 (\<forall>b \<in> set (hq_queue q). ahc_ExpiresAt (hq_checks q a) \<le> ahc_ExpiresAt (hq_checks q b)) \<and>
                 mset (hq_queue q) = add_mset a (mset (hq_queue q'))
     | None \<Rightarrow> mset (hq_queue q') = mset (hq_queue q) \<and>
               (\<forall>b \<in> set (hq_queue q). now < due \<and> due \<le> ahc_ExpiresAt (hq_checks q b)) \<and>
               (if hq_queue q = [] then due = now + 1000000000
                else \<exists>b \<in> set (hq_queue q). due = ahc_ExpiresAt (hq_checks q b)))"
  by (rule hq_Pop_ok [OF assms])

definition sample_checks :: "go_time list \<Rightarrow> health_queue" where
  "sample_checks ts =
     \<lparr>hq_queue = [0..<length ts],
      hq_checks = (\<lambda>a. \<lparr>ahc_HealthCheck = check_New (''task-'' @ Itoa (int a)) ''host:31000'' None,
                        ahc_ExpiresAt = (if a < length ts then ts ! a else 0), ahc_index = int a\<rparr>)\<rparr>"

lemma sample_checks_entries:
  "hq_queue (sample_checks [2, 5]) = [0, 1]" "ahc_ExpiresAt (hq_checks (sample_checks [2, 5]) 0) = 2"
  "ahc_ExpiresAt (hq_checks (sample_checks [2, 5]) (Suc 0)) = 5"
  by (simp_all add: sample_checks_def upt_rec)

lemma sample_checks_ordered: "hq_ordered (sample_checks [2, 5])"
proof -
  have "heap_le expires_before (hq_entries (sample_checks [2, 5])) k" if "k < 2" "0 < k" for k
  proof -
    from that have "k = 1" by simp
    then show ?thesis
      by (simp add: heap_le_def hq_entries_nth sample_checks_entries hq_entry_def expires_before_def)
  qed
  then show ?thesis by (simp add: hq_ordered_def is_heap_def sample_checks_entries)
qed

theorem hq_Pop_earliest_witness:
  "\<exists>t q'. hq_Pop 3 4 (sample_checks [2, 5]) = Some ((Some 0, t, True), q')"
proof -
  obtain item due q' where p: "hq_Pop 3 4 (sample_checks [2, 5]) = Some ((item, due, item \<noteq> None), q')"
    "case item of
       Some a \<Rightarrow> ahc_ExpiresAt (hq_checks (sample_checks [2, 5]) a) \<le> 3 \<and> mset [0, 1] = add_mset a (mset (hq_queue q'))
     | None \<Rightarrow> \<forall>b \<in> {0, 1}. 3 < due \<and> due \<le> ahc_ExpiresAt (hq_checks (sample_checks [2, 5]) b)"
    using hq_Pop_earliest [OF sample_checks_ordered, of 3 4]
    by (auto simp: sample_checks_entries split: option.splits)
  have "a = 0" if "mset [0, 1] = add_mset a M" "ahc_ExpiresAt (hq_checks (sample_checks [2, 5]) a) \<le> 3" for a :: nat and M
  proof -
    have "a \<in># mset [0, 1]" unfolding that(1) by simp
    with that(2) show ?thesis by (auto simp: sample_checks_entries)
  qed
  with p show ?thesis by (auto simp: sample_checks_entries split: option.splits)
qed

text \<open>\<open>Remove\<close> takes exactly one check with the given id out of the queue, if there is one, keeps the
  rest in order, and leaves the queue as it is otherwise.\<close>

theorem hq_Remove_one:
  assumes "hq_ordered q"
  shows "\<exists>q'. hq_Remove i q = Some q' \<and> hq_ordered q' \<and> hq_frame q' = hq_frame q \<and>
    (if hq_Contains i q
     then \<exists>a. ac_GetID q a = i \<and> mset (hq_queue q) = add_mset a (mset (hq_queue q'))
     else q' = q)"
  using hq_Remove_ok [of i q] assms by blast

theorem hq_Remove_one_witness:
  "\<exists>q'. hq_Remove (''task-'' @ Itoa 1) (sample_checks [2, 5]) = Some q' \<and> length (hq_queue q') = 1"
proof -
  have "hq_Contains (''task-'' @ Itoa 1) (sample_checks [2, 5])"
    by (simp add: hq_Contains_def sample_checks_entries ac_GetID_def)
       (simp add: sample_checks_def)
  then obtain q' a where "hq_Remove (''task-'' @ Itoa 1) (sample_checks [2, 5]) = Some q'"
    "mset (hq_queue (sample_checks [2, 5])) = add_mset a (mset (hq_queue q'))"
    using hq_Remove_one [OF sample_checks_ordered, of "''task-'' @ Itoa 1"] by auto
  note q' = this
  from arg_cong [OF q'(2), of size] have "length (hq_queue q') = 1" by (simp add: sample_checks_entries)
  with q'(1) show ?thesis by blast
qed

end
