(* ===== verification/HealthChecker.thy ===== *)
theory HealthChecker
  imports HealthQueue
begin

text \<open>
  The health checker, \<open>src/health/checker.go\<close>. Its state is the register of checks by task
  id, the queue, and what is between the queue and the next check: the channels \<open>work\<close>, \<open>updates\<close>
  and \<open>results\<close>, the pool's list \<open>pending\<close>, and the checks that are being performed. The bodies of
  its three loops (\<open>dequeueLoop\<close>, the pool's \<open>select\<close>, \<open>dispatchResultsLoop\<close>) and of the goroutine that
  performs a check are functions on this state, and \<open>checker_step\<close> interleaves them with
  \<open>Register\<close> and \<open>Unregister\<close>. A channel is the list of what it holds, a send needs room for it.
  The pool's \<open>waitForSlot\<close> channel, which never holds a check back, and the shutdown are left out.
\<close>

record checker =
  ck_register :: "string \<rightharpoonup> nat"
  ck_queue :: health_queue
  ck_next :: nat
  ck_work :: "nat list"
  ck_pending :: "nat list"
  ck_running :: "nat list"
  ck_updates :: "(nat \<times> Result) list"
  ck_results :: "(nat \<times> Result) list"
  ck_failures :: "Result list"

text \<open>\<open>ck_next\<close> is the next free address; what an unused address holds does not matter.\<close>

definition no_check :: activeHealthCheck where
  "no_check = \<lparr>ahc_HealthCheck = newTCPHealthCheck [] [] None, ahc_ExpiresAt = 0, ahc_index = 0\<rparr>"

definition HealthChecker_New :: checker where
  "HealthChecker_New =
     \<lparr>ck_register = Map.empty, ck_queue = \<lparr>hq_queue = [], hq_checks = (\<lambda>_. no_check)\<rparr>, ck_next = 0,
      ck_work = [], ck_pending = [], ck_running = [], ck_updates = [], ck_results = [], ck_failures = []\<rparr>"

section \<open>Registering and unregistering\<close>

fun portForScheme :: "PortMapping list \<Rightarrow> string \<Rightarrow> int32 \<times> bool" where
  "portForScheme [] scheme = (0, False)"
| "portForScheme (port # portMapping) scheme =
     (if EqualFold (PortMapping_GetScheme (Some port)) scheme
      then (PortMapping_GetPublicPort (Some port), True) else portForScheme portMapping scheme)"

text \<open>
  The named results start as their zero values, so \<open>config\<close> is nil when its scheme is read:
  the port is looked up under the default scheme, not under the one of the check found in the SLA.
\<close>

definition checkDisabled ::
  "Deployment option \<Rightarrow> Application option \<Rightarrow> HealthCheck option \<times> int32 \<times> string \<times> string \<times> goerr option" where
  "checkDisabled deployment app =
     (let i = TaskID_GetValue (Deployment_GetTaskId deployment);
          hn = Deployment_GetHostName deployment;
          config = None;
          sla = Application_GetSla app
      in if sla = None then (config, 0, i, hn, None)
         else let c = ApplicationSLA_GetHealthCheck sla
              in if c = None then (config, 0, i, hn, None)
                 else let (p, ok) = portForScheme (Deployment_GetPortMapping deployment) (HealthCheck_GetScheme config)
                      in if \<not> ok then (config, 0, i, hn, None) else (c, p, i, hn, None))"

definition HealthChecker_Register ::
  "go_time \<Rightarrow> Deployment option \<Rightarrow> Application option \<Rightarrow> checker \<Rightarrow> (goerr option \<times> checker) option" where
  "HealthChecker_Register now deployment app h =
     (let (config, port, i, hn, err) = checkDisabled deployment app
      in if err \<noteq> None then Some (err, h)
         else if config = None \<or> port = 0 then Some (None, h)
         else (case ck_register h i of
                 Some chk \<Rightarrow>
                   let q = ck_queue h
                   in Some (None, h\<lparr>ck_queue := q\<lparr>hq_checks := (hq_checks q)(chk :=
                        (hq_checks q chk)\<lparr>ahc_HealthCheck :=
                           check_Update config (ahc_HealthCheck (hq_checks q chk))\<rparr>)\<rparr>\<rparr>)
               | None \<Rightarrow>
                   let q = ck_queue h; a = ck_next h;
                       scheduled = \<lparr>ahc_HealthCheck = check_New i (hn @ '':'' @ Itoa (sint port)) config,
                                    ahc_ExpiresAt = time_Add now (millis (HealthCheck_GetRampUp config)),
                                    ahc_index = 0\<rparr>
                   in map_option
                        (\<lambda>q'. (None, h\<lparr>ck_register := (ck_register h)(i \<mapsto> a), ck_next := Suc a, ck_queue := q'\<rparr>))
                        (hq_Push a (q\<lparr>hq_checks := (hq_checks q)(a := scheduled)\<rparr>))))"

definition HealthChecker_Unregister :: "TaskID option \<Rightarrow> checker \<Rightarrow> (goerr option \<times> checker) option" where
  "HealthChecker_Unregister app h =
     map_option
       (\<lambda>q. (None, h\<lparr>ck_register := (ck_register h)(TaskID_GetValue app := None), ck_queue := q\<rparr>))
       (hq_Remove (TaskID_GetValue app) (ck_queue h))"

definition HealthChecker_Contains :: "TaskID option \<Rightarrow> checker \<Rightarrow> bool" where
  "HealthChecker_Contains app h = (ck_register h (TaskID_GetValue app) \<noteq> None)"

section \<open>The loops\<close>

text \<open>One turn of \<open>dequeueLoop\<close>: when the queue hands out a check, it goes to the pool.\<close>

definition dequeue_turn :: "go_time \<Rightarrow> go_time \<Rightarrow> checker \<Rightarrow> checker option" where
  "dequeue_turn now later h =
     (if 0 < hq_Len (ck_queue h)
      then (case hq_Pop now later (ck_queue h) of
              None \<Rightarrow> None
            | Some ((item, _, ok), q) \<Rightarrow>
                (case item of
                   Some a \<Rightarrow> Some (if ok then h\<lparr>ck_queue := q, ck_work := ck_work h @ [a]\<rparr> else h\<lparr>ck_queue := q\<rparr>)
                 | None \<Rightarrow> Some (h\<lparr>ck_queue := q\<rparr>)))
      else Some h)"

text \<open>The pool takes a check from \<open>work\<close> and starts a goroutine for it.\<close>

definition pool_accept :: "checker \<Rightarrow> checker option" where
  "pool_accept h =
     (case ck_work h of
        [] \<Rightarrow> None
      | item # rest \<Rightarrow>
          Some (h\<lparr>ck_work := rest, ck_pending := ck_pending h @ [item], ck_running := ck_running h @ [item]\<rparr>))"

text \<open>The goroutine performs the check and sends the result to \<open>updates\<close>.\<close>

definition perform_check :: "network \<Rightarrow> go_time \<Rightarrow> nat \<Rightarrow> checker \<Rightarrow> checker option" where
  "perform_check net now item h =
     (if item \<in> set (ck_running h)
      then Some (h\<lparr>ck_running := remove1 item (ck_running h),
                   ck_updates := ck_updates h @
                     [(item, check_Check net now (ahc_HealthCheck (hq_checks (ck_queue h) item)))]\<rparr>)
      else None)"

text \<open>
  \<open>for i, item := range pending { if ... { pending = append(pending[:i], pending[i+1:]...) } }\<close>.
  The range is over the slice as it was before the loop, whose array the removal shifts in place:
  \<open>arr\<close> is that array and \<open>len\<close> the length of \<open>pending\<close>. Slicing beyond the length panics.
\<close>

definition remove_step :: "('a \<Rightarrow> bool) \<Rightarrow> nat \<Rightarrow> ('a list \<times> nat) option \<Rightarrow> ('a list \<times> nat) option" where
  "remove_step P i st =
     (case st of
        None \<Rightarrow> None
      | Some (arr, len) \<Rightarrow>
          if P (arr ! i)
          then if i + 1 \<le> len
               then Some (take i arr @ drop (Suc i) (take len arr) @ drop (len - 1) arr, len - 1)
               else None
          else Some (arr, len))"

definition remove_pending :: "('a \<Rightarrow> bool) \<Rightarrow> 'a list \<Rightarrow> 'a list option" where
  "remove_pending P pending =
     map_option (\<lambda>(arr, len). take len arr)
       (fold (remove_step P) [0..<length pending] (Some (pending, length pending)))"

definition ck_GetID :: "checker \<Rightarrow> nat \<Rightarrow> string" where
  "ck_GetID h a = ac_GetID (ck_queue h) a"

text \<open>The pool forwards a result and takes its check off the list.\<close>

definition pool_forward :: "checker \<Rightarrow> checker option" where
  "pool_forward h =
     (case ck_updates h of
        [] \<Rightarrow> None
      | result # rest \<Rightarrow>
          map_option
            (\<lambda>pending. h\<lparr>ck_updates := rest, ck_results := ck_results h @ [result], ck_pending := pending\<rparr>)
            (remove_pending (\<lambda>item. ck_GetID h item = ck_GetID h (fst result)) (ck_pending h)))"

text \<open>One turn of \<open>dispatchResultsLoop\<close>: the check is queued again, and a failure is published.\<close>

definition dispatch_result :: "checker \<Rightarrow> checker option" where
  "dispatch_result h =
     (case ck_results h of
        [] \<Rightarrow> None
      | (item, result) # rest \<Rightarrow>
          let q = ck_queue h;
              q1 = q\<lparr>hq_checks := (hq_checks q)(item := (hq_checks q item)\<lparr>ahc_ExpiresAt := r_NextCheck result\<rparr>)\<rparr>
          in map_option
               (\<lambda>q2. h\<lparr>ck_results := rest, ck_queue := q2,
                       ck_failures := (if r_Code result \<noteq> HealthCheckResultCode_HEALTHY
                                       then ck_failures h @ [result] else ck_failures h)\<rparr>)
               (hq_Push item q1))"

section \<open>All of it, interleaved\<close>

datatype action = DoRegister | DoUnregister | DoDequeue | DoAccept | DoCheck | DoForward | DoDispatch

inductive checker_step :: "nat \<Rightarrow> action \<Rightarrow> checker \<Rightarrow> checker \<Rightarrow> bool" for nrw :: nat where
  step_Register: "HealthChecker_Register now d app h = Some (err, h') \<Longrightarrow> checker_step nrw DoRegister h h'"
| step_Unregister: "HealthChecker_Unregister tid h = Some (err, h') \<Longrightarrow> checker_step nrw DoUnregister h h'"
| step_Dequeue: "length (ck_work h) < nrw \<Longrightarrow> dequeue_turn now later h = Some h' \<Longrightarrow> checker_step nrw DoDequeue h h'"
| step_Accept: "pool_accept h = Some h' \<Longrightarrow> checker_step nrw DoAccept h h'"
| step_Check: "length (ck_updates h) < nrw \<Longrightarrow> perform_check net now item h = Some h' \<Longrightarrow> checker_step nrw DoCheck h h'"
| step_Forward: "length (ck_results h) < nrw \<Longrightarrow> pool_forward h = Some h' \<Longrightarrow> checker_step nrw DoForward h h'"
| step_Dispatch: "dispatch_result h = Some h' \<Longrightarrow> checker_step nrw DoDispatch h h'"

text \<open>What a checker with \<open>nrw\<close> workers can reach from \<open>New\<close> by a given set of actions.\<close>

inductive checker_reach :: "nat \<Rightarrow> action set \<Rightarrow> checker \<Rightarrow> bool" for nrw :: nat and acts :: "action set" where
  reach_New: "checker_reach nrw acts HealthChecker_New"
| reach_step: "checker_reach nrw acts h \<Longrightarrow> act \<in> acts \<Longrightarrow> checker_step nrw act h h' \<Longrightarrow> checker_reach nrw acts h'"

inductive_cases checker_stepE: "checker_step nrw act h h'"

section \<open>Taking a result's check off the list\<close>

lemma fold_remove_none:
  "\<forall>i \<in> set is. \<not> P (arr ! i) \<Longrightarrow> fold (remove_step P) is (Some (arr, len)) = Some (arr, len)"
  by (induction "is") (auto simp: remove_step_def)

lemma remove_pending_one:
  assumes k: "k < length xs" "P (xs ! k)" and only: "\<And>j. j < length xs \<Longrightarrow> j \<noteq> k \<Longrightarrow> \<not> P (xs ! j)"
  shows "remove_pending P xs = Some (take k xs @ drop (Suc k) xs)"
proof -
  let ?n = "length xs" and ?arr = "take k xs @ drop (Suc k) xs @ drop (length xs - 1) xs"
  have split: "[0..<?n] = [0..<k] @ k # [Suc k..<?n]"
    using k(1) by (metis le_add_same_cancel1 less_imp_le upt_add_eq_append upt_conv_Cons zero_le add_0 le_add_diff_inverse)
  have "\<not> P (?arr ! i)" if "i \<in> set [Suc k..<?n]" for i
  proof (cases "i = ?n - 1")
    case True
    then have "?arr ! i = xs ! i" using that k(1) by (simp add: nth_append)
    then show ?thesis using only that by simp
  next
    case False
    then have "?arr ! i = xs ! Suc i" using that k(1) by (auto simp: nth_append)
    moreover have "\<not> P (xs ! Suc i)" by (rule only) (use that False in auto)
    ultimately show ?thesis by simp
  qed
  then have "fold (remove_step P) [Suc k..<?n] (Some (?arr, ?n - 1)) = Some (?arr, ?n - 1)"
    by (rule fold_remove_none [OF ballI])
  moreover have "fold (remove_step P) [0..<k] (Some (xs, ?n)) = Some (xs, ?n)"
    by (rule fold_remove_none) (use only k(1) in auto)
  ultimately show ?thesis
    using k by (simp add: remove_pending_def split remove_step_def)
qed

text \<open>With distinct ids, that is removing it.\<close>

lemma remove_pending_remove1:
  assumes "inj_on f (set xs)" and "distinct xs" and "x \<in> set xs"
  shows "\<exists>ys. remove_pending (\<lambda>y. f y = f x) xs = Some ys \<and> mset xs = add_mset x (mset ys)"
proof -
  obtain k where k: "k < length xs" "xs ! k = x" using assms(3) by (metis in_set_conv_nth)
  have "f (xs ! j) \<noteq> f x" if "j < length xs" "j \<noteq> k" for j
    using assms that k by (metis inj_onD nth_eq_iff_index_eq nth_mem)
  then have "remove_pending (\<lambda>y. f y = f x) xs = Some (take k xs @ drop (Suc k) xs)"
    using k by (intro remove_pending_one) auto
  moreover have "mset xs = add_mset x (mset (take k xs @ drop (Suc k) xs))"
    using id_take_nth_drop [OF k(1)] k(2) by (metis mset.simps(2) mset_append union_mset_add_mset_right)
  ultimately show ?thesis by blast
qed

section \<open>Without Unregister, no check is lost\<close>

text \<open>
  Where the checks are: in the queue, on their way to the pool, being performed, or on their way back.
  \<open>supervised\<close> says that these are exactly the registered checks, each in one place, that the pool's list
  is right and that the queue is ordered.
\<close>

definition in_flight :: "checker \<Rightarrow> nat multiset" where
  "in_flight h = mset (hq_queue (ck_queue h)) + mset (ck_work h) + mset (ck_running h) +
     mset (map fst (ck_updates h)) + mset (map fst (ck_results h))"

definition supervised :: "checker \<Rightarrow> bool" where
  "supervised h \<longleftrightarrow>
     (\<forall>i a. ck_register h i = Some a \<longrightarrow> a < ck_next h \<and> ck_GetID h a = i) \<and>
     finite (dom (ck_register h)) \<and>
     in_flight h = mset_set (ran (ck_register h)) \<and>
     mset (ck_pending h) = mset (ck_running h) + mset (map fst (ck_updates h)) \<and>
     hq_ordered (ck_queue h)"

lemma supervised_New: "supervised HealthChecker_New"
  by (simp add: supervised_def HealthChecker_New_def in_flight_def hq_ordered_def is_heap_def)

lemma supervisedD:
  assumes "supervised h"
  shows "finite (ran (ck_register h))" "\<And>a. count (in_flight h) a \<le> 1"
    "\<And>a. a \<in># in_flight h \<longleftrightarrow> a \<in> ran (ck_register h)"
    "inj_on (ck_GetID h) (ran (ck_register h))"
proof -
  show fin: "finite (ran (ck_register h))" using assms by (simp add: supervised_def finite_ran)
  show "count (in_flight h) a \<le> 1" for a
    using assms by (cases "a \<in> ran (ck_register h)") (simp_all add: supervised_def fin)
  show "a \<in># in_flight h \<longleftrightarrow> a \<in> ran (ck_register h)" for a
    using assms by (simp add: supervised_def fin)
  show "inj_on (ck_GetID h) (ran (ck_register h))"
    using assms by (auto simp: supervised_def inj_on_def ran_def)
qed

text \<open>Registering.\<close>

lemma checkDisabled_no_error: "snd (snd (snd (snd (checkDisabled d app)))) = None"
  by (simp add: checkDisabled_def Let_def split: prod.split)

lemma Register_supervised:
  assumes sup: "supervised h" and reg: "HealthChecker_Register now d app h = Some (err, h')"
  shows "supervised h'"
proof -
  obtain config port i hn where chk: "checkDisabled d app = (config, port, i, hn, None)"
    using checkDisabled_no_error [of d app] by (cases "checkDisabled d app") auto
  consider (disabled) "h' = h" | (update) a where "ck_register h i = Some a" "h' = h\<lparr>ck_queue := (ck_queue h)\<lparr>hq_checks :=
        (hq_checks (ck_queue h))(a := (hq_checks (ck_queue h) a)\<lparr>ahc_HealthCheck :=
          check_Update config (ahc_HealthCheck (hq_checks (ck_queue h) a))\<rparr>)\<rparr>\<rparr>"
    | (new) x q' where "ck_register h i = None" "ahc_HealthCheck x = check_New i (hn @ '':'' @ Itoa (sint port)) config"
        "hq_Push (ck_next h) ((ck_queue h)\<lparr>hq_checks := (hq_checks (ck_queue h))(ck_next h := x)\<rparr>) = Some q'"
        "h' = h\<lparr>ck_register := (ck_register h)(i \<mapsto> ck_next h), ck_next := Suc (ck_next h), ck_queue := q'\<rparr>"
  proof (cases "config = None \<or> port = 0")
    case True
    then show ?thesis using reg disabled by (simp add: HealthChecker_Register_def chk)
  next
    case on: False
    show ?thesis
    proof (cases "ck_register h i")
      case None
      let ?x = "\<lparr>ahc_HealthCheck = check_New i (hn @ '':'' @ Itoa (sint port)) config,
        ahc_ExpiresAt = time_Add now (millis (HealthCheck_GetRampUp config)), ahc_index = 0\<rparr>"
      from reg on None obtain q' where
        "hq_Push (ck_next h) ((ck_queue h)\<lparr>hq_checks := (hq_checks (ck_queue h))(ck_next h := ?x)\<rparr>) = Some q'"
        "h' = h\<lparr>ck_register := (ck_register h)(i \<mapsto> ck_next h), ck_next := Suc (ck_next h), ck_queue := q'\<rparr>"
        by (auto simp: HealthChecker_Register_def chk Let_def)
      then show ?thesis using None by (intro new [of ?x q']) simp_all
    next
      case (Some a)
      then show ?thesis using reg on update by (simp add: HealthChecker_Register_def chk Let_def)
    qed
  qed
  then show ?thesis
  proof cases
    case disabled
    then show ?thesis using sup by simp
  next
    case (update a)
    have ids: "ck_GetID h' = ck_GetID h"
      by (rule ext) (simp add: update(2) ck_GetID_def ac_GetID_def)
    have "hq_entries (ck_queue h') = hq_entries (ck_queue h)"
      by (auto simp: update(2) hq_entries_def hq_entry_def ac_GetID_def)
    then have "hq_ordered (ck_queue h') = hq_ordered (ck_queue h)" by (rule hq_ordered_entries)
    with sup ids show ?thesis by (simp add: supervised_def in_flight_def update(2))
  next
    case (new x q')
    let ?a = "ck_next h" and ?q = "(ck_queue h)\<lparr>hq_checks := (hq_checks (ck_queue h))(ck_next h := x)\<rparr>"
    have fresh: "?a \<notin> ran (ck_register h)" using sup by (auto simp: supervised_def ran_def)
    then have "?a \<notin># in_flight h" using supervisedD(3) [OF sup] by simp
    then have nq: "?a \<notin> set (hq_queue (ck_queue h))" by (auto simp: in_flight_def)
    obtain q'' where "hq_Push ?a ?q = Some q''" "hq_frame q'' = hq_frame ?q"
      "mset (hq_queue q'') = add_mset ?a (mset (hq_queue ?q))" "hq_ordered ?q \<longrightarrow> hq_ordered q''"
      using hq_Push_ok by blast
    with new(3) have q': "hq_frame q' = hq_frame ?q" "mset (hq_queue q') = add_mset ?a (mset (hq_queue (ck_queue h)))"
      "hq_ordered ?q \<longrightarrow> hq_ordered q'" by auto
    have ord: "hq_ordered q'"
      using q'(3) hq_ordered_entries [OF hq_entries_other [OF nq, of x]] sup by (simp add: supervised_def)
    have ids: "ck_GetID h' b = (if b = ?a then i else ck_GetID h b)" for b
      using fun_cong [OF ac_GetID_frame [OF q'(1)], of b] new(2)
      by (simp add: new(4) ck_GetID_def ac_GetID_def)
    have "in_flight h' = add_mset ?a (in_flight h)" by (simp add: in_flight_def new(4) q'(2))
    moreover have "ran (ck_register h') = insert ?a (ran (ck_register h))" using new(1,4) by simp
    moreover have "ck_register h' = (ck_register h)(i \<mapsto> ?a)" "ck_next h' = Suc ?a" "ck_queue h' = q'"
      "ck_pending h' = ck_pending h" "ck_running h' = ck_running h" "ck_updates h' = ck_updates h"
      by (simp_all add: new(4))
    moreover have "\<forall>j b. ck_register h j = Some b \<longrightarrow> b < ?a \<and> ck_GetID h b = j"
      using sup by (simp add: supervised_def)
    ultimately show ?thesis
      using sup fresh supervisedD(1) [OF sup] ord
      unfolding supervised_def by (auto simp: ids less_Suc_eq)
  qed
qed

text \<open>The loops.\<close>

lemma dequeue_supervised:
  assumes sup: "supervised h" and turn: "dequeue_turn now later h = Some h'"
  shows "supervised h'"
proof -
  have ord: "hq_ordered (ck_queue h)" using sup by (simp add: supervised_def)
  obtain item due q where p: "hq_Pop now later (ck_queue h) = Some ((item, due, item \<noteq> None), q)" "hq_ordered q"
      "hq_frame q = hq_frame (ck_queue h)"
      "mset (hq_queue (ck_queue h)) = mset (hq_queue q) + (case item of None \<Rightarrow> {#} | Some a \<Rightarrow> {#a#})"
    using hq_Pop_ok [OF ord, of now later] by (auto split: option.splits)
  have ids: "ac_GetID q = ac_GetID (ck_queue h)" by (rule ac_GetID_frame [OF p(3)])
  consider "h' = h" | "h' = h\<lparr>ck_queue := q, ck_work := ck_work h @ (case item of None \<Rightarrow> [] | Some a \<Rightarrow> [a])\<rparr>"
    using turn p(1) by (auto simp: dequeue_turn_def split: if_splits option.splits)
  then show ?thesis
  proof cases
    case 2
    then have "in_flight h' = in_flight h" "ck_GetID h' = ck_GetID h"
      using p(4) ids by (auto simp: in_flight_def ck_GetID_def split: option.splits)
    with 2 sup p(2) show ?thesis by (simp add: supervised_def)
  qed (use sup in simp)
qed

lemma accept_supervised: "supervised h \<Longrightarrow> pool_accept h = Some h' \<Longrightarrow> supervised h'"
  by (auto simp: pool_accept_def supervised_def in_flight_def ck_GetID_def split: list.splits)

lemma perform_supervised:
  assumes "supervised h" and "perform_check net now item h = Some h'"
  shows "supervised h'"
proof -
  from assms(2) have "item \<in> set (ck_running h)"
    and h': "h' = h\<lparr>ck_running := remove1 item (ck_running h), ck_updates := ck_updates h @
               [(item, check_Check net now (ahc_HealthCheck (hq_checks (ck_queue h) item)))]\<rparr>"
    by (auto simp: perform_check_def split: if_splits)
  then have "add_mset item (mset (remove1 item (ck_running h))) = mset (ck_running h)" by simp
  then have "in_flight h' = in_flight h" "mset (ck_running h') + mset (map fst (ck_updates h')) =
      mset (ck_running h) + mset (map fst (ck_updates h))"
    by (simp_all add: h' in_flight_def flip: add_mset_add_single)
  with assms(1) show ?thesis by (simp add: supervised_def h' ck_GetID_def)
qed

text \<open>In a supervised state taking a check off the pool's list does not panic.\<close>

lemma forward_defined:
  assumes sup: "supervised h" and u: "ck_updates h = (item, result) # rest"
  shows "\<exists>ys. pool_forward h = Some (h\<lparr>ck_updates := rest, ck_results := ck_results h @ [(item, result)], ck_pending := ys\<rparr>)
              \<and> mset (ck_pending h) = add_mset item (mset ys)"
proof -
  have pend: "mset (ck_pending h) = mset (ck_running h) + mset (map fst (ck_updates h))"
    using sup by (simp add: supervised_def)
  then have sub: "mset (ck_pending h) \<subseteq># in_flight h"
    by (simp add: in_flight_def)
  have "count (mset (ck_pending h)) a \<le> 1" for a
    using supervisedD(2) [OF sup, of a] mset_subset_eq_count [OF sub, of a] by linarith
  then have d: "distinct (ck_pending h)" by (simp add: distinct_count_atmost_1 le_Suc_eq)
  have "set (ck_pending h) \<subseteq> ran (ck_register h)"
    using supervisedD(3) [OF sup] mset_subset_eqD [OF sub] by auto
  then have inj: "inj_on (ck_GetID h) (set (ck_pending h))"
    using supervisedD(4) [OF sup] by (rule inj_on_subset [rotated])
  have "item \<in># mset (ck_pending h)" unfolding pend by (simp add: u)
  then have "item \<in> set (ck_pending h)" by simp
  with remove_pending_remove1 [OF inj d this] show ?thesis
    by (auto simp: pool_forward_def u)
qed

lemma forward_supervised:
  assumes "supervised h" and "pool_forward h = Some h'"
  shows "supervised h'"
proof -
  obtain item result rest where u: "ck_updates h = (item, result) # rest"
    using assms(2) by (auto simp: pool_forward_def split: list.splits)
  obtain ys where h': "h' = h\<lparr>ck_updates := rest, ck_results := ck_results h @ [(item, result)], ck_pending := ys\<rparr>"
    and ys: "mset (ck_pending h) = add_mset item (mset ys)"
    using forward_defined [OF assms(1) u] assms(2) by auto
  have "mset ys = mset (ck_running h) + mset (map fst rest)"
    using ys assms(1) by (simp add: supervised_def u)
  with assms(1) show ?thesis by (simp add: supervised_def h' u in_flight_def ck_GetID_def)
qed

lemma dispatch_supervised:
  assumes sup: "supervised h" and "dispatch_result h = Some h'"
  shows "supervised h'"
proof -
  obtain item result rest where r: "ck_results h = (item, result) # rest"
    using assms(2) by (auto simp: dispatch_result_def split: list.splits)
  let ?q = "ck_queue h"
  let ?q1 = "?q\<lparr>hq_checks := (hq_checks ?q)(item := (hq_checks ?q item)\<lparr>ahc_ExpiresAt := r_NextCheck result\<rparr>)\<rparr>"
  have "count (in_flight h) item \<le> 1" by (rule supervisedD(2) [OF sup])
  then have nq: "item \<notin> set (hq_queue ?q)"
    by (auto simp: in_flight_def r count_mset_gt_0 dest: count_greater_zero_iff [THEN iffD2])
  obtain q2 where q2: "hq_Push item ?q1 = Some q2" "hq_frame q2 = hq_frame ?q1"
    "mset (hq_queue q2) = add_mset item (mset (hq_queue ?q1))" "hq_ordered ?q1 \<longrightarrow> hq_ordered q2"
    using hq_Push_ok by blast
  have h': "ck_queue h' = q2" "ck_register h' = ck_register h" "ck_next h' = ck_next h" "ck_work h' = ck_work h"
    "ck_running h' = ck_running h" "ck_updates h' = ck_updates h" "ck_pending h' = ck_pending h" "ck_results h' = rest"
    using assms(2) q2(1) by (auto simp: dispatch_result_def r Let_def)
  have "hq_ordered q2"
    using q2(4) hq_ordered_entries [OF hq_entries_other [OF nq]] sup by (simp add: supervised_def)
  moreover have "ck_GetID h' = ck_GetID h"
    using ac_GetID_frame [OF q2(2)] by (auto simp: ck_GetID_def h' ac_GetID_def fun_eq_iff)
  moreover have "in_flight h' = in_flight h" using q2(3) by (simp add: in_flight_def h' r)
  ultimately show ?thesis using sup by (simp add: supervised_def h')
qed

lemma step_supervised:
  "checker_step nrw act h h' \<Longrightarrow> act \<noteq> DoUnregister \<Longrightarrow> supervised h \<Longrightarrow> supervised h'"
  by (erule checker_stepE)
     (auto intro: Register_supervised dequeue_supervised accept_supervised perform_supervised
        forward_supervised dispatch_supervised)

lemma reach_supervised: "checker_reach nrw acts h \<Longrightarrow> DoUnregister \<notin> acts \<Longrightarrow> supervised h"
  by (induction rule: checker_reach.induct) (auto intro: supervised_New step_supervised)

lemma checker_reach_mono: "checker_reach nrw acts h \<Longrightarrow> acts \<subseteq> acts' \<Longrightarrow> checker_reach nrw acts' h"
  by (induction rule: checker_reach.induct) (auto intro: checker_reach.intros)

text \<open>The register and the queue agree on ids, so unregistering leaves neither with the id.\<close>

lemma Unregister_ok:
  assumes sup: "supervised h"
  shows "\<exists>h'. HealthChecker_Unregister tid h = Some (None, h') \<and>
     ck_register h' = (ck_register h)(TaskID_GetValue tid := None) \<and> \<not> hq_Contains (TaskID_GetValue tid) (ck_queue h')"
proof -
  let ?i = "TaskID_GetValue tid"
  obtain q' where q': "hq_Remove ?i (ck_queue h) = Some q'" "hq_frame q' = hq_frame (ck_queue h)"
    "if hq_Contains ?i (ck_queue h)
     then \<exists>a. ac_GetID (ck_queue h) a = ?i \<and> mset (hq_queue (ck_queue h)) = add_mset a (mset (hq_queue q'))
     else q' = ck_queue h"
    using hq_Remove_ok by blast
  have "\<not> hq_Contains ?i q'"
  proof (cases "hq_Contains ?i (ck_queue h)")
    case True
    then obtain a where a: "ac_GetID (ck_queue h) a = ?i" "mset (hq_queue (ck_queue h)) = add_mset a (mset (hq_queue q'))"
      using q'(3) by auto
    have inq: "b \<in> ran (ck_register h)" if "b \<in># add_mset a (mset (hq_queue q'))" for b
      using that supervisedD(3) [OF sup, of b] unfolding a(2) [symmetric] by (auto simp: in_flight_def)
    have "ac_GetID (ck_queue h) b \<noteq> ?i" if b: "b \<in> set (hq_queue q')" for b
    proof
      assume "ac_GetID (ck_queue h) b = ?i"
      then have "b = a" using supervisedD(4) [OF sup] inq [of a] inq [of b] b a(1) by (auto simp: inj_on_def ck_GetID_def)
      then have "2 \<le> count (mset (hq_queue (ck_queue h))) a" using b a(2) by (simp add: Suc_le_eq)
      moreover have "count (mset (hq_queue (ck_queue h))) a \<le> count (in_flight h) a" by (simp add: in_flight_def)
      ultimately show False using supervisedD(2) [OF sup, of a] by linarith
    qed
    then show ?thesis using ac_GetID_frame [OF q'(2)] by (simp add: hq_Contains_def)
  next
    case False
    then show ?thesis using q'(3) by simp
  qed
  then show ?thesis using q'(1) by (simp add: HealthChecker_Unregister_def)
qed

section \<open>Sample runs\<close>

definition check_app :: Application where
  "check_app = Application_zero\<lparr>app_Id := Some ''web'', app_Sla := Some (ApplicationSLA_zero\<lparr>sla_HealthCheck :=
     Some (HealthCheck_zero\<lparr>hc_Mode := Some HealthCheckMode_TCP, hc_RampUp := Some 0\<rparr>)\<rparr>)\<rparr>"

definition check_deployment :: "string \<Rightarrow> Deployment" where
  "check_deployment scheme = Deployment_zero\<lparr>dep_TaskId := Some \<lparr>tid_Value = Some ''t''\<rparr>, dep_HostName := Some ''h'',
     dep_PortMapping := [\<lparr>pm_Scheme = Some scheme, pm_PrivatePort = Some 80, pm_PublicPort = Some 31000\<rparr>]\<rparr>"

definition quiet_network :: network where
  "quiet_network = \<lparr>net_dial = \<lambda>_ _. None, net_newRequest = \<lambda>_. None, net_send = \<lambda>_ _. Inr 200\<rparr>"

text \<open>A run of the checker with one worker and one task, \<open>t\<close>, at time 0.\<close>

fun run_one :: "action \<Rightarrow> checker \<Rightarrow> checker option" where
  "run_one DoRegister h = map_option snd (HealthChecker_Register 0 (Some (check_deployment ''http'')) (Some check_app) h)"
| "run_one DoUnregister h = map_option snd (HealthChecker_Unregister (Some \<lparr>tid_Value = Some ''t''\<rparr>) h)"
| "run_one DoDequeue h = (if length (ck_work h) < 1 then dequeue_turn 0 0 h else None)"
| "run_one DoAccept h = pool_accept h"
| "run_one DoCheck h = (if length (ck_updates h) < 1
     then case ck_running h of [] \<Rightarrow> None | i # _ \<Rightarrow> perform_check quiet_network 0 i h else None)"
| "run_one DoForward h = (if length (ck_results h) < 1 then pool_forward h else None)"
| "run_one DoDispatch h = dispatch_result h"

fun run_all :: "action list \<Rightarrow> checker \<Rightarrow> checker option" where
  "run_all [] h = Some h"
| "run_all (act # acts) h = (case run_one act h of None \<Rightarrow> None | Some h' \<Rightarrow> run_all acts h')"

lemma run_one_step: "run_one act h = Some h' \<Longrightarrow> checker_step 1 act h h'"
  by (cases act) (auto split: if_splits list.splits intro: checker_step.intros)

lemma run_all_reach:
  "run_all as h = Some h' \<Longrightarrow> checker_reach 1 acts h \<Longrightarrow> set as \<subseteq> acts \<Longrightarrow> checker_reach 1 acts h'"
proof (induction "as" arbitrary: h)
  case (Cons a as)
  then obtain h1 where h1: "run_one a h = Some h1" "run_all as h1 = Some h'" by (auto split: option.splits)
  have "checker_reach 1 acts h1" using reach_step [OF Cons.prems(2) _ run_one_step [OF h1(1)]] Cons.prems(3) by simp
  then show ?case using Cons.IH [OF h1(2)] Cons.prems(3) by simp
qed simp

lemmas run_defs = HealthChecker_Register_def checkDisabled_def check_app_def check_deployment_def
  Application_zero_def ApplicationSLA_zero_def Deployment_zero_def HealthCheck_zero_def getter_simps
  EqualFold_def HealthChecker_New_def hq_Push_def heap_Push_def hcp_Push_def hcp_Len_def heap_up.simps
  heap_down.simps Let_def set_index_def HealthChecker_Unregister_def hq_Remove_def dequeue_turn_def
  hq_Len_def hq_Pop_def heap_Pop_def hcp_Pop_def hcp_Swap_def hcp_Less_def hq_in_range_def swap_at_def
  heap_Remove_def pool_accept_def pool_forward_def perform_check_def remove_pending_def remove_step_def
  ck_GetID_def ac_GetID_def dispatch_result_def time_Add_def millis_def hq_Contains_def

section \<open>Properties\<close>

text \<open>C26. As long as nothing is unregistered, no interleaving of registrations and of the three
  loops loses or duplicates a check: every registered task's check is, under its own id, in
  exactly one place between the queue and the next check, and nothing else is; and the queue
  stays ordered by expiry.\<close>

theorem no_check_lost:
  assumes "checker_reach nrw (- {DoUnregister}) h"
  shows "in_flight h = mset_set (ran (ck_register h)) \<and> hq_ordered (ck_queue h) \<and>
     (\<forall>i a. ck_register h i = Some a \<longrightarrow> ck_GetID h a = i \<and> count (in_flight h) a = 1)"
proof -
  have sup: "supervised h" using reach_supervised [OF assms] by simp
  have "count (in_flight h) a = 1" if "ck_register h i = Some a" for i a
    using sup supervisedD(1) [OF sup] that by (simp add: supervised_def ranI)
  with sup show ?thesis by (simp add: supervised_def)
qed

theorem no_check_lost_witness:
  "\<exists>h. run_all [DoRegister, DoDequeue, DoAccept] HealthChecker_New = Some h \<and> in_flight h = {#0#}"
proof -
  obtain h where h: "run_all [DoRegister, DoDequeue, DoAccept] HealthChecker_New = Some h" "ck_register h = [''t'' \<mapsto> 0]"
    by (simp add: run_defs)
  have "checker_reach 1 (- {DoUnregister}) h" by (rule run_all_reach [OF h(1) reach_New]) simp
  from no_check_lost [OF this] h show ?thesis by simp
qed

text \<open>As long as nothing is unregistered, the worker pool always gets a result past its list of pending
  checks: removing the check from the list never panics and removes exactly that check.\<close>

theorem pool_forward_never_panics:
  assumes "checker_reach nrw (- {DoUnregister}) h" and "ck_updates h = (item, result) # rest"
  shows "\<exists>h'. pool_forward h = Some h' \<and> ck_results h' = ck_results h @ [(item, result)] \<and>
              mset (ck_pending h) = add_mset item (mset (ck_pending h'))"
proof -
  have "supervised h" using reach_supervised [OF assms(1)] by simp
  from forward_defined [OF this assms(2)] show ?thesis by auto
qed

theorem pool_forward_never_panics_witness:
  "\<exists>h h'. run_all [DoRegister, DoDequeue, DoAccept, DoCheck] HealthChecker_New = Some h \<and>
     pool_forward h = Some h' \<and> ck_pending h' = []"
proof -
  obtain h r where h: "run_all [DoRegister, DoDequeue, DoAccept, DoCheck] HealthChecker_New = Some h"
    "ck_updates h = (0, r) # []" "ck_pending h = [0]"
    by (simp add: run_defs)
  have "checker_reach 1 (- {DoUnregister}) h" by (rule run_all_reach [OF h(1) reach_New]) simp
  from pool_forward_never_panics [OF this h(2)] h show ?thesis by auto
qed

text \<open>C39. With \<open>Unregister\<close> it can panic: when a task is unregistered while its check is being performed
  and registered again, the pool's list holds two checks with one id, and the loop that removes a result's
  check from the list slices beyond its end.\<close>

theorem pool_panics_after_reregistering:
  "\<exists>h. checker_reach 1 UNIV h \<and> ck_updates h \<noteq> [] \<and> pool_forward h = None"
proof -
  let ?run = "[DoRegister, DoDequeue, DoAccept, DoUnregister, DoRegister, DoDequeue, DoAccept, DoCheck]"
  obtain h where h: "run_all ?run HealthChecker_New = Some h" "ck_updates h \<noteq> [] \<and> pool_forward h = None"
    by (simp add: run_defs)
  have "checker_reach 1 UNIV h" by (rule run_all_reach [OF h(1) reach_New]) simp
  with h(2) show ?thesis by blast
qed

text \<open>C40. Whenever a task is unregistered while the result of its check is on the way back, the register and the queue are rid
  of it, but the turn of the dispatch loop that takes the result never looks at the register: it queues the check again, to
  be performed for a task that is not registered.\<close>

theorem dispatch_revives_unregistered:
  assumes "checker_reach nrw (- {DoUnregister}) h" and "ck_results h = (a, r) # rest" and "TaskID_GetValue tid = ck_GetID h a"
  shows "\<exists>h1 h2. HealthChecker_Unregister tid h = Some (None, h1) \<and> \<not> HealthChecker_Contains tid h1 \<and>
    \<not> hq_Contains (TaskID_GetValue tid) (ck_queue h1) \<and> dispatch_result h1 = Some h2 \<and> checker_reach nrw UNIV h2 \<and>
    \<not> HealthChecker_Contains tid h2 \<and> hq_Contains (TaskID_GetValue tid) (ck_queue h2)"
proof -
  let ?i = "TaskID_GetValue tid"
  have sup: "supervised h" using reach_supervised [OF assms(1)] by simp
  obtain q where q: "hq_Remove ?i (ck_queue h) = Some q" "hq_frame q = hq_frame (ck_queue h)" using hq_Remove_ok by blast
  let ?h1 = "h\<lparr>ck_register := (ck_register h)(?i := None), ck_queue := q\<rparr>"
  have un: "HealthChecker_Unregister tid h = Some (None, ?h1)" by (simp add: HealthChecker_Unregister_def q(1))
  have gone: "\<not> hq_Contains ?i q" using Unregister_ok [OF sup, of tid] un by auto
  let ?q1 = "q\<lparr>hq_checks := (hq_checks q)(a := (hq_checks q a)\<lparr>ahc_ExpiresAt := r_NextCheck r\<rparr>)\<rparr>"
  obtain q2 where q2: "hq_Push a ?q1 = Some q2" "hq_frame q2 = hq_frame ?q1" "mset (hq_queue q2) = add_mset a (mset (hq_queue ?q1))"
    using hq_Push_ok by blast
  obtain h2 where h2: "dispatch_result ?h1 = Some h2" "ck_queue h2 = q2" "ck_register h2 = (ck_register h)(?i := None)"
    using q2(1) by (simp add: dispatch_result_def assms(2) Let_def)
  have "ac_GetID q2 a = ac_GetID ?q1 a" using ac_GetID_frame [OF q2(2)] by simp
  also have "\<dots> = ac_GetID q a" by (simp add: ac_GetID_def)
  also have "\<dots> = ?i" using ac_GetID_frame [OF q(2)] assms(3) by (simp add: ck_GetID_def)
  finally have id: "ac_GetID q2 a = ?i" .
  have "a \<in> set (hq_queue q2)" by (simp flip: set_mset_mset add: q2(3))
  with id have queued: "hq_Contains ?i q2" by (auto simp: hq_Contains_def)
  have "checker_reach nrw UNIV h" by (rule checker_reach_mono [OF assms(1)]) simp
  from reach_step [OF reach_step [OF this _ step_Unregister [OF un]] _ step_Dispatch [OF h2(1)]]
  have reach: "checker_reach nrw UNIV h2" by simp
  show ?thesis
    by (intro exI [of _ ?h1] exI [of _ h2] conjI) (simp_all add: un gone h2 queued reach HealthChecker_Contains_def)
qed

theorem dispatch_revives_unregistered_witness:
  "\<exists>h h1 h2. run_all [DoRegister, DoDequeue, DoAccept, DoCheck, DoForward] HealthChecker_New = Some h \<and>
     HealthChecker_Unregister (Some \<lparr>tid_Value = Some ''t''\<rparr>) h = Some (None, h1) \<and> \<not> hq_Contains ''t'' (ck_queue h1) \<and>
     dispatch_result h1 = Some h2 \<and> hq_Contains ''t'' (ck_queue h2)"
proof -
  obtain h r where h: "run_all [DoRegister, DoDequeue, DoAccept, DoCheck, DoForward] HealthChecker_New = Some h"
    "ck_results h = (0, r) # []" "ck_GetID h 0 = ''t''"
    by (simp add: run_defs)
  have "checker_reach 1 (- {DoUnregister}) h" by (rule run_all_reach [OF h(1) reach_New]) simp
  from dispatch_revives_unregistered [OF this h(2), of "Some \<lparr>tid_Value = Some ''t''\<rparr>"] h(1,3)
  show ?thesis by (auto simp: TaskID_GetValue_def)
qed

text \<open>The port a task is checked on is looked up under the default scheme, http, whatever
  scheme its health check is configured with: a task that maps no http port is never registered.\<close>

theorem Register_ignores_scheme:
  assumes "\<forall>p \<in> set (Deployment_GetPortMapping deployment). \<not> EqualFold (PortMapping_GetScheme (Some p)) ''http''"
  shows "HealthChecker_Register now deployment app h = Some (None, h)"
proof -
  have "portForScheme pm ''http'' = (0, False)"
    if "\<forall>p \<in> set pm. \<not> EqualFold (PortMapping_GetScheme (Some p)) ''http''" for pm
    using that by (induction pm) simp_all
  from this [OF assms] show ?thesis
    by (simp add: HealthChecker_Register_def checkDisabled_def HealthCheck_GetScheme_def Let_def)
qed

theorem Register_ignores_scheme_witness:
  "HealthChecker_Register 0 (Some (check_deployment ''https''))
     (Some (check_app\<lparr>app_Sla := Some (ApplicationSLA_zero\<lparr>sla_HealthCheck :=
        Some (HealthCheck_zero\<lparr>hc_Scheme := Some ''https''\<rparr>)\<rparr>)\<rparr>)) HealthChecker_New = Some (None, HealthChecker_New)"
  by (rule Register_ignores_scheme)
     (simp add: check_deployment_def Deployment_zero_def getter_simps EqualFold_def ToLower_def)

text \<open>Unregistering a task, in a state reached without unregistering any, always succeeds and leaves
  neither the register nor the queue with a check of that id; the other tasks stay registered.\<close>

theorem Unregister_forgets:
  assumes "checker_reach nrw (- {DoUnregister}) h"
  shows "\<exists>h'. HealthChecker_Unregister tid h = Some (None, h') \<and> \<not> HealthChecker_Contains tid h' \<and>
     \<not> hq_Contains (TaskID_GetValue tid) (ck_queue h') \<and>
     (\<forall>other. TaskID_GetValue other \<noteq> TaskID_GetValue tid \<longrightarrow>
        HealthChecker_Contains other h' = HealthChecker_Contains other h)"
proof -
  have "supervised h" using reach_supervised [OF assms] by simp
  from Unregister_ok [OF this, of tid] show ?thesis by (auto simp: HealthChecker_Contains_def)
qed

theorem Unregister_forgets_witness:
  "\<exists>h h'. run_all [DoRegister] HealthChecker_New = Some h \<and>
     HealthChecker_Unregister (Some \<lparr>tid_Value = Some ''t''\<rparr>) h = Some (None, h') \<and>
     \<not> hq_Contains ''t'' (ck_queue h')"
proof -
  obtain h where h: "run_all [DoRegister] HealthChecker_New = Some h" by (simp add: run_defs)
  have "checker_reach 1 (- {DoUnregister}) h" by (rule run_all_reach [OF h reach_New]) simp
  from Unregister_forgets [OF this, of "Some \<lparr>tid_Value = Some ''t''\<rparr>"] h
  show ?thesis by (auto simp: TaskID_GetValue_def)
qed

end
