(* ===== verification/TaskManager.thy ===== *)
theory TaskManager
  imports SLA Builders HealthChecker
begin

text \<open>
  The task manager, \<open>src/tasks/default_task_manager.go\<close>: submitting applications, fulfilling
  offers, and following the tasks through their status updates. Its state is the queue with
  the two stores of messages it points into, the task store, the app store and the health
  checker (\<open>None\<close> when there is none). What it is configured with is \<open>tm_env\<close>: the methods of the
  two key-value stores, the codecs, the SLA monitor, the port picker and \<open>mesos.ScalarResource\<close>. The clock
  and the id generator are arguments of the operations that read them. A panic is \<open>None\<close>.

  Allocation matters in one place: \<open>SubmitApp\<close> takes the address of its loop variable, which in the Go of
  this program is one variable for the whole loop. Addresses below \<open>tm_next\<close> are in use.
\<close>

record ('s, 'a) task_manager =
  tm_queue :: queue_mem
  tm_next :: nat
  tm_tasks :: "'s DefaultTaskStore"
  tm_apps :: "'a DefaultAppStore"
  tm_health :: "checker option"

text \<open>The interface \<open>SLAMonitor\<close>, on the state it shares with the task manager.\<close>

record 'w SLAMonitor =
  mon_NeedsMore :: "Application option \<Rightarrow> 'w \<Rightarrow> bool"
  mon_CanDeploy :: "Application option \<Rightarrow> 'w \<Rightarrow> bool"

record ('s, 'a) tm_env =
  e_kv :: "'s KVStore"
  e_enc :: "Deployment marshal"
  e_dec :: "Deployment unmarshal"
  e_akv :: "'a KVStore"
  e_aenc :: "Application marshal"
  e_adec :: "Application unmarshal"
  e_sla :: "('s, 'a) task_manager SLAMonitor"
  e_getPorts :: "Offer \<Rightarrow> int64 \<Rightarrow> (PortRange list \<times> int32 list) option"
  e_scalar :: "string \<Rightarrow> gofloat \<Rightarrow> Resource"

text \<open>The monitor the program runs with, and the one its tests use.\<close>

definition simple_monitor ::
  "'s KVStore \<Rightarrow> Deployment unmarshal \<Rightarrow> ('s, 'a) task_manager SLAMonitor" where
  [iface_simps]: "simple_monitor kv dec =
     \<lparr>mon_NeedsMore = (\<lambda>app tm. NeedsMoreInstances kv dec (tm_tasks tm) (tm_queue tm) app),
      mon_CanDeploy = (\<lambda>app tm. CanDeployMoreInstances kv dec (tm_tasks tm) (tm_queue tm) app)\<rparr>"

definition NoopSLAMonitor :: "('s, 'a) task_manager SLAMonitor" where
  [iface_simps]: "NoopSLAMonitor = \<lparr>mon_NeedsMore = (\<lambda>_ _. True), mon_CanDeploy = (\<lambda>_ _. True)\<rparr>"

section \<open>Submitting\<close>

definition SaveApp ::
  "('s, 'a) tm_env \<Rightarrow> Application \<Rightarrow> ('s, 'a) task_manager \<Rightarrow> goerr option \<times> ('s, 'a) task_manager" where
  "SaveApp env app tm =
     (let (err, as) = DefaultAppStore_Save (e_akv env) (e_aenc env) app (tm_apps tm)
      in (err, tm\<lparr>tm_apps := as\<rparr>))"

text \<open>\<open>app\<close> is an address; the scheduled item is a fresh one.\<close>

definition scheduleAppForDeployment ::
  "('s, 'a) tm_env \<Rightarrow> int64 \<Rightarrow> nat \<Rightarrow> ('s, 'a) task_manager \<Rightarrow> ('s, 'a) task_manager option" where
  "scheduleAppForDeployment env now app tm =
     (let q = tm_queue tm
      in if \<not> mon_CanDeploy (e_sla env) (Some (apps q app)) tm then Some tm
         else let component = tm_next tm;
                  q1 = q\<lparr>sas := (sas q)(component :=
                         \<lparr>sa_AppId = app_Id (apps q app), sa_App = Some app, sa_Position = None, sa_Since = None\<rparr>)\<rparr>
              in map_option (\<lambda>q2. tm\<lparr>tm_queue := q2, tm_next := Suc component\<rparr>) (Enqueue now component q1))"

text \<open>
  The loop of \<open>SubmitApp\<close>: \<open>comp\<close>, the address of the loop variable, is written in every
  turn. Each application comes with the time at which it is enqueued.
\<close>

fun submit_loop ::
  "('s, 'a) tm_env \<Rightarrow> nat \<Rightarrow> (Application \<times> int64) list \<Rightarrow> ('s, 'a) task_manager \<Rightarrow> ('s, 'a) task_manager option" where
  "submit_loop env var [] tm = Some tm"
| "submit_loop env var ((a, now) # rest) tm =
     (let q = tm_queue tm; tm1 = tm\<lparr>tm_queue := q\<lparr>apps := (apps q)(var := a)\<rparr>\<rparr>
      in case scheduleAppForDeployment env now var tm1 of
           None \<Rightarrow> None
         | Some tm2 \<Rightarrow> submit_loop env var rest tm2)"

definition SubmitApp ::
  "('s, 'a) tm_env \<Rightarrow> (Application \<times> int64) list \<Rightarrow> ('s, 'a) task_manager \<Rightarrow>
     (goerr option \<times> ('s, 'a) task_manager) option" where
  "SubmitApp env as tm =
     map_option (\<lambda>tm'. (None, tm')) (submit_loop env (tm_next tm) as (tm\<lparr>tm_next := Suc (tm_next tm)\<rparr>))"

section \<open>Finding tasks\<close>

text \<open>The application of a deployment, nil when it is not stored or does not decode.\<close>

definition app_of_item :: "('s, 'a) tm_env \<Rightarrow> ('s, 'a) task_manager \<Rightarrow> Deployment option \<Rightarrow> Application option" where
  "app_of_item env tm item =
     (case DefaultAppStore_Get (e_akv env) (e_adec env) (Deployment_GetAppId item) (tm_apps tm) of
        Inl _ \<Rightarrow> None | Inr app \<Rightarrow> app)"

definition RunningApps ::
  "('s, 'a) tm_env \<Rightarrow> string \<Rightarrow> ('s, 'a) task_manager \<Rightarrow> TaskID option list \<times> goerr option" where
  "RunningApps env i tm =
     (let (items, _) = DefaultTaskStore_ForEach (e_kv env) (e_dec env) (tm_tasks tm)
      in (fold (\<lambda>item tasks.
             let app = app_of_item env tm item
             in if app \<noteq> None \<and> Application_GetAppName app = i \<and> Deployment_GetStatus item = AppStatus_STARTED
                then tasks @ [Deployment_GetTaskId item] else tasks) items [], None))"

definition FindTasksForApp ::
  "('s, 'a) tm_env \<Rightarrow> string \<Rightarrow> ('s, 'a) task_manager \<Rightarrow> TaskID option list \<times> goerr option" where
  "FindTasksForApp env name tm =
     (let (items, _) = DefaultTaskStore_ForEach (e_kv env) (e_dec env) (tm_tasks tm)
      in (fold (\<lambda>item tasks.
             let app = app_of_item env tm item
             in if app \<noteq> None \<and> Application_GetAppName app = name
                then tasks @ [Deployment_GetTaskId item] else tasks) items [], None))"

definition FindTasksForComponent ::
  "('s, 'a) tm_env \<Rightarrow> string \<Rightarrow> string \<Rightarrow> ('s, 'a) task_manager \<Rightarrow> TaskID option list \<times> goerr option" where
  "FindTasksForComponent env appName component tm =
     (let (items, _) = DefaultTaskStore_ForEach (e_kv env) (e_dec env) (tm_tasks tm)
      in (fold (\<lambda>item tasks.
             let app = app_of_item env tm item
             in if app \<noteq> None \<and> Application_GetAppName app = appName \<and> Application_GetName app = component
                then tasks @ [Deployment_GetTaskId item] else tasks) items [], None))"

definition FindTaskForComponent ::
  "('s, 'a) tm_env \<Rightarrow> string \<Rightarrow> ('s, 'a) task_manager \<Rightarrow> TaskID option result" where
  "FindTaskForComponent env task tm =
     (case DefaultTaskStore_Get (e_kv env) (e_dec env) task (tm_tasks tm) of
        Inl err \<Rightarrow> Inl err
      | Inr None \<Rightarrow> Inr None
      | Inr (Some res) \<Rightarrow> Inr (dep_TaskId res))"

section \<open>Fulfilling offers\<close>

text \<open>What the loop over the offer's resources accumulates; the last port resource wins.\<close>

definition offer_step :: "Resource \<Rightarrow> gofloat \<times> gofloat \<times> uint64 \<Rightarrow> gofloat \<times> gofloat \<times> uint64" where
  "offer_step resource st =
     (let (availCpus, availMem, maxPortsLen) = st
      in if Resource_GetName resource = ''cpus''
         then (f_add64 availCpus (Value_Scalar_GetValue (Resource_GetScalar resource)), availMem, maxPortsLen)
         else if Resource_GetName resource = ''mem''
         then (availCpus, f_add64 availMem (Value_Scalar_GetValue (Resource_GetScalar resource)), maxPortsLen)
         else if Resource_GetName resource = ''ports''
         then (availCpus, availMem,
               fold (\<lambda>r mx. let numAvail = Value_Range_GetEnd (Some r) - Value_Range_GetBegin (Some r) + 1
                            in if mx < numAvail then numAvail else mx)
                 (Value_Ranges_GetRange (Resource_GetRanges resource)) 0)
         else st)"

definition fitsInOffer :: "Offer \<Rightarrow> Application option \<Rightarrow> bool" where
  "fitsInOffer offer cmp =
     (let (availCpus, availMem, maxPortsLen) = fold offer_step (off_Resources offer) (f_zero, f_zero, 0)
      in f_ge availCpus (Application_GetCpus cmp) \<and> f_ge availMem (Application_GetMem cmp) \<and>
         sint maxPortsLen \<ge> int (length (Application_GetPorts cmp)))"

definition buildTaskInfo ::
  "('s, 'a) tm_env \<Rightarrow> string \<Rightarrow> Offer \<Rightarrow> queue_mem \<Rightarrow> nat \<Rightarrow> (TaskInfo \<times> PortMapping list) option" where
  "buildTaskInfo env taskID offer q scheduled =
     BuildTaskInfo (e_getPorts env) (e_scalar env) taskID offer
       (deref_app q (sa_App (sas q scheduled))) (sas q scheduled)"

text \<open>
  The \<open>for\<close> loop of \<open>FulfillOffer\<close> sets \<open>seen\<close> in its first turn, so it has at most one. Its condition
  asks the monitor about \<open>item.GetApp()\<close> while \<open>item\<close> is still nil.
\<close>

definition take_fitting ::
  "('s, 'a) tm_env \<Rightarrow> Offer \<Rightarrow> ('s, 'a) task_manager \<Rightarrow> (nat option \<times> ('s, 'a) task_manager) option" where
  "take_fitting env offer tm =
     (if mon_CanDeploy (e_sla env) (deref_app (tm_queue tm) (ScheduledApp_GetApp None)) tm
      then map_option (\<lambda>(item, q). (item, tm\<lparr>tm_queue := q\<rparr>))
             (DequeueFirst (\<lambda>q i. fitsInOffer offer (deref_app q (sa_App (sas q i)))) (tm_queue tm))
      else Some (None, tm))"

definition FulfillOffer ::
  "('s, 'a) tm_env \<Rightarrow> string \<Rightarrow> int64 \<Rightarrow> Offer \<Rightarrow> ('s, 'a) task_manager \<Rightarrow>
     (TaskInfo list \<times> ('s, 'a) task_manager) option" where
  "FulfillOffer env taskID nowMillis offer tm =
     (case take_fitting env offer tm of
        None \<Rightarrow> None
      | Some (None, tm1) \<Rightarrow> Some ([], tm1)
      | Some (Some item, tm1) \<Rightarrow>
          (case buildTaskInfo env taskID offer (tm_queue tm1) item of
             None \<Rightarrow> None
           | Some (task, portMapping) \<Rightarrow>
               let deploying =
                     \<lparr>dep_AppId = Some (ScheduledApp_GetAppId (Some (sas (tm_queue tm1) item))),
                      dep_TaskId = ti_TaskId task, dep_Status = Some AppStatus_DEPLOYING,
                      dep_DeployedAt = Some nowMillis, dep_Slave = ti_SlaveId task,
                      dep_HostName = off_Hostname offer, dep_PortMapping = portMapping\<rparr>;
                   (err, ts) = DefaultTaskStore_Save (e_kv env) (e_enc env) deploying (tm_tasks tm1);
                   tm2 = tm1\<lparr>tm_tasks := ts\<rparr>
               in Some (if err \<noteq> None then [] else [task], tm2)))"

section \<open>Status updates\<close>

text \<open>\<open>now\<close> is the time a new item is enqueued at, \<open>later\<close> the one a health check is registered at.\<close>

definition update_health ::
  "go_time \<Rightarrow> TaskID option \<Rightarrow> Deployment \<Rightarrow> Application \<Rightarrow> ('s, 'a) task_manager \<Rightarrow> ('s, 'a) task_manager option" where
  "update_health later taskID deploying app tm =
     (case tm_health tm of
        None \<Rightarrow> Some tm
      | Some hc \<Rightarrow>
          map_option (\<lambda>(_, hc'). tm\<lparr>tm_health := Some hc'\<rparr>)
            (if Deployment_GetStatus (Some deploying) = AppStatus_STARTED
             then HealthChecker_Register later (Some deploying) (Some app) hc
             else HealthChecker_Unregister taskID hc))"

definition updateStatus ::
  "('s, 'a) tm_env \<Rightarrow> int64 \<Rightarrow> go_time \<Rightarrow> TaskID option \<Rightarrow> AppStatus \<Rightarrow> ('s, 'a) task_manager \<Rightarrow>
     (goerr option \<times> ('s, 'a) task_manager) option" where
  "updateStatus env now later taskID status tm =
     (case DefaultTaskStore_Get (e_kv env) (e_dec env) (TaskID_GetValue taskID) (tm_tasks tm) of
        Inl err \<Rightarrow> Some (Some err, tm)
      | Inr None \<Rightarrow> None
      | Inr (Some d) \<Rightarrow>
          let deploying = d\<lparr>dep_Status := Some status\<rparr>;
              (err, ts) = DefaultTaskStore_Save (e_kv env) (e_enc env) deploying (tm_tasks tm);
              tm1 = tm\<lparr>tm_tasks := ts\<rparr>
          in if err \<noteq> None then Some (err, tm1)
             else (case DefaultAppStore_Get (e_akv env) (e_adec env) (Deployment_GetAppId (Some deploying)) (tm_apps tm1) of
                     Inr (Some app) \<Rightarrow>
                       let needs = mon_NeedsMore (e_sla env) (Some app) tm1;
                           var = tm_next tm1; q = tm_queue tm1;
                           tm2 = tm1\<lparr>tm_next := Suc var, tm_queue := q\<lparr>apps := (apps q)(var := app)\<rparr>\<rparr>
                       in (case (if needs then scheduleAppForDeployment env now var tm2 else Some tm2) of
                             None \<Rightarrow> None
                           | Some tm3 \<Rightarrow> map_option (\<lambda>tm4. (None, tm4)) (update_health later taskID deploying app tm3))
                   | _ \<Rightarrow> Some (None, tm1)))"

text \<open>\<open>updateStatus\<close> in two steps, reading the deployment and writing it back: nothing keeps other goroutines out in between.\<close>

definition updateStatus_read :: "('s, 'a) tm_env \<Rightarrow> TaskID option \<Rightarrow> ('s, 'a) task_manager \<Rightarrow> Deployment option result" where
  "updateStatus_read env taskID tm = DefaultTaskStore_Get (e_kv env) (e_dec env) (TaskID_GetValue taskID) (tm_tasks tm)"

definition updateStatus_write ::
  "('s, 'a) tm_env \<Rightarrow> int64 \<Rightarrow> go_time \<Rightarrow> TaskID option \<Rightarrow> AppStatus \<Rightarrow> Deployment option result \<Rightarrow> ('s, 'a) task_manager \<Rightarrow>
     (goerr option \<times> ('s, 'a) task_manager) option" where
  "updateStatus_write env now later taskID status r tm =
     (case r of
        Inl err \<Rightarrow> Some (Some err, tm)
      | Inr None \<Rightarrow> None
      | Inr (Some d) \<Rightarrow>
          let deploying = d\<lparr>dep_Status := Some status\<rparr>;
              (err, ts) = DefaultTaskStore_Save (e_kv env) (e_enc env) deploying (tm_tasks tm);
              tm1 = tm\<lparr>tm_tasks := ts\<rparr>
          in if err \<noteq> None then Some (err, tm1)
             else (case DefaultAppStore_Get (e_akv env) (e_adec env) (Deployment_GetAppId (Some deploying)) (tm_apps tm1) of
                     Inr (Some app) \<Rightarrow>
                       let needs = mon_NeedsMore (e_sla env) (Some app) tm1;
                           var = tm_next tm1; q = tm_queue tm1;
                           tm2 = tm1\<lparr>tm_next := Suc var, tm_queue := q\<lparr>apps := (apps q)(var := app)\<rparr>\<rparr>
                       in (case (if needs then scheduleAppForDeployment env now var tm2 else Some tm2) of
                             None \<Rightarrow> None
                           | Some tm3 \<Rightarrow> map_option (\<lambda>tm4. (None, tm4)) (update_health later taskID deploying app tm3))
                   | _ \<Rightarrow> Some (None, tm1)))"

definition forgetTask ::
  "('s, 'a) tm_env \<Rightarrow> TaskID option \<Rightarrow> ('s, 'a) task_manager \<Rightarrow> ('s, 'a) task_manager option" where
  "forgetTask env taskID tm =
     (let unregistered = (case tm_health tm of
             None \<Rightarrow> Some tm
           | Some hc \<Rightarrow> map_option (\<lambda>(_, hc'). tm\<lparr>tm_health := Some hc'\<rparr>) (HealthChecker_Unregister taskID hc))
      in case unregistered of
           None \<Rightarrow> None
         | Some tm1 \<Rightarrow>
             let (_, ts) = DefaultTaskStore_Delete (e_kv env) (TaskID_GetValue taskID) (tm_tasks tm1)
             in Some (tm1\<lparr>tm_tasks := ts\<rparr>))"

text \<open>The callbacks of the scheduler; each ignores what \<open>updateStatus\<close> returns, but for logging it.\<close>

definition TaskStopping where
  "TaskStopping env now later taskID tm = map_option snd (updateStatus env now later taskID AppStatus_STOPPING tm)"

definition TaskFailed where
  "TaskFailed env now later taskID slaveID tm = map_option snd (updateStatus env now later taskID AppStatus_FAILED tm)"

definition TaskFinished where
  "TaskFinished env now later taskID slaveID tm = map_option snd (updateStatus env now later taskID AppStatus_STOPPED tm)"

definition TaskKilled where
  "TaskKilled env now later taskID slaveID tm = map_option snd (updateStatus env now later taskID AppStatus_STOPPED tm)"

definition TaskLost where
  "TaskLost env now later taskID slaveID tm = map_option snd (updateStatus env now later taskID AppStatus_FAILED tm)"

definition TaskRunning where
  "TaskRunning env now later taskID slaveID tm = map_option snd (updateStatus env now later taskID AppStatus_STARTED tm)"

definition TaskStaging where
  "TaskStaging env taskID slaveID tm = forgetTask env taskID tm"

definition TaskStarting where
  "TaskStarting env taskID slaveID tm = forgetTask env taskID tm"

text \<open>One health failure, as \<open>listenForHealthFailures\<close> handles it: the tasks sent on
  \<open>tasksToKill\<close> and the new state.\<close>

definition handle_failure ::
  "('s, 'a) tm_env \<Rightarrow> int64 \<Rightarrow> go_time \<Rightarrow> Result \<Rightarrow> ('s, 'a) task_manager \<Rightarrow>
     (TaskID option list \<times> ('s, 'a) task_manager) option" where
  "handle_failure env now later failure tm =
     (case DefaultTaskStore_Get (e_kv env) (e_dec env) (r_ID failure) (tm_tasks tm) of
        Inr (Some deployment) \<Rightarrow>
          map_option (\<lambda>(_, tm'). ([Deployment_GetTaskId (Some deployment)], tm'))
            (updateStatus env now later (Deployment_GetTaskId (Some deployment)) AppStatus_UNHEALTHY tm)
      | _ \<Rightarrow> Some ([], tm))"

end
