(* ===== verification/TaskManagerFacts.thy ===== *)
theory TaskManagerFacts
  imports TaskManager
begin

text \<open>
  The properties of the task manager of \<open>TaskManager\<close>: its invariant \<open>tm_wf\<close>, what scheduling an
  application, fulfilling an offer and updating a status do, and where they do not do what they
  mean to.
\<close>

section \<open>The invariant\<close>

text \<open>The queue is well formed, and what is queued was allocated.\<close>

definition tm_wf :: "('s, 'a) task_manager \<Rightarrow> bool" where
  "tm_wf tm \<longleftrightarrow> queue_wf (tm_queue tm) \<and>
     (\<forall>i \<in> set (slots (tm_queue tm)). i < tm_next tm \<and>
        (\<forall>a. sa_App (sas (tm_queue tm) i) = Some a \<longrightarrow> a < tm_next tm))"

text \<open>Writing the application a fresh address holds, or a fresh item, leaves a queue as it is.\<close>

lemma queue_wf_fresh_sa:
  "queue_wf q \<Longrightarrow> i \<notin> set (slots q) \<Longrightarrow> queue_wf (q\<lparr>sas := (sas q)(i := x)\<rparr>)"
  unfolding queue_wf_def queue_core_def positions_ok_def deref_app_def
  by (auto simp: nth_mem)

lemma queue_wf_set_app:
  "queue_wf q \<Longrightarrow> sortable (Some a) \<Longrightarrow> queue_wf (q\<lparr>apps := (apps q)(p := a)\<rparr>)"
  unfolding queue_wf_def queue_core_def positions_ok_def deref_app_def
  by (auto simp: map_option_case split: option.splits)

lemma tm_wf_set_app:
  "tm_wf tm \<Longrightarrow> sortable (Some a) \<Longrightarrow> n \<ge> tm_next tm \<Longrightarrow>
     tm_wf (tm\<lparr>tm_next := n, tm_queue := (tm_queue tm)\<lparr>apps := (apps (tm_queue tm))(p := a)\<rparr>\<rparr>)"
  by (auto simp: tm_wf_def queue_wf_set_app)

text \<open>What one item refers to: its application's id and address.\<close>

definition item_ref :: "queue_mem \<Rightarrow> nat \<Rightarrow> string option \<times> nat option" where
  "item_ref q i = (sa_AppId (sas q i), sa_App (sas q i))"

lemma item_ref_frame: "queue_frame q' = queue_frame q \<Longrightarrow> item_ref q' = item_ref q"
  by (simp add: queue_frame_def item_ref_def fun_eq_iff)

lemma schedule_ok:
  assumes wf: "tm_wf tm" and app: "app < tm_next tm" "sortable (Some (apps (tm_queue tm) app))"
    and room: "Suc (length (slots (tm_queue tm))) < 2 ^ 31"
    and can: "mon_CanDeploy (e_sla env) (Some (apps (tm_queue tm) app)) tm"
  shows "\<exists>q'. scheduleAppForDeployment env now app tm =
      Some (tm\<lparr>tm_queue := q', tm_next := Suc (tm_next tm)\<rparr>) \<and>
    tm_wf (tm\<lparr>tm_queue := q', tm_next := Suc (tm_next tm)\<rparr>) \<and> apps q' = apps (tm_queue tm) \<and>
    mset (slots q') = add_mset (tm_next tm) (mset (slots (tm_queue tm))) \<and>
    item_ref q' = (item_ref (tm_queue tm))(tm_next tm := (app_Id (apps (tm_queue tm) app), Some app))"
proof -
  let ?q = "tm_queue tm" and ?c = "tm_next tm"
  let ?q1 = "?q\<lparr>sas := (sas ?q)(?c := \<lparr>sa_AppId = app_Id (apps ?q app), sa_App = Some app, sa_Position = None, sa_Since = None\<rparr>)\<rparr>"
  have new: "?c \<notin> set (slots ?q)" using wf by (auto simp: tm_wf_def)
  have wf1: "queue_wf ?q1" using queue_wf_fresh_sa [OF _ new] wf by (simp add: tm_wf_def)
  have "can_push (?c, now) ?q1" using new app(2) room by (simp add: can_push_def deref_app_def)
  from Enqueue_ok [OF wf1 this] obtain q' where q': "Enqueue now ?c ?q1 = Some q'" "queue_wf q'"
    "queue_frame q' = queue_frame ?q1"
    "mset (entries q') = add_mset (pushed_entry (?c, now) ?q1) (mset (entries ?q1))" by blast
  have "mset (slots q') = add_mset ?c (mset (slots ?q1))"
    unfolding mset_entries_slots q'(4) by (simp add: pushed_entry_def)
  then have ms: "mset (slots q') = add_mset ?c (mset (slots ?q))" by simp
  have ref: "item_ref q' = (item_ref ?q)(?c := (app_Id (apps ?q app), Some app))"
    unfolding item_ref_frame [OF q'(3)] by (auto simp: item_ref_def)
  have ap: "apps q' = apps ?q" using queue_frame_eqD [OF q'(3)] by simp
  have "tm_wf (tm\<lparr>tm_queue := q', tm_next := Suc ?c\<rparr>)"
    unfolding tm_wf_def
  proof (simp add: q'(2), intro ballI)
    fix i assume "i \<in> set (slots q')"
    then have "i = ?c \<or> i \<in> set (slots ?q)" using ms by (metis insert_iff set_mset_add_mset_insert set_mset_mset)
    moreover have "sa_App (sas q' i) = (if i = ?c then Some app else sa_App (sas ?q i))"
      using fun_cong [OF ref, of i] by (simp add: item_ref_def split: if_splits)
    ultimately show "i < Suc ?c \<and> (\<forall>a. sa_App (sas q' i) = Some a \<longrightarrow> a < Suc ?c)"
      using wf app(1) by (auto simp: tm_wf_def less_Suc_eq)
  qed
  then show ?thesis using q'(1) can ms ref ap
    by (intro exI [of _ q']) (simp add: scheduleAppForDeployment_def Let_def)
qed

lemma schedule_refused:
  "\<not> mon_CanDeploy (e_sla env) (Some (apps (tm_queue tm) app)) tm \<Longrightarrow>
     scheduleAppForDeployment env now app tm = Some tm"
  by (simp add: scheduleAppForDeployment_def)

section \<open>Submitting\<close>

text \<open>Every turn of the loop queues one more item, and all of them point to the loop variable.\<close>

lemma submit_loop_ok:
  assumes can: "\<And>a tm. mon_CanDeploy (e_sla env) a tm"
  shows "tm_wf tm \<Longrightarrow> var < tm_next tm \<Longrightarrow> \<forall>(a, _) \<in> set as. sortable (Some a) \<Longrightarrow>
    length (slots (tm_queue tm)) + length as < 2 ^ 31 \<Longrightarrow>
    \<exists>tm' new. submit_loop env var as tm = Some tm' \<and> tm_wf tm' \<and> length new = length as \<and>
      mset (slots (tm_queue tm')) = mset (slots (tm_queue tm)) + mset new \<and>
      map (item_ref (tm_queue tm')) new = map (\<lambda>(a, _). (app_Id a, Some var)) as \<and>
      (\<forall>i < tm_next tm. item_ref (tm_queue tm') i = item_ref (tm_queue tm) i) \<and>
      tm_next tm \<le> tm_next tm' \<and> (\<forall>i \<in> set new. tm_next tm \<le> i) \<and>
      tm_tasks tm' = tm_tasks tm \<and>
      apps (tm_queue tm') = (if as = [] then apps (tm_queue tm) else (apps (tm_queue tm))(var := fst (last as)))"
proof (induction "as" arbitrary: tm)
  case Nil
  then show ?case by (intro exI [of _ tm] exI [of _ "[]"]) simp
next
  case (Cons x rest)
  obtain a now where x: "x = (a, now)" by (cases x)
  let ?tm1 = "tm\<lparr>tm_queue := (tm_queue tm)\<lparr>apps := (apps (tm_queue tm))(var := a)\<rparr>\<rparr>"
  have srt: "sortable (Some a)" using Cons.prems(3) x by simp
  have wf1: "tm_wf ?tm1" using tm_wf_set_app [OF Cons.prems(1) srt order_refl, of var] by simp
  obtain q2 where q2: "scheduleAppForDeployment env now var ?tm1 = Some (?tm1\<lparr>tm_queue := q2, tm_next := Suc (tm_next tm)\<rparr>)"
    "tm_wf (?tm1\<lparr>tm_queue := q2, tm_next := Suc (tm_next tm)\<rparr>)" "apps q2 = (apps (tm_queue tm))(var := a)"
    "mset (slots q2) = add_mset (tm_next tm) (mset (slots (tm_queue tm)))"
    "item_ref q2 = (item_ref ((tm_queue tm)\<lparr>apps := (apps (tm_queue tm))(var := a)\<rparr>))(tm_next tm := (app_Id a, Some var))"
    using schedule_ok [OF wf1, of var env now] can srt Cons.prems(2,4) by auto
  let ?tm2 = "?tm1\<lparr>tm_queue := q2, tm_next := Suc (tm_next tm)\<rparr>"
  have len: "length (slots q2) = Suc (length (slots (tm_queue tm)))"
    using arg_cong [OF q2(4), of size] by simp
  have ref2: "item_ref q2 i = (if i = tm_next tm then (app_Id a, Some var) else item_ref (tm_queue tm) i)" for i
    by (simp add: q2(5)) (simp add: item_ref_def)
  obtain tm' new where ih: "submit_loop env var rest ?tm2 = Some tm'" "tm_wf tm'" "length new = length rest"
      "mset (slots (tm_queue tm')) = mset (slots q2) + mset new"
      "map (item_ref (tm_queue tm')) new = map (\<lambda>(a, _). (app_Id a, Some var)) rest"
      "\<forall>i < Suc (tm_next tm). item_ref (tm_queue tm') i = item_ref q2 i"
      "Suc (tm_next tm) \<le> tm_next tm'" "\<forall>i \<in> set new. Suc (tm_next tm) \<le> i" "tm_tasks tm' = tm_tasks tm"
      "apps (tm_queue tm') = (if rest = [] then apps q2 else (apps q2)(var := fst (last rest)))"
    using Cons.IH [OF q2(2)] Cons.prems(2-4) len by auto
  have "submit_loop env var (x # rest) tm = Some tm'" using q2(1) ih(1) by (simp add: x Let_def)
  moreover have "map (item_ref (tm_queue tm')) (tm_next tm # new) =
      map (\<lambda>(a, _). (app_Id a, Some var)) (x # rest)" using ih(5,6) ref2 by (simp add: x)
  moreover have "\<forall>i < tm_next tm. item_ref (tm_queue tm') i = item_ref (tm_queue tm) i" using ih(6) ref2 by simp
  moreover have "mset (slots (tm_queue tm')) = mset (slots (tm_queue tm)) + mset (tm_next tm # new)"
    using ih(4) q2(4) by simp
  moreover have "apps (tm_queue tm') = (apps (tm_queue tm))(var := fst (last (x # rest)))"
    using ih(10) q2(3) by (simp add: x)
  ultimately show ?case using ih(2,3,7,8,9) by (intro exI [of _ tm'] exI [of _ "tm_next tm # new"]) auto
qed

section \<open>Status updates\<close>

lemma Register_total: "\<exists>r. HealthChecker_Register now d app h = Some r"
proof -
  have "hq_Push a q \<noteq> None" for a q using hq_Push_ok [of a q] by auto
  then show ?thesis
    by (auto simp: HealthChecker_Register_def Let_def split: prod.split option.split)
qed

lemma Unregister_total: "\<exists>r. HealthChecker_Unregister tid h = Some r"
proof -
  obtain q' where "hq_Remove (TaskID_GetValue tid) (ck_queue h) = Some q'" using hq_Remove_ok by blast
  then show ?thesis by (simp add: HealthChecker_Unregister_def)
qed

lemma update_health_total:
  "\<exists>hc. update_health later taskID d app tm = Some (tm\<lparr>tm_health := hc\<rparr>)"
proof (cases "tm_health tm")
  case None
  then show ?thesis by (intro exI [of _ None]) (simp add: update_health_def)
next
  case (Some hc)
  obtain r where "(if Deployment_GetStatus (Some d) = AppStatus_STARTED
      then HealthChecker_Register later (Some d) (Some app) hc else HealthChecker_Unregister taskID hc) = Some r"
    using Register_total Unregister_total by (metis)
  then show ?thesis by (cases r) (auto simp: update_health_def Some)
qed

text \<open>Room for one more item, and only applications the queue can compare in the app store.\<close>

definition tm_room :: "('s, 'a) tm_env \<Rightarrow> ('s, 'a) task_manager \<Rightarrow> bool" where
  "tm_room env tm \<longleftrightarrow> Suc (length (slots (tm_queue tm))) < 2 ^ 31 \<and>
     (\<forall>k app. DefaultAppStore_Get (e_akv env) (e_adec env) k (tm_apps tm) = Inr (Some app) \<longrightarrow> sortable (Some app))"

text \<open>With nothing between its two steps.\<close>

lemma updateStatus_steps:
  "updateStatus env now later taskID status tm = updateStatus_write env now later taskID status (updateStatus_read env taskID tm) tm"
  unfolding updateStatus_def updateStatus_write_def updateStatus_read_def ..

text \<open>The second step, once the deployment is saved: no panic, and the stores stay as they are.\<close>

lemma updateStatus_write_ok:
  assumes wf: "tm_wf tm" and room: "tm_room env tm"
    and save: "DefaultTaskStore_Save (e_kv env) (e_enc env) (d\<lparr>dep_Status := Some status\<rparr>) (tm_tasks tm) = (None, ts)"
  shows "\<exists>tm'. updateStatus_write env now later taskID status (Inr (Some d)) tm = Some (None, tm') \<and> tm_wf tm' \<and>
     tm_tasks tm' = ts \<and> tm_apps tm' = tm_apps tm"
proof -
  let ?d = "d\<lparr>dep_Status := Some status\<rparr>" and ?tm1 = "tm\<lparr>tm_tasks := ts\<rparr>"
  let ?get = "DefaultAppStore_Get (e_akv env) (e_adec env) (Deployment_GetAppId (Some ?d)) (tm_apps tm)"
  consider (none) "\<nexists>app. ?get = Inr (Some app)" | (app) app where "?get = Inr (Some app)" by blast
  then show ?thesis
  proof cases
    case none
    then have "?get = Inr None \<or> (\<exists>e. ?get = Inl e)"
      by (cases ?get) (auto simp del: not_None_eq intro: option.exhaust)
    then have "updateStatus_write env now later taskID status (Inr (Some d)) tm = Some (None, ?tm1)"
      using save by (auto simp: updateStatus_write_def Let_def)
    then show ?thesis using wf by (simp add: tm_wf_def)
  next
    case (app app)
    let ?v = "tm_next tm"
    let ?tm2 = "?tm1\<lparr>tm_next := Suc ?v, tm_queue := (tm_queue tm)\<lparr>apps := (apps (tm_queue tm))(?v := app)\<rparr>\<rparr>"
    have srt: "sortable (Some app)" using room app by (auto simp: tm_room_def)
    have wf2: "tm_wf ?tm2" using tm_wf_set_app [OF wf srt, of "Suc ?v" ?v] by (simp add: tm_wf_def)
    have "\<exists>tm3. (if mon_NeedsMore (e_sla env) (Some app) ?tm1 then scheduleAppForDeployment env now ?v ?tm2 else Some ?tm2) =
        Some tm3 \<and> tm_wf tm3 \<and> tm_tasks tm3 = ts \<and> tm_apps tm3 = tm_apps tm"
    proof (cases "mon_NeedsMore (e_sla env) (Some app) ?tm1 \<and> mon_CanDeploy (e_sla env) (Some app) ?tm2")
      case True
      then show ?thesis
        using schedule_ok [OF wf2, of ?v env now] srt room by (auto simp: tm_room_def)
    next
      case False
      then show ?thesis using wf2 schedule_refused [of env ?tm2 ?v now] by auto
    qed
    then obtain tm3 where tm3: "(if mon_NeedsMore (e_sla env) (Some app) ?tm1
        then scheduleAppForDeployment env now ?v ?tm2 else Some ?tm2) = Some tm3"
      "tm_wf tm3" "tm_tasks tm3 = ts" "tm_apps tm3 = tm_apps tm" by blast
    obtain hc where "update_health later taskID ?d app tm3 = Some (tm3\<lparr>tm_health := hc\<rparr>)"
      using update_health_total by blast
    then have "updateStatus_write env now later taskID status (Inr (Some d)) tm = Some (None, tm3\<lparr>tm_health := hc\<rparr>)"
      using save app tm3(1) by (simp add: updateStatus_write_def Let_def)
    then show ?thesis using tm3 by (simp add: tm_wf_def)
  qed
qed

lemma updateStatus_tail:
  assumes "tm_wf tm" and "tm_room env tm"
    and "DefaultTaskStore_Get (e_kv env) (e_dec env) (TaskID_GetValue taskID) (tm_tasks tm) = Inr (Some d)"
    and "DefaultTaskStore_Save (e_kv env) (e_enc env) (d\<lparr>dep_Status := Some status\<rparr>) (tm_tasks tm) = (None, ts)"
  shows "\<exists>tm'. updateStatus env now later taskID status tm = Some (None, tm') \<and> tm_wf tm' \<and>
     tm_tasks tm' = ts \<and> tm_apps tm' = tm_apps tm"
  using updateStatus_write_ok [OF assms(1,2,4)] assms(3) by (simp add: updateStatus_steps updateStatus_read_def)

text \<open>A status update of a task that is stored under its own id.\<close>

lemma updateStatus_ok:
  assumes "tm_wf tm" and "tm_room env tm"
    and kv: "e_kv env = InMemoryStore_kv it" "ims_wf (dts_store (tm_tasks tm))" "codec_ok (e_enc env) (e_dec env)"
    and get: "DefaultTaskStore_Get (e_kv env) (e_dec env) (TaskID_GetValue taskID) (tm_tasks tm) = Inr (Some d)"
    and key: "TaskID_GetValue (dep_TaskId d) = TaskID_GetValue taskID"
    and enc: "e_enc env (d\<lparr>dep_Status := Some status\<rparr>) = Inr b"
  shows "\<exists>tm'. updateStatus env now later taskID status tm = Some (None, tm') \<and> tm_wf tm' \<and>
    tm_apps tm' = tm_apps tm \<and> ims_wf (dts_store (tm_tasks tm')) \<and>
    DefaultTaskStore_Get (e_kv env) (e_dec env) (TaskID_GetValue taskID) (tm_tasks tm') =
      Inr (Some (d\<lparr>dep_Status := Some status\<rparr>)) \<and>
    (\<forall>k. k \<noteq> TaskID_GetValue taskID \<longrightarrow>
       DefaultTaskStore_Get (e_kv env) (e_dec env) k (tm_tasks tm') = DefaultTaskStore_Get (e_kv env) (e_dec env) k (tm_tasks tm))"
proof -
  let ?d = "d\<lparr>dep_Status := Some status\<rparr>"
  have k: "TaskID_GetValue (dep_TaskId ?d) = TaskID_GetValue taskID" using key by simp
  obtain ts where ts: "DefaultTaskStore_Save (e_kv env) (e_enc env) ?d (tm_tasks tm) = (None, ts)"
    "ims_wf (dts_store ts)"
    "DefaultTaskStore_Get (e_kv env) (e_dec env) (TaskID_GetValue taskID) ts = Inr (Some ?d)"
    "\<forall>j. j \<noteq> TaskID_GetValue taskID \<longrightarrow>
       DefaultTaskStore_Get (e_kv env) (e_dec env) j ts = DefaultTaskStore_Get (e_kv env) (e_dec env) j (tm_tasks tm)"
    using ims_Save_Get [OF kv(2,3) enc, of it] unfolding k kv(1) by blast
  obtain tm' where "updateStatus env now later taskID status tm = Some (None, tm')" "tm_wf tm'" "tm_tasks tm' = ts"
      "tm_apps tm' = tm_apps tm"
    using updateStatus_tail [OF assms(1,2) get ts(1)] by blast
  with ts show ?thesis by auto
qed

text \<open>Forgetting a task deletes it and unregisters it, and touches nothing else.\<close>

lemma forgetTask_ok:
  assumes kv: "e_kv env = InMemoryStore_kv it" "ims_wf (dts_store (tm_tasks tm))"
  shows "\<exists>tm'. forgetTask env taskID tm = Some tm' \<and> ims_wf (dts_store (tm_tasks tm')) \<and>
     ims_abs (dts_store (tm_tasks tm')) = (ims_abs (dts_store (tm_tasks tm)))(TaskID_GetValue taskID := None) \<and>
     tm_queue tm' = tm_queue tm \<and> tm_next tm' = tm_next tm \<and>
     (\<forall>hc. tm_health tm' = Some hc \<longrightarrow> \<not> HealthChecker_Contains taskID hc)"
proof -
  let ?i = "TaskID_GetValue taskID"
  obtain s where s: "kv_Delete (e_kv env) ?i (dts_store (tm_tasks tm)) = (None, s)" "ims_wf s"
    "ims_abs s = (ims_abs (dts_store (tm_tasks tm)))(?i := None)"
    using mem.Delete_ok [OF kv(2), of it ?i] unfolding kv(1) by blast
  show ?thesis
  proof (cases "tm_health tm")
    case None
    then show ?thesis using s by (simp add: forgetTask_def DefaultTaskStore_Delete_def)
  next
    case (Some hc)
    obtain q where "hq_Remove ?i (ck_queue hc) = Some q" using hq_Remove_ok by blast
    then show ?thesis using s Some
      by (simp add: forgetTask_def DefaultTaskStore_Delete_def HealthChecker_Unregister_def HealthChecker_Contains_def)
  qed
qed

lemma BuildTaskInfo_AppId:
  assumes "ScheduledApp_GetAppId (Some s) = ScheduledApp_GetAppId (Some s')"
  shows "BuildTaskInfo gp sc tid off c s = BuildTaskInfo gp sc tid off c s'"
  unfolding BuildTaskInfo_def assms by (rule refl)

lemma BuildTaskInfo_defined:
  assumes "valid_offer offer" and n: "n = length (app_Ports c)" "0 < n" "n < 2 ^ 31"
    and "\<exists>r \<in> set (port_ranges offer). n < range_size r"
  shows "\<exists>task pm. BuildTaskInfo (GetPorts pick) scalar taskID offer (Some c) scheduled = Some (task, pm)"
proof -
  have ports: "Application_GetPorts (Some c) = app_Ports c" by (simp add: getter_simps)
  obtain taken x where g: "GetPorts pick offer (of_nat n) = Some (taken, map of_nat [x..<x + n])"
    using GetPorts_fits [OF assms(1) n(2,3) assms(5), of pick] by metis
  have "BuildMesosCommand (Some c) (map of_nat [x..<x + n]) \<noteq> None"
    unfolding BuildMesosCommand_defined using n(1) ports by simp
  with g n(1) show ?thesis by (auto simp: BuildTaskInfo_def ports)
qed

section \<open>Counting what is queued\<close>

lemma queued_of_app_ref:
  "queued_of_app q i = filter (\<lambda>a. case_option [] id (fst (item_ref q a)) = i) (slots q)"
  by (simp add: queued_of_app_def item_ref_def ScheduledApp_GetAppId_def)

lemma queued_after_schedule:
  assumes "mset (slots q') = add_mset c (mset (slots q))" and "item_ref q' = (item_ref q)(c := (n, p))"
    and "c \<notin> set (slots q)"
  shows "length (queued_of_app q' i) = length (queued_of_app q i) + (if case_option [] id n = i then 1 else 0)"
proof -
  let ?P = "\<lambda>q a. case_option [] id (fst (item_ref q a)) = i"
  have "length (filter (?P q') (slots q')) = length (filter (?P q') (c # slots q))"
    by (rule length_filter_mset_cong) (simp add: assms(1))
  also have "filter (?P q') (slots q) = filter (?P q) (slots q)"
    by (rule filter_cong) (use assms in auto)
  ultimately show ?thesis unfolding queued_of_app_ref by (simp add: assms(2))
qed

section \<open>Sample states\<close>

definition sample_env :: "Deployment list \<Rightarrow> (InMemoryStore, InMemoryStore) tm_env" where
  "sample_env ds = \<lparr>e_kv = InMemoryStore_kv id, e_enc = table_enc ds, e_dec = table_dec ds,
     e_akv = InMemoryStore_kv id, e_aenc = table_enc [], e_adec = table_dec [], e_sla = NoopSLAMonitor,
     e_getPorts = GetPorts 0,
     e_scalar = sample_scalar\<rparr>"

text \<open>A manager with one stored task and one queued docker application that declares one port.\<close>

definition docker_queue :: queue_mem where
  "docker_queue = \<lparr>slots = [0], sas = (\<lambda>_. \<lparr>sa_AppId = Some ''web'', sa_App = Some 0, sa_Position = Some 0, sa_Since = Some 0\<rparr>),
     apps = (\<lambda>_. docker_app)\<rparr>"

definition sample_tm :: "queue_mem \<Rightarrow> (InMemoryStore, InMemoryStore) task_manager" where
  "sample_tm q = \<lparr>tm_queue = q, tm_next = 1, tm_tasks = one_task, tm_apps = empty_apps, tm_health = None\<rparr>"

lemma sortable_docker: "sortable (Some docker_app)"
  by (simp add: sortable_def docker_app_def Application_zero_def getter_simps)

lemma sample_tm_wf: "tm_wf (sample_tm docker_queue)" "tm_wf (sample_tm empty_queue)"
proof -
  show "tm_wf (sample_tm docker_queue)"
    by (simp add: tm_wf_def sample_tm_def docker_queue_def queue_wf_def queue_core_def positions_ok_def
        deref_app_def sortable_docker)
  have "queue_wf empty_queue" unfolding empty_queue_def by (rule sample_queue_wf) simp
  moreover have "slots empty_queue = []" by (simp add: empty_queue_def sample_queue_def)
  ultimately show "tm_wf (sample_tm empty_queue)" by (simp add: tm_wf_def sample_tm_def)
qed

lemma sample_tm_room: "tm_room (sample_env ds) (sample_tm docker_queue)" "tm_room (sample_env ds) (sample_tm empty_queue)"
  by (simp_all add: tm_room_def sample_env_def sample_tm_def docker_queue_def empty_queue_def sample_queue_def
      DefaultAppStore_Get_def iface_simps InMemoryStore_Get_def ims_index_def empty_apps_def
      AppStore_NewWithStore_def NewEmptyInMemoryStore_def)

lemma sample_env_simps:
  "e_kv (sample_env ds) = InMemoryStore_kv id" "e_enc (sample_env ds) = table_enc ds"
  "e_dec (sample_env ds) = table_dec ds" "e_sla (sample_env ds) = NoopSLAMonitor"
  "e_getPorts (sample_env ds) = GetPorts 0"
  by (simp_all add: sample_env_def)

lemma sample_tm_simps:
  "tm_queue (sample_tm q) = q" "tm_tasks (sample_tm q) = one_task" "tm_next (sample_tm q) = 1"
  by (simp_all add: sample_tm_def)

lemma one_task_Get:
  "DefaultTaskStore_Get (InMemoryStore_kv it) (table_dec (d # ds)) ''task-1'' one_task = Inr (Some d)"
  by (simp add: ims_Get one_task_def TaskStore_NewWithStore_def NewInMemoryStore_def ims_abs_def)

section \<open>Fulfilling an offer\<close>

text \<open>With the SLA monitor the program runs with, no offer ever leads to a task: \<open>FulfillOffer\<close> asks
  the monitor whether the application of an item it does not have yet may be deployed, the
  answer for a nil application is no, and the queue is not even looked at.\<close>

theorem FulfillOffer_never_launches:
  "FulfillOffer (env\<lparr>e_sla := simple_monitor kv dec\<rparr>) taskID now offer tm = Some ([], tm)"
  by (simp add: FulfillOffer_def take_fitting_def iface_simps CanDeployMoreInstances_def
      ScheduledApp_GetApp_def deref_app_def Application_GetActive_def)

lemma FulfillOffer_ok:
  assumes "mon_CanDeploy (e_sla env) None tm" and wf: "tm_wf tm"
    and kv: "e_kv env = InMemoryStore_kv it" "ims_wf (dts_store (tm_tasks tm))" "codec_ok (e_enc env) (e_dec env)"
    and q: "q = tm_queue tm"
    and find: "List.find (\<lambda>i. fitsInOffer offer (deref_app q (sa_App (sas q i)))) (slots q) = Some item"
    and build: "BuildTaskInfo (e_getPorts env) (e_scalar env) taskID offer
                  (deref_app q (sa_App (sas q item))) (sas q item) = Some (task, pm)"
    and d: "d = \<lparr>dep_AppId = Some (ScheduledApp_GetAppId (Some (sas q item))),
                  dep_TaskId = Some \<lparr>tid_Value = Some (''exeggutor-task-'' @ taskID)\<rparr>,
                  dep_Status = Some AppStatus_DEPLOYING, dep_DeployedAt = Some now, dep_Slave = off_SlaveId offer,
                  dep_HostName = off_Hostname offer, dep_PortMapping = pm\<rparr>"
  shows "\<exists>tm'. FulfillOffer env taskID now offer tm =
            Some (case e_enc env d of Inl _ \<Rightarrow> [] | Inr _ \<Rightarrow> [task], tm') \<and> tm_wf tm' \<and>
          mset (slots q) = add_mset item (mset (slots (tm_queue tm'))) \<and>
          (\<forall>b. e_enc env d = Inr b \<longrightarrow>
             DefaultTaskStore_Get (e_kv env) (e_dec env) (''exeggutor-task-'' @ taskID) (tm_tasks tm') = Inr (Some d))"
proof -
  let ?P = "\<lambda>q i. fitsInOffer offer (deref_app q (sa_App (sas q i)))"
  have wfq: "queue_wf q" using wf q by (simp add: tm_wf_def)
  obtain q' where q': "DequeueFirst ?P q = Some (Some item, q')" "queue_wf q'" "queue_frame q' = queue_frame q"
    "add_mset (queue_entry q item) (mset (entries q')) = mset (entries q)"
    using DequeueFirst_ok [OF wfq, of ?P item] find by auto
  have ms: "mset (slots q) = add_mset item (mset (slots q'))"
    unfolding mset_entries_slots q'(4) [symmetric] by simp
  have ref: "sa_App (sas q' i) = sa_App (sas q i)" "sa_AppId (sas q' i) = sa_AppId (sas q i)"
    "deref_app q' p = deref_app q p" for i p
    using queue_frame_eqD [OF q'(3)] by (simp_all add: deref_app_def)
  let ?tm1 = "tm\<lparr>tm_queue := q'\<rparr>"
  have "set (slots q') \<subseteq> set (slots q)" using ms by (metis set_mset_mset set_mset_add_mset_insert subset_insertI)
  then have wf1: "tm_wf ?tm1" using wf q'(2) q by (auto simp: tm_wf_def ref)
  have take: "take_fitting env offer tm = Some (Some item, ?tm1)"
    using assms(1) q'(1) q by (simp add: take_fitting_def deref_app_def ScheduledApp_GetApp_def)
  have task: "ti_TaskId task = Some \<lparr>tid_Value = Some (''exeggutor-task-'' @ taskID)\<rparr>" "ti_SlaveId task = off_SlaveId offer"
    using build by (auto simp: BuildTaskInfo_def split: option.splits prod.splits)
  have appid: "ScheduledApp_GetAppId (Some (sas q' item)) = ScheduledApp_GetAppId (Some (sas q item))"
    by (simp add: ScheduledApp_GetAppId_def ref)
  then have "buildTaskInfo env taskID offer q' item = Some (task, pm)"
    using build unfolding buildTaskInfo_def ref BuildTaskInfo_AppId [OF appid] by simp
  with appid have F: "FulfillOffer env taskID now offer tm =
      (let (err, ts) = DefaultTaskStore_Save (e_kv env) (e_enc env) d (tm_tasks tm)
       in Some (if err \<noteq> None then [] else [task], ?tm1\<lparr>tm_tasks := ts\<rparr>))"
    by (simp add: FulfillOffer_def take task d Let_def)
  have key: "TaskID_GetValue (dep_TaskId d) = ''exeggutor-task-'' @ taskID" by (simp add: d TaskID_GetValue_def)
  show ?thesis
  proof (cases "e_enc env d")
    case (Inl e)
    then show ?thesis using F wf1 ms
      by (intro exI [of _ "?tm1\<lparr>tm_tasks := tm_tasks tm\<rparr>"])
         (simp add: DefaultTaskStore_Save_def task_writeBytes_def tm_wf_def)
  next
    case (Inr b)
    from ims_Save_Get [OF kv(2,3) Inr, of it] obtain ts where
      "DefaultTaskStore_Save (e_kv env) (e_enc env) d (tm_tasks tm) = (None, ts)"
      "DefaultTaskStore_Get (e_kv env) (e_dec env) (''exeggutor-task-'' @ taskID) ts = Inr (Some d)"
      unfolding key kv(1) by blast
    then show ?thesis using F wf1 ms Inr
      by (intro exI [of _ "?tm1\<lparr>tm_tasks := ts\<rparr>"]) (simp add: tm_wf_def)
  qed
qed

section \<open>Properties\<close>

text \<open>C5. When the monitor agrees, \<open>FulfillOffer\<close> takes the first queued item that fits the offer off the
  queue, launches exactly one task for it, built for this offer, and records it as DEPLOYING
  under the task's id. When the deployment cannot be encoded nothing is launched, but
  the item has left the queue all the same.\<close>

theorem FulfillOffer_launches:
  assumes "mon_CanDeploy (e_sla env) None tm" and wf: "tm_wf tm"
    and kv: "e_kv env = InMemoryStore_kv it" "ims_wf (dts_store (tm_tasks tm))" "codec_ok (e_enc env) (e_dec env)"
    and q: "q = tm_queue tm"
    and find: "List.find (\<lambda>i. fitsInOffer offer (deref_app q (sa_App (sas q i)))) (slots q) = Some item"
    and build: "BuildTaskInfo (e_getPorts env) (e_scalar env) taskID offer
                  (deref_app q (sa_App (sas q item))) (sas q item) = Some (task, pm)"
    and d: "d = \<lparr>dep_AppId = Some (ScheduledApp_GetAppId (Some (sas q item))),
                  dep_TaskId = Some \<lparr>tid_Value = Some (''exeggutor-task-'' @ taskID)\<rparr>,
                  dep_Status = Some AppStatus_DEPLOYING, dep_DeployedAt = Some now, dep_Slave = off_SlaveId offer,
                  dep_HostName = off_Hostname offer, dep_PortMapping = pm\<rparr>"
  shows "\<exists>tm'. FulfillOffer env taskID now offer tm =
            Some (case e_enc env d of Inl _ \<Rightarrow> [] | Inr _ \<Rightarrow> [task], tm') \<and> tm_wf tm' \<and>
          mset (slots q) = add_mset item (mset (slots (tm_queue tm'))) \<and>
          (\<forall>b. e_enc env d = Inr b \<longrightarrow>
             DefaultTaskStore_Get (e_kv env) (e_dec env) (''exeggutor-task-'' @ taskID) (tm_tasks tm') = Inr (Some d))"
  by (rule FulfillOffer_ok [OF assms])

lemma docker_offer:
  assumes "31000 \<le> e" and "e < 2 ^ 31"
  shows "fitsInOffer (sample_offer 31000 e) (Some docker_app)"
    and "valid_offer (sample_offer 31000 e)"
    and "port_ranges (sample_offer 31000 e) = [\<lparr>vr_Begin = Some (of_nat 31000), vr_End = Some (of_nat e)\<rparr>]"
    and "range_size \<lparr>vr_Begin = Some (of_nat 31000), vr_End = Some (of_nat e)\<rparr> = e + 1 - 31000"
proof -
  let ?r = "\<lparr>vr_Begin = Some (of_nat 31000), vr_End = Some (of_nat e)\<rparr> :: Value_Range"
  note r = sample_range [of 31000 e, OF assms]
  have v: "valid_range ?r" using r(3) by (simp add: valid_offer_def sample_offer_ranges del: of_nat_numeral)
  have na: "Value_Range_GetEnd (Some ?r) - Value_Range_GetBegin (Some ?r) + 1 = of_nat (range_size ?r)"
    by (rule num_avail [OF v])
  have size: "1 \<le> range_size ?r" "range_size ?r < 2 ^ 63" using r(2) assms by (simp_all del: of_nat_numeral)
  then have "(of_nat (range_size ?r) :: uint64) \<noteq> 0"
    by (simp add: word_unat_eq_iff unat_of_nat take_bit_nat_eq_self del: of_nat_numeral)
  then have pos: "(0 :: uint64) < of_nat (range_size ?r)" by (simp add: word_neq_0_conv del: of_nat_numeral)
  have sum: "round64 4 = Fin 4" "round64 8 = Fin 8"
    using round64_of_int [of 4] round64_of_int [of 8] by simp_all
  have "fold offer_step (off_Resources (sample_offer 31000 e)) (f_zero, f_zero, 0) = (Fin 4, Fin 8, of_nat (range_size ?r))"
    unfolding sample_offer_def using na pos
    by (simp add: offer_step_def getter_simps sum f_zero_def Let_def del: of_nat_numeral)
  then show "fitsInOffer (sample_offer 31000 e) (Some docker_app)"
    using size sint_of_nat_int64 [OF size(2)]
    by (simp add: fitsInOffer_def docker_app_simps(2) del: of_nat_numeral)
       (simp add: docker_app_def Application_zero_def getter_simps)
qed (use sample_range [of 31000 e, OF assms] in \<open>simp_all add: sample_offer_ranges del: of_nat_numeral\<close>)

text \<open>The docker application on its own in the queue, and an offer with room for it.\<close>

lemma docker_launch_setup:
  obtains task pm d where
    "BuildTaskInfo (e_getPorts (sample_env [d])) (e_scalar (sample_env [d])) ''7'' (sample_offer 31000 32000)
       (deref_app docker_queue (sa_App (sas docker_queue 0))) (sas docker_queue 0) = Some (task, pm)"
    and "d = \<lparr>dep_AppId = Some (ScheduledApp_GetAppId (Some (sas docker_queue 0))),
      dep_TaskId = Some \<lparr>tid_Value = Some (''exeggutor-task-'' @ ''7'')\<rparr>,
      dep_Status = Some AppStatus_DEPLOYING, dep_DeployedAt = Some 5,
      dep_Slave = off_SlaveId (sample_offer 31000 32000), dep_HostName = off_Hostname (sample_offer 31000 32000),
      dep_PortMapping = pm\<rparr>"
    and "mon_CanDeploy (e_sla (sample_env [d])) None (sample_tm docker_queue)"
    and "ims_wf (dts_store (tm_tasks (sample_tm docker_queue)))"
    and "codec_ok (e_enc (sample_env [d])) (e_dec (sample_env [d]))"
    and "List.find (\<lambda>i. fitsInOffer (sample_offer 31000 32000) (deref_app docker_queue (sa_App (sas docker_queue i))))
       (slots docker_queue) = Some 0"
proof -
  let ?o = "sample_offer 31000 32000"
  note o = docker_offer [of 32000, simplified]
  have "\<exists>r \<in> set (port_ranges ?o). 1 < range_size r" using o(3,4) by simp
  then obtain task pm where b: "BuildTaskInfo (GetPorts 0) sample_scalar ''7'' ?o (Some docker_app)
      (sas docker_queue 0) = Some (task, pm)"
    using BuildTaskInfo_defined [OF o(2), of 1 docker_app 0 sample_scalar "''7''" "sas docker_queue 0"]
    by (auto simp: docker_app_simps)
  have app: "deref_app docker_queue (sa_App (sas docker_queue 0)) = Some docker_app"
    by (simp add: docker_queue_def deref_app_def)
  have find: "List.find (\<lambda>i. fitsInOffer ?o (deref_app docker_queue (sa_App (sas docker_queue i)))) (slots docker_queue) = Some 0"
    using o(1) by (simp add: docker_queue_def deref_app_def)
  show ?thesis
  proof (rule that [OF _ refl])
    show "BuildTaskInfo (e_getPorts (sample_env [d])) (e_scalar (sample_env [d])) ''7'' ?o
       (deref_app docker_queue (sa_App (sas docker_queue 0))) (sas docker_queue 0) = Some (task, pm)" for d
      using b unfolding app by (simp add: sample_env_def)
  qed (use find in \<open>simp_all add: sample_env_simps iface_simps sample_tm_simps one_task_wf table_codec_ok\<close>)
qed

theorem FulfillOffer_launches_witness:
  "\<exists>d task tm'. FulfillOffer (sample_env [d]) ''7'' 5 (sample_offer 31000 32000) (sample_tm docker_queue) = Some ([task], tm') \<and>
     slots (tm_queue tm') = [] \<and>
     DefaultTaskStore_Get (InMemoryStore_kv id) (table_dec [d]) ''exeggutor-task-7'' (tm_tasks tm') = Inr (Some d)"
proof -
  obtain task pm d where s: "BuildTaskInfo (e_getPorts (sample_env [d])) (e_scalar (sample_env [d])) ''7'' (sample_offer 31000 32000)
       (deref_app docker_queue (sa_App (sas docker_queue 0))) (sas docker_queue 0) = Some (task, pm)"
    and d: "d = \<lparr>dep_AppId = Some (ScheduledApp_GetAppId (Some (sas docker_queue 0))),
      dep_TaskId = Some \<lparr>tid_Value = Some (''exeggutor-task-'' @ ''7'')\<rparr>,
      dep_Status = Some AppStatus_DEPLOYING, dep_DeployedAt = Some 5,
      dep_Slave = off_SlaveId (sample_offer 31000 32000), dep_HostName = off_Hostname (sample_offer 31000 32000),
      dep_PortMapping = pm\<rparr>"
    and h: "mon_CanDeploy (e_sla (sample_env [d])) None (sample_tm docker_queue)"
      "ims_wf (dts_store (tm_tasks (sample_tm docker_queue)))" "codec_ok (e_enc (sample_env [d])) (e_dec (sample_env [d]))"
      "List.find (\<lambda>i. fitsInOffer (sample_offer 31000 32000) (deref_app docker_queue (sa_App (sas docker_queue i))))
         (slots docker_queue) = Some 0"
    by (rule docker_launch_setup)
  from FulfillOffer_launches [OF h(1) sample_tm_wf(1) sample_env_simps(1) h(2,3) sample_tm_simps(1) [symmetric] h(4) s d]
  show ?thesis by (auto simp: table_enc_single docker_queue_def sample_env_simps intro!: exI [of _ d])
qed



text \<open>C33. Submitting several applications queues one item for each, under its own id, but every one of them
  points to the loop's variable: whatever was submitted, all the new items refer to the last application.\<close>

theorem SubmitApp_shares_the_last_app:
  assumes "mon_CanDeploy (e_sla env) = (\<lambda>_ _. True)" and "tm_wf tm" and ne: "as \<noteq> []"
    and "\<forall>(a, _) \<in> set as. sortable (Some a)" and "length (slots (tm_queue tm)) + length as < 2 ^ 31"
  shows "\<exists>tm' new. SubmitApp env as tm = Some (None, tm') \<and>
    mset (slots (tm_queue tm')) = mset (slots (tm_queue tm)) + mset new \<and>
    map (\<lambda>i. sa_AppId (sas (tm_queue tm') i)) new = map (\<lambda>(a, _). app_Id a) as \<and>
    (\<forall>i \<in> set new. deref_app (tm_queue tm') (sa_App (sas (tm_queue tm') i)) = Some (fst (last as)))"
proof -
  let ?tm = "tm\<lparr>tm_next := Suc (tm_next tm)\<rparr>" and ?v = "tm_next tm"
  have can: "mon_CanDeploy (e_sla env) a t" for a t by (simp add: assms(1))
  have "tm_wf ?tm" using assms(2) by (auto simp: tm_wf_def less_Suc_eq)
  then obtain tm' new where s: "submit_loop env ?v as ?tm = Some tm'"
    "mset (slots (tm_queue tm')) = mset (slots (tm_queue tm)) + mset new"
    "map (item_ref (tm_queue tm')) new = map (\<lambda>(a, _). (app_Id a, Some ?v)) as"
    "apps (tm_queue tm') = (apps (tm_queue tm))(?v := fst (last as))"
    using submit_loop_ok [where env = env and tm = ?tm and var = ?v and as = "as", OF can] assms(4,5) ne by auto
  have "map fst (map (item_ref (tm_queue tm')) new) = map (\<lambda>(a, _). app_Id a) as"
    unfolding s(3) by (simp add: comp_def case_prod_unfold)
  then have ids: "map (\<lambda>i. sa_AppId (sas (tm_queue tm') i)) new = map (\<lambda>(a, _). app_Id a) as"
    by (simp add: item_ref_def comp_def)
  have "sa_App (sas (tm_queue tm') i) = Some ?v" if "i \<in> set new" for i
  proof -
    have "item_ref (tm_queue tm') i \<in> set (map (\<lambda>(a, _). (app_Id a, Some ?v)) as)"
      unfolding s(3) [symmetric] using that by simp
    then show ?thesis by (auto simp: item_ref_def)
  qed
  then have "\<forall>i \<in> set new. deref_app (tm_queue tm') (sa_App (sas (tm_queue tm') i)) = Some (fst (last as))"
    by (simp add: deref_app_def s(4))
  with s(1,2) ids show ?thesis by (auto simp: SubmitApp_def)
qed

theorem SubmitApp_shares_the_last_app_witness:
  "\<exists>tm' i j. SubmitApp (sample_env []) [(docker_app, 1), (sample_application, 2)] (sample_tm empty_queue) = Some (None, tm') \<and>
     mset (slots (tm_queue tm')) = {#i, j#} \<and>
     deref_app (tm_queue tm') (sa_App (sas (tm_queue tm') i)) = Some sample_application"
proof -
  have "sortable (Some sample_application)"
    by (simp add: sortable_def sample_application_def Application_zero_def getter_simps f_zero_def)
  moreover have "slots (tm_queue (sample_tm empty_queue)) = []"
    by (simp add: sample_tm_simps empty_queue_def sample_queue_def)
  moreover have "mon_CanDeploy (e_sla (sample_env [])) = (\<lambda>_ _. True)" by (simp add: sample_env_simps iface_simps)
  ultimately obtain tm' new where t:
    "SubmitApp (sample_env []) [(docker_app, 1), (sample_application, 2)] (sample_tm empty_queue) = Some (None, tm')"
    "mset (slots (tm_queue tm')) = mset (slots (tm_queue (sample_tm empty_queue))) + mset new"
    "map (\<lambda>i. sa_AppId (sas (tm_queue tm') i)) new = map (\<lambda>(a, _). app_Id a) [(docker_app, 1 :: int64), (sample_application, 2)]"
    "\<forall>i \<in> set new. deref_app (tm_queue tm') (sa_App (sas (tm_queue tm') i)) =
       Some (fst (last [(docker_app, 1 :: int64), (sample_application, 2)]))"
    using SubmitApp_shares_the_last_app [of "sample_env []" "sample_tm empty_queue" "[(docker_app, 1), (sample_application, 2)]"]
      sample_tm_wf(2) sortable_docker by fastforce
  from t(3) obtain i j where "new = [i, j]" by (auto simp: map_eq_Cons_conv)
  with t(1,2,4) \<open>slots (tm_queue (sample_tm empty_queue)) = []\<close> show ?thesis by auto
qed

text \<open>C6. Every status callback records its status: for a task that is stored under its own id, the callback returns
  without a panic, and afterwards the store holds the same deployment with the new status and everything
  else as before; the queue keeps its invariant even when a replacement was scheduled.\<close>

theorem callbacks_record_status:
  assumes "tm_wf tm" and "tm_room env tm"
    and kv: "e_kv env = InMemoryStore_kv it" "ims_wf (dts_store (tm_tasks tm))" "codec_ok (e_enc env) (e_dec env)"
    and get: "DefaultTaskStore_Get (e_kv env) (e_dec env) (TaskID_GetValue taskID) (tm_tasks tm) = Inr (Some d)"
    and key: "TaskID_GetValue (dep_TaskId d) = TaskID_GetValue taskID"
    and cb: "(result, status) \<in>
        {(TaskRunning env now later taskID slaveID tm, AppStatus_STARTED),
         (TaskStopping env now later taskID tm, AppStatus_STOPPING),
         (TaskFailed env now later taskID slaveID tm, AppStatus_FAILED),
         (TaskLost env now later taskID slaveID tm, AppStatus_FAILED),
         (TaskFinished env now later taskID slaveID tm, AppStatus_STOPPED),
         (TaskKilled env now later taskID slaveID tm, AppStatus_STOPPED)}"
    and enc: "e_enc env (d\<lparr>dep_Status := Some status\<rparr>) = Inr b"
  shows "\<exists>tm'. result = Some tm' \<and> tm_wf tm' \<and> tm_apps tm' = tm_apps tm \<and>
    DefaultTaskStore_Get (e_kv env) (e_dec env) (TaskID_GetValue taskID) (tm_tasks tm') =
      Inr (Some (d\<lparr>dep_Status := Some status\<rparr>)) \<and>
    (\<forall>k. k \<noteq> TaskID_GetValue taskID \<longrightarrow>
       DefaultTaskStore_Get (e_kv env) (e_dec env) k (tm_tasks tm') = DefaultTaskStore_Get (e_kv env) (e_dec env) k (tm_tasks tm))"
proof -
  obtain tm' where "updateStatus env now later taskID status tm = Some (None, tm')" "tm_wf tm'" "tm_apps tm' = tm_apps tm"
    "DefaultTaskStore_Get (e_kv env) (e_dec env) (TaskID_GetValue taskID) (tm_tasks tm') = Inr (Some (d\<lparr>dep_Status := Some status\<rparr>))"
    "\<forall>k. k \<noteq> TaskID_GetValue taskID \<longrightarrow>
       DefaultTaskStore_Get (e_kv env) (e_dec env) k (tm_tasks tm') = DefaultTaskStore_Get (e_kv env) (e_dec env) k (tm_tasks tm)"
    using updateStatus_ok [OF assms(1-5) get key enc] by blast
  with cb show ?thesis
    by (auto simp: TaskRunning_def TaskStopping_def TaskFailed_def TaskLost_def TaskFinished_def TaskKilled_def)
qed

theorem callbacks_record_status_witness:
  "let s = sample_deployment; f = s\<lparr>dep_Status := Some AppStatus_FAILED\<rparr>; env = sample_env [s, f] in
   \<exists>tm'. TaskLost env 1 2 (Some \<lparr>tid_Value = Some ''task-1''\<rparr>) None (sample_tm docker_queue) = Some tm' \<and>
     DefaultTaskStore_Get (e_kv env) (e_dec env) ''task-1'' (tm_tasks tm') = Inr (Some f)"
proof -
  let ?s = sample_deployment let ?f = "?s\<lparr>dep_Status := Some AppStatus_FAILED\<rparr>"
  let ?env = "sample_env [?s, ?f]" and ?t = "Some \<lparr>tid_Value = Some ''task-1''\<rparr>"
  have codec: "codec_ok (e_enc ?env) (e_dec ?env)" unfolding sample_env_simps by (rule table_codec_ok) simp
  have get: "DefaultTaskStore_Get (e_kv ?env) (e_dec ?env) (TaskID_GetValue ?t) (tm_tasks (sample_tm docker_queue)) = Inr (Some ?s)"
    by (simp add: sample_env_simps sample_tm_simps one_task_Get TaskID_GetValue_def)
  have key: "TaskID_GetValue (dep_TaskId ?s) = TaskID_GetValue ?t" by (simp add: sample_deployment_def TaskID_GetValue_def)
  have "\<exists>b. e_enc ?env ?f = Inr b"
    by (simp add: sample_env_simps table_enc_def upt_rec sample_deployment_def)
  then obtain b where "e_enc ?env ?f = Inr b" by blast
  from callbacks_record_status [OF sample_tm_wf(1) sample_tm_room(1) sample_env_simps(1) _ codec get key _ this,
      of "TaskLost ?env 1 2 ?t None (sample_tm docker_queue)" 1 2 None] one_task_wf
  show ?thesis by (auto simp: Let_def sample_tm_simps TaskID_GetValue_def)
qed

text \<open>C9. With the program's monitor, scheduling an application queues one more instance exactly when the application is active and has
  no SLA or its STARTED tasks and queued instances together are fewer than the maximum; these two together never get above the maximum by
  scheduling. Tasks that are DEPLOYING are not counted, although the comment on the guard speaks of what is deployed and queued:
  where they fill the maximum up, scheduling takes the application above it.\<close>

theorem scheduling_counts_started_and_queued:
  assumes sla: "e_sla env = simple_monitor (InMemoryStore_kv it) dec" and wf: "tm_wf tm"
    and app: "app < tm_next tm" "sortable (Some (apps (tm_queue tm) app))" "a = Some (apps (tm_queue tm) app)"
    and room: "Suc (length (slots (tm_queue tm))) < 2 ^ 31" and ts: "ims_wf (dts_store (tm_tasks tm))"
    and started: "started = card (tasks_of_app dec (ims_abs (dts_store (tm_tasks tm))) (Application_GetId a) (\<lambda>s. s = AppStatus_STARTED))"
    and queued: "queued = length (queued_of_app (tm_queue tm) (Application_GetId a))" "started + queued < 2 ^ 31"
    and deploying: "deploying = card (tasks_of_app dec (ims_abs (dts_store (tm_tasks tm))) (Application_GetId a) (\<lambda>s. s = AppStatus_DEPLOYING))"
  shows "\<exists>tm' queued'. scheduleAppForDeployment env now app tm = Some tm' \<and> tm_tasks tm' = tm_tasks tm \<and>
    queued' = length (queued_of_app (tm_queue tm') (Application_GetId a)) \<and>
    queued' = queued + (if Application_GetActive a \<and> (\<forall>sla. Application_GetSla a = Some sla \<longrightarrow>
                              int (started + queued) < sint (ApplicationSLA_GetMaxInstances (Some sla))) then 1 else 0) \<and>
    (\<forall>sla. Application_GetSla a = Some sla \<longrightarrow>
       int (started + queued) \<le> sint (ApplicationSLA_GetMaxInstances (Some sla)) \<longrightarrow>
       int (started + queued') \<le> sint (ApplicationSLA_GetMaxInstances (Some sla))) \<and>
    (\<forall>sla. Application_GetActive a \<and> Application_GetSla a = Some sla \<and>
       int (started + queued) < sint (ApplicationSLA_GetMaxInstances (Some sla)) \<and>
       sint (ApplicationSLA_GetMaxInstances (Some sla)) \<le> int (started + queued + deploying) \<longrightarrow>
       sint (ApplicationSLA_GetMaxInstances (Some sla)) < int (started + queued' + deploying))"
proof -
  let ?can = "mon_CanDeploy (e_sla env) a tm"
  have can: "?can \<longleftrightarrow> Application_GetActive a \<and> (\<forall>sla. Application_GetSla a = Some sla \<longrightarrow>
      int (started + queued) < sint (ApplicationSLA_GetMaxInstances (Some sla)))"
    using Needs_CanDeploy_count [OF ts, of "started + queued" dec a "tm_queue tm" it] started queued
    by (simp add: sla iface_simps)
  show ?thesis
  proof (cases ?can)
    case True
    obtain q' where q': "scheduleAppForDeployment env now app tm = Some (tm\<lparr>tm_queue := q', tm_next := Suc (tm_next tm)\<rparr>)"
      "mset (slots q') = add_mset (tm_next tm) (mset (slots (tm_queue tm)))"
      "item_ref q' = (item_ref (tm_queue tm))(tm_next tm := (app_Id (apps (tm_queue tm) app), Some app))"
      using schedule_ok [OF wf app(1,2) room, of env now] True app(3) by blast
    have "tm_next tm \<notin> set (slots (tm_queue tm))" using wf by (auto simp: tm_wf_def)
    from queued_after_schedule [OF q'(2,3) this, of "Application_GetId a"]
    have "length (queued_of_app q' (Application_GetId a)) = Suc queued"
      by (simp add: queued(1) app(3) Application_GetId_def)
    with q'(1) True can show ?thesis by auto
  next
    case False
    then have "scheduleAppForDeployment env now app tm = Some tm" using schedule_refused app(3) by blast
    with False can show ?thesis using queued(1) by auto
  qed
qed

theorem scheduling_counts_started_and_queued_witness:
  "\<exists>d tm'. d = sample_deployment\<lparr>dep_Status := Some AppStatus_DEPLOYING\<rparr> \<and>
     scheduleAppForDeployment (sample_env [d]\<lparr>e_sla := simple_monitor (InMemoryStore_kv id) (table_dec [d])\<rparr>) 9 0
          (sample_tm (empty_queue\<lparr>apps := (\<lambda>_. sla_app 1 1)\<rparr>)) = Some tm' \<and>
     length (queued_of_app (tm_queue tm') ''web'') = 1 \<and>
     card (tasks_of_app (table_dec [d]) (ims_abs (dts_store (tm_tasks tm'))) ''web'' (\<lambda>s. s = AppStatus_DEPLOYING)) = 1 \<and>
     sint (ApplicationSLA_GetMaxInstances (Application_GetSla (Some (sla_app 1 1)))) < int (0 + 1 + 1)"
proof -
  let ?a = "sla_app 1 1" and ?d = "sample_deployment\<lparr>dep_Status := Some AppStatus_DEPLOYING\<rparr>"
  let ?q = "empty_queue\<lparr>apps := (\<lambda>_. ?a)\<rparr>"
  let ?env = "sample_env [?d]\<lparr>e_sla := simple_monitor (InMemoryStore_kv id) (table_dec [?d])\<rparr>"
  have srt: "sortable (Some ?a)"
    by (simp add: sortable_def sla_app_def sample_application_def Application_zero_def getter_simps f_zero_def)
  have sl: "slots ?q = []" by (simp add: empty_queue_def sample_queue_def)
  have "queue_wf ?q" by (simp add: queue_wf_def queue_core_def positions_ok_def sl)
  then have wf: "tm_wf (sample_tm ?q)" by (simp add: tm_wf_def sample_tm_def sl)
  have qd: "0 = length (queued_of_app (tm_queue (sample_tm ?q)) (Application_GetId (Some ?a)))"
    by (simp add: queued_of_app_def sample_tm_simps sl)
  have d: "Deployment_GetAppId (Some ?d) = ''web''" "Deployment_GetStatus (Some ?d) = AppStatus_DEPLOYING"
    by (simp_all add: sample_deployment_def getter_simps)
  have st: "0 = card (tasks_of_app (table_dec [?d]) (ims_abs (dts_store (tm_tasks (sample_tm ?q)))) (Application_GetId (Some ?a)) (\<lambda>s. s = AppStatus_STARTED))"
    and dp: "1 = card (tasks_of_app (table_dec [?d]) (ims_abs (dts_store (tm_tasks (sample_tm ?q)))) (Application_GetId (Some ?a)) (\<lambda>s. s = AppStatus_DEPLOYING))"
    by (simp_all add: sample_tm_simps one_task_of_app sla_app_simps d)
  have sla: "e_sla ?env = simple_monitor (InMemoryStore_kv id) (table_dec [?d])" by simp
  have a: "Some ?a = Some (apps (tm_queue (sample_tm ?q)) 0)" by (simp add: sample_tm_simps)
  have p: "0 < tm_next (sample_tm ?q)" "sortable (Some (apps (tm_queue (sample_tm ?q)) 0))"
    "Suc (length (slots (tm_queue (sample_tm ?q)))) < 2 ^ 31" "ims_wf (dts_store (tm_tasks (sample_tm ?q)))" "(0 :: nat) + 0 < 2 ^ 31"
    using srt one_task_wf by (simp_all add: sample_tm_simps sl)
  have max: "ApplicationSLA_GetMaxInstances (Application_GetSla (Some ?a)) = 1" by (simp add: sla_app_simps sla_bounds_simps)
  obtain tm' queued' where t: "scheduleAppForDeployment ?env 9 0 (sample_tm ?q) = Some tm'" "tm_tasks tm' = tm_tasks (sample_tm ?q)"
    "queued' = length (queued_of_app (tm_queue tm') (Application_GetId (Some ?a)))"
    "queued' = 0 + (if Application_GetActive (Some ?a) \<and> (\<forall>sla. Application_GetSla (Some ?a) = Some sla \<longrightarrow>
        int (0 + 0) < sint (ApplicationSLA_GetMaxInstances (Some sla))) then 1 else 0)"
    using scheduling_counts_started_and_queued [OF sla wf p(1,2) a p(3,4) st qd p(5) dp, of 9] by blast
  from t(4) have "queued' = 1" unfolding sla_app_simps(3) by (simp add: sla_app_simps(2) sla_bounds_simps)
  then have "length (queued_of_app (tm_queue tm') ''web'') = 1" using t(3) by (simp add: sla_app_simps(1))
  moreover have "card (tasks_of_app (table_dec [?d]) (ims_abs (dts_store (tm_tasks tm'))) ''web'' (\<lambda>s. s = AppStatus_DEPLOYING)) = 1"
    using dp unfolding t(2) sla_app_simps(1) by simp
  ultimately show ?thesis using t(1) max by (intro exI [of _ ?d] exI [of _ tm']) simp
qed

text \<open>The callbacks for staging and starting tasks forget the task: it is deleted from the store, whatever its
  status, and unregistered from the health checks, although Mesos reports these states of every task it deploys.\<close>

theorem TaskStaging_forgets:
  assumes kv: "e_kv env = InMemoryStore_kv it" "ims_wf (dts_store (tm_tasks tm))"
  shows "\<exists>tm'. TaskStaging env taskID slaveID tm = Some tm' \<and> TaskStarting env taskID slaveID tm = Some tm' \<and>
     ims_abs (dts_store (tm_tasks tm')) = (ims_abs (dts_store (tm_tasks tm)))(TaskID_GetValue taskID := None) \<and>
     tm_queue tm' = tm_queue tm \<and> (\<forall>hc. tm_health tm' = Some hc \<longrightarrow> \<not> HealthChecker_Contains taskID hc)"
  using forgetTask_ok [OF assms, of taskID] by (auto simp: TaskStaging_def TaskStarting_def)

theorem TaskStaging_forgets_witness:
  "\<exists>tm'. TaskStaging (sample_env []) (Some \<lparr>tid_Value = Some ''task-1''\<rparr>) None (sample_tm docker_queue) = Some tm' \<and>
     ims_abs (dts_store (tm_tasks tm')) ''task-1'' = None"
  using TaskStaging_forgets [of "sample_env []" id "sample_tm docker_queue" "Some \<lparr>tid_Value = Some ''task-1''\<rparr>" None]
  by (auto simp: sample_env_simps sample_tm_simps one_task_wf TaskID_GetValue_def)

text \<open>A failed health check of a stored task marks its deployment UNHEALTHY and asks for exactly that
  task to be killed; a failure of a task that is no longer stored is ignored.\<close>

theorem handle_failure_kills:
  assumes "tm_wf tm" and "tm_room env tm"
    and kv: "e_kv env = InMemoryStore_kv it" "ims_wf (dts_store (tm_tasks tm))" "codec_ok (e_enc env) (e_dec env)"
    and enc: "\<And>d. \<exists>b. DefaultTaskStore_Get (e_kv env) (e_dec env) (r_ID failure) (tm_tasks tm) = Inr (Some d) \<longrightarrow>
                TaskID_GetValue (dep_TaskId d) = r_ID failure \<and> e_enc env (d\<lparr>dep_Status := Some AppStatus_UNHEALTHY\<rparr>) = Inr b"
  shows "\<exists>kill tm'. handle_failure env now later failure tm = Some (kill, tm') \<and>
    (case DefaultTaskStore_Get (e_kv env) (e_dec env) (r_ID failure) (tm_tasks tm) of
       Inr (Some d) \<Rightarrow> kill = [dep_TaskId d] \<and>
         DefaultTaskStore_Get (e_kv env) (e_dec env) (r_ID failure) (tm_tasks tm') =
           Inr (Some (d\<lparr>dep_Status := Some AppStatus_UNHEALTHY\<rparr>))
     | _ \<Rightarrow> kill = [] \<and> tm' = tm)"
proof -
  let ?get = "DefaultTaskStore_Get (e_kv env) (e_dec env) (r_ID failure) (tm_tasks tm)"
  consider (found) d where "?get = Inr (Some d)" | (nil) "?get = Inr None" | (error) e where "?get = Inl e"
    by (metis old.sum.exhaust option.exhaust)
  then show ?thesis
  proof cases
    case (found d)
    let ?d = "d\<lparr>dep_Status := Some AppStatus_UNHEALTHY\<rparr>"
    obtain b where b: "TaskID_GetValue (dep_TaskId d) = r_ID failure" "e_enc env ?d = Inr b" using enc found by blast
    have tid: "Deployment_GetTaskId (Some d) = dep_TaskId d" by (simp add: getter_simps)
    have get: "DefaultTaskStore_Get (e_kv env) (e_dec env) (TaskID_GetValue (dep_TaskId d)) (tm_tasks tm) = Inr (Some d)"
      using found b(1) by simp
    obtain ts where ts: "DefaultTaskStore_Save (e_kv env) (e_enc env) ?d (tm_tasks tm) = (None, ts)"
      "DefaultTaskStore_Get (e_kv env) (e_dec env) (r_ID failure) ts = Inr (Some ?d)"
      using ims_Save_Get [OF kv(2,3) b(2), of it] b(1) unfolding kv(1) by auto
    obtain tm' where "updateStatus env now later (dep_TaskId d) AppStatus_UNHEALTHY tm = Some (None, tm')" "tm_tasks tm' = ts"
      using updateStatus_tail [OF assms(1,2) get ts(1)] by blast
    then show ?thesis using found ts(2) by (simp add: handle_failure_def tid)
  qed (simp_all add: handle_failure_def)
qed

theorem handle_failure_kills_witness:
  "let s = sample_deployment; u = s\<lparr>dep_Status := Some AppStatus_UNHEALTHY\<rparr>; env = sample_env [s, u] in
   \<exists>tm'. handle_failure env 1 2 (downResult ''task-1'' 0) (sample_tm docker_queue) =
           Some ([Some \<lparr>tid_Value = Some ''task-1''\<rparr>], tm') \<and>
     DefaultTaskStore_Get (e_kv env) (e_dec env) ''task-1'' (tm_tasks tm') = Inr (Some u)"
proof -
  let ?s = sample_deployment let ?u = "?s\<lparr>dep_Status := Some AppStatus_UNHEALTHY\<rparr>"
  let ?env = "sample_env [?s, ?u]" and ?tm = "sample_tm docker_queue" and ?f = "downResult ''task-1'' 0"
  have codec: "codec_ok (e_enc ?env) (e_dec ?env)" unfolding sample_env_simps by (rule table_codec_ok) simp
  have f: "r_ID ?f = ''task-1''" by (simp add: downResult_def)
  have get: "DefaultTaskStore_Get (e_kv ?env) (e_dec ?env) (r_ID ?f) (tm_tasks ?tm) = Inr (Some ?s)"
    unfolding f by (simp add: sample_env_simps sample_tm_simps one_task_Get)
  have key: "TaskID_GetValue (dep_TaskId ?s) = ''task-1''" "dep_TaskId ?s = Some \<lparr>tid_Value = Some ''task-1''\<rparr>"
    by (simp_all add: sample_deployment_def TaskID_GetValue_def)
  have enc: "\<exists>b. e_enc ?env ?u = Inr b" by (simp add: sample_env_simps table_enc_def upt_rec sample_deployment_def)
  have wft: "ims_wf (dts_store (tm_tasks ?tm))" by (simp add: sample_tm_simps one_task_wf)
  have "\<exists>kill tm'. handle_failure ?env 1 2 ?f ?tm = Some (kill, tm') \<and>
    (case DefaultTaskStore_Get (e_kv ?env) (e_dec ?env) (r_ID ?f) (tm_tasks ?tm) of
       Inr (Some d) \<Rightarrow> kill = [dep_TaskId d] \<and>
         DefaultTaskStore_Get (e_kv ?env) (e_dec ?env) (r_ID ?f) (tm_tasks tm') =
           Inr (Some (d\<lparr>dep_Status := Some AppStatus_UNHEALTHY\<rparr>))
     | _ \<Rightarrow> kill = [] \<and> tm' = ?tm)"
    by (rule handle_failure_kills [OF sample_tm_wf(1) sample_tm_room(1) sample_env_simps(1) wft codec])
       (use get f key enc in auto)
  then show ?thesis unfolding get by (auto simp: Let_def f key)
qed

end
