(* ===== verification/TaskManagerContract.thy ===== *)
theory TaskManagerContract
  imports TaskManagerFacts
begin

text \<open>
  The interface \<open>TaskManager\<close> of \<open>src/tasks/task_manager.go\<close>, a record of methods over a state of any
  type, and what the scheduler relies on: the locale \<open>task_manager\<close>. \<open>recorded\<close> is the map of the
  deployments a manager knows, by task id. A callback writes its status there, the staging callbacks
  delete the task, an offer adds what it launches, and nothing else changes. \<open>dtm\<close> interprets it on
  \<open>DefaultTaskManager\<close>. The laws speak of the calls that return: a panic ends the program.
\<close>

section \<open>The interface\<close>

type_synonym 'm status_callback = "int64 \<Rightarrow> go_time \<Rightarrow> TaskID option \<Rightarrow> SlaveID option \<Rightarrow> 'm \<Rightarrow> 'm option"

record 'm TaskManager_methods =
  tmi_SubmitApp :: "(Application \<times> int64) list \<Rightarrow> 'm \<Rightarrow> (goerr option \<times> 'm) option"
  tmi_SaveApp :: "Application \<Rightarrow> 'm \<Rightarrow> goerr option \<times> 'm"
  tmi_FulfillOffer :: "string \<Rightarrow> int64 \<Rightarrow> Offer \<Rightarrow> 'm \<Rightarrow> (TaskInfo list \<times> 'm) option"
  tmi_TaskStopping :: "int64 \<Rightarrow> go_time \<Rightarrow> TaskID option \<Rightarrow> 'm \<Rightarrow> 'm option"
  tmi_TaskFailed :: "'m status_callback"
  tmi_TaskFinished :: "'m status_callback"
  tmi_TaskKilled :: "'m status_callback"
  tmi_TaskLost :: "'m status_callback"
  tmi_TaskRunning :: "'m status_callback"
  tmi_TaskStaging :: "TaskID option \<Rightarrow> SlaveID option \<Rightarrow> 'm \<Rightarrow> 'm option"
  tmi_TaskStarting :: "TaskID option \<Rightarrow> SlaveID option \<Rightarrow> 'm \<Rightarrow> 'm option"
  tmi_FindTasksForApp :: "string \<Rightarrow> 'm \<Rightarrow> TaskID option list \<times> goerr option"
  tmi_FindTasksForComponent :: "string \<Rightarrow> string \<Rightarrow> 'm \<Rightarrow> TaskID option list \<times> goerr option"
  tmi_FindTaskForComponent :: "string \<Rightarrow> 'm \<Rightarrow> TaskID option result"
  tmi_RunningApps :: "string \<Rightarrow> 'm \<Rightarrow> TaskID option list \<times> goerr option"

definition DefaultTaskManager_methods ::
  "('s, 'a) tm_env \<Rightarrow> ('s, 'a) task_manager TaskManager_methods" where
  [iface_simps]: "DefaultTaskManager_methods env =
     \<lparr>tmi_SubmitApp = SubmitApp env, tmi_SaveApp = SaveApp env, tmi_FulfillOffer = FulfillOffer env,
      tmi_TaskStopping = TaskStopping env, tmi_TaskFailed = TaskFailed env, tmi_TaskFinished = TaskFinished env,
      tmi_TaskKilled = TaskKilled env, tmi_TaskLost = TaskLost env, tmi_TaskRunning = TaskRunning env,
      tmi_TaskStaging = TaskStaging env, tmi_TaskStarting = TaskStarting env,
      tmi_FindTasksForApp = FindTasksForApp env, tmi_FindTasksForComponent = FindTasksForComponent env,
      tmi_FindTaskForComponent = FindTaskForComponent env, tmi_RunningApps = RunningApps env\<rparr>"

section \<open>The contract\<close>

type_synonym deployments = "string \<rightharpoonup> Deployment"

definition records_status ::
  "('m \<Rightarrow> bool) \<Rightarrow> ('m \<Rightarrow> deployments) \<Rightarrow> (Deployment \<Rightarrow> bool) \<Rightarrow> AppStatus \<Rightarrow> (TaskID option \<Rightarrow> 'm \<Rightarrow> 'm option) \<Rightarrow> bool" where
  "records_status ok recorded encodes status f \<longleftrightarrow>
     (\<forall>taskID m m' d. ok m \<longrightarrow> f taskID m = Some m' \<longrightarrow>
        recorded m (TaskID_GetValue taskID) = Some d \<longrightarrow> encodes (d\<lparr>dep_Status := Some status\<rparr>) \<longrightarrow>
        ok m' \<and> recorded m' = (recorded m)(TaskID_GetValue taskID \<mapsto> d\<lparr>dep_Status := Some status\<rparr>))"

definition forgets ::
  "('m \<Rightarrow> bool) \<Rightarrow> ('m \<Rightarrow> deployments) \<Rightarrow> (TaskID option \<Rightarrow> 'm \<Rightarrow> 'm option) \<Rightarrow> bool" where
  "forgets ok recorded f \<longleftrightarrow>
     (\<forall>taskID m m'. ok m \<longrightarrow> f taskID m = Some m' \<longrightarrow>
        ok m' \<and> recorded m' = (recorded m)(TaskID_GetValue taskID := None))"

text \<open>What launching one task for an offer does to the deployments.\<close>

definition launched :: "string \<Rightarrow> Offer \<Rightarrow> deployments \<Rightarrow> TaskInfo list \<Rightarrow> deployments \<Rightarrow> bool" where
  "launched i offer r ts r' \<longleftrightarrow>
     ts = [] \<and> r' = r \<or>
     (\<exists>t d. ts = [t] \<and> ti_TaskId t = Some \<lparr>tid_Value = Some (''exeggutor-task-'' @ i)\<rparr> \<and>
            ti_SlaveId t = off_SlaveId offer \<and> r' = r(''exeggutor-task-'' @ i \<mapsto> d) \<and>
            dep_TaskId d = ti_TaskId t \<and> dep_Slave d = off_SlaveId offer \<and>
            dep_HostName d = off_Hostname offer \<and> dep_Status d = Some AppStatus_DEPLOYING)"

locale task_manager =
  fixes tmi :: "'m TaskManager_methods"
    and inv :: "'m \<Rightarrow> bool"
    and recorded :: "'m \<Rightarrow> deployments"
    and encodes :: "Deployment \<Rightarrow> bool"
  assumes Stopping: "records_status inv recorded encodes AppStatus_STOPPING (tmi_TaskStopping tmi now later)"
    and Failed: "records_status inv recorded encodes AppStatus_FAILED (\<lambda>t. tmi_TaskFailed tmi now later t slave)"
    and Finished: "records_status inv recorded encodes AppStatus_STOPPED (\<lambda>t. tmi_TaskFinished tmi now later t slave)"
    and Killed: "records_status inv recorded encodes AppStatus_STOPPED (\<lambda>t. tmi_TaskKilled tmi now later t slave)"
    and Lost: "records_status inv recorded encodes AppStatus_FAILED (\<lambda>t. tmi_TaskLost tmi now later t slave)"
    and Running: "records_status inv recorded encodes AppStatus_STARTED (\<lambda>t. tmi_TaskRunning tmi now later t slave)"
    and Staging: "forgets inv recorded (\<lambda>t. tmi_TaskStaging tmi t slave)"
    and Starting: "forgets inv recorded (\<lambda>t. tmi_TaskStarting tmi t slave)"
    and Fulfill: "inv m \<Longrightarrow> tmi_FulfillOffer tmi i nowMillis offer m = Some (ts, m') \<Longrightarrow>
          inv m' \<and> launched i offer (recorded m) ts (recorded m')"

section \<open>The default task manager keeps it\<close>

definition tm_recorded :: "('s, 'a) tm_env \<Rightarrow> (InMemoryStore, 'a) task_manager \<Rightarrow> deployments" where
  "tm_recorded env tm = decoded (e_dec env) (ims_abs (dts_store (tm_tasks tm)))"

text \<open>Every deployment is stored under its own task id.\<close>

definition tm_keyed :: "('s, 'a) tm_env \<Rightarrow> (InMemoryStore, 'a) task_manager \<Rightarrow> bool" where
  "tm_keyed env tm \<longleftrightarrow> ims_wf (dts_store (tm_tasks tm)) \<and> codec_ok (e_enc env) (e_dec env) \<and>
     (\<forall>k d. tm_recorded env tm k = Some d \<longrightarrow> TaskID_GetValue (dep_TaskId d) = k)"

definition tm_encodes :: "('s, 'a) tm_env \<Rightarrow> Deployment \<Rightarrow> bool" where
  "tm_encodes env d \<longleftrightarrow> (\<exists>b. e_enc env d = Inr b)"

lemma recorded_Get:
  "tm_recorded env tm k = Some d \<Longrightarrow>
     DefaultTaskStore_Get (InMemoryStore_kv it) (e_dec env) k (tm_tasks tm) = Inr (Some d)"
  by (auto simp: tm_recorded_def decoded_Some ims_Get)

lemma Save_recorded:
  assumes inv: "tm_keyed env tm" and enc: "e_enc env d = Inr b" and key: "TaskID_GetValue (dep_TaskId d) = k"
  obtains ts where "DefaultTaskStore_Save (InMemoryStore_kv it) (e_enc env) d (tm_tasks tm) = (None, ts)"
    and "\<And>tm'. tm_tasks tm' = ts \<Longrightarrow> tm_keyed env tm' \<and> tm_recorded env tm' = (tm_recorded env tm)(k \<mapsto> d)"
proof -
  have wf: "ims_wf (dts_store (tm_tasks tm))" and dec: "e_dec env b = Inr d"
    using inv enc by (auto simp: tm_keyed_def codec_ok_def)
  obtain ts where ts: "DefaultTaskStore_Save (InMemoryStore_kv it) (e_enc env) d (tm_tasks tm) = (None, ts)"
    "ims_wf (dts_store ts)" "ims_abs (dts_store ts) = (ims_abs (dts_store (tm_tasks tm)))(k \<mapsto> b)"
    using mem.Save_task [of "tm_tasks tm", OF wf, of "e_enc env" d b it, OF enc] key by auto
  have "tm_keyed env tm' \<and> tm_recorded env tm' = (tm_recorded env tm)(k \<mapsto> d)" if "tm_tasks tm' = ts" for tm'
  proof -
    have r: "tm_recorded env tm' = (tm_recorded env tm)(k \<mapsto> d)"
      by (simp add: tm_recorded_def that ts(3) decoded_upd [of "e_dec env", OF dec])
    with inv ts(2) key show ?thesis by (auto simp: tm_keyed_def that)
  qed
  with ts(1) show ?thesis by (rule that)
qed

lemma scheduleAppForDeployment_tasks:
  "scheduleAppForDeployment env now app tm = Some tm' \<Longrightarrow> tm_tasks tm' = tm_tasks tm"
  by (auto simp: scheduleAppForDeployment_def Let_def split: if_splits)

lemma update_health_tasks: "update_health later taskID d app tm = Some tm' \<Longrightarrow> tm_tasks tm' = tm_tasks tm"
  using update_health_total [of later taskID d app tm] by auto

text \<open>Whatever follows a successful save in \<open>updateStatus\<close> leaves the stored tasks alone.\<close>

lemma updateStatus_tasks:
  assumes "updateStatus env now later taskID status tm = Some (r, tm')"
    and get: "DefaultTaskStore_Get (e_kv env) (e_dec env) (TaskID_GetValue taskID) (tm_tasks tm) = Inr (Some d)"
    and save: "DefaultTaskStore_Save (e_kv env) (e_enc env) (d\<lparr>dep_Status := Some status\<rparr>) (tm_tasks tm) = (None, ts)"
  shows "tm_tasks tm' = ts"
  using assms
  by (auto simp: updateStatus_def Let_def split: sum.splits option.splits if_splits
      dest!: scheduleAppForDeployment_tasks update_health_tasks)

lemma updateStatus_records:
  assumes kv: "e_kv env = InMemoryStore_kv it"
  shows "records_status (tm_keyed env) (tm_recorded env) (tm_encodes env) status
           (\<lambda>taskID tm. map_option snd (updateStatus env now later taskID status tm))"
  unfolding records_status_def
proof (intro allI impI)
  fix taskID and tm tm' :: "(InMemoryStore, 'a) task_manager" and d :: Deployment
  let ?k = "TaskID_GetValue taskID" and ?d = "d\<lparr>dep_Status := Some status\<rparr>"
  assume inv: "tm_keyed env tm" and u: "map_option snd (updateStatus env now later taskID status tm) = Some tm'"
    and r: "tm_recorded env tm ?k = Some d" and e: "tm_encodes env ?d"
  obtain b where b: "e_enc env ?d = Inr b" using e by (auto simp: tm_encodes_def)
  have key: "TaskID_GetValue (dep_TaskId ?d) = ?k" using inv r by (simp add: tm_keyed_def)
  obtain ts where ts: "DefaultTaskStore_Save (e_kv env) (e_enc env) ?d (tm_tasks tm) = (None, ts)"
    "\<And>tm'. tm_tasks tm' = ts \<Longrightarrow> tm_keyed env tm' \<and> tm_recorded env tm' = (tm_recorded env tm)(?k \<mapsto> ?d)"
    using Save_recorded [OF inv b key, of it] unfolding kv by metis
  from u obtain x where "updateStatus env now later taskID status tm = Some (x, tm')" by auto
  from updateStatus_tasks [OF this recorded_Get [OF r, of it, folded kv] ts(1)]
  show "tm_keyed env tm' \<and> tm_recorded env tm' = (tm_recorded env tm)(?k \<mapsto> ?d)" by (rule ts(2))
qed

lemma forgetTask_forgets:
  assumes kv: "e_kv env = InMemoryStore_kv it"
  shows "forgets (tm_keyed env) (tm_recorded env) (forgetTask env)"
  unfolding forgets_def
proof (intro allI impI)
  fix taskID and tm tm' :: "(InMemoryStore, 'a) task_manager"
  assume inv: "tm_keyed env tm" and f: "forgetTask env taskID tm = Some tm'"
  have "ims_wf (dts_store (tm_tasks tm))" using inv by (simp add: tm_keyed_def)
  from forgetTask_ok [OF kv this, of taskID] f
  have tm': "ims_wf (dts_store (tm_tasks tm'))"
    "ims_abs (dts_store (tm_tasks tm')) = (ims_abs (dts_store (tm_tasks tm)))(TaskID_GetValue taskID := None)" by auto
  then have "tm_recorded env tm' = (tm_recorded env tm)(TaskID_GetValue taskID := None)"
    by (simp add: tm_recorded_def decoded_del)
  with inv tm'(1) show "tm_keyed env tm' \<and> tm_recorded env tm' = (tm_recorded env tm)(TaskID_GetValue taskID := None)"
    by (auto simp: tm_keyed_def)
qed

lemma take_fitting_tasks: "take_fitting env offer tm = Some (item, tm1) \<Longrightarrow> tm_tasks tm1 = tm_tasks tm"
  by (auto simp: take_fitting_def split: if_splits)

lemma FulfillOffer_launched:
  assumes kv: "e_kv env = InMemoryStore_kv it" and inv: "tm_keyed env tm"
    and f: "FulfillOffer env i nowMillis offer tm = Some (ts, tm')"
  shows "tm_keyed env tm' \<and> launched i offer (tm_recorded env tm) ts (tm_recorded env tm')"
proof -
  have same: "tm_keyed env t \<and> tm_recorded env t = tm_recorded env tm" if "tm_tasks t = tm_tasks tm" for t
    using inv by (simp add: that tm_keyed_def tm_recorded_def)
  obtain item tm1 where take: "take_fitting env offer tm = Some (item, tm1)"
    using f by (auto simp: FulfillOffer_def split: option.splits)
  note tasks1 = take_fitting_tasks [OF take]
  show ?thesis
  proof (cases item)
    case None
    with f take have "ts = []" "tm' = tm1" by (auto simp: FulfillOffer_def)
    with same [OF tasks1] show ?thesis by (simp add: launched_def)
  next
    case (Some a)
    obtain task pm where b: "buildTaskInfo env i offer (tm_queue tm1) a = Some (task, pm)"
      using f take Some by (auto simp: FulfillOffer_def split: option.splits)
    have ids: "ti_TaskId task = Some \<lparr>tid_Value = Some (''exeggutor-task-'' @ i)\<rparr>" "ti_SlaveId task = off_SlaveId offer"
      using b by (auto simp: buildTaskInfo_def BuildTaskInfo_def split: option.splits prod.splits)
    define d where "d = \<lparr>dep_AppId = Some (ScheduledApp_GetAppId (Some (sas (tm_queue tm1) a))),
      dep_TaskId = ti_TaskId task, dep_Status = Some AppStatus_DEPLOYING, dep_DeployedAt = Some nowMillis,
      dep_Slave = ti_SlaveId task, dep_HostName = off_Hostname offer, dep_PortMapping = pm\<rparr>"
    obtain err ts' where sv: "DefaultTaskStore_Save (e_kv env) (e_enc env) d (tm_tasks tm) = (err, ts')"
      by (cases "DefaultTaskStore_Save (e_kv env) (e_enc env) d (tm_tasks tm)") simp
    then have F: "ts = (if err = None then [task] else [])" "tm' = tm1\<lparr>tm_tasks := ts'\<rparr>"
      using f take Some b tasks1 by (cases err; simp add: FulfillOffer_def d_def [symmetric])+
    show ?thesis
    proof (cases "e_enc env d")
      case (Inl e)
      then have "ts = []" "tm' = tm1" using F sv tasks1
        by (auto simp: DefaultTaskStore_Save_def task_writeBytes_def)
      with same [OF tasks1] show ?thesis by (simp add: launched_def)
    next
      case (Inr b)
      have key: "TaskID_GetValue (dep_TaskId d) = ''exeggutor-task-'' @ i" by (simp add: d_def ids TaskID_GetValue_def)
      obtain s where s: "DefaultTaskStore_Save (InMemoryStore_kv it) (e_enc env) d (tm_tasks tm) = (None, s)"
        "\<And>t. tm_tasks t = s \<Longrightarrow> tm_keyed env t \<and>
           tm_recorded env t = (tm_recorded env tm)(''exeggutor-task-'' @ i \<mapsto> d)"
        using Save_recorded [OF inv Inr key, of it] by blast
      then have r: "ts = [task]" "tm_tasks tm' = s" using F sv by (auto simp: kv)
      from s(2) [OF r(2)] r(1) ids show ?thesis
        by (auto simp: launched_def d_def intro!: exI [of _ d])
    qed
  qed
qed

interpretation dtm: task_manager "DefaultTaskManager_methods (env\<lparr>e_kv := InMemoryStore_kv it\<rparr>)"
  "tm_keyed env" "tm_recorded env" "tm_encodes env" for env it
proof -
  let ?e = "env\<lparr>e_kv := InMemoryStore_kv it\<rparr>"
  have e: "tm_keyed ?e = tm_keyed env" "tm_recorded ?e = tm_recorded env" "tm_encodes ?e = tm_encodes env"
    by (intro ext; simp add: tm_keyed_def tm_recorded_def tm_encodes_def)+
  have kv: "e_kv ?e = InMemoryStore_kv it" by simp
  note u = updateStatus_records [OF kv, unfolded e] and f = forgetTask_forgets [OF kv, unfolded e]
    and l = FulfillOffer_launched [OF kv, unfolded e]
  show "task_manager (DefaultTaskManager_methods ?e) (tm_keyed env) (tm_recorded env) (tm_encodes env)"
    by unfold_locales
       (use u f l in \<open>simp_all add: DefaultTaskManager_methods_def TaskStopping_def [abs_def] TaskFailed_def [abs_def]
          TaskFinished_def [abs_def] TaskKilled_def [abs_def] TaskLost_def [abs_def] TaskRunning_def [abs_def]
          TaskStaging_def [abs_def] TaskStarting_def [abs_def]\<close>)
qed

end
