(* ===== verification/FrameworkIDState.thy ===== *)
theory FrameworkIDState
  imports Mesos
begin

text \<open>
  The framework's id, \<open>src/state/framework_id_state.go\<close> and \<open>zookeeper_framework_id_state.go\<close>:
  the interface is a record of methods over a state of any type, its implementation caches the id
  and keeps its bytes in a ZooKeeper node. The node cache (\<open>rvb_zk.NodeCache\<close>) and the protobuf codec are not part of
  the repository, they are the arguments \<open>nc\<close>, \<open>enc\<close> and \<open>dec\<close>. \<open>Get\<close> returns the new state too, since it fills
  the cache. The locale \<open>framework_id\<close> is what the scheduler relies on, \<open>zk\<close> interprets it
  for every node cache and codec.
\<close>

section \<open>The interface\<close>

record 'i FrameworkIDState =
  fis_Path :: "'i \<Rightarrow> string"
  fis_Get :: "'i \<Rightarrow> FrameworkID option \<times> 'i"
  fis_Set :: "FrameworkID option \<Rightarrow> 'i \<Rightarrow> 'i"
  fis_Start :: "bool \<Rightarrow> 'i \<Rightarrow> goerr option \<times> 'i"
  fis_Stop :: "'i \<Rightarrow> goerr option \<times> 'i"

record 'c NodeCache =
  nc_Path :: "'c \<Rightarrow> string"
  nc_Get :: "'c \<Rightarrow> slice"
  nc_Set :: "slice \<Rightarrow> 'c \<Rightarrow> 'c"
  nc_Start :: "bool \<Rightarrow> 'c \<Rightarrow> goerr option \<times> 'c"
  nc_Stop :: "'c \<Rightarrow> goerr option \<times> 'c"

section \<open>The id in ZooKeeper\<close>

record 'c ZookeeperFrameworkIDState =
  zk_current :: "FrameworkID option"
  zk_cache :: 'c

text \<open>\<open>newNodeCache\<close> is \<open>rvb_zk.NewNodeCache\<close>.\<close>

definition NewZookeeperFrameworkIDState ::
  "(string \<Rightarrow> 'cur \<Rightarrow> 'c) \<Rightarrow> string \<Rightarrow> 'cur \<Rightarrow> 'c ZookeeperFrameworkIDState" where
  "NewZookeeperFrameworkIDState newNodeCache path client =
     \<lparr>zk_current = None, zk_cache = newNodeCache path client\<rparr>"

definition zk_Path :: "'c NodeCache \<Rightarrow> 'c ZookeeperFrameworkIDState \<Rightarrow> string" where
  "zk_Path nc f = nc_Path nc (zk_cache f)"

definition frameworkIDFromBytes :: "(slice \<Rightarrow> FrameworkID result) \<Rightarrow> slice \<Rightarrow> FrameworkID option" where
  "frameworkIDFromBytes dec data = (case dec data of Inl _ \<Rightarrow> None | Inr fwID \<Rightarrow> Some fwID)"

definition zk_Set ::
  "'c NodeCache \<Rightarrow> (FrameworkID \<Rightarrow> slice result) \<Rightarrow> FrameworkID option \<Rightarrow>
     'c ZookeeperFrameworkIDState \<Rightarrow> 'c ZookeeperFrameworkIDState" where
  "zk_Set nc enc fwID f =
     (case fwID of
        None \<Rightarrow> f
      | Some m \<Rightarrow>
          if fid_Value m = None then f
          else (case enc m of
                  Inl _ \<Rightarrow> f
                | Inr data \<Rightarrow> f\<lparr>zk_cache := nc_Set nc data (zk_cache f), zk_current := Some m\<rparr>))"

definition zk_Get ::
  "'c NodeCache \<Rightarrow> (FrameworkID \<Rightarrow> slice result) \<Rightarrow> (slice \<Rightarrow> FrameworkID result) \<Rightarrow>
     'c ZookeeperFrameworkIDState \<Rightarrow> FrameworkID option \<times> 'c ZookeeperFrameworkIDState" where
  "zk_Get nc enc dec f =
     (if zk_current f \<noteq> None then (zk_current f, f)
      else let b = nc_Get nc (zk_cache f)
           in if slice_len b > 0
              then let nw = frameworkIDFromBytes dec b in (nw, zk_Set nc enc nw f)
              else (None, f))"

definition zk_Start ::
  "'c NodeCache \<Rightarrow> bool \<Rightarrow> 'c ZookeeperFrameworkIDState \<Rightarrow> goerr option \<times> 'c ZookeeperFrameworkIDState" where
  "zk_Start nc buildInitial f =
     (let (err, c) = nc_Start nc buildInitial (zk_cache f) in (err, f\<lparr>zk_cache := c\<rparr>))"

definition zk_Stop ::
  "'c NodeCache \<Rightarrow> 'c ZookeeperFrameworkIDState \<Rightarrow> goerr option \<times> 'c ZookeeperFrameworkIDState" where
  "zk_Stop nc f =
     (let f1 = f\<lparr>zk_current := None\<rparr>; (err, c) = nc_Stop nc (zk_cache f1)
      in (err, f1\<lparr>zk_cache := c\<rparr>))"

definition Zookeeper_fis ::
  "'c NodeCache \<Rightarrow> (FrameworkID \<Rightarrow> slice result) \<Rightarrow> (slice \<Rightarrow> FrameworkID result) \<Rightarrow>
     'c ZookeeperFrameworkIDState FrameworkIDState" where
  [iface_simps]: "Zookeeper_fis nc enc dec =
     \<lparr>fis_Path = zk_Path nc, fis_Get = zk_Get nc enc dec, fis_Set = zk_Set nc enc,
      fis_Start = zk_Start nc, fis_Stop = zk_Stop nc\<rparr>"

section \<open>The contract\<close>

text \<open>
  \<open>known\<close> is the id a state answers with and \<open>accepts\<close> the ids it stores. Asking does not change the
  answer, an accepted id replaces it, anything else is ignored.
\<close>

locale framework_id =
  fixes fis :: "'i FrameworkIDState"
    and known :: "'i \<Rightarrow> FrameworkID option"
    and accepts :: "FrameworkID \<Rightarrow> bool"
  assumes Get_known: "fst (fis_Get fis i) = known i"
    and Get_keeps: "known (snd (fis_Get fis i)) = known i"
    and Set_accepted: "accepts m \<Longrightarrow> known (fis_Set fis (Some m) i) = Some m"
    and Set_rejected: "\<not> accepts m \<Longrightarrow> known (fis_Set fis (Some m) i) = known i"
    and Set_nil: "known (fis_Set fis None i) = known i"

text \<open>An id is stored when it has a value that can be encoded.\<close>

definition encodable_id :: "(FrameworkID \<Rightarrow> slice result) \<Rightarrow> FrameworkID \<Rightarrow> bool" where
  "encodable_id enc m \<longleftrightarrow> fid_Value m \<noteq> None \<and> (\<exists>data. enc m = Inr data)"

lemma zk_Set_nil [simp]: "zk_Set nc enc None f = f"
  by (simp add: zk_Set_def)

lemma zk_Set_rejected: "\<not> encodable_id enc m \<Longrightarrow> zk_Set nc enc (Some m) f = f"
  by (auto simp: zk_Set_def encodable_id_def split: sum.split)

lemma zk_Set_accepted: "encodable_id enc m \<Longrightarrow> zk_current (zk_Set nc enc (Some m) f) = Some m"
  by (auto simp: zk_Set_def encodable_id_def)

lemma zk_Get_current: "zk_current f = Some m \<Longrightarrow> zk_Get nc enc dec f = (Some m, f)"
  by (simp add: zk_Get_def)

lemma zk_Get_keeps: "fst (zk_Get nc enc dec (snd (zk_Get nc enc dec f))) = fst (zk_Get nc enc dec f)"
proof (cases "\<exists>m. frameworkIDFromBytes dec (nc_Get nc (zk_cache f)) = Some m \<and> encodable_id enc m")
  case True
  then show ?thesis by (auto simp: zk_Get_def Let_def zk_Set_accepted)
next
  case False
  then have "zk_Set nc enc (frameworkIDFromBytes dec (nc_Get nc (zk_cache f))) f = f"
    by (cases "frameworkIDFromBytes dec (nc_Get nc (zk_cache f))") (simp_all add: zk_Set_rejected)
  then show ?thesis by (simp add: zk_Get_def Let_def)
qed

interpretation zk: framework_id "Zookeeper_fis nc enc dec" "\<lambda>f. fst (zk_Get nc enc dec f)" "encodable_id enc"
  for nc enc dec
  by unfold_locales
     (simp_all add: iface_simps zk_Get_keeps zk_Set_rejected zk_Get_current [OF zk_Set_accepted])

end
