(* ===== verification/Config.thy ===== *)
theory Config
  imports GoStrings
begin

text \<open>
  The configuration, \<open>src/config.go\<close>: its records, and the two URLs built from the address of the
  Docker index. \<open>URL_String\<close> is \<open>net/url\<close>'s \<open>String\<close> for URLs with these four components, with the escaping of
  paths and of user information that Go 1.3 has.
\<close>

section \<open>URLs\<close>

record URL =
  url_Scheme :: string
  url_User :: "(string \<times> string) option"
  url_Host :: string
  url_Path :: string

datatype encoding = encodePath | encodeUserPassword

definition is_alnum :: "char \<Rightarrow> bool" where
  "is_alnum c \<longleftrightarrow> (let n = of_char c :: nat in 65 \<le> n \<and> n \<le> 90 \<or> 97 \<le> n \<and> n \<le> 122 \<or> 48 \<le> n \<and> n \<le> 57)"

definition shouldEscape :: "encoding \<Rightarrow> char \<Rightarrow> bool" where
  "shouldEscape mode c =
     (if is_alnum c \<or> c \<in> set ''-_.~'' then False
      else if c \<in> set ''$&+,/:;=?@''
      then (case mode of encodePath \<Rightarrow> c = CHR ''?'' | encodeUserPassword \<Rightarrow> c \<in> set ''@/:'')
      else True)"

definition hex_digit :: "nat \<Rightarrow> char" where
  "hex_digit n = ''0123456789ABCDEF'' ! n"

definition url_escape :: "encoding \<Rightarrow> string \<Rightarrow> string" where
  "url_escape mode s = concat (map (\<lambda>c.
     if shouldEscape mode c then [CHR ''%'', hex_digit (of_char c div 16), hex_digit (of_char c mod 16)] else [c]) s)"

definition URL_String :: "URL \<Rightarrow> string" where
  "URL_String u =
     (if url_Scheme u \<noteq> [] then url_Scheme u @ '':'' else []) @
     (if url_Scheme u \<noteq> [] \<or> url_Host u \<noteq> [] \<or> url_User u \<noteq> None
      then ''//'' @
           (case url_User u of None \<Rightarrow> []
            | Some (name, pass) \<Rightarrow> url_escape encodeUserPassword name @ '':'' @ url_escape encodeUserPassword pass @ ''@'') @
           url_Host u
      else []) @
     (if url_Path u \<noteq> [] \<and> hd (url_Path u) \<noteq> CHR ''/'' \<and> url_Host u \<noteq> [] then ''/'' else []) @
     url_escape encodePath (url_Path u)"

section \<open>The records\<close>

record DockerIndexConfig =
  dic_Host :: string
  dic_Port :: int64
  dic_Scheme :: string
  dic_APIVersion :: string
  dic_User :: string
  dic_Pass :: string

record FrameworkConfig =
  fc_User :: string
  fc_Name :: string
  fc_HealthCheckConcurrency :: int64

record LoggingConfig =
  lc_Level :: string
  lc_Colorize :: bool
  lc_Pattern :: string
  lc_LogDirectory :: string

record Config =
  cfg_ZookeeperURL :: string
  cfg_MesosMaster :: string
  cfg_DataDirectory :: string
  cfg_StaticFiles :: string
  cfg_WorkDirectory :: string
  cfg_ConfigDirectory :: string
  cfg_Port :: int64
  cfg_Interface :: string
  cfg_Mode :: string
  cfg_FrameworkInfo :: "FrameworkConfig option"
  cfg_DockerIndex :: "DockerIndexConfig option"
  cfg_Logging :: "LoggingConfig option"

definition ToURL :: "DockerIndexConfig \<Rightarrow> URL" where
  "ToURL d = \<lparr>url_Scheme = dic_Scheme d,
     url_User = (if dic_User d \<noteq> [] then Some (dic_User d, dic_Pass d) else None),
     url_Host = dic_Host d @ '':'' @ Itoa (sint (dic_Port d)),
     url_Path = ''/'' @ dic_APIVersion d\<rparr>"

definition ToProtoURL :: "DockerIndexConfig \<Rightarrow> URL" where
  "ToProtoURL d = \<lparr>url_Scheme = ''docker'', url_User = None, url_Host = dic_Host d,
     url_Path = ''/'' @ dic_APIVersion d\<rparr>"

section \<open>Lemmas\<close>

lemma url_escape_append: "url_escape m (s @ t) = url_escape m s @ url_escape m t"
  by (simp add: url_escape_def)

lemma url_escape_id: "\<forall>c \<in> set s. \<not> shouldEscape m c \<Longrightarrow> url_escape m s = s"
  by (induction s) (simp_all add: url_escape_def)

lemma URL_String_ToProtoURL:
  "URL_String (ToProtoURL d) = ''docker://'' @ dic_Host d @ ''/'' @ url_escape encodePath (dic_APIVersion d)"
proof -
  have "url_escape encodePath (''/'' @ v) = ''/'' @ url_escape encodePath v" for v
    by (simp add: url_escape_def shouldEscape_def is_alnum_def)
  then show ?thesis by (simp add: URL_String_def ToProtoURL_def)
qed

end
