(* ===== verification/Scheduler.thy ===== *)
theory Scheduler
  imports TaskManagerContract FrameworkIDState Config
begin

text \<open>
  The framework, \<open>src/scheduler/scheduler.go\<close>: the callbacks Mesos makes and the requests it is sent. The
  Mesos driver (\<open>go-mesos\<close>) is an argument: \<open>fe_drv\<close> says which error it answers a call with,
  given the calls made before, and \<open>fw_calls\<close> keeps every call in order. The ZooKeeper client is an
  argument too. The task manager and the framework id are interfaces, so the framework's state holds a state of
  each, and \<open>None\<close> is a nil interface, whose methods panic. Callbacks that only log are left out.
\<close>

section \<open>State and environment\<close>

datatype driver_call =
    KillTask "TaskID option"
  | DeclineOffer "OfferID option"
  | LaunchTasks "OfferID option" "TaskInfo list"
  | DriverInit | DriverStart | DriverStop bool | DriverDestroy
  | CuratorClose

record SchedulerDriver =
  sd_Master :: string
  sd_Framework :: FrameworkInfo

record ('i, 'cur, 'm) Framework =
  fw_Config :: Config
  fw_id :: "'i option"
  fw_ownsFwIDState :: bool
  fw_Curator :: "'cur option"
  fw_ownsCurator :: bool
  fw_driver :: "SchedulerDriver option"
  fw_taskManager :: "'m option"
  fw_listening :: bool
  fw_calls :: "driver_call list"

record ('i, 'cur, 'm) fw_env =
  fe_tm :: "'m TaskManager_methods"
  fe_fis :: "'i FrameworkIDState"
  fe_drv :: "driver_call list \<Rightarrow> driver_call \<Rightarrow> goerr option"
  fe_newCurator :: "string \<Rightarrow> 'cur result"
  fe_rootNode :: "'cur \<Rightarrow> string"
  fe_newFwID :: "string \<Rightarrow> 'cur \<Rightarrow> 'i"

definition drive ::
  "('i, 'cur, 'm) fw_env \<Rightarrow> driver_call \<Rightarrow> ('i, 'cur, 'm) Framework \<Rightarrow> goerr option \<times> ('i, 'cur, 'm) Framework" where
  "drive env c fw = (fe_drv env (fw_calls fw) c, fw\<lparr>fw_calls := fw_calls fw @ [c]\<rparr>)"

definition NewFramework :: "Config \<Rightarrow> 'm \<Rightarrow> ('i, 'cur, 'm) Framework" where
  "NewFramework config taskManager =
     \<lparr>fw_Config = config, fw_id = None, fw_ownsFwIDState = True, fw_Curator = None, fw_ownsCurator = True,
      fw_driver = None, fw_taskManager = Some taskManager, fw_listening = False, fw_calls = []\<rparr>"

definition NewCustomFramework :: "Config \<Rightarrow> 'i \<Rightarrow> 'cur \<Rightarrow> ('i, 'cur, 'm) Framework" where
  "NewCustomFramework config fwID curator =
     \<lparr>fw_Config = config, fw_id = Some fwID, fw_ownsFwIDState = False, fw_Curator = Some curator, fw_ownsCurator = False,
      fw_driver = None, fw_taskManager = None, fw_listening = False, fw_calls = []\<rparr>"

section \<open>Requests\<close>

definition Framework_SaveApp ::
  "('i, 'cur, 'm) fw_env \<Rightarrow> Application \<Rightarrow> ('i, 'cur, 'm) Framework \<Rightarrow>
     (goerr option \<times> ('i, 'cur, 'm) Framework) option" where
  "Framework_SaveApp env app fw =
     (case fw_taskManager fw of
        None \<Rightarrow> None
      | Some m \<Rightarrow> let (err, m') = tmi_SaveApp (fe_tm env) app m in Some (err, fw\<lparr>fw_taskManager := Some m'\<rparr>))"

definition Framework_SubmitApp ::
  "('i, 'cur, 'm) fw_env \<Rightarrow> (Application \<times> int64) list \<Rightarrow> ('i, 'cur, 'm) Framework \<Rightarrow>
     (goerr option \<times> ('i, 'cur, 'm) Framework) option" where
  "Framework_SubmitApp env app fw =
     (case fw_taskManager fw of
        None \<Rightarrow> None
      | Some m \<Rightarrow> map_option (\<lambda>(err, m'). (err, fw\<lparr>fw_taskManager := Some m'\<rparr>)) (tmi_SubmitApp (fe_tm env) app m))"

text \<open>The loop of \<open>KillApp\<close>; \<open>clock n\<close> holds the times the \<open>n\<close>th update reads.\<close>

fun killApp_loop ::
  "('i, 'cur, 'm) fw_env \<Rightarrow> (nat \<Rightarrow> int64 \<times> go_time) \<Rightarrow> TaskID option list \<Rightarrow> goerr option \<Rightarrow>
     ('i, 'cur, 'm) Framework \<Rightarrow> (goerr option \<times> ('i, 'cur, 'm) Framework) option" where
  "killApp_loop env clock [] err fw = Some (err, fw)"
| "killApp_loop env clock (taskID # taskIds) err fw =
     (case fw_taskManager fw of
        None \<Rightarrow> None
      | Some m \<Rightarrow>
          (case tmi_TaskStopping (fe_tm env) (fst (clock 0)) (snd (clock 0)) taskID m of
             None \<Rightarrow> None
           | Some m' \<Rightarrow>
               let (err2, fw') = drive env (KillTask taskID) (fw\<lparr>fw_taskManager := Some m'\<rparr>)
               in killApp_loop env (\<lambda>n. clock (Suc n)) taskIds (if err2 \<noteq> None then err2 else err) fw'))"

definition KillApp ::
  "('i, 'cur, 'm) fw_env \<Rightarrow> (nat \<Rightarrow> int64 \<times> go_time) \<Rightarrow> string \<Rightarrow> ('i, 'cur, 'm) Framework \<Rightarrow>
     (goerr option \<times> ('i, 'cur, 'm) Framework) option" where
  "KillApp env clock app fw =
     (case fw_taskManager fw of
        None \<Rightarrow> None
      | Some m \<Rightarrow>
          let (taskIds, err) = tmi_FindTasksForApp (fe_tm env) app m
          in if err \<noteq> None then Some (err, fw) else killApp_loop env clock taskIds err fw)"

fun killComponent_loop ::
  "('i, 'cur, 'm) fw_env \<Rightarrow> TaskID option list \<Rightarrow> goerr option \<Rightarrow> ('i, 'cur, 'm) Framework \<Rightarrow>
     goerr option \<times> ('i, 'cur, 'm) Framework" where
  "killComponent_loop env [] err fw = (err, fw)"
| "killComponent_loop env (taskID # taskIds) err fw =
     (let (err2, fw') = drive env (KillTask taskID) fw
      in killComponent_loop env taskIds (if err2 \<noteq> None then err2 else err) fw')"

definition KillComponent ::
  "('i, 'cur, 'm) fw_env \<Rightarrow> string \<Rightarrow> string \<Rightarrow> ('i, 'cur, 'm) Framework \<Rightarrow>
     (goerr option \<times> ('i, 'cur, 'm) Framework) option" where
  "KillComponent env app component fw =
     (case fw_taskManager fw of
        None \<Rightarrow> None
      | Some m \<Rightarrow>
          let (taskIds, err) = tmi_FindTasksForComponent (fe_tm env) app component m
          in Some (if err \<noteq> None then (err, fw) else killComponent_loop env taskIds err fw))"

definition KillComponentOnSlave ::
  "('i, 'cur, 'm) fw_env \<Rightarrow> string \<Rightarrow> ('i, 'cur, 'm) Framework \<Rightarrow>
     (goerr option \<times> ('i, 'cur, 'm) Framework) option" where
  "KillComponentOnSlave env tID fw =
     (case fw_taskManager fw of
        None \<Rightarrow> None
      | Some m \<Rightarrow>
          Some (case tmi_FindTaskForComponent (fe_tm env) tID m of
                  Inl err \<Rightarrow> (Some err, fw)
                | Inr taskID \<Rightarrow> drive env (KillTask taskID) fw))"

text \<open>\<open>ID\<close> asks the id state twice.\<close>

definition Framework_ID :: "('i, 'cur, 'm) fw_env \<Rightarrow> ('i, 'cur, 'm) Framework \<Rightarrow> string \<times> ('i, 'cur, 'm) Framework" where
  "Framework_ID env fw =
     (case fw_id fw of
        None \<Rightarrow> ([], fw)
      | Some i \<Rightarrow>
          let (g1, i1) = fis_Get (fe_fis env) i
          in if g1 = None then ([], fw\<lparr>fw_id := Some i1\<rparr>)
             else let (g2, i2) = fis_Get (fe_fis env) i1
                  in (FrameworkID_GetValue g2, fw\<lparr>fw_id := Some i2\<rparr>))"

section \<open>Callbacks\<close>

definition Registered :: "('i, 'cur, 'm) fw_env \<Rightarrow> FrameworkID \<Rightarrow> ('i, 'cur, 'm) Framework \<Rightarrow> ('i, 'cur, 'm) Framework option" where
  "Registered env fwID fw =
     map_option (\<lambda>i. fw\<lparr>fw_id := Some (fis_Set (fe_fis env) (Some fwID) i)\<rparr>) (fw_id fw)"

definition StatusUpdate ::
  "('i, 'cur, 'm) fw_env \<Rightarrow> int64 \<Rightarrow> go_time \<Rightarrow> TaskStatus \<Rightarrow> ('i, 'cur, 'm) Framework \<Rightarrow> ('i, 'cur, 'm) Framework option" where
  "StatusUpdate env now later status fw =
     (case fw_taskManager fw of
        None \<Rightarrow> None
      | Some m \<Rightarrow>
          let tm = fe_tm env; taskID = tst_TaskId status; slaveID = tst_SlaveId status;
              set = map_option (\<lambda>m'. fw\<lparr>fw_taskManager := Some m'\<rparr>);
              kill = map_option (\<lambda>fw'. snd (drive env (KillTask taskID) fw'))
          in case tst_State status of
               TASK_FAILED \<Rightarrow> set (tmi_TaskFailed tm now later taskID slaveID m)
             | TASK_FINISHED \<Rightarrow> set (tmi_TaskFinished tm now later taskID slaveID m)
             | TASK_KILLED \<Rightarrow> set (tmi_TaskKilled tm now later taskID slaveID m)
             | TASK_LOST \<Rightarrow> set (tmi_TaskLost tm now later taskID slaveID m)
             | TASK_RUNNING \<Rightarrow> set (tmi_TaskRunning tm now later taskID slaveID m)
             | TASK_STAGING \<Rightarrow> kill (set (tmi_TaskStaging tm taskID slaveID m))
             | TASK_STARTING \<Rightarrow> kill (set (tmi_TaskStarting tm taskID slaveID m)))"

text \<open>One turn of the loop of \<open>ResourceOffers\<close>, with the id and the time its task gets.\<close>

definition answer_offer ::
  "('i, 'cur, 'm) fw_env \<Rightarrow> Offer \<times> string \<times> int64 \<Rightarrow> ('i, 'cur, 'm) Framework \<Rightarrow> ('i, 'cur, 'm) Framework option" where
  "answer_offer env x fw =
     (let (offer, taskID, nowMillis) = x
      in case fw_taskManager fw of
           None \<Rightarrow> Some (snd (drive env (DeclineOffer (off_Id offer)) fw))
         | Some m \<Rightarrow>
             (case tmi_FulfillOffer (fe_tm env) taskID nowMillis offer m of
                None \<Rightarrow> None
              | Some (fulfilment, m') \<Rightarrow>
                  Some (snd (drive env (if length fulfilment = 0 then DeclineOffer (off_Id offer)
                                        else LaunchTasks (off_Id offer) fulfilment)
                               (fw\<lparr>fw_taskManager := Some m'\<rparr>)))))"

fun ResourceOffers ::
  "('i, 'cur, 'm) fw_env \<Rightarrow> (Offer \<times> string \<times> int64) list \<Rightarrow> ('i, 'cur, 'm) Framework \<Rightarrow> ('i, 'cur, 'm) Framework option" where
  "ResourceOffers env [] fw = Some fw"
| "ResourceOffers env (x # offers) fw =
     (case answer_offer env x fw of None \<Rightarrow> None | Some fw' \<Rightarrow> ResourceOffers env offers fw')"

text \<open>
  The table of callbacks the driver is given. Those of \<open>OfferRescinded\<close>, \<open>Disconnected\<close>, \<open>Reregistered\<close>, \<open>SlaveLost\<close>,
  \<open>Error\<close>, \<open>FrameworkMessage\<close> and \<open>ExecutorLost\<close> only write to the log. A status update comes with the times it reads, an offer with the id
  and the time its task gets.
\<close>

datatype mesos_callback =
    CbRegistered FrameworkID
  | CbOfferRescinded OfferID
  | CbDisconnected
  | CbReregistered
  | CbSlaveLost SlaveID
  | CbError string
  | CbStatusUpdate int64 go_time TaskStatus
  | CbFrameworkMessage string SlaveID string
  | CbExecutorLost string SlaveID int
  | CbResourceOffers "(Offer \<times> string \<times> int64) list"

fun defaultMesosScheduler ::
  "('i, 'cur, 'm) fw_env \<Rightarrow> mesos_callback \<Rightarrow> ('i, 'cur, 'm) Framework \<Rightarrow> ('i, 'cur, 'm) Framework option" where
  "defaultMesosScheduler env (CbRegistered fwID) fw = Registered env fwID fw"
| "defaultMesosScheduler env (CbOfferRescinded offer) fw = Some fw"
| "defaultMesosScheduler env CbDisconnected fw = Some fw"
| "defaultMesosScheduler env CbReregistered fw = Some fw"
| "defaultMesosScheduler env (CbSlaveLost slaveID) fw = Some fw"
| "defaultMesosScheduler env (CbError message) fw = Some fw"
| "defaultMesosScheduler env (CbStatusUpdate now later status) fw = StatusUpdate env now later status fw"
| "defaultMesosScheduler env (CbFrameworkMessage executorID slaveID data) fw = Some fw"
| "defaultMesosScheduler env (CbExecutorLost executorID slaveID status) fw = Some fw"
| "defaultMesosScheduler env (CbResourceOffers offers) fw = ResourceOffers env offers fw"

text \<open>One message of the channel \<open>TasksToKill\<close>.\<close>

definition kill_listed_task ::
  "('i, 'cur, 'm) fw_env \<Rightarrow> (nat \<Rightarrow> int64 \<times> go_time) \<Rightarrow> TaskID option \<Rightarrow> ('i, 'cur, 'm) Framework \<Rightarrow>
     ('i, 'cur, 'm) Framework option" where
  "kill_listed_task env clock taskID fw =
     (if taskID \<noteq> None then map_option snd (KillApp env clock (TaskID_GetValue taskID) fw) else Some fw)"

section \<open>Starting and stopping\<close>

definition infoFromConfig ::
  "('i, 'cur, 'm) fw_env \<Rightarrow> ('i, 'cur, 'm) Framework \<Rightarrow> (FrameworkInfo \<times> ('i, 'cur, 'm) Framework) option" where
  "infoFromConfig env fw =
     (case (cfg_FrameworkInfo (fw_Config fw), fw_id fw) of
        (Some fc, Some i) \<Rightarrow>
          let (g, i') = fis_Get (fe_fis env) i
          in Some (\<lparr>fi_User = Some (fc_User fc), fi_Name = Some (fc_Name fc), fi_Id = g\<rparr>, fw\<lparr>fw_id := Some i'\<rparr>)
      | _ \<Rightarrow> None)"

text \<open>Connecting to ZooKeeper and loading the id, when the framework owns them; a nil curator panics.\<close>

definition start_owned ::
  "('i, 'cur, 'm) fw_env \<Rightarrow> ('i, 'cur, 'm) Framework \<Rightarrow> (goerr option \<times> ('i, 'cur, 'm) Framework) option" where
  "start_owned env fw =
     (case (if fw_ownsCurator fw then map_sum id Some (fe_newCurator env (cfg_ZookeeperURL (fw_Config fw)))
            else Inr (fw_Curator fw)) of
        Inl err \<Rightarrow> Some (Some err, fw)
      | Inr curator \<Rightarrow>
          let fw1 = fw\<lparr>fw_Curator := curator\<rparr>
          in if fw_ownsFwIDState fw
             then map_option (\<lambda>cur.
                    let i = fe_newFwID env (fe_rootNode env cur @ ''/framework/id'') cur
                    in (None, fw1\<lparr>fw_id := Some (snd (fis_Start (fe_fis env) True i))\<rparr>)) curator
             else Some (None, fw1))"

definition Framework_Start ::
  "('i, 'cur, 'm) fw_env \<Rightarrow> ('i, 'cur, 'm) Framework \<Rightarrow> (goerr option \<times> ('i, 'cur, 'm) Framework) option" where
  "Framework_Start env fw =
     (case start_owned env fw of
        None \<Rightarrow> None
      | Some (Some err, fw1) \<Rightarrow> Some (Some err, fw1)
      | Some (None, fw1) \<Rightarrow>
          (case infoFromConfig env fw1 of
             None \<Rightarrow> None
           | Some (info, fw2) \<Rightarrow>
               let fw3 = fw2\<lparr>fw_driver := Some \<lparr>sd_Master = cfg_MesosMaster (fw_Config fw), sd_Framework = info\<rparr>\<rparr>;
                   (err, fw4) = drive env DriverInit fw3
               in if err \<noteq> None then Some (err, fw4)
                  else let (err', fw5) = drive env DriverStart fw4
                       in if err' \<noteq> None then Some (err', fw5)
                          else Some (None, fw5\<lparr>fw_listening := True\<rparr>)))"

definition Framework_Stop ::
  "('i, 'cur, 'm) fw_env \<Rightarrow> ('i, 'cur, 'm) Framework \<Rightarrow> (goerr option \<times> ('i, 'cur, 'm) Framework) option" where
  "Framework_Stop env fw =
     (let (err1, fw1) = drive env (DriverStop False) fw;
          (_, fw2) = drive env DriverDestroy fw1;
          stopped = (if fw_ownsFwIDState fw
                     then map_option (\<lambda>i. let (err2, i') = fis_Stop (fe_fis env) i in (err2, fw2\<lparr>fw_id := Some i'\<rparr>)) (fw_id fw2)
                     else Some (None, fw2))
      in map_option (\<lambda>(err2, fw3).
           (if err1 \<noteq> None then err1 else err2,
            if fw_ownsCurator fw then snd (drive env CuratorClose fw3) else fw3)) stopped)"

end
