(* ===== verification/ApiModel.thy ===== *)
theory ApiModel
  imports HealthCheckKinds Config "HOL-Library.AList"
begin

text \<open>
  The API's model of an application, \<open>src/agora/api/model/app_component.go\<close>, and its conversion to and from the messages the
  rest of the program works on, \<open>converters.go\<close>. A Go map is an association list with distinct keys;
  an order in which it is iterated is an argument. \<open>Valid\<close> reports to the validation library
  with \<open>SetError\<close>: here it returns the sequence of those calls, field and message. Converting a float to an
  integer type is implementation-dependent in Go when the value does not fit: the argument \<open>cv\<close> says what it gives.
\<close>

section \<open>The model\<close>

record ApiHealthCheck =
  jh_Mode :: string
  jh_Rampup :: int64
  jh_Interval :: int64
  jh_Timeout :: int64
  jh_Path :: string
  jh_Scheme :: string

record AppSLA =
  as_MinInstances :: int64
  as_MaxInstances :: int64
  as_HealthCheck :: "ApiHealthCheck option"

record AppComponent =
  ac_Name :: string
  ac_Cpus :: "8 word"
  ac_Mem :: "16 word"
  ac_DiskSpace :: int32
  ac_DistURL :: string
  ac_Command :: string
  ac_Env :: "(string \<times> string) list"
  ac_Ports :: "(string \<times> int64) list"
  ac_Version :: string
  ac_ComponentType :: string
  ac_Active :: bool
  ac_SLA :: "AppSLA option"

record App =
  ap_Name :: string
  ap_Components :: "(string \<times> AppComponent) list"

section \<open>Validation\<close>

type_synonym set_error = "string \<times> string"

definition App_Valid :: "App \<Rightarrow> set_error list" where
  "App_Valid a = (if length (ap_Components a) = 0 then [(''components'', ''requires at least 1 entry'')] else [])"

definition AppComponent_Valid :: "AppComponent \<Rightarrow> set_error list" where
  "AppComponent_Valid a =
     (let t = ToUpper (ac_ComponentType a)
      in if t = ''SERVICE''
         then (if length (ac_Ports a) = 0 then [(''ports'', ''requires at least 1 port'')] else [])
         else if t = ''TASK'' \<or> t = ''CRON'' \<or> t = ''SPARK_JOB''
         then [(''component_type'', ''Only long running services are supported at the moment.'')]
         else [(''component_type'', ac_ComponentType a @ '' is not supported as component type.'')])"

definition AppSLA_Valid :: "AppSLA \<Rightarrow> set_error list" where
  "AppSLA_Valid s =
     (if sint (as_MaxInstances s) < sint (as_MinInstances s)
      then [(''max_instances'', ''Max instances needs to be larger than or equal to min instances'')] else [])"

text \<open>Constants of package \<open>time\<close>, in nanoseconds.\<close>

definition Millisecond :: int where "Millisecond = 1000000"
definition Minute :: int where "Minute = 60 * 1000 * Millisecond"
definition Hour :: int where "Hour = 60 * Minute"

definition ApiHealthCheck_Valid :: "ApiHealthCheck \<Rightarrow> set_error list" where
  "ApiHealthCheck_Valid h =
     (if sint (jh_Timeout h) > 1 * Hour then [(''timeout'', ''The timeout needs to be less than an hour'')] else []) @
     (if sint (jh_Timeout h) < 1 * Millisecond
      then [(''timeout'', ''It's highly unlikely that a network call will complete in less than a millisecond'')] else []) @
     (if sint (jh_Rampup h) > 1 * Hour
      then [(''rampup'', ''A rampup time of an hour is unacceptable, this service needs to be fixed'')] else []) @
     (if sint (jh_Rampup h) < 1 * Millisecond
      then [(''rampup'', ''It's highly unlikely that a network call will complete in less than a millisecond'')] else []) @
     (if sint (jh_Interval h) < 100 * Millisecond
      then [(''interval'', ''An interval should at least be 100 milliseconds, we don't want to flood the service with health checks'')] else []) @
     (if sint (jh_Interval h) > 5 * Minute then [(''interval'', ''An interval can at most be 5 minutes.'')] else []) @
     (if jh_Mode h \<noteq> ''TCP'' \<and> jh_Mode h \<noteq> ''HTTP'' \<and> jh_Mode h \<noteq> ''METRICS''
      then [(''mode'', ''Mode must be one of 'tcp', 'http' or 'metrics'' @ [CHR 0x27])] else [])"

section \<open>From the messages\<close>

text \<open>\<open>proto.EnumName\<close>: the name in the table, or the number.\<close>

definition EnumName :: "(int \<rightharpoonup> string) \<Rightarrow> int \<Rightarrow> string" where
  "EnumName m v = (case m v of Some s \<Rightarrow> s | None \<Rightarrow> Itoa v)"

text \<open>A float as a signed integer of \<open>n\<close> bits: the fraction is dropped.\<close>

definition f_trunc :: "rat \<Rightarrow> int" where
  "f_trunc r = (if 0 \<le> r then \<lfloor>r\<rfloor> else \<lceil>r\<rceil>)"

definition f_to_int :: "(gofloat \<Rightarrow> 'w::len word) \<Rightarrow> gofloat \<Rightarrow> 'w word" where
  "f_to_int cv x =
     (case x of
        Fin r \<Rightarrow> if - (2 ^ (LENGTH('w) - 1)) \<le> f_trunc r \<and> f_trunc r < 2 ^ (LENGTH('w) - 1)
                 then word_of_int (f_trunc r) else cv x
      | _ \<Rightarrow> cv x)"

definition from_HealthCheck :: "HealthCheck \<Rightarrow> ApiHealthCheck" where
  "from_HealthCheck h =
     \<lparr>jh_Mode = EnumName HealthCheckMode_name (HealthCheckMode_num (HealthCheck_GetMode (Some h))),
      jh_Rampup = HealthCheck_GetRampUp (Some h), jh_Interval = HealthCheck_GetIntervalMillis (Some h),
      jh_Timeout = HealthCheck_GetTimeout (Some h), jh_Path = HealthCheck_GetPath (Some h),
      jh_Scheme = HealthCheck_GetScheme (Some h)\<rparr>"

definition from_SLA :: "ApplicationSLA \<Rightarrow> AppSLA" where
  "from_SLA s =
     \<lparr>as_MinInstances = scast (ApplicationSLA_GetMinInstances (Some s)),
      as_MaxInstances = scast (ApplicationSLA_GetMaxInstances (Some s)),
      as_HealthCheck = map_option from_HealthCheck (sla_HealthCheck s)\<rparr>"

text \<open>The field access \<open>application.Sla\<close> panics for a nil application.\<close>

definition FromAppManifest ::
  "(gofloat \<Rightarrow> 8 word) \<Rightarrow> (gofloat \<Rightarrow> 16 word) \<Rightarrow> Application option \<Rightarrow> App option" where
  "FromAppManifest cv8 cv16 application =
     (let env = fold (\<lambda>v. AList.update (StringKeyValue_GetKey (Some v)) (StringKeyValue_GetValue (Some v)))
                  (Application_GetEnv application) [];
          ports = fold (\<lambda>v. AList.update (StringIntKeyValue_GetKey (Some v)) (scast (StringIntKeyValue_GetValue (Some v))))
                  (Application_GetPorts application) []
      in map_option (\<lambda>a.
           \<lparr>ap_Name = Application_GetAppName application,
            ap_Components = [(Application_GetName application,
              \<lparr>ac_Name = Application_GetName application,
               ac_Cpus = f_to_int cv8 (Application_GetCpus application),
               ac_Mem = f_to_int cv16 (Application_GetMem application),
               ac_DiskSpace = ucast (Application_GetDiskSpace application),
               ac_DistURL = Application_GetDistUrl application,
               ac_Command = Application_GetCommand application,
               ac_Env = env, ac_Ports = ports,
               ac_Version = Application_GetVersion application,
               ac_ComponentType = ToLower (EnumName ComponentType_name (ComponentType_num (Application_GetComponentType application))),
               ac_Active = Application_GetActive application,
               ac_SLA = map_option from_SLA (app_Sla a)\<rparr>)]\<rparr>) application)"

section \<open>To the messages\<close>

text \<open>Indexing a generated value table with a name it does not have gives 0, which both enumerations have a constant for.\<close>

definition mode_of_name :: "string \<Rightarrow> HealthCheckMode" where
  "mode_of_name s =
     (case HealthCheckMode_of (case HealthCheckMode_value s of None \<Rightarrow> 0 | Some n \<Rightarrow> n) of
        None \<Rightarrow> HealthCheckMode_HTTP | Some m \<Rightarrow> m)"

definition type_of_name :: "string \<Rightarrow> ComponentType" where
  "type_of_name s =
     (case ComponentType_of (case ComponentType_value s of None \<Rightarrow> 0 | Some n \<Rightarrow> n) of
        None \<Rightarrow> ComponentType_SERVICE | Some t \<Rightarrow> t)"

definition to_HealthCheck :: "ApiHealthCheck \<Rightarrow> HealthCheck" where
  "to_HealthCheck h =
     \<lparr>hc_Mode = Some (if jh_Mode h \<noteq> [] then mode_of_name (ToUpper (jh_Mode h)) else HealthCheckMode_HTTP),
      hc_RampUp = Some (jh_Rampup h), hc_IntervalMillis = Some (jh_Interval h), hc_Timeout = Some (jh_Timeout h),
      hc_Path = Some (jh_Path h), hc_Scheme = Some (jh_Scheme h)\<rparr>"

definition to_SLA :: "AppSLA \<Rightarrow> ApplicationSLA" where
  "to_SLA s =
     \<lparr>sla_MinInstances = Some (ucast (as_MinInstances s)), sla_MaxInstances = Some (ucast (as_MaxInstances s)),
      sla_HealthCheck = map_option to_HealthCheck (as_HealthCheck s), sla_UnhealthyAt = None\<rparr>"

text \<open>One turn of the loop over the components; \<open>ite\<close> and \<open>itp\<close> order the ranges over its environment and ports.\<close>

definition component_manifest ::
  "((string \<times> string) list \<Rightarrow> (string \<times> string) list) \<Rightarrow> ((string \<times> int64) list \<Rightarrow> (string \<times> int64) list) \<Rightarrow>
     DockerIndexConfig \<Rightarrow> string \<Rightarrow> AppComponent \<Rightarrow> Application" where
  "component_manifest ite itp dockerIndex appName c =
     (let env = map (\<lambda>(k, v). \<lparr>kv_Key = Some k, kv_Value = Some v\<rparr>) (go_range ite (ac_Env c));
          ports = map (\<lambda>(k, v). \<lparr>ikv_Key = Some k, ikv_Value = Some (ucast v)\<rparr>) (go_range itp (ac_Ports c));
          sla = map_option to_SLA (ac_SLA c);
          appID = appName @ ''-'' @ ac_Name c @ ''-'' @ ac_Version c;
          compType = type_of_name (ToUpper (ac_ComponentType c));
          distURL = URL_String (ToProtoURL dockerIndex) @ ''/'' @ appName @ ''/'' @ ac_Name c @ '':'' @ ac_Version c
      in \<lparr>app_Id = Some appID, app_Name = Some (ac_Name c), app_Cpus = Some (f_of_int (sint (ac_Cpus c))),
          app_Mem = Some (f_of_int (sint (ac_Mem c))), app_DiskSpace = Some 0, app_DistUrl = Some distURL,
          app_Command = Some (ac_Command c), app_Env = env, app_Ports = ports, app_Version = Some (ac_Version c),
          app_AppName = Some appName, app_Active = Some (ac_Active c), app_Distribution = Some Distribution_DOCKER,
          app_ComponentType = Some compType, app_LogDir = None, app_WorkDir = None, app_ConfDir = None, app_Sla = sla\<rparr>)"

text \<open>A missing configuration of the Docker index panics as soon as there is a component.\<close>

definition ToAppManifest ::
  "((string \<times> AppComponent) list \<Rightarrow> (string \<times> AppComponent) list) \<Rightarrow>
     ((string \<times> string) list \<Rightarrow> (string \<times> string) list) \<Rightarrow> ((string \<times> int64) list \<Rightarrow> (string \<times> int64) list) \<Rightarrow>
     Config \<Rightarrow> App \<Rightarrow> Application list option" where
  "ToAppManifest itc ite itp config app =
     fold (\<lambda>(_, c) cmps. case (cmps, cfg_DockerIndex config) of
             (Some cs, Some d) \<Rightarrow> Some (cs @ [component_manifest ite itp d (ap_Name app) c])
           | _ \<Rightarrow> None) (go_range itc (ap_Components app)) (Some [])"

section \<open>Lemmas\<close>

lemma ToAppManifest_eq:
  assumes "cfg_DockerIndex config = Some d"
  shows "ToAppManifest itc ite itp config app =
    Some (map (\<lambda>(_, c). component_manifest ite itp d (ap_Name app) c) (go_range itc (ap_Components app)))"
proof -
  have "fold (\<lambda>(_, c) cmps. case (cmps, cfg_DockerIndex config) of
             (Some cs, Some d) \<Rightarrow> Some (cs @ [component_manifest ite itp d (ap_Name app) c]) | _ \<Rightarrow> None) xs (Some acc) =
      Some (acc @ map (\<lambda>(_, c). component_manifest ite itp d (ap_Name app) c) xs)" for xs :: "(string \<times> AppComponent) list" and acc
    by (induction xs arbitrary: acc) (auto simp: assms)
  from this [of "go_range itc (ap_Components app)" "[]"] show ?thesis by (simp add: ToAppManifest_def)
qed

text \<open>Writing the entries of a map one after the other gives the same map back.\<close>

lemma map_of_fold_update:
  "map_of (fold (\<lambda>x. AList.update (f x) (g x)) xs m) = foldl (\<lambda>m x. m(f x \<mapsto> g x)) (map_of m) xs"
  by (induction xs arbitrary: m) (simp_all add: update_conv')

lemma foldl_upd_distinct:
  "distinct (map f xs) \<Longrightarrow> foldl (\<lambda>m x. m(f x \<mapsto> g x)) m xs = m ++ map_of (map (\<lambda>x. (f x, g x)) xs)"
  by (induction xs arbitrary: m) (auto simp: map_add_upd_left dom_map_of_conv_image_fst image_image)

lemma map_of_rebuilt:
  assumes "distinct (map f xs)"
  shows "map_of (fold (\<lambda>x. AList.update (f x) (g x)) xs []) = map_of (map (\<lambda>x. (f x, g x)) xs)"
  unfolding map_of_fold_update foldl_upd_distinct [OF assms] by simp

lemma f_trunc_of_int [simp]: "f_trunc (of_int n) = n"
  by (simp add: f_trunc_def)

lemma f_to_int_f_of_int [simp]: "f_to_int cv (f_of_int (sint w)) = w"
proof -
  have "f_to_int cv (f_of_int n) = word_of_int n" if "- (2 ^ (LENGTH('a) - 1)) \<le> n" "n < 2 ^ (LENGTH('a) - 1)" for n
    using that by (simp add: f_to_int_def f_of_int_def del: One_nat_def)
  from this [OF sint_ge sint_lt] show ?thesis by simp
qed

lemma scast_ucast_int32:
  assumes "- (2 ^ 31) \<le> sint (v :: int64)" and "sint v < 2 ^ 31"
  shows "scast (ucast v :: int32) = v"
proof -
  have "sint (ucast v :: int32) = signed_take_bit 31 (sint v)"
    by transfer (simp add: signed_take_bit_take_bit min_def)
  also have "\<dots> = sint v" using assms by (simp add: signed_take_bit_int_eq_self)
  finally have "(of_int (sint (ucast v :: int32)) :: int64) = of_int (sint v)" by simp
  then show ?thesis by simp
qed

text \<open>What the API can represent and the messages keep: bounded instances, modes and types in their canonical spelling.\<close>

definition int32_ok :: "int64 \<Rightarrow> bool" where
  "int32_ok v \<longleftrightarrow> - (2 ^ 31) \<le> sint v \<and> sint v < 2 ^ 31"

definition component_ok :: "AppComponent \<Rightarrow> bool" where
  "component_ok c \<longleftrightarrow>
     distinct (map fst (ac_Env c)) \<and> distinct (map fst (ac_Ports c)) \<and> (\<forall>(_, v) \<in> set (ac_Ports c). int32_ok v) \<and>
     ac_ComponentType c \<in> {''service'', ''task'', ''cron'', ''spark_job''} \<and>
     (\<forall>s. ac_SLA c = Some s \<longrightarrow> int32_ok (as_MinInstances s) \<and> int32_ok (as_MaxInstances s) \<and>
        (\<forall>h. as_HealthCheck s = Some h \<longrightarrow> jh_Mode h \<in> {''TCP'', ''HTTP'', ''METRICS''}))"

lemma health_roundtrip:
  assumes "jh_Mode h \<in> {''TCP'', ''HTTP'', ''METRICS''}"
  shows "from_HealthCheck (to_HealthCheck h) = h"
proof -
  have "EnumName HealthCheckMode_name (HealthCheckMode_num (mode_of_name (ToUpper (jh_Mode h)))) = jh_Mode h"
    using assms by (auto simp: ToUpper_def upper_char_def mode_of_name_def HealthCheckMode_value_def HealthCheckMode_of_def
        EnumName_def HealthCheckMode_name_def)
  with assms show ?thesis
    by (cases h) (auto simp: from_HealthCheck_def to_HealthCheck_def getter_simps)
qed

lemma SLA_roundtrip:
  assumes "int32_ok (as_MinInstances s)" and "int32_ok (as_MaxInstances s)"
    and "\<forall>h. as_HealthCheck s = Some h \<longrightarrow> jh_Mode h \<in> {''TCP'', ''HTTP'', ''METRICS''}"
  shows "from_SLA (to_SLA s) = s"
proof -
  have "map_option from_HealthCheck (map_option to_HealthCheck (as_HealthCheck s)) = as_HealthCheck s"
    using assms(3) health_roundtrip by (cases "as_HealthCheck s") auto
  with assms(1,2) show ?thesis
    by (cases s) (simp add: from_SLA_def to_SLA_def getter_simps int32_ok_def scast_ucast_int32)
qed

lemma type_names:
  "ToUpper ''service'' = ''SERVICE''" "ToUpper ''task'' = ''TASK''" "ToUpper ''cron'' = ''CRON''"
  "ToUpper ''spark_job'' = ''SPARK_JOB''" "ToLower ''SERVICE'' = ''service''" "ToLower ''TASK'' = ''task''"
  "ToLower ''CRON'' = ''cron''" "ToLower ''SPARK_JOB'' = ''spark_job''"
  by code_simp+

lemma type_roundtrip:
  "t \<in> {''service'', ''task'', ''cron'', ''spark_job''} \<Longrightarrow>
     ToLower (EnumName ComponentType_name (ComponentType_num (type_of_name (ToUpper t)))) = t"
  by (auto simp: type_names type_of_name_def ComponentType_value_def ComponentType_of_def EnumName_def ComponentType_name_def)

text \<open>An entry of the environment or of the ports, written and read back.\<close>

lemma env_rebuilt:
  assumes "distinct (map fst m)"
  shows "map_of (fold (\<lambda>v. AList.update (StringKeyValue_GetKey (Some v)) (StringKeyValue_GetValue (Some v)))
           (map (\<lambda>(k, v). \<lparr>kv_Key = Some k, kv_Value = Some v\<rparr>) (go_range it m)) []) = map_of m"
  using assms by (simp add: fold_map comp_def case_prod_unfold getter_simps map_of_rebuilt)

lemma ports_rebuilt:
  assumes "distinct (map fst m)" and "\<forall>(_, v) \<in> set m. int32_ok v"
  shows "map_of (fold (\<lambda>v. AList.update (StringIntKeyValue_GetKey (Some v)) (scast (StringIntKeyValue_GetValue (Some v))))
           (map (\<lambda>(k, v). \<lparr>ikv_Key = Some k, ikv_Value = Some (ucast v)\<rparr>) (go_range it m)) []) = map_of m"
proof -
  have "map (\<lambda>x. (fst x, scast (ucast (snd x) :: int32))) (go_range it m) = go_range it m"
    using assms(2) by (intro map_idI) (auto simp: int32_ok_def scast_ucast_int32)
  with assms(1) show ?thesis
    by (simp add: fold_map comp_def case_prod_unfold getter_simps map_of_rebuilt)
qed

text \<open>One component, to a message and back.\<close>

definition component_back :: "DockerIndexConfig \<Rightarrow> string \<Rightarrow> AppComponent \<Rightarrow> (string \<times> string) list \<Rightarrow> (string \<times> int64) list \<Rightarrow> App" where
  "component_back d appName c env ports = \<lparr>ap_Name = appName, ap_Components = [(ac_Name c,
     c\<lparr>ac_Env := env, ac_Ports := ports, ac_DiskSpace := 0,
       ac_DistURL := ''docker://'' @ dic_Host d @ ''/'' @ url_escape encodePath (dic_APIVersion d) @ ''/'' @
         appName @ ''/'' @ ac_Name c @ '':'' @ ac_Version c\<rparr>)]\<rparr>"

lemma component_roundtrip:
  assumes ok: "component_ok c"
  shows "\<exists>env ports. FromAppManifest cv8 cv16 (Some (component_manifest ite itp d appName c)) = Some (component_back d appName c env ports) \<and>
    map_of env = map_of (ac_Env c) \<and> map_of ports = map_of (ac_Ports c)"
proof -
  have sla: "map_option from_SLA (map_option to_SLA (ac_SLA c)) = ac_SLA c"
    using ok SLA_roundtrip by (cases "ac_SLA c") (auto simp: component_ok_def)
  have "distinct (map fst (ac_Env c))" "distinct (map fst (ac_Ports c))" "\<forall>(_, v) \<in> set (ac_Ports c). int32_ok v"
    and ct: "ac_ComponentType c \<in> {''service'', ''task'', ''cron'', ''spark_job''}"
    using ok by (simp_all add: component_ok_def)
  note m = env_rebuilt [OF this(1), of ite] ports_rebuilt [OF this(2,3), of itp]
  show ?thesis
    by (rule exI, rule exI, rule conjI [rotated], rule conjI, rule m(1), rule m(2))
       (cases c, use sla type_roundtrip [OF ct] in \<open>simp add: FromAppManifest_def component_manifest_def
          getter_simps URL_String_ToProtoURL Let_def component_back_def\<close>)
qed

section \<open>Properties\<close>

text \<open>C21. An application that goes through the converters comes back: for each component the message that is stored reads back
  as the same component, with the same environment and ports as maps, whatever order they were iterated in, except that its disk
  space is lost and its distribution URL is the one in the Docker index.\<close>

theorem manifest_roundtrip:
  assumes cfg: "cfg_DockerIndex config = Some d" and ok: "\<forall>(_, c) \<in> set (ap_Components app). component_ok c"
  shows "\<exists>apps. ToAppManifest itc ite itp config app = Some apps \<and>
    list_all2 (\<lambda>(_, c) a. \<exists>env ports.
       FromAppManifest cv8 cv16 (Some a) = Some (component_back d (ap_Name app) c env ports) \<and>
       map_of env = map_of (ac_Env c) \<and> map_of ports = map_of (ac_Ports c))
     (go_range itc (ap_Components app)) apps"
proof -
  show ?thesis
    unfolding ToAppManifest_eq [OF cfg]
    by (intro exI conjI, rule refl, unfold list_all2_map2 list_all2_same, intro ballI,
        simp only: case_prod_unfold, rule component_roundtrip)
       (use ok in auto)
qed

text \<open>A component of a service with one port and a health check.\<close>

definition sample_component :: AppComponent where
  "sample_component = \<lparr>ac_Name = ''web'', ac_Cpus = 2, ac_Mem = 512, ac_DiskSpace = 100, ac_DistURL = ''http://dist/web'',
     ac_Command = ''run'', ac_Env = [(''MODE'', ''prod'')], ac_Ports = [(''http'', 8080), (''admin'', 8081)], ac_Version = ''1.0.0'',
     ac_ComponentType = ''service'', ac_Active = True,
     ac_SLA = Some \<lparr>as_MinInstances = 1, as_MaxInstances = 3, as_HealthCheck = Some
       \<lparr>jh_Mode = ''HTTP'', jh_Rampup = 60000000000, jh_Interval = 5000000000, jh_Timeout = 1000000000,
        jh_Path = ''/health'', jh_Scheme = ''http''\<rparr>\<rparr>\<rparr>"

definition sample_docker_config :: "DockerIndexConfig \<Rightarrow> Config" where
  "sample_docker_config d = \<lparr>cfg_ZookeeperURL = [], cfg_MesosMaster = [], cfg_DataDirectory = [], cfg_StaticFiles = [],
     cfg_WorkDirectory = [], cfg_ConfigDirectory = [], cfg_Port = 8000, cfg_Interface = [], cfg_Mode = [],
     cfg_FrameworkInfo = None, cfg_DockerIndex = Some d, cfg_Logging = None\<rparr>"

lemma sample_component_ok: "component_ok sample_component"
  by (simp add: component_ok_def sample_component_def int32_ok_def)

theorem manifest_roundtrip_witness:
  "\<exists>a env ports. ToAppManifest rev rev rev
       (sample_docker_config \<lparr>dic_Host = ''index'', dic_Port = 5000, dic_Scheme = ''http'', dic_APIVersion = ''v1'', dic_User = [], dic_Pass = []\<rparr>)
       \<lparr>ap_Name = ''shop'', ap_Components = [(''web'', sample_component)]\<rparr> = Some [a] \<and>
     FromAppManifest (\<lambda>_. 0) (\<lambda>_. 0) (Some a) = Some \<lparr>ap_Name = ''shop'', ap_Components = [(''web'',
       sample_component\<lparr>ac_Env := env, ac_Ports := ports, ac_DiskSpace := 0, ac_DistURL := ''docker://index/v1/shop/web:1.0.0''\<rparr>)]\<rparr> \<and>
     map_of ports ''admin'' = Some 8081"
proof -
  let ?d = "\<lparr>dic_Host = ''index'', dic_Port = 5000, dic_Scheme = ''http'', dic_APIVersion = ''v1'', dic_User = [], dic_Pass = []\<rparr>"
  let ?app = "\<lparr>ap_Name = ''shop'', ap_Components = [(''web'', sample_component)]\<rparr>"
  have esc: "url_escape encodePath ''v1'' = ''v1''" by code_simp
  have name: "ac_Name sample_component = ''web''" "ac_Version sample_component = ''1.0.0''"
    and ports: "map_of (ac_Ports sample_component) ''admin'' = Some 8081"
    by (simp_all add: sample_component_def)
  have ok: "\<forall>(_, c) \<in> set (ap_Components ?app). component_ok c" by (simp add: sample_component_ok)
  have cfg: "cfg_DockerIndex (sample_docker_config ?d) = Some ?d" by (simp add: sample_docker_config_def)
  have one: "go_range rev (ap_Components ?app) = [(''web'', sample_component)]" by (simp add: go_range_def)
  show ?thesis
    using manifest_roundtrip [OF cfg ok, of rev rev rev "\<lambda>_. 0" "\<lambda>_. 0"] unfolding one
    by (fastforce simp: list_all2_Cons1 esc name ports component_back_def)
qed

lemma sint_millis:
  assumes "\<bar>sint ms\<bar> \<le> 2 ^ 42"
  shows "sint (millis ms) = sint ms * 1000000"
proof -
  have "signed_take_bit 63 (sint ms * 1000000) = sint ms * 1000000"
    using assms by (intro signed_take_bit_int_eq_self) (simp_all add: abs_le_iff)
  then show ?thesis by (simp add: millis_def sint_word_ariths)
qed

text \<open>The bounds the API puts on a health check.\<close>

lemma ApiHealthCheck_Valid_bounds:
  "ApiHealthCheck_Valid h = [] \<longleftrightarrow>
     sint (jh_Timeout h) \<in> {10 ^ 6..36 * 10 ^ 11} \<and> sint (jh_Rampup h) \<in> {10 ^ 6..36 * 10 ^ 11} \<and>
     sint (jh_Interval h) \<in> {10 ^ 8..3 * 10 ^ 11} \<and> jh_Mode h \<in> {''TCP'', ''HTTP'', ''METRICS''}"
  by (simp add: ApiHealthCheck_Valid_def Millisecond_def Minute_def Hour_def not_less)

text \<open>C22. The durations of the API are nanoseconds, the messages want milliseconds, and the converter stores the former in the latter.
  For every health check the API accepts nothing overflows: the check that is performed
  waits exactly a million times too long, so its first run is never due before a quarter of an hour has passed,
  its period is at least a day, and a timeout of one second becomes more than eleven days.\<close>

theorem accepted_check_runs_a_million_times_too_slow:
  assumes "ApiHealthCheck_Valid h = []" and c: "c = check_New i address (Some (to_HealthCheck h))"
    and first: "first = time_Add now (millis (HealthCheck_GetRampUp (Some (to_HealthCheck h))))"
  shows "sint (check_Timeout c) = 1000000 * sint (jh_Timeout h) \<and>
    sint (check_Interval c) = 1000000 * sint (jh_Interval h) \<and> first = now + 1000000 * sint (jh_Rampup h) \<and>
    first - now \<ge> 15 * Minute \<and> sint (check_Interval c) \<ge> 24 * Hour \<and>
    (sint (jh_Timeout h) = 1000 * Millisecond \<longrightarrow> sint (check_Timeout c) > 11 * 24 * Hour)"
proof -
  have b: "sint (jh_Timeout h) \<in> {10 ^ 6..36 * 10 ^ 11}" "sint (jh_Rampup h) \<in> {10 ^ 6..36 * 10 ^ 11}"
    "sint (jh_Interval h) \<in> {10 ^ 8..3 * 10 ^ 11}"
    using assms(1) unfolding ApiHealthCheck_Valid_bounds by blast+
  have to: "HealthCheck_GetTimeout (Some (to_HealthCheck h)) = jh_Timeout h"
    "HealthCheck_GetRampUp (Some (to_HealthCheck h)) = jh_Rampup h"
    "HealthCheck_GetIntervalMillis (Some (to_HealthCheck h)) = jh_Interval h"
    by (simp_all add: to_HealthCheck_def getter_simps)
  have m: "sint (millis (jh_Timeout h)) = sint (jh_Timeout h) * 1000000"
    "sint (millis (jh_Rampup h)) = sint (jh_Rampup h) * 1000000"
    "sint (millis (jh_Interval h)) = sint (jh_Interval h) * 1000000"
    using b by (auto intro!: sint_millis)
  have "check_Timeout c = millis (jh_Timeout h)" "check_Interval c = millis (jh_Interval h)"
    unfolding c check_New_def
    by (auto simp: newHTTPHealthCheck_def newTCPHealthCheck_def createTCPHealthCheck_def check_Timeout_def
        check_Interval_def to Let_def tcpHealthCheck.defs httpHealthCheck.defs split: HealthCheckMode.split)
  with b m show ?thesis
    by (simp add: first to(2) time_Add_def Minute_def Hour_def Millisecond_def)
qed

theorem accepted_check_runs_a_million_times_too_slow_witness:
  "let h = \<lparr>jh_Mode = ''HTTP'', jh_Rampup = 60000000000, jh_Interval = 5000000000, jh_Timeout = 1000000000,
            jh_Path = ''/health'', jh_Scheme = ''http''\<rparr>
   in sint (check_Timeout (check_New ''t'' ''host:80'' (Some (to_HealthCheck h)))) = 10 ^ 15"
proof -
  let ?h = "\<lparr>jh_Mode = ''HTTP'', jh_Rampup = 60000000000, jh_Interval = 5000000000, jh_Timeout = 1000000000,
            jh_Path = ''/health'', jh_Scheme = ''http''\<rparr>"
  have "ApiHealthCheck_Valid ?h = []" by (simp add: ApiHealthCheck_Valid_bounds)
  from accepted_check_runs_a_million_times_too_slow [OF this refl refl, of "''t''" "''host:80''" 0]
  show ?thesis by (simp add: Let_def)
qed

end
