(* ===== verification/HttpApi.thy ===== *)
theory HttpApi
  imports Scheduler ApiModel
begin

text \<open>
  The HTTP API, \<open>src/agora/api/\<close> (\<open>applications.go\<close>, \<open>common.go\<close>, \<open>mesos.go\<close>), the middlewares in front of it,
  \<open>src/agora/middlewares/\<close>, and the parts of \<open>src/agora/main.go\<close> that compute: the log level and the configuration. A handler is
  given the body or the path parameter it reads and returns what it does to the \<open>ResponseWriter\<close>, a sequence
  of \<open>rw_call\<close>s; \<open>None\<close> is a panic. \<open>encoding/json\<close>, the validation library, the codec and the orders in which Go ranges over maps
  are arguments, kept in one record. The application store a controller is given is the one its task manager owns.
\<close>

section \<open>Answers\<close>

datatype rw_call = SetHeader string string | WriteHeader nat | Write string

text \<open>What the client gets: the status of the first \<open>WriteHeader\<close>, 200 when writing starts without one, and all that is written.\<close>

fun rw_status :: "rw_call list \<Rightarrow> nat" where
  "rw_status [] = 200"
| "rw_status (SetHeader k v # rs) = rw_status rs"
| "rw_status (WriteHeader n # rs) = n"
| "rw_status (Write s # rs) = 200"

fun rw_body :: "rw_call list \<Rightarrow> string" where
  "rw_body [] = []"
| "rw_body (SetHeader k v # rs) = rw_body rs"
| "rw_body (WriteHeader n # rs) = rw_body rs"
| "rw_body (Write s # rs) = s @ rw_body rs"

text \<open>An error printed with \<open>%v\<close>.\<close>

definition error_text :: "goerr \<Rightarrow> string" where
  "error_text e = (case e of ErrNotFound \<Rightarrow> ''not found'' | Err s \<Rightarrow> s)"

definition invalidJSON :: "rw_call list" where
  "invalidJSON = [WriteHeader 400, Write ''{\"message\":\"The json provided in the request is unparseable.\", \"type\": \"error\"}'']"

definition unknownError :: "rw_call list" where
  "unknownError = [WriteHeader 500, Write ''{\"message\":\"Unkown error\", \"type\": \"error\"}'']"

definition unknownErrorWithMessage :: "goerr \<Rightarrow> rw_call list" where
  "unknownErrorWithMessage err =
     [WriteHeader 500, Write (''{\"message\":\"Unkown error: '' @ error_text err @ ''\", \"type\": \"error\"}'')]"

text \<open>\<open>ListAll\<close> and \<open>Delete\<close> write the same message with a comma.\<close>

definition storeError :: "goerr \<Rightarrow> rw_call list" where
  "storeError err =
     [WriteHeader 500, Write (''{\"message\":\"Unkown error, '' @ error_text err @ ''\", \"type\": \"error\"}'')]"

definition notFound :: "string \<Rightarrow> string \<Rightarrow> rw_call list" where
  "notFound n i =
     [WriteHeader 404,
      Write (if i = [] then ''{\"message\":\"Couldn't find '' @ n @ ''.\", \"type\": \"error\"}''
             else ''{\"message\":\"Couldn't find '' @ n @ '' for key '' @ CHR 0x27 # i @ CHR 0x27 # ''.\", \"type\": \"error\"}'')]"

section \<open>The applications controller\<close>

text \<open>
  \<open>ax_valid\<close> is \<open>Validation.Valid\<close>: whether the data is valid, its error, and the fields and messages
  of \<open>Errors\<close>. \<open>ax_decode\<close> decodes a request body into an \<open>App\<close>, \<open>ax_marshal\<close> is \<open>json.Marshal\<close> of one.
\<close>

record 'a api_env =
  ax_kv :: "'a KVStore"
  ax_enc :: "Application marshal"
  ax_dec :: "Application unmarshal"
  ax_decode :: "string \<Rightarrow> App result"
  ax_marshal :: "App \<Rightarrow> string result"
  ax_valid :: "App \<Rightarrow> bool \<times> goerr option \<times> (string \<times> string) list"
  ax_Config :: Config
  ax_cv8 :: "gofloat \<Rightarrow> 8 word"
  ax_cv16 :: "gofloat \<Rightarrow> 16 word"
  ax_comps :: "(string \<times> AppComponent) list \<Rightarrow> (string \<times> AppComponent) list"
  ax_envs :: "(string \<times> string) list \<Rightarrow> (string \<times> string) list"
  ax_ports :: "(string \<times> int64) list \<Rightarrow> (string \<times> int64) list"

text \<open>The loop that follows the decoding assigns each key to the name of a copy of its component.\<close>

definition readAppJSON :: "'a api_env \<Rightarrow> string \<Rightarrow> App result" where
  "readAppJSON env reqBody = ax_decode env reqBody"

fun write_errors :: "bool \<Rightarrow> (string \<times> string) list \<Rightarrow> rw_call list" where
  "write_errors isFirst [] = []"
| "write_errors isFirst ((field, message) # errs) =
     (if isFirst then [] else [Write '','']) @
     Write (''{\"message\":\"'' @ message @ ''\",\"field\":\"'' @ field @ ''\", \"type\": \"error\"}'') # write_errors False errs"

definition validateData :: "'a api_env \<Rightarrow> App \<Rightarrow> rw_call list \<times> bool \<times> goerr option" where
  "validateData env data =
     (case ax_valid env data of
        (b, Some err, _) \<Rightarrow> (unknownErrorWithMessage err, b, Some err)
      | (b, None, errs) \<Rightarrow>
          if errs \<noteq> [] then (WriteHeader 422 # Write ''['' # write_errors True errs, b, None) else ([], True, None))"

definition converted :: "'a api_env \<Rightarrow> Application option \<Rightarrow> App option" where
  "converted env data = FromAppManifest (ax_cv8 env) (ax_cv16 env) data"

text \<open>\<open>json.Encoder\<close> ends what it writes with a newline and writes nothing when it fails.\<close>

fun list_loop :: "'a api_env \<Rightarrow> bool \<Rightarrow> Application option list \<Rightarrow> rw_call list option" where
  "list_loop env isFirst [] = Some []"
| "list_loop env isFirst (v # arr) =
     (case converted env v of
        None \<Rightarrow> None
      | Some app \<Rightarrow>
          map_option (append ((if isFirst then [] else [Write '','']) @
             (case ax_marshal env app of Inl _ \<Rightarrow> [] | Inr d \<Rightarrow> [Write (d @ [CHR 0x0A])])))
            (list_loop env False arr))"

definition ListAll :: "'a api_env \<Rightarrow> 'a DefaultAppStore \<Rightarrow> rw_call list option" where
  "ListAll env st =
     (case DefaultAppStore_ForEach (ax_kv env) (ax_dec env) st of
        (_, Some err) \<Rightarrow> Some (storeError err)
      | (arr, None) \<Rightarrow>
          map_option (\<lambda>rs. [WriteHeader 200, Write ''[''] @ rs @ [Write '']'']) (list_loop env True arr))"

text \<open>An error of \<open>json.Marshal\<close> is ignored; what it returned beside it is nil.\<close>

definition write_app :: "'a api_env \<Rightarrow> nat \<Rightarrow> Application option \<Rightarrow> rw_call list option" where
  "write_app env code data =
     map_option (\<lambda>app. [WriteHeader code, Write (case ax_marshal env app of Inl _ \<Rightarrow> [] | Inr d \<Rightarrow> d)]) (converted env data)"

definition ShowOne :: "'a api_env \<Rightarrow> string \<Rightarrow> 'a DefaultAppStore \<Rightarrow> rw_call list option" where
  "ShowOne env pparam st =
     (case DefaultAppStore_Get (ax_kv env) (ax_dec env) pparam st of
        Inl err \<Rightarrow> Some (unknownErrorWithMessage err)
      | Inr None \<Rightarrow> Some (notFound ''App'' pparam)
      | Inr (Some data) \<Rightarrow> write_app env 200 (Some data))"

definition save_all :: "'a api_env \<Rightarrow> Application list \<Rightarrow> 'a DefaultAppStore \<Rightarrow> 'a DefaultAppStore" where
  "save_all env as st = fold (\<lambda>a s. snd (DefaultAppStore_Save (ax_kv env) (ax_enc env) a s)) as st"

definition Save :: "'a api_env \<Rightarrow> string \<Rightarrow> 'a DefaultAppStore \<Rightarrow> (rw_call list \<times> 'a DefaultAppStore) option" where
  "Save env reqBody st =
     (case readAppJSON env reqBody of
        Inl err \<Rightarrow> Some (invalidJSON, st)
      | Inr app \<Rightarrow>
          (case validateData env app of
             (rs, valid, err) \<Rightarrow>
               if \<not> valid \<or> err \<noteq> None then Some (rs, st)
               else (case ax_marshal env app of
                   Inl err \<Rightarrow> Some (rs @ unknownErrorWithMessage err, st)
                 | Inr data \<Rightarrow>
                     map_option (\<lambda>protoApps. (rs @ [WriteHeader 200, Write data], save_all env protoApps st))
                       (ToAppManifest (ax_comps env) (ax_envs env) (ax_ports env) (ax_Config env) app))))"

definition api_Delete :: "'a api_env \<Rightarrow> string \<Rightarrow> 'a DefaultAppStore \<Rightarrow> rw_call list \<times> 'a DefaultAppStore" where
  "api_Delete env pparam st =
     (case DefaultAppStore_Delete (ax_kv env) pparam st of
        (Some err, st') \<Rightarrow> (storeError err, st')
      | (None, st') \<Rightarrow> ([WriteHeader 204], st'))"

text \<open>\<open>Deploy\<close> submits the stored application; \<open>now\<close> is the time the task manager reads.\<close>

definition Deploy ::
  "'a api_env \<Rightarrow> ('i, 'cur, 'm) fw_env \<Rightarrow> int64 \<Rightarrow> string \<Rightarrow> 'a DefaultAppStore \<Rightarrow> ('i, 'cur, 'm) Framework \<Rightarrow>
     (rw_call list \<times> ('i, 'cur, 'm) Framework) option" where
  "Deploy env fenv now pparam st fw =
     (case DefaultAppStore_Get (ax_kv env) (ax_dec env) pparam st of
        Inl err \<Rightarrow> Some (unknownErrorWithMessage err, fw)
      | Inr None \<Rightarrow> Some (notFound ''App'' pparam, fw)
      | Inr (Some data) \<Rightarrow>
          (case Framework_SubmitApp fenv [(data, now)] fw of
             None \<Rightarrow> None
           | Some (_, fw') \<Rightarrow> map_option (\<lambda>rs. (rs, fw')) (write_app env 202 (Some data))))"

section \<open>The mesos controller\<close>

text \<open>\<open>json.Encoder\<close> on the id, whose field is omitted when it is empty; \<open>quote\<close> writes a JSON string.\<close>

definition ShowFrameworkID ::
  "(string \<Rightarrow> string) \<Rightarrow> ('i, 'cur, 'm) fw_env \<Rightarrow> ('i, 'cur, 'm) Framework \<Rightarrow> rw_call list \<times> ('i, 'cur, 'm) Framework" where
  "ShowFrameworkID quote fenv fw =
     (let (i, fw') = Framework_ID fenv fw
      in ([Write (''{'' @ (if i = [] then [] else ''\"frameworkId\":'' @ quote i) @ ''}'' @ [CHR 0x0A])], fw'))"

section \<open>Middlewares\<close>

definition HasPrefix :: "string \<Rightarrow> string \<Rightarrow> bool" where
  "HasPrefix s p \<longleftrightarrow> take (length p) s = p"

fun str_contains :: "string \<Rightarrow> string \<Rightarrow> bool" where
  "str_contains [] p \<longleftrightarrow> p = []"
| "str_contains (c # s) p \<longleftrightarrow> HasPrefix (c # s) p \<or> str_contains s p"

definition TrimPrefix :: "string \<Rightarrow> string \<Rightarrow> string" where
  "TrimPrefix s p = (if HasPrefix s p then drop (length p) s else s)"

text \<open>What a handler reads of a request, and the time at which it is served.\<close>

record request =
  rq_Method :: string
  rq_Path :: string
  rq_ContentType :: string
  rq_Accept :: string
  rq_Body :: string
  rq_Now :: int64

type_synonym 'st handler = "request \<Rightarrow> 'st \<Rightarrow> (rw_call list \<times> 'st) option"

definition JSONContentType :: string where
  "JSONContentType = ''application/json;charset=utf-8''"

definition JSONOnlyAPI_ServeHTTP :: "'st handler \<Rightarrow> 'st handler" where
  "JSONOnlyAPI_ServeHTTP next_handler r st =
     (if \<not> HasPrefix (rq_Path r) ''/api'' \<or> HasPrefix (rq_ContentType r) ''application/json'' \<or>
         str_contains (rq_Accept r) ''*'' \<or> str_contains (rq_Accept r) ''application/json''
      then map_option (\<lambda>(rs, st'). ((if HasPrefix (rq_Path r) ''/api'' then [SetHeader ''Content-Type'' JSONContentType] else []) @ rs, st'))
             (next_handler r st)
      else Some ([SetHeader ''Content-Type'' JSONContentType, WriteHeader 415,
            Write ''{\"message\":\"Only application/json content types are allowed to this service.\"}''], st))"

definition EventSource_ServeHTTP :: "'st handler \<Rightarrow> 'st handler \<Rightarrow> 'st handler" where
  "EventSource_ServeHTTP eventSource next_handler r st =
     (if HasPrefix (rq_Path r) ''/api/events'' then eventSource r st else next_handler r st)"

text \<open>The copy of the request that is proxied shares its URL, so the path of the request itself changes too: it is returned.\<close>

definition ProxyHost_ServeHTTP ::
  "string \<Rightarrow> 'st handler \<Rightarrow> 'st handler \<Rightarrow> request \<Rightarrow> 'st \<Rightarrow> (rw_call list \<times> 'st) option \<times> request" where
  "ProxyHost_ServeHTTP basePath proxy next_handler r st =
     (if HasPrefix (rq_Path r) basePath
      then let r' = r\<lparr>rq_Path := TrimPrefix (rq_Path r) basePath\<rparr> in (proxy r' st, r')
      else (next_handler r st, r))"

section \<open>Setting up the process\<close>

datatype Level = CRITICAL | ERROR | WARNING | NOTICE | INFO | DEBUG

definition logLevel :: "string \<Rightarrow> Level" where
  "logLevel n =
     (let u = ToUpper n
      in if u = ''INFO'' then INFO else if u = ''NOTICE'' then NOTICE else if u = ''WARN'' then WARNING
         else if u = ''WARNING'' then WARNING else if u = ''ERROR'' then ERROR else if u = ''CRITICAL'' then CRITICAL else DEBUG)"

text \<open>What \<open>setupLogging\<close> does to the logging library and to files, in order; \<open>None\<close> ends the process.\<close>

datatype log_action = SetFormatter string | SetLevel Level | SetBackend "string list" | MkdirAll string | OpenFile string | CloseFile string

definition default_logging :: LoggingConfig where
  "default_logging = \<lparr>lc_Level = ''DEBUG'', lc_Colorize = True, lc_Pattern = ''%{level} %{message}'', lc_LogDirectory = ''./logs''\<rparr>"

definition setupLogging :: "(string \<Rightarrow> bool) \<Rightarrow> string \<Rightarrow> LoggingConfig option \<Rightarrow> log_action list option" where
  "setupLogging opens mode cfg =
     (let lc = (case cfg of None \<Rightarrow> default_logging | Some c \<Rightarrow> c);
          base = [SetFormatter (lc_Pattern lc), SetBackend [''stderr''], SetLevel (logLevel (lc_Level lc))];
          logPath = lc_LogDirectory lc @ ''/agora.log''
      in if HasPrefix mode ''prod'' \<and> lc_LogDirectory lc \<noteq> []
         then (if opens logPath
               then Some (base @ [MkdirAll (lc_LogDirectory lc), OpenFile logPath, SetBackend [''stderr'', logPath], CloseFile logPath])
               else None)
         else Some base)"

text \<open>\<open>strconv.Atoi\<close>: an optional sign and at least one digit, in the range of \<open>int\<close>.\<close>

definition is_digit :: "char \<Rightarrow> bool" where
  "is_digit c \<longleftrightarrow> 48 \<le> (of_char c :: nat) \<and> (of_char c :: nat) \<le> 57"

definition strconv_Atoi :: "string \<Rightarrow> int64 option" where
  "strconv_Atoi s =
     (let neg = (s \<noteq> [] \<and> hd s = CHR ''-''); ds = (if s \<noteq> [] \<and> (hd s = CHR ''-'' \<or> hd s = CHR ''+'') then tl s else s);
          n = (if neg then - int (digits_val ds) else int (digits_val ds))
      in if ds \<noteq> [] \<and> list_all is_digit ds \<and> - (2 ^ 63) \<le> n \<and> n < 2 ^ 63 then Some (word_of_int n) else None)"

text \<open>
  \<open>readConfig\<close>: \<open>parsed\<close> is what the command line gives, \<open>getenv\<close> reads the environment, \<open>read_json\<close> is what the file at a path decodes to,
  if it can be opened, and \<open>merge\<close> is \<open>mergo.Merge\<close>. \<open>None\<close> ends the process.
\<close>

definition readConfig ::
  "Config option \<Rightarrow> (string \<Rightarrow> string) \<Rightarrow> (string \<Rightarrow> Config option) \<Rightarrow> (Config \<Rightarrow> Config \<Rightarrow> Config) \<Rightarrow> Config option" where
  "readConfig parsed getenv read_json merge =
     (case parsed of
        None \<Rightarrow> None
      | Some cfg \<Rightarrow>
          let cfgPath = (if getenv ''CONFIG_FILE'' = []
                then (if cfg_ConfigDirectory cfg = [] then ''./etc'' else cfg_ConfigDirectory cfg) @ ''/application.json''
                else getenv ''CONFIG_FILE'')
          in (case read_json cfgPath of
                None \<Rightarrow> None
              | Some jcfg \<Rightarrow>
                  let cfg' = merge cfg jcfg; envPort = getenv ''PORT''
                  in if envPort \<noteq> []
                     then (case strconv_Atoi envPort of None \<Rightarrow> None | Some p \<Rightarrow> Some (cfg'\<lparr>cfg_Port := p\<rparr>))
                     else Some cfg'))"

end
