(* ===== verification/SchedulerFacts.thy ===== *)
theory SchedulerFacts
  imports Scheduler
begin

text \<open>
  The properties of the framework of \<open>Scheduler\<close>. What holds for every task manager is proved in the
  locale \<open>task_manager\<close> and reaches the program through its interpretation \<open>dtm\<close>; the framework id is
  used through the locale \<open>framework_id\<close> and its interpretation \<open>zk\<close>.
\<close>

lemma drive_simps [simp]:
  "fst (drive env c fw) = fe_drv env (fw_calls fw) c"
  "snd (drive env c fw) = fw\<lparr>fw_calls := fw_calls fw @ [c]\<rparr>"
  by (simp_all add: drive_def)

section \<open>Offers\<close>

text \<open>How one offer was answered: \<open>r\<close> are the deployments known before, \<open>r'\<close> those known afterwards.\<close>

definition task_key :: "Offer \<times> string \<times> int64 \<Rightarrow> string" where
  "task_key x = ''exeggutor-task-'' @ fst (snd x)"

definition answers :: "deployments \<Rightarrow> deployments \<Rightarrow> Offer \<times> string \<times> int64 \<Rightarrow> driver_call \<Rightarrow> bool" where
  "answers r r' x c \<longleftrightarrow>
     c = DeclineOffer (off_Id (fst x)) \<and> r' (task_key x) = r (task_key x) \<or>
     (\<exists>t d. c = LaunchTasks (off_Id (fst x)) [t] \<and> ti_TaskId t = Some \<lparr>tid_Value = Some (task_key x)\<rparr> \<and>
            ti_SlaveId t = off_SlaveId (fst x) \<and> r' (task_key x) = Some d \<and> dep_TaskId d = ti_TaskId t \<and>
            dep_Slave d = off_SlaveId (fst x) \<and> dep_Status d = Some AppStatus_DEPLOYING)"

lemma answers_cong:
  "answers r r' x c \<Longrightarrow> s (task_key x) = r (task_key x) \<Longrightarrow> s' (task_key x) = r' (task_key x) \<Longrightarrow> answers s s' x c"
  by (simp add: answers_def)

context task_manager
begin

lemma answer_offer_answers:
  assumes "fe_tm env = tmi" and "fw_taskManager fw = Some m" and "inv m"
    and "answer_offer env x fw = Some fw'"
  shows "\<exists>m' c. fw_taskManager fw' = Some m' \<and> inv m' \<and> fw_calls fw' = fw_calls fw @ [c] \<and>
     answers (recorded m) (recorded m') x c \<and> (\<forall>k. k \<noteq> task_key x \<longrightarrow> recorded m' k = recorded m k)"
proof -
  obtain offer i nowMillis where x: "x = (offer, i, nowMillis)" by (cases x)
  obtain ts m' where f: "tmi_FulfillOffer tmi i nowMillis offer m = Some (ts, m')"
    "fw' = snd (drive env (if length ts = 0 then DeclineOffer (off_Id offer) else LaunchTasks (off_Id offer) ts)
                  (fw\<lparr>fw_taskManager := Some m'\<rparr>))"
    using assms by (auto simp: answer_offer_def x split: option.splits)
  from Fulfill [OF assms(3) f(1)] f(2) show ?thesis
    by (auto simp: launched_def answers_def task_key_def x)
qed

lemma ResourceOffers_answers:
  assumes "fe_tm env = tmi"
  shows "fw_taskManager fw = Some m \<Longrightarrow> inv m \<Longrightarrow> distinct (map task_key offers) \<Longrightarrow>
    ResourceOffers env offers fw = Some fw' \<Longrightarrow>
    \<exists>m' cs. fw_taskManager fw' = Some m' \<and> inv m' \<and> fw_calls fw' = fw_calls fw @ cs \<and>
      list_all2 (answers (recorded m) (recorded m')) offers cs \<and>
      (\<forall>k. k \<notin> task_key ` set offers \<longrightarrow> recorded m' k = recorded m k)"
proof (induction offers arbitrary: fw m)
  case Nil
  then show ?case by auto
next
  case (Cons x offers)
  obtain fw1 where fw1: "answer_offer env x fw = Some fw1" "ResourceOffers env offers fw1 = Some fw'"
    using Cons.prems(4) by (auto split: option.splits)
  obtain m1 c where m1: "fw_taskManager fw1 = Some m1" "inv m1" "fw_calls fw1 = fw_calls fw @ [c]"
    "answers (recorded m) (recorded m1) x c" "\<forall>k. k \<noteq> task_key x \<longrightarrow> recorded m1 k = recorded m k"
    using answer_offer_answers [OF assms Cons.prems(1,2) fw1(1)] by blast
  obtain m' cs where m': "fw_taskManager fw' = Some m'" "inv m'" "fw_calls fw' = fw_calls fw1 @ cs"
    "list_all2 (answers (recorded m1) (recorded m')) offers cs"
    "\<forall>k. k \<notin> task_key ` set offers \<longrightarrow> recorded m' k = recorded m1 k"
    using Cons.IH [OF m1(1,2) _ fw1(2)] Cons.prems(3) by auto
  have fresh: "task_key x \<notin> task_key ` set offers" using Cons.prems(3) by auto
  have "answers (recorded m) (recorded m') x c"
    using m1(4) m'(5) fresh by (auto intro: answers_cong)
  moreover have "list_all2 (answers (recorded m) (recorded m')) offers cs"
    using m'(4)
  proof (rule list.rel_mono_strong)
    fix y c' assume y: "y \<in> set offers" "answers (recorded m1) (recorded m') y c'"
    from y(1) have "task_key y \<in> task_key ` set offers" by (rule imageI)
    with fresh have "task_key y \<noteq> task_key x" by metis
    with m1(5) y(2) show "answers (recorded m) (recorded m') y c'" by (auto intro: answers_cong)
  qed
  ultimately show ?case using m'(1,2,3,5) m1(3,5) by (intro exI [of _ m'] exI [of _ "c # cs"]) auto
qed

end

text \<open>With the program's SLA monitor nothing is launched, see \<open>FulfillOffer_simple_monitor\<close>.\<close>

lemma ResourceOffers_declined:
  assumes "\<And>i nowMillis offer m. tmi_FulfillOffer (fe_tm env) i nowMillis offer m = Some ([], m)"
  shows "ResourceOffers env offers fw =
    Some (fw\<lparr>fw_calls := fw_calls fw @ map (\<lambda>x. DeclineOffer (off_Id (fst x))) offers\<rparr>)"
proof (induction offers arbitrary: fw)
  case (Cons x offers)
  have "answer_offer env x fw = Some (fw\<lparr>fw_calls := fw_calls fw @ [DeclineOffer (off_Id (fst x))]\<rparr>)"
  proof (cases "fw_taskManager fw")
    case (Some m)
    then have "fw\<lparr>fw_taskManager := Some m\<rparr> = fw" by simp
    with Some show ?thesis by (simp add: answer_offer_def assms case_prod_unfold)
  qed (simp add: answer_offer_def case_prod_unfold)
  with Cons show ?case by simp
qed simp

section \<open>Killing\<close>

lemma killComponent_loop_calls:
  "fw_calls (snd (killComponent_loop env ids err fw)) = fw_calls fw @ map KillTask ids \<and>
   fw_taskManager (snd (killComponent_loop env ids err fw)) = fw_taskManager fw"
  by (induction ids arbitrary: err fw) (simp_all add: case_prod_unfold)

context task_manager
begin

text \<open>\<open>KillApp\<close> marks every task it finds as STOPPING and asks Mesos to kill it, in order.\<close>

lemma killApp_loop_kills:
  assumes "fe_tm env = tmi"
  shows "fw_taskManager fw = Some m \<Longrightarrow> inv m \<Longrightarrow>
    (\<And>t. t \<in> set ids \<Longrightarrow> \<exists>d. recorded m (TaskID_GetValue t) = Some d) \<Longrightarrow>
    (\<And>t d. t \<in> set ids \<Longrightarrow> recorded m (TaskID_GetValue t) = Some d \<Longrightarrow>
       encodes (d\<lparr>dep_Status := Some AppStatus_STOPPING\<rparr>)) \<Longrightarrow>
    killApp_loop env clock ids err fw = Some (err', fw') \<Longrightarrow>
    \<exists>m'. fw_taskManager fw' = Some m' \<and> inv m' \<and> fw_calls fw' = fw_calls fw @ map KillTask ids \<and>
      (\<forall>k. recorded m' k = (if k \<in> TaskID_GetValue ` set ids
             then map_option (\<lambda>d. d\<lparr>dep_Status := Some AppStatus_STOPPING\<rparr>) (recorded m k) else recorded m k))"
proof (induction ids arbitrary: fw m err clock)
  case Nil
  then show ?case by auto
next
  case (Cons t ids)
  let ?k = "TaskID_GetValue t"
  obtain m1 where m1: "tmi_TaskStopping tmi (fst (clock 0)) (snd (clock 0)) t m = Some m1"
    using Cons.prems(1,5) assms by (auto split: option.splits)
  define fw1 where "fw1 = fw\<lparr>fw_taskManager := Some m1, fw_calls := fw_calls fw @ [KillTask t]\<rparr>"
  obtain err1 where loop: "killApp_loop env (\<lambda>n. clock (Suc n)) ids err1 fw1 = Some (err', fw')"
    using Cons.prems(1,5) m1 assms by (auto simp: case_prod_unfold fw1_def)
  obtain d where d: "recorded m ?k = Some d" using Cons.prems(3) by auto
  have "encodes (d\<lparr>dep_Status := Some AppStatus_STOPPING\<rparr>)" using Cons.prems(4) [OF _ d] by simp
  then have r: "inv m1" "recorded m1 = (recorded m)(?k \<mapsto> d\<lparr>dep_Status := Some AppStatus_STOPPING\<rparr>)"
    using Stopping [of "fst (clock 0)" "snd (clock 0)"] Cons.prems(2) m1 d unfolding records_status_def by blast+
  have known: "\<exists>d. recorded m1 (TaskID_GetValue t') = Some d" if "t' \<in> set ids" for t'
    using Cons.prems(3) [of t'] that by (auto simp: r(2))
  have enc: "encodes (d'\<lparr>dep_Status := Some AppStatus_STOPPING\<rparr>)"
    if "t' \<in> set ids" "recorded m1 (TaskID_GetValue t') = Some d'" for t' d'
  proof (cases "TaskID_GetValue t' = ?k")
    case True
    then have "d' = d\<lparr>dep_Status := Some AppStatus_STOPPING\<rparr>" using that(2) by (simp add: r(2))
    then show ?thesis using Cons.prems(4) [OF _ d] by simp
  next
    case False
    then show ?thesis using Cons.prems(4) [of t' d'] that by (simp add: r(2))
  qed
  have tm1: "fw_taskManager fw1 = Some m1" by (simp add: fw1_def)
  obtain m' where m': "fw_taskManager fw' = Some m'" "inv m'" "fw_calls fw' = fw_calls fw1 @ map KillTask ids"
    "\<forall>k. recorded m' k = (if k \<in> TaskID_GetValue ` set ids
             then map_option (\<lambda>d. d\<lparr>dep_Status := Some AppStatus_STOPPING\<rparr>) (recorded m1 k) else recorded m1 k)"
    using Cons.IH [OF tm1 r(1) _ _ loop] known enc by blast
  have "recorded m' k = (if k \<in> TaskID_GetValue ` set (t # ids)
      then map_option (\<lambda>d. d\<lparr>dep_Status := Some AppStatus_STOPPING\<rparr>) (recorded m k) else recorded m k)" for k
    using m'(4) d by (auto simp: r(2))
  with m'(1-3) show ?case by (simp add: fw1_def)
qed

end

text \<open>What \<open>FindTasksForApp\<close> collects.\<close>

lemma FindTasksForApp_eq:
  "FindTasksForApp env name tm =
     (map Deployment_GetTaskId (filter (\<lambda>item. app_of_item env tm item \<noteq> None \<and>
        Application_GetAppName (app_of_item env tm item) = name) (fst (DefaultTaskStore_ForEach (e_kv env) (e_dec env) (tm_tasks tm)))), None)"
  by (simp add: FindTasksForApp_def case_prod_unfold fold_append_filter Let_def)

text \<open>No application of that name, no task.\<close>

definition app_named :: "('s, 'a) tm_env \<Rightarrow> ('s, 'a) task_manager \<Rightarrow> string \<Rightarrow> bool" where
  "app_named env tm name \<longleftrightarrow>
     (\<exists>k app. DefaultAppStore_Get (e_akv env) (e_adec env) k (tm_apps tm) = Inr (Some app) \<and>
             Application_GetAppName (Some app) = name)"

lemma FindTasksForApp_unnamed: "\<not> app_named env tm name \<Longrightarrow> FindTasksForApp env name tm = ([], None)"
  by (auto simp: FindTasksForApp_eq app_named_def app_of_item_def filter_empty_conv split: sum.splits)

lemma kill_listed_task_unnamed:
  assumes "fe_tm fenv = DefaultTaskManager_methods env" and "fw_taskManager fw = Some tm"
    and "\<not> app_named env tm (TaskID_GetValue (Some t))"
  shows "kill_listed_task fenv clock (Some t) fw = Some fw"
  using assms(1,2) FindTasksForApp_unnamed [OF assms(3)]
  by (simp add: kill_listed_task_def KillApp_def DefaultTaskManager_methods_def)

section \<open>The framework's id\<close>

context framework_id
begin

text \<open>Once Mesos has registered the framework, \<open>ID\<close> answers the id it was given.\<close>

lemma ID_after_Registered:
  assumes "fe_fis env = fis" and "fw_id fw = Some i" and "accepts m"
  shows "\<exists>fw'. Registered env m fw = Some fw' \<and> fst (Framework_ID env fw') = FrameworkID_GetValue (Some m)"
proof -
  let ?i = "fis_Set fis (Some m) i"
  have k: "known ?i = Some m" using assms(3) by (rule Set_accepted)
  then have g: "fst (fis_Get fis ?i) = Some m" "fst (fis_Get fis (snd (fis_Get fis ?i))) = Some m"
    by (simp_all add: Get_known Get_keeps)
  then show ?thesis
    by (auto simp: Registered_def assms(1,2) Framework_ID_def case_prod_unfold)
qed

end

text \<open>With the id kept in ZooKeeper.\<close>

lemma Zookeeper_ID_after_Registered:
  "fw_id fw = Some i \<Longrightarrow> encodable_id enc m \<Longrightarrow>
     \<exists>fw'. Registered (env\<lparr>fe_fis := Zookeeper_fis nc enc dec\<rparr>) m fw = Some fw' \<and>
          fst (Framework_ID (env\<lparr>fe_fis := Zookeeper_fis nc enc dec\<rparr>) fw') = FrameworkID_GetValue (Some m)"
  by (rule zk.ID_after_Registered) simp_all

section \<open>Sample states\<close>

definition sample_fis :: "unit FrameworkIDState" where
  "sample_fis = \<lparr>fis_Path = (\<lambda>_. ''/id''), fis_Get = (\<lambda>i. (None, i)), fis_Set = (\<lambda>_ i. i),
     fis_Start = (\<lambda>_ i. (None, i)), fis_Stop = (\<lambda>i. (None, i))\<rparr>"

definition sample_fw_env :: "Deployment list \<Rightarrow> (unit, unit, (InMemoryStore, InMemoryStore) task_manager) fw_env" where
  "sample_fw_env ds = \<lparr>fe_tm = DefaultTaskManager_methods (sample_env ds), fe_fis = sample_fis, fe_drv = (\<lambda>_ _. None),
     fe_newCurator = (\<lambda>_. Inr ()), fe_rootNode = (\<lambda>_. []), fe_newFwID = (\<lambda>_ _. ())\<rparr>"

definition sample_config :: Config where
  "sample_config = \<lparr>cfg_ZookeeperURL = ''zk://localhost:2181/agora'', cfg_MesosMaster = ''zk://localhost:2181/mesos'',
     cfg_DataDirectory = ''./data'', cfg_StaticFiles = ''./static/build'', cfg_WorkDirectory = ''/tmp/agora'',
     cfg_ConfigDirectory = ''./etc'', cfg_Port = 8000, cfg_Interface = ''0.0.0.0'', cfg_Mode = ''development'',
     cfg_FrameworkInfo = Some \<lparr>fc_User = ''agora'', fc_Name = ''Agora'', fc_HealthCheckConcurrency = 5\<rparr>,
     cfg_DockerIndex = Some \<lparr>dic_Host = ''index.local'', dic_Port = 5000, dic_Scheme = ''http'', dic_APIVersion = ''v1'',
       dic_User = [], dic_Pass = []\<rparr>, cfg_Logging = None\<rparr>"

definition sample_fw :: "'m \<Rightarrow> (unit, unit, 'm) Framework" where
  "sample_fw m = NewFramework sample_config m"

lemma sample_env_kv: "sample_env ds\<lparr>e_kv := InMemoryStore_kv id\<rparr> = sample_env ds"
  by (simp add: sample_env_def)

lemma sample_fw_env_tm:
  "sample_fw_env ds\<lparr>fe_tm := DefaultTaskManager_methods (sample_env ds\<lparr>e_kv := InMemoryStore_kv id\<rparr>)\<rparr> = sample_fw_env ds"
  by (simp add: sample_env_kv) (simp add: sample_fw_env_def)

lemma FulfillOffer_empty_queue:
  "mon_CanDeploy (e_sla env) None tm \<Longrightarrow> slots (tm_queue tm) = [] \<Longrightarrow> \<exists>tm'. FulfillOffer env i now offer tm = Some ([], tm')"
  by (simp add: FulfillOffer_def take_fitting_def deref_app_def ScheduledApp_GetApp_def DequeueFirst_def)

lemma sample_recorded:
  "tm_recorded (sample_env (d # ds)) (sample_tm q) = [''task-1'' \<mapsto> d]"
  "TaskID_GetValue (dep_TaskId d) = ''task-1'' \<Longrightarrow> length ds < 256 \<Longrightarrow> tm_keyed (sample_env (d # ds)) (sample_tm q)"
proof -
  show rec: "tm_recorded (sample_env (d # ds)) (sample_tm q) = [''task-1'' \<mapsto> d]"
    by (rule ext) (simp add: tm_recorded_def sample_env_simps sample_tm_simps one_task_def TaskStore_NewWithStore_def
        NewInMemoryStore_def ims_abs_def decoded_def)
  show "TaskID_GetValue (dep_TaskId d) = ''task-1'' \<Longrightarrow> length ds < 256 \<Longrightarrow> tm_keyed (sample_env (d # ds)) (sample_tm q)"
    unfolding tm_keyed_def rec by (simp add: sample_tm_simps one_task_wf sample_env_simps table_codec_ok)
qed

section \<open>Properties\<close>

text \<open>C12. As the program is put together, with its own SLA monitor, the framework declines every offer Mesos makes:
  no task is ever launched, whatever is queued, and the task manager is left as it was.\<close>

theorem ResourceOffers_decline_everything:
  "ResourceOffers (env\<lparr>fe_tm := DefaultTaskManager_methods (tenv\<lparr>e_sla := simple_monitor kv dec\<rparr>)\<rparr>) offers fw =
     Some (fw\<lparr>fw_calls := fw_calls fw @ map (\<lambda>(offer, _, _). DeclineOffer (off_Id offer)) offers\<rparr>)"
  by (subst ResourceOffers_declined)
     (simp_all add: DefaultTaskManager_methods_def FulfillOffer_never_launches case_prod_unfold)

text \<open>C10. Unless fulfilling one of them panics, every offer is answered exactly once and in order: it is declined and
  no deployment is recorded for it, or one task is launched on it, which the task manager then knows as DEPLOYING on
  the offer's slave. Deployments of other tasks are not touched.\<close>

theorem every_offer_is_answered:
  assumes "fw_taskManager fw = Some tm" and "tm_keyed tenv tm" and "distinct (map task_key offers)"
    and "ResourceOffers (env\<lparr>fe_tm := DefaultTaskManager_methods (tenv\<lparr>e_kv := InMemoryStore_kv it\<rparr>)\<rparr>) offers fw = Some fw'"
  shows "\<exists>tm' cs. fw_taskManager fw' = Some tm' \<and> tm_keyed tenv tm' \<and> fw_calls fw' = fw_calls fw @ cs \<and>
    list_all2 (answers (tm_recorded tenv tm) (tm_recorded tenv tm')) offers cs \<and>
    (\<forall>k. k \<notin> task_key ` set offers \<longrightarrow> tm_recorded tenv tm' k = tm_recorded tenv tm k)"
  by (rule dtm.ResourceOffers_answers [OF _ assms]) simp

theorem every_offer_is_answered_witness:
  "\<exists>d t tm' fw'. ResourceOffers (sample_fw_env [d]) [(sample_offer 31000 32000, ''7'', 5), (sample_offer 31000 32000, ''8'', 6)]
        (sample_fw (sample_tm docker_queue\<lparr>tm_tasks := empty_tasks\<rparr>)) = Some fw' \<and>
     fw_calls fw' = [LaunchTasks (Some \<lparr>oid_Value = Some ''offer-1''\<rparr>) [t], DeclineOffer (Some \<lparr>oid_Value = Some ''offer-1''\<rparr>)] \<and>
     fw_taskManager fw' = Some tm' \<and> tm_recorded (sample_env [d]) tm' ''exeggutor-task-7'' \<noteq> None"
proof -
  let ?o = "sample_offer 31000 32000" and ?tm = "sample_tm docker_queue\<lparr>tm_tasks := empty_tasks\<rparr>"
  obtain task pm d where s: "BuildTaskInfo (e_getPorts (sample_env [d])) (e_scalar (sample_env [d])) ''7'' ?o
       (deref_app docker_queue (sa_App (sas docker_queue 0))) (sas docker_queue 0) = Some (task, pm)"
    and d: "d = \<lparr>dep_AppId = Some (ScheduledApp_GetAppId (Some (sas docker_queue 0))),
      dep_TaskId = Some \<lparr>tid_Value = Some (''exeggutor-task-'' @ ''7'')\<rparr>,
      dep_Status = Some AppStatus_DEPLOYING, dep_DeployedAt = Some 5,
      dep_Slave = off_SlaveId ?o, dep_HostName = off_Hostname ?o, dep_PortMapping = pm\<rparr>"
    and h: "codec_ok (e_enc (sample_env [d])) (e_dec (sample_env [d]))"
      "List.find (\<lambda>i. fitsInOffer ?o (deref_app docker_queue (sa_App (sas docker_queue i)))) (slots docker_queue) = Some 0"
    by (rule docker_launch_setup)
  let ?e = "sample_env [d]" and ?fw = "sample_fw ?tm"
  have can: "mon_CanDeploy (e_sla ?e) None t" for t by (simp add: sample_env_simps iface_simps)
  have wf: "tm_wf ?tm" using sample_tm_wf(1) by (simp add: tm_wf_def)
  have q: "docker_queue = tm_queue ?tm" by (simp add: sample_tm_simps)
  have ims: "ims_wf (dts_store (tm_tasks ?tm))" by (simp add: empty_tasks_wf)
  obtain tm1 where tm1: "FulfillOffer ?e ''7'' 5 ?o ?tm = Some ([task], tm1)" "slots (tm_queue tm1) = []"
    using FulfillOffer_ok [OF can wf sample_env_simps(1) ims h(1) q h(2) s d]
    by (auto simp: table_enc_single sample_env_simps docker_queue_def)
  obtain tm2 where tm2: "FulfillOffer ?e ''8'' 6 ?o tm1 = Some ([], tm2)"
    using FulfillOffer_empty_queue [OF can tm1(2)] by blast
  have oid: "off_Id ?o = Some \<lparr>oid_Value = Some ''offer-1''\<rparr>" by (simp add: sample_offer_def)
  obtain fw' where fw': "ResourceOffers (sample_fw_env [d]) [(?o, ''7'', 5), (?o, ''8'', 6)] ?fw = Some fw'"
    "fw_calls fw' = [LaunchTasks (Some \<lparr>oid_Value = Some ''offer-1''\<rparr>) [task], DeclineOffer (Some \<lparr>oid_Value = Some ''offer-1''\<rparr>)]"
    using tm1(1) tm2 by (simp add: answer_offer_def sample_fw_env_def DefaultTaskManager_methods_def sample_fw_def NewFramework_def oid)
  have keyed: "tm_keyed ?e ?tm"
    using ims h(1) by (simp add: tm_keyed_def tm_recorded_def decoded_def empty_tasks_def
        TaskStore_NewWithStore_def NewEmptyInMemoryStore_def ims_abs_def)
  have tm: "fw_taskManager ?fw = Some ?tm" by (simp add: sample_fw_def NewFramework_def)
  have ids: "distinct (map task_key [(?o, ''7'', 5), (?o, ''8'', 6 :: int64)])" by (simp add: task_key_def)
  have run: "ResourceOffers (sample_fw_env [d]\<lparr>fe_tm := DefaultTaskManager_methods (sample_env [d]\<lparr>e_kv := InMemoryStore_kv id\<rparr>)\<rparr>)
      [(?o, ''7'', 5), (?o, ''8'', 6)] ?fw = Some fw'" unfolding sample_fw_env_tm by (rule fw'(1))
  have calls: "fw_calls ?fw = []" by (simp add: sample_fw_def NewFramework_def)
  obtain tm' cs where t: "fw_taskManager fw' = Some tm'" "fw_calls fw' = fw_calls ?fw @ cs"
    "list_all2 (answers (tm_recorded ?e ?tm) (tm_recorded ?e tm')) [(?o, ''7'', 5), (?o, ''8'', 6)] cs"
    using every_offer_is_answered [OF tm keyed ids run] by blast
  have cs: "cs = [LaunchTasks (Some \<lparr>oid_Value = Some ''offer-1''\<rparr>) [task], DeclineOffer (Some \<lparr>oid_Value = Some ''offer-1''\<rparr>)]"
    using t(2) fw'(2) by (simp add: calls)
  from t(3) have "tm_recorded ?e tm' ''exeggutor-task-7'' \<noteq> None"
    unfolding cs by (auto simp: answers_def task_key_def)
  with fw' t(1) show ?thesis by blast
qed

text \<open>The status a Mesos state stands for, none for those the framework forgets the task on.\<close>

fun status_of :: "TaskState \<Rightarrow> AppStatus option" where
  "status_of TASK_RUNNING = Some AppStatus_STARTED"
| "status_of TASK_FINISHED = Some AppStatus_STOPPED"
| "status_of TASK_KILLED = Some AppStatus_STOPPED"
| "status_of TASK_FAILED = Some AppStatus_FAILED"
| "status_of TASK_LOST = Some AppStatus_FAILED"
| "status_of TASK_STAGING = None"
| "status_of TASK_STARTING = None"

lemma StatusUpdate_records:
  assumes "tm_wf tm" and "tm_room tenv tm" and "fw_taskManager fw = Some tm"
    and tm: "fe_tm env = DefaultTaskManager_methods tenv"
    and kv: "e_kv tenv = InMemoryStore_kv it" "tm_keyed tenv tm"
    and k: "k = TaskID_GetValue (tst_TaskId status)" and d: "tm_recorded tenv tm k = Some d"
    and enc: "\<forall>s. status_of (tst_State status) = Some s \<longrightarrow> tm_encodes tenv (d\<lparr>dep_Status := Some s\<rparr>)"
  shows "\<exists>fw' tm'. StatusUpdate env now later status fw = Some fw' \<and> fw_taskManager fw' = Some tm' \<and> tm_keyed tenv tm' \<and>
    tm_recorded tenv tm' = (tm_recorded tenv tm)(k := map_option (\<lambda>s. d\<lparr>dep_Status := Some s\<rparr>) (status_of (tst_State status))) \<and>
    fw_calls fw' = fw_calls fw @ (if status_of (tst_State status) = None then [KillTask (tst_TaskId status)] else [])"
proof -
  let ?t = "tst_TaskId status"
  have ims: "ims_wf (dts_store (tm_tasks tm))" "codec_ok (e_enc tenv) (e_dec tenv)"
    "TaskID_GetValue (dep_TaskId d) = TaskID_GetValue ?t" using kv(2) d k by (simp_all add: tm_keyed_def)
  have get: "DefaultTaskStore_Get (e_kv tenv) (e_dec tenv) (TaskID_GetValue ?t) (tm_tasks tm) = Inr (Some d)"
    using recorded_Get [OF d, of it] by (simp add: kv(1) k)
  obtain tmf where f: "forgetTask tenv ?t tm = Some tmf" using forgetTask_ok [OF kv(1) ims(1)] by blast
  have forgot: "tm_keyed tenv tmf" "tm_recorded tenv tmf = (tm_recorded tenv tm)(k := None)"
    using forgetTask_forgets [OF kv(1)] kv(2) f unfolding forgets_def k by blast+
  have upd: "\<exists>tm'. map_option snd (updateStatus tenv now later ?t s tm) = Some tm' \<and> tm_keyed tenv tm' \<and>
      tm_recorded tenv tm' = (tm_recorded tenv tm)(k \<mapsto> d\<lparr>dep_Status := Some s\<rparr>)"
    if s: "status_of (tst_State status) = Some s" for s
  proof -
    have e: "tm_encodes tenv (d\<lparr>dep_Status := Some s\<rparr>)" using enc s by blast
    then obtain b where b: "e_enc tenv (d\<lparr>dep_Status := Some s\<rparr>) = Inr b" by (auto simp: tm_encodes_def)
    obtain tm' where tm': "updateStatus tenv now later ?t s tm = Some (None, tm')"
      using updateStatus_ok [OF assms(1,2) kv(1) ims(1,2) get ims(3) b, of now later] by blast
    with updateStatus_records [OF kv(1), of s now later] kv(2) d e show ?thesis
      unfolding records_status_def k by fastforce
  qed
  show ?thesis
  proof (cases "tst_State status")
    case TASK_STAGING
    then show ?thesis using f forgot assms(3)
      by (simp add: StatusUpdate_def tm DefaultTaskManager_methods_def TaskStaging_def)
  next
    case TASK_STARTING
    then show ?thesis using f forgot assms(3)
      by (simp add: StatusUpdate_def tm DefaultTaskManager_methods_def TaskStarting_def)
  qed (use upd assms(3) in \<open>auto simp: StatusUpdate_def tm DefaultTaskManager_methods_def TaskRunning_def
        TaskFinished_def TaskFailed_def TaskKilled_def TaskLost_def\<close>)
qed

text \<open>C11. A status update of Mesos about a stored task never panics. A task that runs, failed, was lost, killed or
  finished keeps its deployment with the matching status, and no request is sent to Mesos; a task that is staging or starting
  is deleted from the store, whatever its status, and Mesos is asked to kill it. Other tasks stay as they are.\<close>

theorem StatusUpdate_follows_mesos:
  assumes "tm_wf tm" and "tm_room tenv tm" and "fw_taskManager fw = Some tm"
    and tm: "fe_tm env = DefaultTaskManager_methods tenv"
    and kv: "e_kv tenv = InMemoryStore_kv it" "tm_keyed tenv tm"
    and k: "k = TaskID_GetValue (tst_TaskId status)" and d: "tm_recorded tenv tm k = Some d"
    and enc: "\<forall>s. status_of (tst_State status) = Some s \<longrightarrow> tm_encodes tenv (d\<lparr>dep_Status := Some s\<rparr>)"
  shows "\<exists>fw' tm'. StatusUpdate env now later status fw = Some fw' \<and> fw_taskManager fw' = Some tm' \<and> tm_keyed tenv tm' \<and>
    tm_recorded tenv tm' = (tm_recorded tenv tm)(k := map_option (\<lambda>s. d\<lparr>dep_Status := Some s\<rparr>) (status_of (tst_State status))) \<and>
    fw_calls fw' = fw_calls fw @ (if status_of (tst_State status) = None then [KillTask (tst_TaskId status)] else [])"
  by (rule StatusUpdate_records [OF assms])

theorem StatusUpdate_follows_mesos_witness:
  "let s = sample_deployment; l = s\<lparr>dep_Status := Some AppStatus_FAILED\<rparr>; t = Some \<lparr>tid_Value = Some ''task-1''\<rparr>;
       fw = sample_fw (sample_tm docker_queue) in
   (\<exists>fw' tm'. StatusUpdate (sample_fw_env [s, l]) 1 2 \<lparr>tst_TaskId = t, tst_State = TASK_LOST, tst_Message = None, tst_SlaveId = None\<rparr> fw = Some fw' \<and>
      fw_taskManager fw' = Some tm' \<and> tm_recorded (sample_env [s, l]) tm' ''task-1'' = Some l \<and> fw_calls fw' = []) \<and>
   (\<exists>fw' tm'. StatusUpdate (sample_fw_env [s, l]) 1 2 \<lparr>tst_TaskId = t, tst_State = TASK_STARTING, tst_Message = None, tst_SlaveId = None\<rparr> fw = Some fw' \<and>
      fw_taskManager fw' = Some tm' \<and> tm_recorded (sample_env [s, l]) tm' ''task-1'' = None \<and> fw_calls fw' = [KillTask t])"
proof -
  let ?s = sample_deployment let ?l = "?s\<lparr>dep_Status := Some AppStatus_FAILED\<rparr>"
  let ?t = "Some \<lparr>tid_Value = Some ''task-1''\<rparr>" and ?fw = "sample_fw (sample_tm docker_queue)" and ?e = "sample_env [?s, ?l]"
  note rec = sample_recorded(1) [of ?s "[?l]" docker_queue]
  have keyed: "tm_keyed ?e (sample_tm docker_queue)"
    by (rule sample_recorded(2)) (simp_all add: sample_deployment_def TaskID_GetValue_def)
  have d: "tm_recorded ?e (sample_tm docker_queue) ''task-1'' = Some ?s" by (simp add: rec)
  have enc: "tm_encodes ?e ?l" by (simp add: tm_encodes_def sample_env_simps table_enc_def upt_rec sample_deployment_def)
  have tm: "fw_taskManager ?fw = Some (sample_tm docker_queue)" "fe_tm (sample_fw_env [?s, ?l]) = DefaultTaskManager_methods ?e"
    "fw_calls ?fw = []"
    by (simp_all add: sample_fw_def NewFramework_def sample_fw_env_def)
  note upd = StatusUpdate_follows_mesos [OF sample_tm_wf(1) sample_tm_room(1) tm(1,2) sample_env_simps(1) keyed _ d, of _ 1 2]
  let ?u = "\<lambda>st. \<lparr>tst_TaskId = ?t, tst_State = st, tst_Message = None, tst_SlaveId = None\<rparr>"
  have "\<exists>fw' tm'. StatusUpdate (sample_fw_env [?s, ?l]) 1 2 (?u TASK_LOST) ?fw = Some fw' \<and>
      fw_taskManager fw' = Some tm' \<and> tm_recorded ?e tm' ''task-1'' = Some ?l \<and> fw_calls fw' = []"
    using upd [of "?u TASK_LOST"] enc by (auto simp: TaskID_GetValue_def tm(3))
  moreover have "\<exists>fw' tm'. StatusUpdate (sample_fw_env [?s, ?l]) 1 2 (?u TASK_STARTING) ?fw = Some fw' \<and>
      fw_taskManager fw' = Some tm' \<and> tm_recorded ?e tm' ''task-1'' = None \<and> fw_calls fw' = [KillTask ?t]"
    using upd [of "?u TASK_STARTING"] by (auto simp: TaskID_GetValue_def tm(3))
  ultimately show ?thesis by (simp only: Let_def)
qed

text \<open>C13. A task that fails its health check is marked UNHEALTHY and put on the list of tasks to kill, but it is not
  killed: the framework reads the task id from that list and passes it to \<open>KillApp\<close>, which expects the name of an
  application. Unless some application is named like the task, no request reaches Mesos and nothing else happens.\<close>

theorem unhealthy_task_is_not_killed:
  assumes "tm_wf tm" and "tm_room tenv tm" and kv: "e_kv tenv = InMemoryStore_kv it" "tm_keyed tenv tm"
    and d: "tm_recorded tenv tm (r_ID failure) = Some d" and enc: "tm_encodes tenv (d\<lparr>dep_Status := Some AppStatus_UNHEALTHY\<rparr>)"
    and unnamed: "\<not> app_named tenv tm (r_ID failure)" and tm: "fe_tm env = DefaultTaskManager_methods tenv"
  shows "\<exists>tm'. handle_failure tenv now later failure tm = Some ([dep_TaskId d], tm') \<and>
    tm_recorded tenv tm' (r_ID failure) = Some (d\<lparr>dep_Status := Some AppStatus_UNHEALTHY\<rparr>) \<and>
    (\<forall>fw. fw_taskManager fw = Some tm' \<longrightarrow> kill_listed_task env clock (dep_TaskId d) fw = Some fw)"
proof -
  let ?d = "d\<lparr>dep_Status := Some AppStatus_UNHEALTHY\<rparr>" and ?k = "r_ID failure"
  have ims: "ims_wf (dts_store (tm_tasks tm))" "codec_ok (e_enc tenv) (e_dec tenv)" "TaskID_GetValue (dep_TaskId d) = ?k"
    using kv(2) d by (simp_all add: tm_keyed_def)
  have get: "DefaultTaskStore_Get (e_kv tenv) (e_dec tenv) ?k (tm_tasks tm) = Inr (Some d)"
    using recorded_Get [OF d, of it] by (simp add: kv(1))
  obtain b where b: "e_enc tenv ?d = Inr b" using enc by (auto simp: tm_encodes_def)
  obtain tm' where tm': "updateStatus tenv now later (dep_TaskId d) AppStatus_UNHEALTHY tm = Some (None, tm')" "tm_apps tm' = tm_apps tm"
    using updateStatus_ok [OF assms(1,2) kv(1) ims(1,2) get [folded ims(3)] refl b, of now later] by blast
  have "handle_failure tenv now later failure tm = Some ([dep_TaskId d], tm')"
    by (simp add: handle_failure_def get tm'(1) Deployment_GetTaskId_def)
  moreover have "tm_recorded tenv tm' ?k = Some ?d"
    using updateStatus_records [OF kv(1), of AppStatus_UNHEALTHY now later] kv(2) d enc tm'(1) ims(3)
    unfolding records_status_def by fastforce
  moreover have "kill_listed_task env clock (dep_TaskId d) fw = Some fw" if "fw_taskManager fw = Some tm'" for fw
  proof (cases "dep_TaskId d")
    case (Some t)
    have "\<not> app_named tenv tm' (TaskID_GetValue (Some t))"
      using unnamed ims(3) Some by (simp add: app_named_def tm'(2))
    from kill_listed_task_unnamed [OF tm that this] show ?thesis by (simp add: Some)
  qed (simp add: kill_listed_task_def)
  ultimately show ?thesis by blast
qed

theorem unhealthy_task_is_not_killed_witness:
  "let s = sample_deployment; u = s\<lparr>dep_Status := Some AppStatus_UNHEALTHY\<rparr>; fenv = sample_fw_env [s, u] in
   \<exists>tm'. handle_failure (sample_env [s, u]) 1 2 (downResult ''task-1'' 0) (sample_tm docker_queue) =
           Some ([Some \<lparr>tid_Value = Some ''task-1''\<rparr>], tm') \<and>
     map_option fw_calls (kill_listed_task fenv (\<lambda>n. (3, 4)) (Some \<lparr>tid_Value = Some ''task-1''\<rparr>) (sample_fw tm')) = Some []"
proof -
  let ?s = sample_deployment let ?u = "?s\<lparr>dep_Status := Some AppStatus_UNHEALTHY\<rparr>"
  let ?e = "sample_env [?s, ?u]" and ?f = "downResult ''task-1'' 0"
  have f: "r_ID ?f = ''task-1''" by (simp add: downResult_def)
  note rec = sample_recorded(1) [of ?s "[?u]" docker_queue]
  have keyed: "tm_keyed ?e (sample_tm docker_queue)"
    by (rule sample_recorded(2)) (simp_all add: sample_deployment_def TaskID_GetValue_def)
  have enc: "tm_encodes ?e ?u" by (simp add: tm_encodes_def sample_env_simps table_enc_def upt_rec sample_deployment_def)
  have d: "tm_recorded ?e (sample_tm docker_queue) (r_ID ?f) = Some ?s" by (simp add: rec f)
  have un: "\<not> app_named ?e (sample_tm docker_queue) (r_ID ?f)"
    by (simp add: app_named_def sample_env_def sample_tm_def DefaultAppStore_Get_def iface_simps InMemoryStore_Get_def
        ims_index_def empty_apps_def AppStore_NewWithStore_def NewEmptyInMemoryStore_def)
  have tm: "fe_tm (sample_fw_env [?s, ?u]) = DefaultTaskManager_methods ?e" by (simp add: sample_fw_env_def)
  have t: "dep_TaskId ?s = Some \<lparr>tid_Value = Some ''task-1''\<rparr>" by (simp add: sample_deployment_def)
  obtain tm' where tm': "handle_failure ?e 1 2 ?f (sample_tm docker_queue) = Some ([dep_TaskId ?s], tm')"
    "\<forall>fw. fw_taskManager fw = Some tm' \<longrightarrow>
       kill_listed_task (sample_fw_env [?s, ?u]) (\<lambda>n. (3, 4)) (dep_TaskId ?s) fw = Some fw"
    using unhealthy_task_is_not_killed [OF sample_tm_wf(1) sample_tm_room(1) sample_env_simps(1) keyed d enc un tm, of 1 2] by blast
  have "fw_taskManager (sample_fw tm') = Some tm'" "fw_calls (sample_fw tm') = []" by (simp_all add: sample_fw_def NewFramework_def)
  with tm' show ?thesis by (auto simp: Let_def t)
qed

end
