(* ===== verification/HttpApiFacts.thy ===== *)
theory HttpApiFacts
  imports HttpApi SchedulerFacts
begin

text \<open>
  What the HTTP API does with the components behind it, \<open>HttpApi\<close>: an application that was posted is shown again, the listing,
  what a client is told when something is refused or fails.
\<close>

section \<open>Saving\<close>

text \<open>After a loop of saves with distinct ids every id holds what was saved under it.\<close>

lemma save_all_map:
  assumes kv: "ax_kv env = InMemoryStore_kv it"
  shows "ims_wf (das_store st) \<Longrightarrow> distinct (map (\<lambda>a. Application_GetId (Some a)) as) \<Longrightarrow>
    \<forall>a \<in> set as. ax_enc env a = Inr (Some (enc a)) \<Longrightarrow>
    ims_wf (das_store (save_all env as st)) \<and>
    (\<forall>a \<in> set as. ims_abs (das_store (save_all env as st)) (Application_GetId (Some a)) = Some (Some (enc a))) \<and>
    (\<forall>k. k \<notin> (\<lambda>a. Application_GetId (Some a)) ` set as \<longrightarrow> ims_abs (das_store (save_all env as st)) k = ims_abs (das_store st) k)"
proof (induction "as" arbitrary: st)
  case Nil
  then show ?case by (simp add: save_all_def)
next
  case (Cons a "as")
  obtain st1 where s: "DefaultAppStore_Save (InMemoryStore_kv it) (ax_enc env) a st = (None, st1)" "ims_wf (das_store st1)"
    "ims_abs (das_store st1) = (ims_abs (das_store st))(Application_GetId (Some a) \<mapsto> Some (enc a))"
    using mem.Save_app [of st "ax_enc env" a "Some (enc a)" it] Cons.prems by auto
  have "save_all env (a # as) st = save_all env as st1" by (simp add: save_all_def kv s(1))
  with Cons.IH [OF s(2)] Cons.prems s(3) show ?case by auto
qed

text \<open>What a message stored in memory is shown as.\<close>

lemma ShowOne_stored:
  assumes "ax_kv env = InMemoryStore_kv it" and "ims_wf (das_store st)" and "codec_ok (ax_enc env) (ax_dec env)"
    and "ims_abs (das_store st) (Application_GetId (Some a)) = Some (Some bs)" and "ax_enc env a = Inr (Some bs)"
  shows "ShowOne env (Application_GetId (Some a)) st = write_app env 200 (Some a)"
proof -
  have "ax_dec env (Some bs) = Inr a" using assms(3,5) by (simp add: codec_ok_def)
  then have "DefaultAppStore_Get (InMemoryStore_kv it) (ax_dec env) (Application_GetId (Some a)) st = Inr (Some a)"
    using mem.Get_app_present [OF assms(2,4), of it "ax_dec env"] by simp
  then show ?thesis by (simp add: ShowOne_def assms(1))
qed

text \<open>A request that is decoded, valid and encodable is answered with its own encoding.\<close>

lemma Save_accepted:
  assumes "ax_decode env body = Inr app" and "ax_valid env app = (b, None, [])" and "ax_marshal env app = Inr data"
  shows "Save env body st = map_option (\<lambda>as. ([WriteHeader 200, Write data], save_all env as st))
    (ToAppManifest (ax_comps env) (ax_envs env) (ax_ports env) (ax_Config env) app)"
  using assms by (simp add: Save_def readAppJSON_def validateData_def)

definition component_id :: "string \<Rightarrow> AppComponent \<Rightarrow> string" where
  "component_id appName c = appName @ ''-'' @ ac_Name c @ ''-'' @ ac_Version c"

lemma manifest_id: "Application_GetId (Some (component_manifest ite itp d appName c)) = component_id appName c"
  by (simp add: component_manifest_def component_id_def Application_GetId_def Let_def)

section \<open>Rendering\<close>

fun comma_join :: "string list \<Rightarrow> string" where
  "comma_join [] = []"
| "comma_join [x] = x"
| "comma_join (x # y # xs) = x @ '','' @ comma_join (y # xs)"

definition error_object :: "string \<times> string \<Rightarrow> string" where
  "error_object e = ''{\"message\":\"'' @ snd e @ ''\",\"field\":\"'' @ fst e @ ''\", \"type\": \"error\"}''"

lemma rw_body_append: "rw_body (rs @ ss) = rw_body rs @ rw_body ss"
  by (induction rs rule: rw_body.induct) simp_all

lemma comma_join_Cons: "comma_join (x # xs) = x @ (if xs = [] then [] else '','' @ comma_join xs)"
  by (cases xs) simp_all

lemma write_errors_body:
  "rw_body (write_errors isFirst errs) = (if isFirst \<or> errs = [] then [] else '','') @ comma_join (map error_object errs)"
proof (induction errs arbitrary: isFirst)
  case (Cons e errs)
  then show ?case by (cases e) (auto simp: rw_body_append error_object_def comma_join_Cons)
qed simp

lemma comma_join_last: "errs \<noteq> [] \<Longrightarrow> last (comma_join (map error_object errs)) = CHR ''}''"
  by (induction errs rule: induct_list012) (auto simp: error_object_def comma_join_Cons)

text \<open>The listing of applications that all convert and encode.\<close>

lemma list_loop_body:
  assumes "\<forall>v \<in> set arr. \<exists>app d. converted env v = Some app \<and> ax_marshal env app = Inr d"
  shows "\<exists>rs. list_loop env isFirst arr = Some rs \<and>
    rw_body rs = (if isFirst \<or> arr = [] then [] else '','') @
      comma_join (map (\<lambda>v. projr (ax_marshal env (the (converted env v))) @ [CHR 0x0A]) arr)"
  using assms
proof (induction arr arbitrary: isFirst)
  case (Cons v arr)
  obtain rs where "list_loop env False arr = Some rs"
    "rw_body rs = (if arr = [] then [] else '','') @ comma_join (map (\<lambda>v. projr (ax_marshal env (the (converted env v))) @ [CHR 0x0A]) arr)"
    using Cons.IH [of False] Cons.prems by auto
  then show ?case using Cons.prems by (auto simp: rw_body_append comma_join_Cons)
qed simp

lemma list_loop_nil: "None \<in> set arr \<Longrightarrow> list_loop env isFirst arr = None"
  by (induction arr arbitrary: isFirst) (auto simp: converted_def FromAppManifest_def split: option.splits)

section \<open>Properties\<close>

text \<open>An application that is posted is stored and shown again: the answer is 200 with the application as it was sent, and afterwards each
  of its components is shown, under the id made of application, component and version, as the application that has this one component.\<close>

theorem posted_app_is_shown:
  assumes cfg: "cfg_DockerIndex (ax_Config env) = Some d" and ok: "\<forall>(_, c) \<in> set (ap_Components app). component_ok c"
    and req: "ax_decode env body = Inr app" "ax_valid env app = (b, None, [])" "ax_marshal env app = Inr data"
    and kv: "ax_kv env = InMemoryStore_kv it" "ims_wf (das_store st)" and codec: "codec_ok (ax_enc env) (ax_dec env)"
    and ids: "distinct (map (\<lambda>(_, c). component_id (ap_Name app) c) (ap_Components app))"
    and enc: "\<forall>(_, c) \<in> set (ap_Components app). \<exists>bs. ax_enc env (component_manifest (ax_envs env) (ax_ports env) d (ap_Name app) c) = Inr (Some bs)"
  shows "\<exists>st'. Save env body st = Some ([WriteHeader 200, Write data], st') \<and>
    (\<forall>(_, c) \<in> set (ap_Components app). \<exists>envs ports.
       ShowOne env (component_id (ap_Name app) c) st' = Some [WriteHeader 200,
         Write (case ax_marshal env (component_back d (ap_Name app) c envs ports) of Inl _ \<Rightarrow> [] | Inr shown \<Rightarrow> shown)] \<and>
       map_of envs = map_of (ac_Env c) \<and> map_of ports = map_of (ac_Ports c))"
proof -
  let ?m = "\<lambda>(_, c). component_manifest (ax_envs env) (ax_ports env) d (ap_Name app) c"
  let ?as = "map ?m (go_range (ax_comps env) (ap_Components app))"
  have as: "ToAppManifest (ax_comps env) (ax_envs env) (ax_ports env) (ax_Config env) app = Some ?as" by (rule ToAppManifest_eq [OF cfg])
  have "mset (map (\<lambda>a. Application_GetId (Some a)) ?as) = mset (map (\<lambda>(_, c). component_id (ap_Name app) c) (ap_Components app))"
    by (simp add: comp_def case_prod_unfold manifest_id mset_go_range)
  then have dis: "distinct (map (\<lambda>a. Application_GetId (Some a)) ?as)" using ids by (metis mset_eq_imp_distinct_iff)
  obtain bytes_of where enc': "\<forall>a \<in> set ?as. ax_enc env a = Inr (Some (bytes_of a))"
    using bchoice [of "set ?as" "\<lambda>a bs. ax_enc env a = Inr (Some bs)"] enc by (auto simp: case_prod_unfold)
  note st' = save_all_map [OF kv(1,2) dis enc']
  let ?st = "save_all env ?as st"
  have "\<exists>envs ports. ShowOne env (component_id (ap_Name app) c) ?st = Some [WriteHeader 200,
         Write (case ax_marshal env (component_back d (ap_Name app) c envs ports) of Inl _ \<Rightarrow> [] | Inr shown \<Rightarrow> shown)] \<and>
       map_of envs = map_of (ac_Env c) \<and> map_of ports = map_of (ac_Ports c)" if c: "(k, c) \<in> set (ap_Components app)" for k c
  proof -
    let ?a = "?m (k, c)"
    have "?a \<in> set ?as" using c by (force simp: image_iff)
    then have "ShowOne env (Application_GetId (Some ?a)) ?st = write_app env 200 (Some ?a)"
      using st' enc' by (intro ShowOne_stored [OF kv(1) _ codec]) blast+
    moreover have "component_ok c" using ok c by blast
    ultimately show ?thesis
      using component_roundtrip [of c "ax_cv8 env" "ax_cv16 env" "ax_envs env" "ax_ports env" d "ap_Name app"]
      by (fastforce simp: write_app_def converted_def manifest_id)
  qed
  then show ?thesis using Save_accepted [OF req, of st] as by fastforce
qed

definition sample_api :: "Application list \<Rightarrow> DockerIndexConfig \<Rightarrow> App \<Rightarrow> InMemoryStore api_env" where
  "sample_api stored d app = \<lparr>ax_kv = InMemoryStore_kv rev, ax_enc = table_enc stored, ax_dec = table_dec stored,
     ax_decode = (\<lambda>body. if body = ''app'' then Inr app else Inl (Err ''EOF'')),
     ax_marshal = (\<lambda>app. Inr (ap_Name app)), ax_valid = (\<lambda>app. (App_Valid app = [], None, App_Valid app)),
     ax_Config = sample_docker_config d, ax_cv8 = (\<lambda>_. 0), ax_cv16 = (\<lambda>_. 0), ax_comps = rev, ax_envs = rev, ax_ports = rev\<rparr>"

definition sample_index :: DockerIndexConfig where
  "sample_index = \<lparr>dic_Host = ''index'', dic_Port = 5000, dic_Scheme = ''http'', dic_APIVersion = ''v1'', dic_User = [], dic_Pass = []\<rparr>"

definition sample_app :: App where
  "sample_app = \<lparr>ap_Name = ''shop'', ap_Components = [(''web'', sample_component)]\<rparr>"

lemma sample_app_simps:
  "ap_Components sample_app = [(''web'', sample_component)]" "ap_Name sample_app = ''shop''"
  "component_id ''shop'' sample_component = ''shop-web-1.0.0''"
  by (simp_all add: sample_app_def component_id_def sample_component_def)

theorem posted_app_is_shown_witness:
  "\<exists>st'. Save (sample_api [component_manifest rev rev sample_index ''shop'' sample_component] sample_index sample_app) ''app'' empty_apps =
       Some ([WriteHeader 200, Write ''shop''], st') \<and>
     ShowOne (sample_api [component_manifest rev rev sample_index ''shop'' sample_component] sample_index sample_app) ''shop-web-1.0.0'' st' =
       Some [WriteHeader 200, Write ''shop'']"
proof -
  let ?m = "component_manifest rev rev sample_index ''shop'' sample_component"
  let ?env = "sample_api [?m] sample_index sample_app"
  have env: "cfg_DockerIndex (ax_Config ?env) = Some sample_index" "ax_decode ?env ''app'' = Inr sample_app"
    "ax_valid ?env sample_app = (True, None, [])" "ax_marshal ?env sample_app = Inr ''shop''" "ax_kv ?env = InMemoryStore_kv rev"
    "ax_envs ?env = rev" "ax_ports ?env = rev" "ax_enc ?env ?m = Inr (Some [0])"
    by (simp_all add: sample_api_def sample_docker_config_def App_Valid_def sample_app_simps table_enc_single)
  have codec: "codec_ok (ax_enc ?env) (ax_dec ?env)" using table_codec_ok [of "[?m]"] by (simp add: sample_api_def)
  have "\<forall>(_, c) \<in> set (ap_Components sample_app). component_ok c" "distinct (map (\<lambda>(_, c). component_id (ap_Name sample_app) c) (ap_Components sample_app))"
    by (simp_all add: sample_app_simps sample_component_ok)
  from posted_app_is_shown [OF env(1) this(1) env(2-5) empty_apps_wf codec this(2)]
  show ?thesis by (auto simp: sample_app_simps env) (simp add: sample_api_def component_back_def)
qed

text \<open>In production the log file is closed before \<open>setupLogging\<close> returns, though the logging library was told to write to it.\<close>

lemma setupLogging_closes_the_log:
  assumes "HasPrefix mode ''prod''" and "lc_LogDirectory lc \<noteq> []" and "setupLogging opens mode (Some lc) = Some acts"
  shows "\<exists>xs. acts = xs @ [SetBackend [''stderr'', lc_LogDirectory lc @ ''/agora.log''], CloseFile (lc_LogDirectory lc @ ''/agora.log'')]"
  using assms by (auto simp: setupLogging_def Let_def split: if_splits)

text \<open>What a stored entry is listed as.\<close>

definition listed :: "'a api_env \<Rightarrow> KVData \<Rightarrow> string" where
  "listed env x = projr (ax_marshal env (the (converted env (Some (projr (ax_dec env (kvd_Value x))))))) @ [CHR 0x0A]"

text \<open>The listing is a JSON array of the stored applications, in the order of the store; a single stored value that is not an
  application makes it panic instead, after the array has been opened.\<close>

theorem ListAll_lists_or_panics:
  assumes kv: "ax_kv env = InMemoryStore_kv it" "ims_wf (das_store st)"
    and marshal: "\<forall>app. \<exists>d. ax_marshal env app = Inr d"
  shows "\<exists>kvs. entries_of (ims_abs (das_store st)) kvs \<and>
    (if \<forall>x \<in> set kvs. \<exists>a. ax_dec env (kvd_Value x) = Inr a
     then \<exists>rs. ListAll env st = Some rs \<and> rw_status rs = 200 \<and> rw_body rs = ''['' @ comma_join (map (listed env) kvs) @ '']''
     else ListAll env st = None)"
proof -
  obtain kvs where k: "entries_of (ims_abs (das_store st)) kvs"
    "DefaultAppStore_ForEach (InMemoryStore_kv it) (ax_dec env) st = (map (app_item (ax_dec env)) kvs, None)"
    by (rule mem.ForEach_app [OF kv(2)])
  show ?thesis
  proof (cases "\<forall>x \<in> set kvs. \<exists>a. ax_dec env (kvd_Value x) = Inr a")
    case True
    have item: "app_item (ax_dec env) x = Some (projr (ax_dec env (kvd_Value x)))" if "x \<in> set kvs" for x
      using True that by (auto simp: app_item_def)
    have "\<exists>app d. converted env v = Some app \<and> ax_marshal env app = Inr d" if "v \<in> set (map (app_item (ax_dec env)) kvs)" for v
      using that item marshal by (auto simp: converted_def FromAppManifest_def)
    then obtain rs where rs: "list_loop env True (map (app_item (ax_dec env)) kvs) = Some rs"
      "rw_body rs = comma_join (map (\<lambda>v. projr (ax_marshal env (the (converted env v))) @ [CHR 0x0A]) (map (app_item (ax_dec env)) kvs))"
      using list_loop_body [of "map (app_item (ax_dec env)) kvs" env True] by auto
    have "map (\<lambda>v. projr (ax_marshal env (the (converted env v))) @ [CHR 0x0A]) (map (app_item (ax_dec env)) kvs) = map (listed env) kvs"
      using item by (simp add: listed_def)
    then have "rw_body rs = comma_join (map (listed env) kvs)" using rs(2) by (simp only:)
    then show ?thesis using True k rs(1) by (intro exI [of _ kvs]) (simp add: ListAll_def kv(1) rw_body_append)
  next
    case False
    then obtain x where "x \<in> set kvs" "\<forall>a. ax_dec env (kvd_Value x) \<noteq> Inr a" by blast
    then have "None \<in> set (map (app_item (ax_dec env)) kvs)" by (auto simp: app_item_def image_iff split: sum.splits intro!: bexI [of _ x])
    then have "list_loop env True (map (app_item (ax_dec env)) kvs) = None" by (rule list_loop_nil)
    then show ?thesis using False k by (intro exI [of _ kvs]) (auto simp: ListAll_def kv(1))
  qed
qed

text \<open>An application that fails validation is not stored and answered with status 422, but the array of errors in the
  answer is never closed: its last character is the brace of the last error, so it is not JSON.\<close>

theorem rejected_app_gets_an_open_array:
  assumes "ax_decode env body = Inr app" and "ax_valid env app = (False, None, errs)" and "errs \<noteq> []"
  shows "\<exists>rs. Save env body st = Some (rs, st) \<and> rw_status rs = 422 \<and>
    rw_body rs = ''['' @ comma_join (map error_object errs) \<and> last (rw_body rs) = CHR ''}''"
proof -
  have "comma_join (map error_object errs) \<noteq> []" using assms(3) by (cases errs) (simp_all add: comma_join_Cons error_object_def)
  then show ?thesis
    using assms comma_join_last [OF assms(3)]
    by (simp add: Save_def readAppJSON_def validateData_def write_errors_body)
qed

text \<open>C20. What the store and the task manager answer is not reported. With a store that refuses every write, as LMDB does when its map is
  full, every save of the application's components returns an error and stores nothing, and Save answers 200 with the application all the
  same. Deploy answers 202 whatever error submitting the application returns; and the task manager itself returns none when its monitor does
  not let it queue the application.\<close>

theorem success_is_always_reported:
  assumes cfg: "cfg_DockerIndex (ax_Config env) = Some d"
    and req: "ax_decode env body = Inr app" "ax_valid env app = (b, None, [])" "ax_marshal env app = Inr data"
    and full: "\<forall>k v s. \<exists>err. kv_Set (ax_kv env) k v s = (Some err, s)"
    and stored: "DefaultAppStore_Get (ax_kv env) (ax_dec env) n st = Inr (Some a)"
    and fw: "fw_taskManager fw = Some m" and sub: "tmi_SubmitApp (fe_tm fenv) [(a, now)] m = Some (err, m')"
    and refuses: "\<forall>t. \<not> mon_CanDeploy (e_sla tenv) (Some a) t"
  shows "(\<forall>c. \<exists>e. DefaultAppStore_Save (ax_kv env) (ax_enc env) c st = (Some e, st)) \<and>
    Save env body st = Some ([WriteHeader 200, Write data], st) \<and>
    (\<exists>rs. Deploy env fenv now n st fw = Some (rs, fw\<lparr>fw_taskManager := Some m'\<rparr>) \<and> rw_status rs = 202) \<and>
    (\<exists>tm'. SubmitApp tenv [(a, now)] tm = Some (None, tm') \<and> slots (tm_queue tm') = slots (tm_queue tm))"
proof (intro conjI)
  have refused: "\<exists>e. DefaultAppStore_Save (ax_kv env) (ax_enc env) c s = (Some e, s)" for c s
  proof (cases "ax_enc env c")
    case (Inr bs)
    obtain err where "kv_Set (ax_kv env) (Application_GetId (Some c)) bs (das_store s) = (Some err, das_store s)" using full by blast
    then show ?thesis using Inr by (simp add: DefaultAppStore_Save_def app_writeBytes_def)
  qed (simp add: DefaultAppStore_Save_def app_writeBytes_def)
  then show "\<forall>c. \<exists>e. DefaultAppStore_Save (ax_kv env) (ax_enc env) c st = (Some e, st)" by blast
  have "save_all env as st = st" for "as"
  proof (induction "as")
    case (Cons x "as")
    with refused [of x st] show ?case by (auto simp: save_all_def)
  qed (simp add: save_all_def)
  then show "Save env body st = Some ([WriteHeader 200, Write data], st)"
    using Save_accepted [OF req, of st] ToAppManifest_eq [OF cfg] by simp
  obtain app' where "converted env (Some a) = Some app'" by (simp add: converted_def FromAppManifest_def)
  then show "\<exists>rs. Deploy env fenv now n st fw = Some (rs, fw\<lparr>fw_taskManager := Some m'\<rparr>) \<and> rw_status rs = 202"
    using sub by (simp add: Deploy_def stored Framework_SubmitApp_def fw write_app_def)
  show "\<exists>tm'. SubmitApp tenv [(a, now)] tm = Some (None, tm') \<and> slots (tm_queue tm') = slots (tm_queue tm)"
    using refuses by (simp add: SubmitApp_def Let_def schedule_refused)
qed

section \<open>Witnesses\<close>

text \<open>A store with one application, and one with an entry that is none.\<close>

definition stored_apps :: "InMemoryStore DefaultAppStore" where
  "stored_apps = \<lparr>das_store = \<lparr>ims_data = [(''web'', Some [0])]\<rparr>\<rparr>"

lemma sample_dec: "table_dec [a] (Some [0]) = Inr a"
  using table_codec_ok [of "[a]"] table_enc_single [of a] by (simp add: codec_ok_def)

lemma distinct_singleton: "distinct xs \<Longrightarrow> set xs = {x} \<Longrightarrow> xs = [x]"
  by (cases xs; cases "tl xs") auto

theorem ListAll_lists_or_panics_witness:
  "\<exists>rs. ListAll (sample_api [sample_application] sample_index sample_app) stored_apps = Some rs \<and> rw_status rs = 200 \<and>
     rw_body rs = ''['' @ [CHR 0x0A] @ '']''"
proof -
  let ?env = "sample_api [sample_application] sample_index sample_app"
  have wf: "ims_wf (das_store stored_apps)" by (simp add: ims_wf_def stored_apps_def)
  have env: "ax_kv ?env = InMemoryStore_kv rev" "\<forall>app. \<exists>d. ax_marshal ?env app = Inr d" "ax_dec ?env = table_dec [sample_application]"
    by (simp_all add: sample_api_def)
  have l: "listed ?env \<lparr>kvd_Key = ''web'', kvd_Value = Some [0]\<rparr> = [CHR 0x0A]"
    by (simp add: listed_def env(3) sample_dec converted_def FromAppManifest_def)
       (simp add: sample_api_def sample_application_def Application_zero_def getter_simps)
  obtain kvs where k: "entries_of (ims_abs (das_store stored_apps)) kvs"
    "if \<forall>x \<in> set kvs. \<exists>a. ax_dec ?env (kvd_Value x) = Inr a
     then \<exists>rs. ListAll ?env stored_apps = Some rs \<and> rw_status rs = 200 \<and> rw_body rs = ''['' @ comma_join (map (listed ?env) kvs) @ '']''
     else ListAll ?env stored_apps = None"
    using ListAll_lists_or_panics [OF env(1) wf env(2)] by blast
  have "x \<in> set kvs \<longleftrightarrow> x = \<lparr>kvd_Key = ''web'', kvd_Value = Some [0]\<rparr>" for x
    unfolding entries_of_in [OF k(1)] by (cases x) (auto simp: ims_abs_def stored_apps_def)
  then have "set kvs = {\<lparr>kvd_Key = ''web'', kvd_Value = Some [0]\<rparr>}" by blast
  moreover have "distinct kvs" using k(1) by (simp add: entries_of_def distinct_map)
  ultimately have "kvs = [\<lparr>kvd_Key = ''web'', kvd_Value = Some [0]\<rparr>]"
    by (rule distinct_singleton [rotated])
  with k(2) show ?thesis by (simp add: env(3) sample_dec l)
qed

theorem rejected_app_gets_an_open_array_witness:
  "\<exists>rs. Save (sample_api [] sample_index \<lparr>ap_Name = ''shop'', ap_Components = []\<rparr>) ''app'' empty_apps = Some (rs, empty_apps) \<and>
     rw_status rs = 422 \<and> last (rw_body rs) = CHR ''}''"
proof -
  let ?app = "\<lparr>ap_Name = ''shop'', ap_Components = []\<rparr>"
  have "ax_decode (sample_api [] sample_index ?app) ''app'' = Inr ?app"
    "ax_valid (sample_api [] sample_index ?app) ?app = (False, None, App_Valid ?app)" "App_Valid ?app \<noteq> []"
    by (simp_all add: sample_api_def App_Valid_def)
  from rejected_app_gets_an_open_array [OF this, of empty_apps] show ?thesis by blast
qed

text \<open>The store in memory, but that it takes no more, and a task manager that reports an error.\<close>

definition full_api :: "InMemoryStore api_env" where
  "full_api = sample_api [sample_application] sample_index sample_app
     \<lparr>ax_kv := InMemoryStore_kv rev\<lparr>kv_Set := \<lambda>_ _ s. (Some (Err ''MDB_MAP_FULL''), s)\<rparr>\<rparr>"

definition failing_fw_env :: "(unit, unit, (InMemoryStore, InMemoryStore) task_manager) fw_env" where
  "failing_fw_env = sample_fw_env []
     \<lparr>fe_tm := DefaultTaskManager_methods (sample_env [])\<lparr>tmi_SubmitApp := \<lambda>_ m. Some (Some (Err ''queue closed''), m)\<rparr>\<rparr>"

theorem success_is_always_reported_witness:
  "Save full_api ''app'' stored_apps = Some ([WriteHeader 200, Write ''shop''], stored_apps) \<and>
   (\<exists>rs. Deploy full_api failing_fw_env 9 ''web'' stored_apps (sample_fw (sample_tm docker_queue)) =
      Some (rs, sample_fw (sample_tm docker_queue)) \<and> rw_status rs = 202) \<and>
   (\<exists>tm'. SubmitApp (sample_env []\<lparr>e_sla := \<lparr>mon_NeedsMore = \<lambda>_ _. False, mon_CanDeploy = \<lambda>_ _. False\<rparr>\<rparr>) [(sample_application, 9)]
      (sample_tm docker_queue) = Some (None, tm'))"
proof -
  let ?tenv = "sample_env []\<lparr>e_sla := \<lparr>mon_NeedsMore = \<lambda>_ _. False, mon_CanDeploy = \<lambda>_ _. False\<rparr>\<rparr>"
  have env: "cfg_DockerIndex (ax_Config full_api) = Some sample_index" "ax_decode full_api ''app'' = Inr sample_app"
    "ax_valid full_api sample_app = (True, None, [])" "ax_marshal full_api sample_app = Inr ''shop''"
    "\<forall>k v s. \<exists>err. kv_Set (ax_kv full_api) k v s = (Some err, s)"
    by (simp_all add: full_api_def sample_api_def sample_docker_config_def App_Valid_def sample_app_simps)
  have st: "DefaultAppStore_Get (ax_kv full_api) (ax_dec full_api) ''web'' stored_apps = Inr (Some sample_application)"
    by (simp add: full_api_def sample_api_def iface_simps DefaultAppStore_Get_def InMemoryStore_Get_def ims_index_def stored_apps_def sample_dec)
  have fw: "fw_taskManager (sample_fw (sample_tm docker_queue)) = Some (sample_tm docker_queue)"
    "tmi_SubmitApp (fe_tm failing_fw_env) [(sample_application, 9)] (sample_tm docker_queue) =
       Some (Some (Err ''queue closed''), sample_tm docker_queue)"
    "\<forall>t. \<not> mon_CanDeploy (e_sla ?tenv) (Some sample_application) t"
    "(sample_fw (sample_tm docker_queue))\<lparr>fw_taskManager := Some (sample_tm docker_queue)\<rparr> = sample_fw (sample_tm docker_queue)"
    by (simp_all add: sample_fw_def NewFramework_def failing_fw_env_def)
  from success_is_always_reported [OF env st fw(1-3), of "sample_tm docker_queue"] fw(4) show ?thesis by auto
qed

end
