(* ===== verification/Agora.thy ===== *)
theory Agora
  imports HttpApiFacts
begin

text \<open>
  The server that \<open>src/agora/main.go\<close> puts together: its routing table, the chain of middlewares in front of it, and the order in
  which \<open>main\<close> starts and stops the parts of the program. The state of the server is the framework with the default task manager; the
  application store the API reads and writes is the task manager's. The router (\<open>httprouter\<close>) is an argument, \<open>router_ok\<close> its
  documented behaviour; so are the proxy, the event source, the file server, and the recovery and logging middlewares of \<open>go-utils\<close>.
\<close>

section \<open>Routes\<close>

datatype route = RouteFavicon | RouteListAll | RouteShowOne | RouteSave | RouteDelete | RouteDeploy | RouteFrameworkID

definition routes :: "(string \<times> string \<times> route) list" where
  "routes =
     [(''GET'', ''/favicon.ico'', RouteFavicon),
      (''GET'', ''/api/applications'', RouteListAll),
      (''GET'', ''/api/applications/:name'', RouteShowOne),
      (''POST'', ''/api/applications'', RouteSave),
      (''PUT'', ''/api/applications/:name'', RouteSave),
      (''DELETE'', ''/api/applications/:name'', RouteDelete),
      (''POST'', ''/api/applications/:name/deploy'', RouteDeploy),
      (''GET'', ''/api/mesos/fwid'', RouteFrameworkID)]"

text \<open>
  The patterns of \<open>httprouter\<close>: a segment that begins with a colon matches any segment that is not empty and names the parameter,
  other segments match themselves. No route here has more than one parameter.
\<close>

fun segments :: "string \<Rightarrow> string list" where
  "segments [] = [[]]"
| "segments (c # s) = (if c = CHR ''/'' then [] # segments s else (case segments s of [] \<Rightarrow> [[c]] | w # ws \<Rightarrow> (c # w) # ws))"

fun is_param :: "string \<Rightarrow> bool" where
  "is_param [] \<longleftrightarrow> False"
| "is_param (c # s) \<longleftrightarrow> c = CHR '':''"

fun pattern_match :: "string list \<Rightarrow> string list \<Rightarrow> string option" where
  "pattern_match [] [] = Some []"
| "pattern_match (p # ps) (s # ss) =
     (if is_param p
      then (if s = [] then None else map_option (\<lambda>_. s) (pattern_match ps ss))
      else if p = s then pattern_match ps ss else None)"
| "pattern_match _ _ = None"

type_synonym lookup = "(string \<times> string \<times> route) list \<Rightarrow> string \<Rightarrow> string \<Rightarrow> (route \<times> string) option"

definition router_ok :: "lookup \<Rightarrow> bool" where
  "router_ok lookup \<longleftrightarrow> (\<forall>m pat rt path p. (m, pat, rt) \<in> set routes \<longrightarrow>
     pattern_match (segments pat) (segments path) = Some p \<longrightarrow> lookup routes m path = Some (rt, p))"

section \<open>Handlers\<close>

type_synonym ('i, 'cur, 's, 'a) agora = "('i, 'cur, ('s, 'a) task_manager) Framework"

record ('i, 'cur, 's, 'a) agora_env =
  ag_api :: "'a api_env"
  ag_fenv :: "('i, 'cur, ('s, 'a) task_manager) fw_env"
  ag_quote :: "string \<Rightarrow> string"
  ag_lookup :: lookup
  ag_unmatched :: "('i, 'cur, 's, 'a) agora handler"
  ag_events :: "('i, 'cur, 's, 'a) agora handler"
  ag_docker :: "('i, 'cur, 's, 'a) agora handler"
  ag_recovery :: "('i, 'cur, 's, 'a) agora handler \<Rightarrow> ('i, 'cur, 's, 'a) agora handler"
  ag_logger :: "('i, 'cur, 's, 'a) agora handler \<Rightarrow> ('i, 'cur, 's, 'a) agora handler"
  ag_static :: "('i, 'cur, 's, 'a) agora handler \<Rightarrow> ('i, 'cur, 's, 'a) agora handler"

text \<open>A handler on the store; \<open>main\<close> always gives the framework a task manager.\<close>

definition on_store ::
  "('a DefaultAppStore \<Rightarrow> (rw_call list \<times> 'a DefaultAppStore) option) \<Rightarrow> ('i, 'cur, 's, 'a) agora \<Rightarrow>
     (rw_call list \<times> ('i, 'cur, 's, 'a) agora) option" where
  "on_store f fw =
     (case fw_taskManager fw of
        None \<Rightarrow> None
      | Some tm \<Rightarrow> map_option (\<lambda>(rs, as). (rs, fw\<lparr>fw_taskManager := Some (tm\<lparr>tm_apps := as\<rparr>)\<rparr>)) (f (tm_apps tm)))"

fun serve_route :: "('i, 'cur, 's, 'a) agora_env \<Rightarrow> route \<Rightarrow> string \<Rightarrow> ('i, 'cur, 's, 'a) agora handler" where
  "serve_route env RouteFavicon name r fw = Some ([WriteHeader 404], fw)"
| "serve_route env RouteListAll name r fw = on_store (\<lambda>as. map_option (\<lambda>rs. (rs, as)) (ListAll (ag_api env) as)) fw"
| "serve_route env RouteShowOne name r fw = on_store (\<lambda>as. map_option (\<lambda>rs. (rs, as)) (ShowOne (ag_api env) name as)) fw"
| "serve_route env RouteSave name r fw = on_store (Save (ag_api env) (rq_Body r)) fw"
| "serve_route env RouteDelete name r fw = on_store (\<lambda>as. Some (api_Delete (ag_api env) name as)) fw"
| "serve_route env RouteDeploy name r fw =
     (case fw_taskManager fw of
        None \<Rightarrow> None
      | Some tm \<Rightarrow> Deploy (ag_api env) (ag_fenv env) (rq_Now r) name (tm_apps tm) fw)"
| "serve_route env RouteFrameworkID name r fw = Some (ShowFrameworkID (ag_quote env) (ag_fenv env) fw)"

definition router_ServeHTTP :: "('i, 'cur, 's, 'a) agora_env \<Rightarrow> ('i, 'cur, 's, 'a) agora handler" where
  "router_ServeHTTP env r fw =
     (case ag_lookup env routes (rq_Method r) (rq_Path r) of
        Some (rt, name) \<Rightarrow> serve_route env rt name r fw
      | None \<Rightarrow> ag_unmatched env r fw)"

text \<open>The chain, in the order of the calls of \<open>Use\<close>.\<close>

definition agora_ServeHTTP :: "('i, 'cur, 's, 'a) agora_env \<Rightarrow> ('i, 'cur, 's, 'a) agora handler" where
  "agora_ServeHTTP env =
     EventSource_ServeHTTP (ag_events env)
      (JSONOnlyAPI_ServeHTTP
       (ag_recovery env
        (ag_logger env
         (\<lambda>r fw. fst (ProxyHost_ServeHTTP ''/docker'' (ag_docker env) (ag_static env (router_ServeHTTP env)) r fw)))))"

section \<open>Starting and stopping\<close>

datatype main_call =
    NewAppStore | StartAppStore | NewTaskManager | StartTaskManager | NewScheduler | StartScheduler
  | Fatal | TrapExit | Listen string
  | StopTaskManager | CloseEventSource | StopScheduler | StopAppStore | Exit int

record main_errors =
  me_newStore :: "goerr option"
  me_startStore :: "goerr option"
  me_newManager :: "goerr option"
  me_startManager :: "goerr option"
  me_startScheduler :: "goerr option"

text \<open>What \<open>main\<close> calls, given the errors of these calls; \<open>Fatal\<close> ends the process.\<close>

definition agora_main :: "Config \<Rightarrow> main_errors \<Rightarrow> main_call list" where
  "agora_main config e =
     NewAppStore # (if me_newStore e \<noteq> None then [Fatal] else
     StartAppStore # NewTaskManager # (if me_newManager e \<noteq> None then [Fatal] else
     StartTaskManager # NewScheduler # StartScheduler # (if me_startScheduler e \<noteq> None then [Fatal] else
     [TrapExit, Listen (cfg_Interface config @ '':'' @ Itoa (sint (cfg_Port config)))])))"

text \<open>What the goroutine of \<open>trapExit\<close> calls once it has received an interrupt.\<close>

definition on_interrupt :: "main_call list" where
  "on_interrupt = [StopTaskManager, CloseEventSource, StopScheduler, StopAppStore, Exit 0]"

section \<open>Dispatching\<close>

lemmas dispatch_simps = agora_ServeHTTP_def EventSource_ServeHTTP_def JSONOnlyAPI_ServeHTTP_def ProxyHost_ServeHTTP_def HasPrefix_def

lemma segments_no_slash: "CHR ''/'' \<notin> set s \<Longrightarrow> segments s = [s]"
  by (induction s) auto

lemma segments_append: "CHR ''/'' \<notin> set s \<Longrightarrow> segments (s @ CHR ''/'' # t) = s # segments t"
  by (induction s) auto

text \<open>An instance of the router: the first route that matches.\<close>

definition first_match :: lookup where
  "first_match rs m path =
     (case List.find (\<lambda>(m', pat, rt). m' = m \<and> pattern_match (segments pat) (segments path) \<noteq> None) rs of
        Some (_, pat, rt) \<Rightarrow> Some (rt, the (pattern_match (segments pat) (segments path)))
      | None \<Rightarrow> None)"

lemma route_segments:
  "segments ''/favicon.ico'' = [[], ''favicon.ico'']"
  "segments ''/api/applications'' = [[], ''api'', ''applications'']"
  "segments ''/api/applications/:name'' = [[], ''api'', ''applications'', '':name'']"
  "segments ''/api/applications/:name/deploy'' = [[], ''api'', ''applications'', '':name'', ''deploy'']"
  "segments ''/api/mesos/fwid'' = [[], ''api'', ''mesos'', ''fwid'']"
  by code_simp+

lemma route_params:
  "\<not> is_param ''favicon.ico''" "\<not> is_param ''api''" "\<not> is_param ''applications''" "is_param '':name''" "\<not> is_param ''deploy''"
  "\<not> is_param ''mesos''" "\<not> is_param ''fwid''"
  by simp_all

lemma match_Cons: "pattern_match (x # xs) S = Some p \<longleftrightarrow>
   (\<exists>y ys. S = y # ys \<and> (if is_param x then y \<noteq> [] \<and> p = y \<and> pattern_match xs ys \<noteq> None else x = y \<and> pattern_match xs ys = Some p))"
  by (cases S) auto

lemma match_Nil: "pattern_match [] S = Some p \<longleftrightarrow> S = [] \<and> p = []"
  by (cases S) auto

lemmas match_simps = route_segments route_params match_Cons match_Nil is_param.simps(1)

text \<open>The paths that have a route, by method.\<close>

lemma route_match:
  "pattern_match (segments ''/favicon.ico'') S = Some p \<longleftrightarrow> S = [[], ''favicon.ico''] \<and> p = []"
  "pattern_match (segments ''/api/applications'') S = Some p \<longleftrightarrow> S = [[], ''api'', ''applications''] \<and> p = []"
  "pattern_match (segments ''/api/applications/:name'') S = Some p \<longleftrightarrow> S = [[], ''api'', ''applications'', p] \<and> p \<noteq> []"
  "pattern_match (segments ''/api/applications/:name/deploy'') S = Some p \<longleftrightarrow>
     S = [[], ''api'', ''applications'', p, ''deploy''] \<and> p \<noteq> []"
  "pattern_match (segments ''/api/mesos/fwid'') S = Some p \<longleftrightarrow> S = [[], ''api'', ''mesos'', ''fwid''] \<and> p = []"
  by (auto simp del: segments.simps pattern_match.simps is_param.simps simp: match_simps)

lemma first_match_ok: "router_ok first_match"
  unfolding router_ok_def
proof (intro allI impI)
  fix m pat rt path p
  assume r: "(m, pat, rt) \<in> set routes" and mt: "pattern_match (segments pat) (segments path) = Some p"
  define S where "S = segments path"
  have "List.find (\<lambda>(m', pat, rt). m' = m \<and> pattern_match (segments pat) S \<noteq> None) routes = Some (m, pat, rt)"
    using r mt unfolding routes_def S_def [symmetric] list.set insert_iff empty_iff prod.inject
    by (elim disjE conjE; simp del: segments.simps pattern_match.simps add: route_match)
  then show "first_match routes m path = Some (rt, p)" by (simp add: first_match_def S_def mt)
qed

text \<open>What the middlewares of other packages are documented to do for the API: an answer passes, and no file is below \<open>/api\<close>.\<close>

definition passes :: "('st handler \<Rightarrow> 'st handler) \<Rightarrow> bool" where
  "passes mw \<longleftrightarrow> (\<forall>next_handler r st a. next_handler r st = Some a \<longrightarrow> mw next_handler r st = Some a)"

definition agora_ok :: "('i, 'cur, 's, 'a) agora_env \<Rightarrow> bool" where
  "agora_ok env \<longleftrightarrow> router_ok (ag_lookup env) \<and> passes (ag_recovery env) \<and> passes (ag_logger env) \<and>
     (\<forall>next_handler r st. HasPrefix (rq_Path r) ''/api'' \<longrightarrow> ag_static env next_handler r st = next_handler r st)"

text \<open>A JSON request.\<close>

definition json_request :: "string \<Rightarrow> string \<Rightarrow> string \<Rightarrow> int64 \<Rightarrow> request" where
  "json_request m path body now =
     \<lparr>rq_Method = m, rq_Path = path, rq_ContentType = ''application/json'', rq_Accept = [], rq_Body = body, rq_Now = now\<rparr>"

abbreviation json_header :: rw_call where "json_header \<equiv> SetHeader ''Content-Type'' JSONContentType"

lemma api_dispatch:
  assumes ok: "agora_ok env" and path: "HasPrefix path ''/api''" "\<not> HasPrefix path ''/api/events''"
    and r: "(m, pat, rt) \<in> set routes" and mt: "pattern_match (segments pat) (segments path) = Some p"
    and serve: "serve_route env rt p (json_request m path body now) fw = Some (rs, fw')"
  shows "agora_ServeHTTP env (json_request m path body now) fw = Some (json_header # rs, fw')"
proof -
  let ?r = "json_request m path body now"
  have fields: "rq_Path ?r = path" "rq_Method ?r = m" "HasPrefix (rq_ContentType ?r) ''application/json''"
    by (simp_all add: json_request_def HasPrefix_def)
  have docker: "\<not> HasPrefix path ''/docker''"
  proof
    assume "HasPrefix path ''/docker''"
    then have "take 7 path = ''/docker''" by (simp add: HasPrefix_def numeral_eq_Suc)
    from arg_cong [OF this, of "take 2"] have "take 2 path = ''/d''" by simp
    moreover have "take 4 path = ''/api''" using path(1) by (simp add: HasPrefix_def numeral_eq_Suc)
    from arg_cong [OF this, of "take 2"] have "take 2 path = ''/a''" by simp
    ultimately show False by simp
  qed
  have "ag_lookup env routes m path = Some (rt, p)" using ok r mt unfolding agora_ok_def router_ok_def by blast
  then have "router_ServeHTTP env ?r fw = Some (rs, fw')" by (simp add: router_ServeHTTP_def fields serve)
  then have "ag_static env (router_ServeHTTP env) ?r fw = Some (rs, fw')" using ok path(1) by (simp add: agora_ok_def fields)
  then have "fst (ProxyHost_ServeHTTP ''/docker'' (ag_docker env) (ag_static env (router_ServeHTTP env)) ?r fw) = Some (rs, fw')"
    by (simp add: ProxyHost_ServeHTTP_def fields docker)
  then show ?thesis using ok path fields
    unfolding agora_ServeHTTP_def EventSource_ServeHTTP_def JSONOnlyAPI_ServeHTTP_def agora_ok_def passes_def by simp
qed

text \<open>The paths of the API.\<close>

lemma apps_path:
  assumes "CHR ''/'' \<notin> set name"
  shows "segments (''/api/applications/'' @ name) = [[], ''api'', ''applications'', name]"
    and "HasPrefix (''/api/applications/'' @ name) ''/api''" and "\<not> HasPrefix (''/api/applications/'' @ name) ''/api/events''"
  using segments_no_slash [OF assms] by (simp_all add: HasPrefix_def)

lemma on_store_Some:
  "fw_taskManager fw = Some tm \<Longrightarrow> f (tm_apps tm) = Some (rs, as) \<Longrightarrow>
     on_store f fw = Some (rs, fw\<lparr>fw_taskManager := Some (tm\<lparr>tm_apps := as\<rparr>)\<rparr>)"
  by (simp add: on_store_def)

lemma Save_wf:
  assumes "ax_kv env = InMemoryStore_kv it" and "ims_wf (das_store st)" and "Save env body st = Some (rs, st')"
  shows "ims_wf (das_store st')"
proof -
  have "ims_wf (das_store (save_all env as s))" if "ims_wf (das_store s)" for "as" s
    using that
  proof (induction "as" arbitrary: s)
    case (Cons a "as")
    have "ims_wf (das_store (snd (DefaultAppStore_Save (InMemoryStore_kv it) (ax_enc env) a s)))"
    proof (cases "ax_enc env a")
      case (Inr b)
      from mem.Save_app [of s "ax_enc env" a b it, OF Cons.prems Inr] show ?thesis by auto
    qed (simp add: DefaultAppStore_Save_def app_writeBytes_def Cons.prems)
    with Cons.IH assms(1) show ?case by (simp add: save_all_def)
  qed (simp add: save_all_def)
  with assms(2,3) show ?thesis
    by (auto simp: Save_def split: sum.splits prod.splits if_splits)
qed

lemma framework_eta: "fw_taskManager fw = Some tm \<Longrightarrow> fw\<lparr>fw_taskManager := Some (tm\<lparr>tm_apps := tm_apps tm\<rparr>)\<rparr> = fw"
  by (cases fw; cases tm) simp

lemma route_members:
  "(''GET'', ''/api/applications/:name'', RouteShowOne) \<in> set routes" "(''POST'', ''/api/applications'', RouteSave) \<in> set routes"
  "(''DELETE'', ''/api/applications/:name'', RouteDelete) \<in> set routes"
  by (simp_all add: routes_def)

text \<open>Posting, showing and deleting, through the whole chain.\<close>

lemma agora_post:
  assumes ok: "agora_ok env" and "fw_taskManager fw = Some tm" and "Save (ag_api env) body (tm_apps tm) = Some (rs, as)"
  shows "agora_ServeHTTP env (json_request ''POST'' ''/api/applications'' body now) fw =
    Some (json_header # rs, fw\<lparr>fw_taskManager := Some (tm\<lparr>tm_apps := as\<rparr>)\<rparr>)"
proof (rule api_dispatch [OF ok _ _ route_members(2)])
  show "pattern_match (segments ''/api/applications'') (segments ''/api/applications'') = Some []"
    by (rule route_match(2) [THEN iffD2]) (simp add: route_segments(2) del: segments.simps)
  have "rq_Body (json_request ''POST'' ''/api/applications'' body now) = body" by (simp add: json_request_def)
  then show "serve_route env RouteSave [] (json_request ''POST'' ''/api/applications'' body now) fw =
      Some (rs, fw\<lparr>fw_taskManager := Some (tm\<lparr>tm_apps := as\<rparr>)\<rparr>)"
    using assms(2,3) by (simp add: on_store_Some)
qed (simp_all add: HasPrefix_def)

lemma agora_show:
  assumes ok: "agora_ok env" and "fw_taskManager fw = Some tm" and "ShowOne (ag_api env) name (tm_apps tm) = Some rs"
    and name: "name \<noteq> []" "CHR ''/'' \<notin> set name"
  shows "agora_ServeHTTP env (json_request ''GET'' (''/api/applications/'' @ name) body now) fw = Some (json_header # rs, fw)"
proof (rule api_dispatch [OF ok apps_path(2,3) [OF name(2)] route_members(1)])
  show "pattern_match (segments ''/api/applications/:name'') (segments (''/api/applications/'' @ name)) = Some name"
    unfolding route_match(3) apps_path(1) [OF name(2)] using name(1) by simp
  show "serve_route env RouteShowOne name (json_request ''GET'' (''/api/applications/'' @ name) body now) fw = Some (rs, fw)"
    using on_store_Some [OF assms(2), of "\<lambda>as. map_option (\<lambda>rs. (rs, as)) (ShowOne (ag_api env) name as)" rs "tm_apps tm"]
      assms(3) framework_eta [OF assms(2)] by simp
qed

lemma agora_delete:
  assumes ok: "agora_ok env" and "fw_taskManager fw = Some tm" and "api_Delete (ag_api env) name (tm_apps tm) = (rs, as)"
    and name: "name \<noteq> []" "CHR ''/'' \<notin> set name"
  shows "agora_ServeHTTP env (json_request ''DELETE'' (''/api/applications/'' @ name) body now) fw =
    Some (json_header # rs, fw\<lparr>fw_taskManager := Some (tm\<lparr>tm_apps := as\<rparr>)\<rparr>)"
proof (rule api_dispatch [OF ok apps_path(2,3) [OF name(2)] route_members(3)])
  show "pattern_match (segments ''/api/applications/:name'') (segments (''/api/applications/'' @ name)) = Some name"
    unfolding route_match(3) apps_path(1) [OF name(2)] using name(1) by simp
  show "serve_route env RouteDelete name (json_request ''DELETE'' (''/api/applications/'' @ name) body now) fw =
      Some (rs, fw\<lparr>fw_taskManager := Some (tm\<lparr>tm_apps := as\<rparr>)\<rparr>)"
    using assms(2,3) by (simp add: on_store_Some)
qed

lemma Delete_then_gone:
  assumes kv: "ax_kv env = InMemoryStore_kv it" and wf: "ims_wf (das_store st)"
  shows "\<exists>st'. api_Delete env name st = ([WriteHeader 204], st') \<and> ShowOne env name st' = Some (notFound ''App'' name)"
proof -
  obtain s where s: "kv_Delete (InMemoryStore_kv it) name (das_store st) = (None, s)" "ims_wf s"
    "ims_abs s = (ims_abs (das_store st))(name := None)" using mem.Delete_ok [OF wf] by blast
  have "DefaultAppStore_Get (InMemoryStore_kv it) (ax_dec env) name (st\<lparr>das_store := s\<rparr>) = Inr None"
    using mem.Get_app_missing [of "st\<lparr>das_store := s\<rparr>" name] s by simp
  then show ?thesis using s(1) by (simp add: api_Delete_def DefaultAppStore_Delete_def ShowOne_def kv)
qed

section \<open>Properties\<close>

text \<open>C18. A session with the server, through its middlewares and its routing table: an accepted application that is posted is answered with 200
  and itself; then each of its components is shown under its id as the application that has this one component, and once
  it is deleted, the answer for that id is that there is none.\<close>

theorem agora_session:
  assumes ok: "agora_ok env" and api: "ag_api env = aenv" and tm: "fw_taskManager fw = Some tm"
    and cfg: "cfg_DockerIndex (ax_Config aenv) = Some d" and good: "\<forall>(_, c) \<in> set (ap_Components app). component_ok c"
    and req: "ax_decode aenv body = Inr app" "ax_valid aenv app = (b, None, [])" "ax_marshal aenv app = Inr data"
    and kv: "ax_kv aenv = InMemoryStore_kv it" "ims_wf (das_store (tm_apps tm))" and codec: "codec_ok (ax_enc aenv) (ax_dec aenv)"
    and ids: "distinct (map (\<lambda>(_, c). component_id (ap_Name app) c) (ap_Components app))"
    and enc: "\<forall>(_, c) \<in> set (ap_Components app). \<exists>bs. ax_enc aenv (component_manifest (ax_envs aenv) (ax_ports aenv) d (ap_Name app) c) = Inr (Some bs)"
  shows "\<exists>fw1. agora_ServeHTTP env (json_request ''POST'' ''/api/applications'' body now) fw = Some ([json_header, WriteHeader 200, Write data], fw1) \<and>
    (\<forall>(_, c) \<in> set (ap_Components app). CHR ''/'' \<notin> set (component_id (ap_Name app) c) \<longrightarrow>
       (\<exists>envs ports fw2.
          agora_ServeHTTP env (json_request ''GET'' (''/api/applications/'' @ component_id (ap_Name app) c) [] now) fw1 =
            Some ([json_header, WriteHeader 200,
              Write (case ax_marshal aenv (component_back d (ap_Name app) c envs ports) of Inl _ \<Rightarrow> [] | Inr shown \<Rightarrow> shown)], fw1) \<and>
          map_of envs = map_of (ac_Env c) \<and> map_of ports = map_of (ac_Ports c) \<and>
          agora_ServeHTTP env (json_request ''DELETE'' (''/api/applications/'' @ component_id (ap_Name app) c) [] now) fw1 =
            Some ([json_header, WriteHeader 204], fw2) \<and>
          agora_ServeHTTP env (json_request ''GET'' (''/api/applications/'' @ component_id (ap_Name app) c) [] now) fw2 =
            Some (json_header # notFound ''App'' (component_id (ap_Name app) c), fw2)))"
proof -
  obtain as1 where as1: "Save aenv body (tm_apps tm) = Some ([WriteHeader 200, Write data], as1)" and shown:
    "\<forall>(_, c) \<in> set (ap_Components app). \<exists>envs ports.
       ShowOne aenv (component_id (ap_Name app) c) as1 = Some [WriteHeader 200,
         Write (case ax_marshal aenv (component_back d (ap_Name app) c envs ports) of Inl _ \<Rightarrow> [] | Inr shown \<Rightarrow> shown)] \<and>
       map_of envs = map_of (ac_Env c) \<and> map_of ports = map_of (ac_Ports c)"
    using posted_app_is_shown [OF cfg good req kv codec ids enc] by blast
  let ?tm1 = "tm\<lparr>tm_apps := as1\<rparr>"
  let ?fw1 = "fw\<lparr>fw_taskManager := Some ?tm1\<rparr>"
  have wf1: "ims_wf (das_store as1)" by (rule Save_wf [OF kv as1])
  have tm1: "fw_taskManager ?fw1 = Some ?tm1" "tm_apps ?tm1 = as1" by simp_all
  have "\<exists>envs ports fw2.
      agora_ServeHTTP env (json_request ''GET'' (''/api/applications/'' @ n) [] now) ?fw1 =
        Some ([json_header, WriteHeader 200,
          Write (case ax_marshal aenv (component_back d (ap_Name app) c envs ports) of Inl _ \<Rightarrow> [] | Inr shown \<Rightarrow> shown)], ?fw1) \<and>
      map_of envs = map_of (ac_Env c) \<and> map_of ports = map_of (ac_Ports c) \<and>
      agora_ServeHTTP env (json_request ''DELETE'' (''/api/applications/'' @ n) [] now) ?fw1 = Some ([json_header, WriteHeader 204], fw2) \<and>
      agora_ServeHTTP env (json_request ''GET'' (''/api/applications/'' @ n) [] now) fw2 = Some (json_header # notFound ''App'' n, fw2)"
    if c: "(k, c) \<in> set (ap_Components app)" and n: "n = component_id (ap_Name app) c" and slash: "CHR ''/'' \<notin> set n" for k c n
  proof -
    have ne: "n \<noteq> []" by (simp add: n component_id_def)
    obtain envs ports where sh: "ShowOne aenv n as1 = Some [WriteHeader 200,
         Write (case ax_marshal aenv (component_back d (ap_Name app) c envs ports) of Inl _ \<Rightarrow> [] | Inr shown \<Rightarrow> shown)]"
      "map_of envs = map_of (ac_Env c)" "map_of ports = map_of (ac_Ports c)" using shown c n by blast
    obtain as2 where del: "api_Delete aenv n as1 = ([WriteHeader 204], as2)" "ShowOne aenv n as2 = Some (notFound ''App'' n)"
      using Delete_then_gone [OF kv(1) wf1] by blast
    let ?fw2 = "?fw1\<lparr>fw_taskManager := Some (?tm1\<lparr>tm_apps := as2\<rparr>)\<rparr>"
    note get = agora_show [OF ok tm1(1) _ ne slash, unfolded api tm1(2), OF sh(1)]
    note delete = agora_delete [OF ok tm1(1) _ ne slash, unfolded api tm1(2), OF del(1)]
    have apps2: "tm_apps (?tm1\<lparr>tm_apps := as2\<rparr>) = as2" by simp
    have "agora_ServeHTTP env (json_request ''GET'' (''/api/applications/'' @ n) [] now) ?fw2 = Some (json_header # notFound ''App'' n, ?fw2)"
      by (rule agora_show [OF ok _ _ ne slash, of ?fw2 "?tm1\<lparr>tm_apps := as2\<rparr>"]) (simp, simp only: api apps2 del(2))
    with get delete sh(2,3) show ?thesis by blast
  qed
  note each = this [OF _ refl]
  show ?thesis
  proof (intro exI [of _ ?fw1] conjI)
    show "agora_ServeHTTP env (json_request ''POST'' ''/api/applications'' body now) fw = Some ([json_header, WriteHeader 200, Write data], ?fw1)"
      by (rule agora_post [OF ok tm]) (simp only: api as1)
  qed (use each in fast)
qed

definition sample_agora :: "InMemoryStore api_env \<Rightarrow> (unit, unit, InMemoryStore, InMemoryStore) agora_env" where
  "sample_agora aenv = \<lparr>ag_api = aenv, ag_fenv = sample_fw_env [], ag_quote = id, ag_lookup = first_match,
     ag_unmatched = (\<lambda>r fw. Some ([WriteHeader 404], fw)), ag_events = (\<lambda>r fw. Some ([], fw)), ag_docker = (\<lambda>r fw. Some ([], fw)),
     ag_recovery = (\<lambda>h r fw. case h r fw of None \<Rightarrow> Some ([WriteHeader 500], fw) | Some a \<Rightarrow> Some a), ag_logger = (\<lambda>h. h),
     ag_static = (\<lambda>h. h)\<rparr>"

lemma sample_agora_ok: "agora_ok (sample_agora aenv)"
  by (simp add: agora_ok_def sample_agora_def first_match_ok passes_def)

theorem agora_session_witness:
  "\<exists>fw1. agora_ServeHTTP (sample_agora (sample_api [component_manifest rev rev sample_index ''shop'' sample_component] sample_index sample_app))
       (json_request ''POST'' ''/api/applications'' ''app'' 1) (sample_fw (sample_tm docker_queue)) =
       Some ([json_header, WriteHeader 200, Write ''shop''], fw1) \<and>
     agora_ServeHTTP (sample_agora (sample_api [component_manifest rev rev sample_index ''shop'' sample_component] sample_index sample_app))
       (json_request ''GET'' ''/api/applications/shop-web-1.0.0'' [] 1) fw1 =
       Some ([json_header, WriteHeader 200, Write ''shop''], fw1)"
proof -
  let ?m = "component_manifest rev rev sample_index ''shop'' sample_component"
  let ?env = "sample_api [?m] sample_index sample_app" and ?tm = "sample_tm docker_queue"
  have env: "cfg_DockerIndex (ax_Config ?env) = Some sample_index" "ax_decode ?env ''app'' = Inr sample_app"
    "ax_valid ?env sample_app = (True, None, [])" "ax_marshal ?env sample_app = Inr ''shop''" "ax_kv ?env = InMemoryStore_kv rev"
    "ax_envs ?env = rev" "ax_ports ?env = rev" "ax_enc ?env ?m = Inr (Some [0])"
    by (simp_all add: sample_api_def sample_docker_config_def App_Valid_def sample_app_simps table_enc_single)
  have codec: "codec_ok (ax_enc ?env) (ax_dec ?env)" using table_codec_ok [of "[?m]"] by (simp add: sample_api_def)
  have tm: "fw_taskManager (sample_fw ?tm) = Some ?tm" "ims_wf (das_store (tm_apps ?tm))"
    by (simp_all add: sample_fw_def NewFramework_def sample_tm_def empty_apps_wf)
  have "\<forall>(_, c) \<in> set (ap_Components sample_app). component_ok c" "distinct (map (\<lambda>(_, c). component_id (ap_Name sample_app) c) (ap_Components sample_app))"
    "\<forall>(_, c) \<in> set (ap_Components sample_app). \<exists>bs. ax_enc ?env (component_manifest (ax_envs ?env) (ax_ports ?env) sample_index (ap_Name sample_app) c) = Inr (Some bs)"
    by (simp_all add: sample_app_simps sample_component_ok env)
  from agora_session [where now = 1, OF sample_agora_ok [of ?env] _ tm(1) env(1) this(1) env(2-5) tm(2) codec this(2,3)]
  have "\<exists>fw1 envs ports. agora_ServeHTTP (sample_agora ?env) (json_request ''POST'' ''/api/applications'' ''app'' 1) (sample_fw ?tm) =
       Some ([json_header, WriteHeader 200, Write ''shop''], fw1) \<and>
     agora_ServeHTTP (sample_agora ?env) (json_request ''GET'' (''/api/applications/'' @ ''shop-web-1.0.0'') [] 1) fw1 =
       Some ([json_header, WriteHeader 200, Write (case ax_marshal ?env (component_back sample_index ''shop'' sample_component envs ports) of
         Inl _ \<Rightarrow> [] | Inr shown \<Rightarrow> shown)], fw1)"
    by (fastforce simp: sample_app_simps sample_agora_def)
  then show ?thesis by (simp add: sample_api_def component_back_def)
qed

text \<open>A request to the API that neither is JSON nor accepts it gets status 415 and changes nothing, whatever its method and path are, and
  whatever stands behind the middlewares; only the event stream is exempt.\<close>

theorem only_json_reaches_the_api:
  assumes "HasPrefix (rq_Path r) ''/api''" and "\<not> HasPrefix (rq_Path r) ''/api/events''"
    and "\<not> HasPrefix (rq_ContentType r) ''application/json''"
    and "\<not> str_contains (rq_Accept r) ''*''" and "\<not> str_contains (rq_Accept r) ''application/json''"
  shows "\<exists>rs. agora_ServeHTTP env r fw = Some (rs, fw) \<and> rw_status rs = 415"
  using assms by (simp add: agora_ServeHTTP_def EventSource_ServeHTTP_def JSONOnlyAPI_ServeHTTP_def)

theorem only_json_reaches_the_api_witness:
  "\<exists>rs. agora_ServeHTTP (sample_agora (sample_api [] sample_index sample_app))
     ((json_request ''DELETE'' ''/api/applications/web'' [] 1)\<lparr>rq_ContentType := ''text/html'', rq_Accept := ''text/html''\<rparr>)
     (sample_fw (sample_tm docker_queue)) = Some (rs, sample_fw (sample_tm docker_queue)) \<and> rw_status rs = 415"
  by (rule only_json_reaches_the_api) (simp_all add: json_request_def HasPrefix_def)

text \<open>Errors of starting the application store and the task manager are ignored: \<open>main\<close> goes on as if they had started, and
  it ends early exactly if making the store or the manager, or starting the scheduler, fails; it then stops nothing of what it started.\<close>

theorem main_ignores_start_errors:
  "agora_main config (e\<lparr>me_startStore := err1, me_startManager := err2\<rparr>) = agora_main config e \<and>
   (last (agora_main config e) = Listen (cfg_Interface config @ '':'' @ Itoa (sint (cfg_Port config))) \<longleftrightarrow>
      me_newStore e = None \<and> me_newManager e = None \<and> me_startScheduler e = None) \<and>
   set (agora_main config e) \<inter> set on_interrupt = {}"
  by (simp add: agora_main_def on_interrupt_def)

end
