(* ===== verification/TaskManagerInvariant.thy ===== *)
theory TaskManagerInvariant
  imports TaskManagerFacts
begin

text \<open>
  The task manager from \<open>NewDefaultTaskManager\<close> on: whatever calls it gets, its queue and its stores stay well formed, and only two
  kinds of calls can panic.
\<close>

section \<open>A new task manager\<close>

text \<open>\<open>queue.New\<close>: a queue without items, over the items and applications that are in memory.\<close>

definition TaskQueue_New :: "queue_mem \<Rightarrow> queue_mem option" where
  "TaskQueue_New mem = NewTaskQueueWithPrioQueue (mem\<lparr>slots := []\<rparr>)"

text \<open>\<open>context\<close> only configures the builder and the monitor, which are part of \<open>tm_env\<close>.\<close>

definition NewDefaultTaskManager ::
  "queue_mem \<Rightarrow> nat \<Rightarrow> 'a DefaultAppStore \<Rightarrow> (InMemoryStore, 'a) task_manager result option" where
  "NewDefaultTaskManager mem next appStore =
     (case TaskStore_New of
        Inl err \<Rightarrow> Some (Inl err)
      | Inr store \<Rightarrow>
          map_option (\<lambda>q. Inr \<lparr>tm_queue = q, tm_next = next, tm_tasks = store, tm_apps = appStore, tm_health = Some HealthChecker_New\<rparr>)
            (TaskQueue_New mem))"

section \<open>Calls\<close>

text \<open>The calls that change the manager; \<open>CallStatus\<close> stands for the seven status callbacks, \<open>CallForget\<close> for the staging ones.\<close>

datatype tm_call =
    CallSubmit "(Application \<times> int64) list"
  | CallSave Application
  | CallOffer string int64 Offer
  | CallStatus int64 go_time "TaskID option" AppStatus
  | CallForget "TaskID option"
  | CallFailure int64 go_time Result

fun tm_do :: "('s, 'a) tm_env \<Rightarrow> tm_call \<Rightarrow> ('s, 'a) task_manager \<Rightarrow> ('s, 'a) task_manager option" where
  "tm_do env (CallSubmit as) tm = map_option snd (SubmitApp env as tm)"
| "tm_do env (CallSave app) tm = Some (snd (SaveApp env app tm))"
| "tm_do env (CallOffer i now offer) tm = map_option snd (FulfillOffer env i now offer tm)"
| "tm_do env (CallStatus now later taskID status) tm = map_option snd (updateStatus env now later taskID status tm)"
| "tm_do env (CallForget taskID) tm = forgetTask env taskID tm"
| "tm_do env (CallFailure now later failure) tm = map_option snd (handle_failure env now later failure tm)"

text \<open>What a call brings has resources that are numbers, and room on the queue.\<close>

fun call_fits :: "tm_call \<Rightarrow> ('s, 'a) task_manager \<Rightarrow> bool" where
  "call_fits (CallSubmit as) tm \<longleftrightarrow> (\<forall>(a, _) \<in> set as. sortable (Some a)) \<and> length (slots (tm_queue tm)) + length as < 2 ^ 31"
| "call_fits (CallSave app) tm \<longleftrightarrow> sortable (Some app)"
| "call_fits (CallStatus _ _ _ _) tm \<longleftrightarrow> Suc (length (slots (tm_queue tm))) < 2 ^ 31"
| "call_fits (CallFailure _ _ _) tm \<longleftrightarrow> Suc (length (slots (tm_queue tm))) < 2 ^ 31"
| "call_fits _ tm \<longleftrightarrow> True"

inductive tm_reach :: "(InMemoryStore, InMemoryStore) tm_env \<Rightarrow> (InMemoryStore, InMemoryStore) task_manager \<Rightarrow> bool" for env where
  tm_new: "NewDefaultTaskManager mem next (AppStore_NewWithStore NewEmptyInMemoryStore) = Some (Inr tm) \<Longrightarrow> tm_reach env tm"
| tm_call: "tm_reach env tm \<Longrightarrow> call_fits c tm \<Longrightarrow> tm_do env c tm = Some tm' \<Longrightarrow> tm_reach env tm'"

section \<open>The invariant\<close>

definition env_ok :: "(InMemoryStore, InMemoryStore) tm_env \<Rightarrow> bool" where
  "env_ok env \<longleftrightarrow> (\<exists>it. e_kv env = InMemoryStore_kv it) \<and> (\<exists>it. e_akv env = InMemoryStore_kv it) \<and>
     codec_ok (e_enc env) (e_dec env) \<and> codec_ok (e_aenc env) (e_adec env)"

definition tm_ok :: "(InMemoryStore, InMemoryStore) tm_env \<Rightarrow> (InMemoryStore, InMemoryStore) task_manager \<Rightarrow> bool" where
  "tm_ok env tm \<longleftrightarrow> tm_wf tm \<and> ims_wf (dts_store (tm_tasks tm)) \<and> ims_wf (das_store (tm_apps tm)) \<and>
     (\<forall>k app. DefaultAppStore_Get (e_akv env) (e_adec env) k (tm_apps tm) = Inr (Some app) \<longrightarrow> sortable (Some app))"

lemma tm_ok_queue:
  assumes "tm_ok env tm" and "tm_wf tm'" and "tm_tasks tm' = tm_tasks tm" and "tm_apps tm' = tm_apps tm"
  shows "tm_ok env tm'"
  using assms by (simp add: tm_ok_def)

lemma tm_ok_room: "tm_ok env tm \<Longrightarrow> Suc (length (slots (tm_queue tm))) < 2 ^ 31 \<Longrightarrow> tm_room env tm"
  by (auto simp: tm_ok_def tm_room_def)

lemma ims_empty: "ims_wf NewEmptyInMemoryStore" "ims_abs NewEmptyInMemoryStore k = None"
  by (simp_all add: NewEmptyInMemoryStore_def ims_wf_def ims_abs_def)

lemma app_Get_iff:
  assumes "ims_wf (das_store a)"
  shows "DefaultAppStore_Get (InMemoryStore_kv it) dec k a = Inr (Some app) \<longleftrightarrow>
    (\<exists>bs. ims_abs (das_store a) k = Some (Some bs) \<and> dec (Some bs) = Inr app)"
proof (cases "ims_abs (das_store a) k")
  case None
  then show ?thesis using mem.Get_app_missing [of a k, OF assms] by simp
next
  case (Some v)
  show ?thesis
  proof (cases v)
    case None
    with Some show ?thesis
      by (simp add: DefaultAppStore_Get_def iface_simps InMemoryStore_Get_def ims_index_def ims_abs_def split: option.splits)
  next
    case (Some bs)
    with \<open>ims_abs (das_store a) k = Some v\<close> show ?thesis
      using mem.Get_app_present [of a k bs, OF assms] by (cases "dec (Some bs)") auto
  qed
qed

lemma TaskQueue_New_ok: "\<exists>q. TaskQueue_New mem = Some q \<and> slots q = []"
  by (simp add: TaskQueue_New_def NewTaskQueueWithPrioQueue_def heap_Init_def PrioQueue_Len_def)

lemma New_ok:
  assumes "env_ok env" and "NewDefaultTaskManager mem next (AppStore_NewWithStore NewEmptyInMemoryStore) = Some (Inr tm)"
  shows "tm_ok env tm"
proof -
  obtain q where "TaskQueue_New mem = Some q" "slots q = []" using TaskQueue_New_ok by blast
  then have "slots (tm_queue tm) = []" "tm_tasks tm = \<lparr>dts_store = NewEmptyInMemoryStore, dts_runningAppsCount = 0\<rparr>"
    "tm_apps tm = AppStore_NewWithStore NewEmptyInMemoryStore"
    using assms(2) by (auto simp: NewDefaultTaskManager_def TaskStore_New_def)
  with assms(1) show ?thesis
    by (auto simp: tm_ok_def env_ok_def tm_wf_def queue_wf_def queue_core_def positions_ok_def app_Get_iff ims_empty
        AppStore_NewWithStore_def)
qed

lemma submit_loop_wf:
  "tm_wf tm \<Longrightarrow> var < tm_next tm \<Longrightarrow> \<forall>(a, _) \<in> set as. sortable (Some a) \<Longrightarrow>
     length (slots (tm_queue tm)) + length as < 2 ^ 31 \<Longrightarrow>
     \<exists>tm'. submit_loop env var as tm = Some tm' \<and> tm_wf tm' \<and> tm_tasks tm' = tm_tasks tm \<and> tm_apps tm' = tm_apps tm"
proof (induction "as" arbitrary: tm)
  case (Cons x rest)
  obtain a now where x: "x = (a, now)" by fastforce
  let ?tm1 = "tm\<lparr>tm_queue := (tm_queue tm)\<lparr>apps := (apps (tm_queue tm))(var := a)\<rparr>\<rparr>"
  have srt: "sortable (Some a)" using Cons.prems(3) by (simp add: x)
  have wf1: "tm_wf ?tm1" using tm_wf_set_app [OF Cons.prems(1) srt order_refl, of var] by simp
  have "\<exists>tm2. scheduleAppForDeployment env now var ?tm1 = Some tm2 \<and> tm_wf tm2 \<and> var < tm_next tm2 \<and>
      length (slots (tm_queue tm2)) \<le> Suc (length (slots (tm_queue tm))) \<and> tm_tasks tm2 = tm_tasks tm \<and> tm_apps tm2 = tm_apps tm"
  proof (cases "mon_CanDeploy (e_sla env) (Some (apps (tm_queue ?tm1) var)) ?tm1")
    case True
    obtain q' where q': "scheduleAppForDeployment env now var ?tm1 = Some (?tm1\<lparr>tm_queue := q', tm_next := Suc (tm_next ?tm1)\<rparr>)"
      "tm_wf (?tm1\<lparr>tm_queue := q', tm_next := Suc (tm_next ?tm1)\<rparr>)"
      "mset (slots q') = add_mset (tm_next ?tm1) (mset (slots (tm_queue ?tm1)))"
      using schedule_ok [OF wf1 _ _ _ True, of now] Cons.prems(2,4) srt by auto
    from arg_cong [OF q'(3), of size] have "length (slots q') = Suc (length (slots (tm_queue tm)))" by simp
    with q'(1,2) Cons.prems(2) show ?thesis by auto
  next
    case False
    from schedule_refused [OF this] show ?thesis using wf1 Cons.prems(2) by auto
  qed
  then obtain tm2 where "scheduleAppForDeployment env now var ?tm1 = Some tm2" "tm_wf tm2" "var < tm_next tm2"
    "length (slots (tm_queue tm2)) \<le> Suc (length (slots (tm_queue tm)))" "tm_tasks tm2 = tm_tasks tm" "tm_apps tm2 = tm_apps tm" by blast
  with Cons.IH [of tm2] Cons.prems(3,4) show ?case by (auto simp: x Let_def)
qed simp

lemma Submit_ok:
  assumes "tm_ok env tm" and "call_fits (CallSubmit as) tm"
  shows "\<exists>tm'. tm_do env (CallSubmit as) tm = Some tm' \<and> tm_ok env tm'"
proof -
  have "tm_wf (tm\<lparr>tm_next := Suc (tm_next tm)\<rparr>)" using assms(1) by (auto simp: tm_ok_def tm_wf_def less_Suc_eq)
  from submit_loop_wf [OF this, of "tm_next tm" "as" env] assms show ?thesis
    by (auto simp: SubmitApp_def tm_ok_def)
qed

lemma Save_ok:
  assumes env: "env_ok env" and ok: "tm_ok env tm" and srt: "sortable (Some app)"
  shows "tm_ok env (snd (SaveApp env app tm))"
proof (cases "e_aenc env app")
  case (Inl err)
  then show ?thesis using ok
    by (simp add: SaveApp_def DefaultAppStore_Save_def app_writeBytes_def tm_ok_def tm_wf_def)
next
  case (Inr b)
  obtain it where kv: "e_akv env = InMemoryStore_kv it" using env by (auto simp: env_ok_def)
  have wf: "ims_wf (das_store (tm_apps tm))" using ok by (simp add: tm_ok_def)
  obtain a' where a': "DefaultAppStore_Save (InMemoryStore_kv it) (e_aenc env) app (tm_apps tm) = (None, a')" "ims_wf (das_store a')"
    "ims_abs (das_store a') = (ims_abs (das_store (tm_apps tm)))(Application_GetId (Some app) \<mapsto> b)"
    using mem.Save_app [of "tm_apps tm", OF wf, of "e_aenc env" app b, OF Inr] by blast
  have "e_adec env b = Inr app" using env Inr by (auto simp: env_ok_def codec_ok_def)
  then have "sortable (Some x)" if "DefaultAppStore_Get (e_akv env) (e_adec env) k a' = Inr (Some x)" for k x
    using that srt ok unfolding kv tm_ok_def app_Get_iff [OF a'(2)] app_Get_iff [OF wf]
    by (auto simp: a'(3) split: if_splits)
  with ok a'(1,2) kv show ?thesis by (auto simp: SaveApp_def tm_ok_def tm_wf_def)
qed

lemma Save_task_wf:
  assumes env: "env_ok env" and "ims_wf (dts_store ts)"
  shows "ims_wf (dts_store (snd (DefaultTaskStore_Save (e_kv env) (e_enc env) d ts)))"
proof (cases "e_enc env d")
  case (Inl err)
  then show ?thesis using assms(2) by (simp add: DefaultTaskStore_Save_def task_writeBytes_def)
next
  case (Inr b)
  obtain it where kv: "e_kv env = InMemoryStore_kv it" using env by (auto simp: env_ok_def)
  from mem.Save_task [of ts, OF assms(2), of "e_enc env" d b, OF Inr, of it] show ?thesis unfolding kv by (elim exE conjE) simp
qed

lemma Offer_ok:
  assumes env: "env_ok env" and ok: "tm_ok env tm" and run: "FulfillOffer env i now offer tm = Some (ts, tm')"
  shows "tm_ok env tm'"
proof -
  let ?P = "\<lambda>q i. fitsInOffer offer (deref_app q (sa_App (sas q i)))"
  have wf: "tm_wf tm" and wfq: "queue_wf (tm_queue tm)" using ok by (simp_all add: tm_ok_def tm_wf_def)
  have taken: "tm_wf tm1 \<and> tm_tasks tm1 = tm_tasks tm \<and> tm_apps tm1 = tm_apps tm"
    if take: "take_fitting env offer tm = Some (item, tm1)" for item tm1
  proof (cases "tm1 = tm")
    case False
    with take obtain q where q: "DequeueFirst ?P (tm_queue tm) = Some (item, q)" "tm1 = tm\<lparr>tm_queue := q\<rparr>"
      by (auto simp: take_fitting_def split: if_splits)
    show ?thesis
    proof (cases "List.find (?P (tm_queue tm)) (slots (tm_queue tm))")
      case None
      then have "tm1 = tm" using q by (simp add: DequeueFirst_def)
      then show ?thesis using wf by simp
    next
      case (Some it)
      from DequeueFirst_ok [OF wfq, of ?P, OF Some] q(1) have q': "queue_wf q" "queue_frame q = queue_frame (tm_queue tm)"
        "add_mset (queue_entry (tm_queue tm) it) (mset (entries q)) = mset (entries (tm_queue tm))" by auto
      have "mset (slots (tm_queue tm)) = add_mset it (mset (slots q))" unfolding mset_entries_slots q'(3) [symmetric] by simp
      then have "set (slots q) \<subseteq> set (slots (tm_queue tm))" by (metis set_mset_mset set_mset_add_mset_insert subset_insertI)
      moreover have "sa_App (sas q i) = sa_App (sas (tm_queue tm) i)" for i using queue_frame_eqD [OF q'(2)] by simp
      ultimately show ?thesis using wf q'(1) q(2) by (auto simp: tm_wf_def)
    qed
  qed (use wf in simp)
  obtain item tm1 where take: "take_fitting env offer tm = Some (item, tm1)"
    using run by (auto simp: FulfillOffer_def split: option.splits)
  note t = taken [OF take]
  show ?thesis
  proof (cases item)
    case None
    then have "tm' = tm1" using run take by (simp add: FulfillOffer_def)
    then show ?thesis using tm_ok_queue [OF ok, of tm1] t by simp
  next
    case (Some it)
    then obtain d r x where "DefaultTaskStore_Save (e_kv env) (e_enc env) d (tm_tasks tm1) = (r, x)" "tm' = tm1\<lparr>tm_tasks := x\<rparr>"
      using run take by (auto simp: FulfillOffer_def Let_def split: option.splits prod.splits)
    then show ?thesis using t ok Save_task_wf [OF env, of "tm_tasks tm1" d] by (simp add: tm_ok_def tm_wf_def)
  qed
qed

lemma map_sum_Some_cases:
  assumes "\<And>e. (case x of None \<Rightarrow> map_sum id Some y | Some v \<Rightarrow> map_sum id Some (f v)) = Inl e \<Longrightarrow> thesis"
    and "\<And>d. (case x of None \<Rightarrow> map_sum id Some y | Some v \<Rightarrow> map_sum id Some (f v)) = Inr (Some d) \<Longrightarrow> thesis"
  shows thesis
proof (cases x)
  case None
  then show thesis using assms by (cases y) auto
next
  case (Some v)
  then show thesis using assms by (cases "f v") auto
qed

lemma Status_ok:
  assumes env: "env_ok env" and ok: "tm_ok env tm" and room: "Suc (length (slots (tm_queue tm))) < 2 ^ 31"
  shows "\<exists>r tm'. updateStatus env now later taskID status tm = Some (r, tm') \<and> tm_ok env tm'"
proof -
  let ?get = "DefaultTaskStore_Get (e_kv env) (e_dec env) (TaskID_GetValue taskID) (tm_tasks tm)"
  obtain it where kv: "e_kv env = InMemoryStore_kv it" using env by (auto simp: env_ok_def)
  have wf: "tm_wf tm" "ims_wf (dts_store (tm_tasks tm))" using ok by (simp_all add: tm_ok_def)
  consider (error) err where "?get = Inl err" | (found) d where "?get = Inr (Some d)"
    unfolding kv ims_Get by (rule map_sum_Some_cases)
  then show ?thesis
  proof cases
    case error
    then show ?thesis using ok by (simp add: updateStatus_def)
  next
    case found
    obtain r ts where save: "DefaultTaskStore_Save (e_kv env) (e_enc env) (d\<lparr>dep_Status := Some status\<rparr>) (tm_tasks tm) = (r, ts)"
      by fastforce
    then have "ims_wf (dts_store ts)" using Save_task_wf [OF env wf(2), of "d\<lparr>dep_Status := Some status\<rparr>"] by simp
    then show ?thesis
    proof (cases r)
      case None
      with updateStatus_tail [OF wf(1) tm_ok_room [OF ok room] found] save \<open>ims_wf (dts_store ts)\<close> ok show ?thesis
        by (fastforce simp: tm_ok_def)
    next
      case (Some err)
      with found save ok \<open>ims_wf (dts_store ts)\<close> show ?thesis by (simp add: updateStatus_def tm_ok_def tm_wf_def)
    qed
  qed
qed

lemma Forget_ok:
  assumes env: "env_ok env" and ok: "tm_ok env tm"
  shows "\<exists>tm'. forgetTask env taskID tm = Some tm' \<and> tm_ok env tm'"
proof -
  obtain it where kv: "e_kv env = InMemoryStore_kv it" using env by (auto simp: env_ok_def)
  have wf: "ims_wf (dts_store (tm_tasks tm))" using ok by (simp add: tm_ok_def)
  obtain tm' where f: "forgetTask env taskID tm = Some tm'" "ims_wf (dts_store (tm_tasks tm'))" "tm_queue tm' = tm_queue tm"
    "tm_next tm' = tm_next tm" using forgetTask_ok [OF kv wf, of taskID] by blast
  moreover from f(1) have "tm_apps tm' = tm_apps tm"
    by (auto simp: forgetTask_def Let_def split: option.splits prod.splits)
  ultimately show ?thesis using ok by (simp add: tm_ok_def tm_wf_def)
qed

text \<open>A call that fits keeps the invariant; if it is not an offer, it returns.\<close>

lemma tm_do_ok:
  assumes env: "env_ok env" and ok: "tm_ok env tm" and fits: "call_fits c tm" and no: "\<forall>i now offer. c \<noteq> CallOffer i now offer"
  shows "\<exists>tm'. tm_do env c tm = Some tm' \<and> tm_ok env tm'"
proof (cases c)
  case (CallSubmit xs)
  with Submit_ok [OF ok] fits show ?thesis by simp
next
  case (CallSave app)
  with Save_ok [OF env ok] fits show ?thesis by simp
next
  case (CallOffer i now offer)
  with no show ?thesis by simp
next
  case (CallStatus now later taskID status)
  with Status_ok [OF env ok, of now later taskID status] fits show ?thesis by auto
next
  case (CallForget taskID)
  with Forget_ok [OF env ok] show ?thesis by simp
next
  case (CallFailure now later failure)
  have room: "Suc (length (slots (tm_queue tm))) < 2 ^ 31" using fits CallFailure by simp
  show ?thesis
  proof (cases "\<exists>d. DefaultTaskStore_Get (e_kv env) (e_dec env) (r_ID failure) (tm_tasks tm) = Inr (Some d)")
    case True
    then obtain d where d: "DefaultTaskStore_Get (e_kv env) (e_dec env) (r_ID failure) (tm_tasks tm) = Inr (Some d)" by blast
    obtain r tm' where "updateStatus env now later (Deployment_GetTaskId (Some d)) AppStatus_UNHEALTHY tm = Some (r, tm')" "tm_ok env tm'"
      using Status_ok [OF env ok room] by blast
    with d CallFailure show ?thesis by (simp add: handle_failure_def)
  next
    case False
    then have "handle_failure env now later failure tm = Some ([], tm)"
      by (auto simp: handle_failure_def split: sum.split option.split)
    with ok CallFailure show ?thesis by simp
  qed
qed

lemma tm_reach_ok:
  assumes "tm_reach env tm" and env: "env_ok env"
  shows "tm_ok env tm"
  using assms(1)
proof induction
  case (tm_new mem n tm)
  then show ?case by (rule New_ok [OF env])
next
  case (tm_call tm c tm')
  show ?case
  proof (cases "\<exists>i now offer. c = CallOffer i now offer")
    case True
    with tm_call show ?thesis using Offer_ok [OF env] by (auto split: prod.splits)
  next
    case False
    with tm_do_ok [OF env tm_call.IH tm_call.hyps(2)] tm_call.hyps(3) show ?thesis by auto
  qed
qed

section \<open>Properties\<close>

text \<open>C36. The task manager stays well formed: whatever it was called with since it was made, its queue holds distinct items
  at the positions they record, each with an application that can be compared, the addresses in use are below the next
  one, both stores are well formed, and every call that fits, other than an offer, returns, whatever the stores
  answer.\<close>

theorem task_manager_stays_well_formed:
  assumes "env_ok env" and "tm_reach env tm"
  shows "tm_wf tm \<and> ims_wf (dts_store (tm_tasks tm)) \<and> ims_wf (das_store (tm_apps tm)) \<and>
    (\<forall>c. call_fits c tm \<longrightarrow> (\<forall>i now offer. c \<noteq> CallOffer i now offer) \<longrightarrow> (\<exists>tm'. tm_do env c tm = Some tm' \<and> tm_reach env tm'))"
proof -
  have ok: "tm_ok env tm" by (rule tm_reach_ok [OF assms(2,1)])
  moreover have "\<exists>tm'. tm_do env c tm = Some tm' \<and> tm_reach env tm'"
    if "call_fits c tm" "\<forall>i now offer. c \<noteq> CallOffer i now offer" for c
    using tm_do_ok [OF assms(1) ok that] tm_reach.tm_call [OF assms(2) that(1)] by blast
  ultimately show ?thesis by (auto simp: tm_ok_def)
qed

theorem task_manager_stays_well_formed_witness:
  "\<exists>tm tm'. tm_reach (sample_env []) tm \<and> tm_do (sample_env []) (CallSubmit [(docker_app, 1), (docker_app, 2)]) tm = Some tm' \<and> tm_wf tm'"
proof -
  let ?env = "sample_env []"
  have env: "env_ok ?env" by (auto simp: env_ok_def sample_env_def codec_ok_def table_enc_def)
  obtain q where q: "TaskQueue_New empty_queue = Some q" "slots q = []" using TaskQueue_New_ok by blast
  let ?tm = "\<lparr>tm_queue = q, tm_next = 1, tm_tasks = \<lparr>dts_store = NewEmptyInMemoryStore, dts_runningAppsCount = 0\<rparr>,
    tm_apps = AppStore_NewWithStore NewEmptyInMemoryStore, tm_health = Some HealthChecker_New\<rparr>"
  have r: "tm_reach ?env ?tm"
    by (rule tm_reach.tm_new [of empty_queue 1]) (simp add: NewDefaultTaskManager_def TaskStore_New_def q(1))
  have "call_fits (CallSubmit [(docker_app, 1), (docker_app, 2)]) ?tm" using q(2) by (simp add: sortable_docker)
  with task_manager_stays_well_formed [OF env r] obtain tm' where
    "tm_do ?env (CallSubmit [(docker_app, 1), (docker_app, 2)]) ?tm = Some tm'" "tm_reach ?env tm'" by blast
  moreover from task_manager_stays_well_formed [OF env this(2)] have "tm_wf tm'" by blast
  ultimately show ?thesis using r by blast
qed

end
