(* ===== verification/EndToEnd.thy ===== *)
theory EndToEnd
  imports Agora TaskManagerInvariant
begin

text \<open>
  The components together: an application that is stored is deployed through the HTTP API, queued by the task manager, launched for an
  offer of Mesos, and recorded as started when Mesos reports that it runs.
\<close>

section \<open>What the steps leave alone\<close>

lemma FulfillOffer_apps:
  assumes "FulfillOffer env i now offer tm = Some (ts, tm')"
  shows "tm_apps tm' = tm_apps tm"
  using assms by (auto simp: FulfillOffer_def take_fitting_def Let_def split: option.splits prod.splits if_splits)

text \<open>Submitting one application to an empty queue, when the monitor lets it have an instance.\<close>

lemma SubmitApp_one:
  assumes can: "\<And>t. mon_CanDeploy (e_sla env) (Some a) t" and wf: "tm_wf tm" and empty: "slots (tm_queue tm) = []" and srt: "sortable (Some a)"
  shows "\<exists>tm' i. SubmitApp env [(a, now)] tm = Some (None, tm') \<and> tm_wf tm' \<and> slots (tm_queue tm') = [i] \<and>
    sa_AppId (sas (tm_queue tm') i) = app_Id a \<and> deref_app (tm_queue tm') (sa_App (sas (tm_queue tm') i)) = Some a \<and>
    tm_tasks tm' = tm_tasks tm \<and> tm_apps tm' = tm_apps tm"
proof -
  let ?v = "tm_next tm"
  let ?tm = "tm\<lparr>tm_next := Suc ?v, tm_queue := (tm_queue tm)\<lparr>apps := (apps (tm_queue tm))(?v := a)\<rparr>\<rparr>"
  have wf1: "tm_wf ?tm" using tm_wf_set_app [OF wf srt, of "Suc ?v" ?v] by (simp add: tm_wf_def)
  obtain q' where q': "scheduleAppForDeployment env now ?v ?tm = Some (?tm\<lparr>tm_queue := q', tm_next := Suc (Suc ?v)\<rparr>)"
    "tm_wf (?tm\<lparr>tm_queue := q', tm_next := Suc (Suc ?v)\<rparr>)" "apps q' = (apps (tm_queue tm))(?v := a)"
    "mset (slots q') = {#Suc ?v#}" "item_ref q' (Suc ?v) = (app_Id a, Some ?v)"
    using schedule_ok [OF wf1, of ?v env now] srt can empty by auto
  then show ?thesis
    by (intro exI [of _ "?tm\<lparr>tm_queue := q', tm_next := Suc (Suc ?v)\<rparr>"] exI [of _ "Suc ?v"])
       (simp add: SubmitApp_def Let_def item_ref_def deref_app_def)
qed

text \<open>Submitting with any monitor: the queue or the refusal of the monitor, but no panic.\<close>

lemma SubmitApp_returns:
  assumes wf: "tm_wf tm" and srt: "sortable (Some a)" and room: "Suc (length (slots (tm_queue tm))) < 2 ^ 31"
  shows "\<exists>tm'. SubmitApp env [(a, now)] tm = Some (None, tm')"
proof -
  have wf1: "tm_wf (tm\<lparr>tm_next := Suc (tm_next tm)\<rparr>)" using wf by (auto simp: tm_wf_def less_Suc_eq)
  obtain tm' where "submit_loop env (tm_next tm) [(a, now)] (tm\<lparr>tm_next := Suc (tm_next tm)\<rparr>) = Some tm'"
    using submit_loop_wf [OF wf1, of "tm_next tm" "[(a, now)]" env] srt room by auto
  then show ?thesis by (simp add: SubmitApp_def del: submit_loop.simps)
qed

text \<open>With the monitor that the program is put together with, offers are only declined.\<close>

definition wired :: "('s, 'a) tm_env \<Rightarrow> ('s, 'a) tm_env" where
  "wired tenv = tenv\<lparr>e_sla := simple_monitor (e_kv tenv) (e_dec tenv)\<rparr>"

definition all_declined :: "('i, 'cur, 'm) fw_env \<Rightarrow> ('i, 'cur, 'm) Framework \<Rightarrow> bool" where
  "all_declined env fw \<longleftrightarrow> (\<forall>offers. ResourceOffers env offers fw =
     Some (fw\<lparr>fw_calls := fw_calls fw @ map (\<lambda>(offer, _, _). DeclineOffer (off_Id offer)) offers\<rparr>))"

lemma wired_declines: "fe_tm env = DefaultTaskManager_methods (wired tenv) \<Longrightarrow> all_declined env fw"
  unfolding all_declined_def
  by (subst ResourceOffers_declined)
     (simp_all add: DefaultTaskManager_methods_def wired_def FulfillOffer_never_launches case_prod_unfold)

lemma wired_same:
  "tm_recorded (wired tenv) = tm_recorded tenv" "tm_keyed (wired tenv) = tm_keyed tenv" "tm_room (wired tenv) = tm_room tenv"
  "tm_encodes (wired tenv) = tm_encodes tenv" "e_kv (wired tenv) = e_kv tenv"
  by (simp_all add: wired_def fun_eq_iff tm_recorded_def tm_keyed_def tm_room_def tm_encodes_def)

lemma route_deploy: "(''POST'', ''/api/applications/:name/deploy'', RouteDeploy) \<in> set routes"
  by (simp add: routes_def)

lemma deploy_path:
  assumes "CHR ''/'' \<notin> set name"
  shows "segments (''/api/applications/'' @ name @ ''/deploy'') = [[], ''api'', ''applications'', name, ''deploy'']"
    and "HasPrefix (''/api/applications/'' @ name @ ''/deploy'') ''/api''"
    and "\<not> HasPrefix (''/api/applications/'' @ name @ ''/deploy'') ''/api/events''"
  using segments_append [OF assms, of "''deploy''"] by (simp_all add: HasPrefix_def)

text \<open>A deploy request at its route, and through the chain.\<close>

lemma serve_deploy:
  assumes tm: "fw_taskManager fw = Some tm" and fe: "fe_tm (ag_fenv env) = DefaultTaskManager_methods tenv"
    and stored: "DefaultAppStore_Get (ax_kv (ag_api env)) (ax_dec (ag_api env)) name (tm_apps tm) = Inr (Some a)"
    and sub: "SubmitApp tenv [(a, rq_Now r)] tm = Some (e, tm')"
  shows "\<exists>rs. serve_route env RouteDeploy name r fw = Some (rs, fw\<lparr>fw_taskManager := Some tm'\<rparr>) \<and> rw_status rs = 202"
proof -
  have "Framework_SubmitApp (ag_fenv env) [(a, rq_Now r)] fw = Some (e, fw\<lparr>fw_taskManager := Some tm'\<rparr>)"
    using sub by (simp add: Framework_SubmitApp_def tm fe iface_simps)
  moreover obtain app' where "converted (ag_api env) (Some a) = Some app'" by (simp add: converted_def FromAppManifest_def)
  ultimately show ?thesis using stored tm by (simp add: Deploy_def write_app_def)
qed

lemma agora_deploy:
  assumes ok: "agora_ok env" and tm: "fw_taskManager fw = Some tm" and fe: "fe_tm (ag_fenv env) = DefaultTaskManager_methods tenv"
    and name: "name \<noteq> []" "CHR ''/'' \<notin> set name"
    and stored: "DefaultAppStore_Get (ax_kv (ag_api env)) (ax_dec (ag_api env)) name (tm_apps tm) = Inr (Some a)"
    and sub: "SubmitApp tenv [(a, now)] tm = Some (r, tm')"
  shows "\<exists>rs. agora_ServeHTTP env (json_request ''POST'' (''/api/applications/'' @ name @ ''/deploy'') body now) fw =
      Some (rs, fw\<lparr>fw_taskManager := Some tm'\<rparr>) \<and> rw_status rs = 202"
proof -
  let ?r = "json_request ''POST'' (''/api/applications/'' @ name @ ''/deploy'') body now"
  have "rq_Now ?r = now" by (simp add: json_request_def)
  with serve_deploy [OF tm fe stored, of ?r] sub
  obtain rs where rs: "serve_route env RouteDeploy name ?r fw = Some (rs, fw\<lparr>fw_taskManager := Some tm'\<rparr>)" "rw_status rs = 202" by auto
  have "agora_ServeHTTP env ?r fw = Some (json_header # rs, fw\<lparr>fw_taskManager := Some tm'\<rparr>)"
  proof (rule api_dispatch [OF ok deploy_path(2,3) [OF name(2)] route_deploy _ rs(1)])
    show "pattern_match (segments ''/api/applications/:name/deploy'') (segments (''/api/applications/'' @ name @ ''/deploy'')) = Some name"
      unfolding route_match(4) deploy_path(1) [OF name(2)] using name(1) by simp
  qed
  then show ?thesis using rs(2) by simp
qed

text \<open>Launching the one item of the queue for an offer it fits.\<close>

lemma launch_one:
  assumes can: "mon_CanDeploy (e_sla tenv) None tm" and kv: "e_kv tenv = InMemoryStore_kv it"
    and fe: "fe_tm fenv = DefaultTaskManager_methods tenv" and fw: "fw_taskManager fw = Some tm"
    and tm: "tm_wf tm" "tm_keyed tenv tm" "slots (tm_queue tm) = [item]"
    and item: "sa_AppId (sas (tm_queue tm) item) = app_Id a" "deref_app (tm_queue tm) (sa_App (sas (tm_queue tm) item)) = Some a"
    and fits: "fitsInOffer offer (Some a)"
    and build: "BuildTaskInfo (e_getPorts tenv) (e_scalar tenv) i offer (Some a) (ScheduledApp_zero\<lparr>sa_AppId := app_Id a\<rparr>) = Some (task, pm)"
    and d: "d = \<lparr>dep_AppId = Some (Application_GetId (Some a)), dep_TaskId = ti_TaskId task, dep_Status = Some AppStatus_DEPLOYING,
                  dep_DeployedAt = Some now, dep_Slave = off_SlaveId offer, dep_HostName = off_Hostname offer, dep_PortMapping = pm\<rparr>"
    and enc: "tm_encodes tenv d"
  shows "\<exists>tm' fw'. ResourceOffers fenv [(offer, i, now)] fw = Some fw' \<and> fw_taskManager fw' = Some tm' \<and>
    fw_calls fw' = fw_calls fw @ [LaunchTasks (off_Id offer) [task]] \<and> tm_wf tm' \<and> tm_keyed tenv tm' \<and> slots (tm_queue tm') = [] \<and>
    tm_recorded tenv tm' = (tm_recorded tenv tm)(TaskID_GetValue (ti_TaskId task) \<mapsto> d) \<and> tm_apps tm' = tm_apps tm"
proof -
  let ?q = "tm_queue tm"
  have ims: "ims_wf (dts_store (tm_tasks tm))" "codec_ok (e_enc tenv) (e_dec tenv)" using tm(2) by (simp_all add: tm_keyed_def)
  have id: "ScheduledApp_GetAppId (Some (sas ?q item)) = Application_GetId (Some a)"
    by (simp add: ScheduledApp_GetAppId_def Application_GetId_def item(1))
  have tid: "ti_TaskId task = Some \<lparr>tid_Value = Some (''exeggutor-task-'' @ i)\<rparr>"
    using build by (auto simp: BuildTaskInfo_def split: option.splits prod.splits)
  have build1: "BuildTaskInfo (e_getPorts tenv) (e_scalar tenv) i offer (deref_app ?q (sa_App (sas ?q item))) (sas ?q item) = Some (task, pm)"
    using build BuildTaskInfo_AppId [of "sas ?q item" "ScheduledApp_zero\<lparr>sa_AppId := app_Id a\<rparr>"]
    by (simp add: item ScheduledApp_GetAppId_def)
  have find: "List.find (\<lambda>i. fitsInOffer offer (deref_app ?q (sa_App (sas ?q i)))) (slots ?q) = Some item"
    by (simp add: tm(3) item(2) fits)
  have d1: "d = \<lparr>dep_AppId = Some (ScheduledApp_GetAppId (Some (sas ?q item))), dep_TaskId = Some \<lparr>tid_Value = Some (''exeggutor-task-'' @ i)\<rparr>,
      dep_Status = Some AppStatus_DEPLOYING, dep_DeployedAt = Some now, dep_Slave = off_SlaveId offer, dep_HostName = off_Hostname offer,
      dep_PortMapping = pm\<rparr>" by (simp add: d id tid)
  obtain b where b: "e_enc tenv d = Inr b" using enc by (auto simp: tm_encodes_def)
  obtain tm' where f: "FulfillOffer tenv i now offer tm = Some ([task], tm')" "tm_wf tm'" "mset (slots ?q) = add_mset item (mset (slots (tm_queue tm')))"
    "DefaultTaskStore_Get (e_kv tenv) (e_dec tenv) (''exeggutor-task-'' @ i) (tm_tasks tm') = Inr (Some d)"
    using FulfillOffer_ok [OF can tm(1) kv ims refl find build1 d1] b by auto
  have l: "tm_keyed tenv tm'" "launched i offer (tm_recorded tenv tm) [task] (tm_recorded tenv tm')"
    using FulfillOffer_launched [OF kv tm(2) f(1)] by simp_all
  then obtain d' where d': "tm_recorded tenv tm' = (tm_recorded tenv tm)(''exeggutor-task-'' @ i \<mapsto> d')" by (auto simp: launched_def)
  then have "DefaultTaskStore_Get (InMemoryStore_kv it) (e_dec tenv) (''exeggutor-task-'' @ i) (tm_tasks tm') = Inr (Some d')"
    by (intro recorded_Get) simp
  then have "d' = d" using f(4) kv by simp
  moreover have "slots (tm_queue tm') = []" using f(3) tm(3) by simp
  ultimately show ?thesis using f l d' FulfillOffer_apps [OF f(1)] fw
    by (simp add: answer_offer_def fe iface_simps TaskID_GetValue_def tid)
qed

section \<open>Properties\<close>

text \<open>C1. From the API to a running task. Suppose the SLA monitor lets the application have another instance and, since \<open>FulfillOffer\<close> asks
  before it has taken an item, lets no application have one; nothing else is queued; and a task can be built for the offer. Then a request to
  deploy the stored application is answered with 202, the next offer it fits is answered with the launch of its task, which is recorded as
  deploying, and when Mesos reports that the task runs, its deployment is recorded as started and no other deployment has changed.
  With the monitor that \<open>main.go\<close> puts into the program (\<open>wired\<close>) the same request is answered with 202 all the same, but every
  offer that follows is declined: the application never runs.\<close>

theorem deployed_app_runs_if_granted:
  assumes ok: "agora_ok env" and fe: "fe_tm (ag_fenv env) = DefaultTaskManager_methods tenv"
    and granted: "\<forall>t. mon_CanDeploy (e_sla tenv) (Some a) t" "\<forall>t. mon_CanDeploy (e_sla tenv) None t"
    and wired: "agora_ok env'" "ag_api env' = ag_api env" "fe_tm (ag_fenv env') = DefaultTaskManager_methods (wired tenv)"
    and kv: "e_kv tenv = InMemoryStore_kv it"
    and fw: "fw_taskManager fw = Some tm" and tm: "tm_wf tm" "tm_room tenv tm" "tm_keyed tenv tm" "slots (tm_queue tm) = []"
    and name: "name \<noteq> []" "CHR ''/'' \<notin> set name"
    and stored: "DefaultAppStore_Get (ax_kv (ag_api env)) (ax_dec (ag_api env)) name (tm_apps tm) = Inr (Some a)" and srt: "sortable (Some a)"
    and fits: "fitsInOffer offer (Some a)"
    and build: "BuildTaskInfo (e_getPorts tenv) (e_scalar tenv) i offer (Some a) (ScheduledApp_zero\<lparr>sa_AppId := app_Id a\<rparr>) = Some (task, pm)"
    and d: "d = \<lparr>dep_AppId = Some (Application_GetId (Some a)), dep_TaskId = ti_TaskId task, dep_Status = Some AppStatus_DEPLOYING,
                  dep_DeployedAt = Some now2, dep_Slave = off_SlaveId offer, dep_HostName = off_Hostname offer, dep_PortMapping = pm\<rparr>"
    and enc: "tm_encodes tenv d" "tm_encodes tenv (d\<lparr>dep_Status := Some AppStatus_STARTED\<rparr>)"
  shows "(\<exists>rs fw1 fw2 fw3 tm2 tm3.
    agora_ServeHTTP env (json_request ''POST'' (''/api/applications/'' @ name @ ''/deploy'') body now1) fw = Some (rs, fw1) \<and> rw_status rs = 202 \<and>
    ResourceOffers (ag_fenv env) [(offer, i, now2)] fw1 = Some fw2 \<and> fw_calls fw2 = fw_calls fw @ [LaunchTasks (off_Id offer) [task]] \<and>
    fw_taskManager fw2 = Some tm2 \<and> tm_recorded tenv tm2 = (tm_recorded tenv tm)(TaskID_GetValue (ti_TaskId task) \<mapsto> d) \<and>
    StatusUpdate (ag_fenv env) now3 later \<lparr>tst_TaskId = ti_TaskId task, tst_State = TASK_RUNNING, tst_Message = msg, tst_SlaveId = slave\<rparr> fw2 = Some fw3 \<and>
    fw_calls fw3 = fw_calls fw2 \<and> fw_taskManager fw3 = Some tm3 \<and>
    tm_recorded tenv tm3 = (tm_recorded tenv tm)(TaskID_GetValue (ti_TaskId task) \<mapsto> d\<lparr>dep_Status := Some AppStatus_STARTED\<rparr>)) \<and>
    (\<exists>rs fw1. agora_ServeHTTP env' (json_request ''POST'' (''/api/applications/'' @ name @ ''/deploy'') body now1) fw = Some (rs, fw1) \<and>
      rw_status rs = 202 \<and> fw_calls fw1 = fw_calls fw \<and> all_declined (ag_fenv env') fw1)"
proof -
  obtain tm1 item where s: "SubmitApp tenv [(a, now1)] tm = Some (None, tm1)" "tm_wf tm1" "slots (tm_queue tm1) = [item]"
    "sa_AppId (sas (tm_queue tm1) item) = app_Id a" "deref_app (tm_queue tm1) (sa_App (sas (tm_queue tm1) item)) = Some a"
    "tm_tasks tm1 = tm_tasks tm" "tm_apps tm1 = tm_apps tm"
    using SubmitApp_one [of tenv a tm now1] granted(1) tm(1,4) srt by blast
  have same: "tm_keyed tenv tm1" "tm_recorded tenv tm1 = tm_recorded tenv tm" using tm(3) s(6) by (simp_all add: tm_keyed_def tm_recorded_def)
  let ?fw1 = "fw\<lparr>fw_taskManager := Some tm1\<rparr>"
  obtain rs where deploy: "agora_ServeHTTP env (json_request ''POST'' (''/api/applications/'' @ name @ ''/deploy'') body now1) fw = Some (rs, ?fw1)"
    "rw_status rs = 202" using agora_deploy [OF ok fw fe name stored s(1)] by blast
  have fw1: "fw_taskManager ?fw1 = Some tm1" "fw_calls ?fw1 = fw_calls fw" by simp_all
  obtain tm2 fw2 where l: "ResourceOffers (ag_fenv env) [(offer, i, now2)] ?fw1 = Some fw2" "fw_taskManager fw2 = Some tm2"
    "fw_calls fw2 = fw_calls fw @ [LaunchTasks (off_Id offer) [task]]" "tm_wf tm2" "tm_keyed tenv tm2" "slots (tm_queue tm2) = []"
    "tm_recorded tenv tm2 = (tm_recorded tenv tm)(TaskID_GetValue (ti_TaskId task) \<mapsto> d)" "tm_apps tm2 = tm_apps tm"
    using launch_one [OF spec [OF granted(2)] kv fe fw1(1) s(2) same(1) s(3-5) fits build d enc(1)] same(2) s(7) fw1(2) by auto
  have room: "tm_room tenv tm2" using tm(2) l(6,8) by (simp add: tm_room_def)
  let ?st = "\<lparr>tst_TaskId = ti_TaskId task, tst_State = TASK_RUNNING, tst_Message = msg, tst_SlaveId = slave\<rparr>"
  have "tm_recorded tenv tm2 (TaskID_GetValue (ti_TaskId task)) = Some d" by (simp add: l(7))
  from StatusUpdate_records [OF l(4) room l(2) fe kv l(5) _ this, of ?st now3 later] enc(2)
  obtain fw3 tm3 where "StatusUpdate (ag_fenv env) now3 later ?st fw2 = Some fw3" "fw_taskManager fw3 = Some tm3" "fw_calls fw3 = fw_calls fw2"
    "tm_recorded tenv tm3 = (tm_recorded tenv tm2)(TaskID_GetValue (ti_TaskId task) \<mapsto> d\<lparr>dep_Status := Some AppStatus_STARTED\<rparr>)"
    by auto
  note runs = this
  obtain tm' where sub: "SubmitApp (wired tenv) [(a, now1)] tm = Some (None, tm')"
    using SubmitApp_returns [OF tm(1) srt, of "wired tenv" now1] tm(4) by auto
  from agora_deploy [OF wired(1) fw wired(3) name _ sub] stored
  obtain rs' where "agora_ServeHTTP env' (json_request ''POST'' (''/api/applications/'' @ name @ ''/deploy'') body now1) fw =
      Some (rs', fw\<lparr>fw_taskManager := Some tm'\<rparr>)" "rw_status rs' = 202" by (auto simp: wired(2))
  moreover have "all_declined (ag_fenv env') (fw\<lparr>fw_taskManager := Some tm'\<rparr>)" by (rule wired_declines [OF wired(3)])
  ultimately have waits: "\<exists>rs fw1. agora_ServeHTTP env' (json_request ''POST'' (''/api/applications/'' @ name @ ''/deploy'') body now1) fw =
      Some (rs, fw1) \<and> rw_status rs = 202 \<and> fw_calls fw1 = fw_calls fw \<and> all_declined (ag_fenv env') fw1" by fastforce
  show ?thesis
  proof (rule conjI, goal_cases)
    case 1
    show ?case using deploy l runs by fastforce
  next
    case 2
    show ?case by (rule waits)
  qed
qed

lemma table_encodes: "d \<in> set ds \<Longrightarrow> \<exists>b. table_enc ds d = Inr b"
  by (auto simp: table_enc_def in_set_conv_nth find_None_iff split: option.splits)

text \<open>A manager with an empty queue, no task, and the docker application stored under its id.\<close>

definition docker_tenv :: "Deployment list \<Rightarrow> (InMemoryStore, InMemoryStore) tm_env" where
  "docker_tenv ds = (sample_env ds)\<lparr>e_aenc := table_enc [docker_app], e_adec := table_dec [docker_app]\<rparr>"

definition docker_tm :: "(InMemoryStore, InMemoryStore) task_manager" where
  "docker_tm = (sample_tm empty_queue)\<lparr>tm_tasks := empty_tasks, tm_apps := stored_apps\<rparr>"

definition docker_agora :: "Deployment list \<Rightarrow> (unit, unit, InMemoryStore, InMemoryStore) agora_env" where
  "docker_agora ds = (sample_agora (sample_api [docker_app] sample_index sample_app))\<lparr>
     ag_fenv := (sample_fw_env [])\<lparr>fe_tm := DefaultTaskManager_methods (docker_tenv ds)\<rparr>\<rparr>"

definition wired_agora :: "Deployment list \<Rightarrow> (unit, unit, InMemoryStore, InMemoryStore) agora_env" where
  "wired_agora ds = (docker_agora ds)\<lparr>ag_fenv := (sample_fw_env [])\<lparr>fe_tm := DefaultTaskManager_methods (wired (docker_tenv ds))\<rparr>\<rparr>"

lemma docker_stored:
  "DefaultAppStore_Get (InMemoryStore_kv it) (table_dec [docker_app]) k stored_apps = Inr (if k = ''web'' then Some docker_app else None)"
  by (simp add: iface_simps DefaultAppStore_Get_def InMemoryStore_Get_def ims_index_def stored_apps_def sample_dec)

lemma docker_tm_ok:
  "tm_wf docker_tm" "tm_room (docker_tenv ds) docker_tm" "slots (tm_queue docker_tm) = []"
  "length ds \<le> 256 \<Longrightarrow> tm_keyed (docker_tenv ds) docker_tm"
proof -
  show "slots (tm_queue docker_tm) = []" by (simp add: docker_tm_def sample_tm_simps empty_queue_def sample_queue_def)
  then show "tm_room (docker_tenv ds) docker_tm"
    by (auto simp: tm_room_def docker_tenv_def docker_tm_def sample_env_def docker_stored sortable_docker split: if_splits)
  show "tm_wf docker_tm" using sample_tm_wf(2) by (simp add: tm_wf_def docker_tm_def)
  show "length ds \<le> 256 \<Longrightarrow> tm_keyed (docker_tenv ds) docker_tm"
    using table_codec_ok [of ds] empty_tasks_wf
    by (simp add: tm_keyed_def tm_recorded_def decoded_def docker_tenv_def docker_tm_def sample_env_def empty_tasks_def
        TaskStore_NewWithStore_def NewEmptyInMemoryStore_def ims_abs_def)
qed

theorem deployed_app_runs_if_granted_witness:
  "\<exists>d t rs fw1 fw2 rs' fw1'.
     agora_ServeHTTP (docker_agora [d, d\<lparr>dep_Status := Some AppStatus_STARTED\<rparr>])
       (json_request ''POST'' (''/api/applications/'' @ ''web'' @ ''/deploy'') [] 1) (sample_fw docker_tm) = Some (rs, fw1) \<and> rw_status rs = 202 \<and>
     ResourceOffers (ag_fenv (docker_agora [d, d\<lparr>dep_Status := Some AppStatus_STARTED\<rparr>])) [(sample_offer 31000 32000, ''7'', 5)] fw1 = Some fw2 \<and>
     fw_calls fw2 = [LaunchTasks (Some \<lparr>oid_Value = Some ''offer-1''\<rparr>) [t]] \<and>
     agora_ServeHTTP (wired_agora [d, d\<lparr>dep_Status := Some AppStatus_STARTED\<rparr>])
       (json_request ''POST'' (''/api/applications/'' @ ''web'' @ ''/deploy'') [] 1) (sample_fw docker_tm) = Some (rs', fw1') \<and>
     all_declined (ag_fenv (wired_agora [d, d\<lparr>dep_Status := Some AppStatus_STARTED\<rparr>])) fw1'"
proof -
  let ?o = "sample_offer 31000 32000"
  note o = docker_offer [of 32000, simplified]
  have "\<exists>r \<in> set (port_ranges ?o). 1 < range_size r" using o(3,4) by simp
  then obtain task pm where b: "BuildTaskInfo (GetPorts 0) sample_scalar ''7'' ?o (Some docker_app)
      (ScheduledApp_zero\<lparr>sa_AppId := app_Id docker_app\<rparr>) = Some (task, pm)"
    using BuildTaskInfo_defined [OF o(2), of 1 docker_app 0 sample_scalar "''7''" "ScheduledApp_zero\<lparr>sa_AppId := app_Id docker_app\<rparr>"]
    by (auto simp: docker_app_simps)
  define d where "d = \<lparr>dep_AppId = Some (Application_GetId (Some docker_app)), dep_TaskId = ti_TaskId task, dep_Status = Some AppStatus_DEPLOYING,
    dep_DeployedAt = Some 5, dep_Slave = off_SlaveId ?o, dep_HostName = off_Hostname ?o, dep_PortMapping = pm\<rparr>"
  let ?ds = "[d, d\<lparr>dep_Status := Some AppStatus_STARTED\<rparr>]"
  let ?t = "docker_tenv ?ds" and ?env = "docker_agora ?ds" and ?fw = "sample_fw docker_tm"
  have env: "fe_tm (ag_fenv ?env) = DefaultTaskManager_methods ?t" "\<forall>x. mon_CanDeploy (e_sla ?t) (Some docker_app) x"
    "\<forall>x. mon_CanDeploy (e_sla ?t) None x" "e_kv ?t = InMemoryStore_kv id"
    "fw_taskManager ?fw = Some docker_tm" "fw_calls ?fw = []"
    by (simp_all add: docker_agora_def docker_tenv_def sample_env_simps iface_simps sample_fw_def NewFramework_def)
  have wired: "agora_ok (wired_agora ?ds)" "ag_api (wired_agora ?ds) = ag_api ?env"
    "fe_tm (ag_fenv (wired_agora ?ds)) = DefaultTaskManager_methods (wired ?t)"
    using sample_agora_ok [of "sample_api [docker_app] sample_index sample_app"] by (simp_all add: agora_ok_def wired_agora_def docker_agora_def)
  have ok: "agora_ok ?env" using sample_agora_ok [of "sample_api [docker_app] sample_index sample_app"] by (simp add: agora_ok_def docker_agora_def)
  have st: "DefaultAppStore_Get (ax_kv (ag_api ?env)) (ax_dec (ag_api ?env)) ''web'' (tm_apps docker_tm) = Inr (Some docker_app)"
    by (simp add: docker_agora_def sample_agora_def sample_api_def docker_tm_def docker_stored)
  have build: "BuildTaskInfo (e_getPorts ?t) (e_scalar ?t) ''7'' ?o (Some docker_app) (ScheduledApp_zero\<lparr>sa_AppId := app_Id docker_app\<rparr>) = Some (task, pm)"
    using b by (simp add: docker_tenv_def sample_env_def)
  have keyed: "tm_keyed ?t docker_tm" by (rule docker_tm_ok(4)) simp
  have enc: "tm_encodes ?t d" "tm_encodes ?t (d\<lparr>dep_Status := Some AppStatus_STARTED\<rparr>)"
    using table_encodes [of _ ?ds] by (simp_all add: tm_encodes_def docker_tenv_def sample_env_simps)
  have name: "''web'' \<noteq> []" "CHR ''/'' \<notin> set ''web''" by simp_all
  have oid: "off_Id ?o = Some \<lparr>oid_Value = Some ''offer-1''\<rparr>" by (simp add: sample_offer_def)
  from deployed_app_runs_if_granted [OF ok env(1-3) wired env(4,5) docker_tm_ok(1,2) keyed docker_tm_ok(3) name st sortable_docker o(1) build d_def enc, of "[]" 1]
  show ?thesis unfolding oid env(6) append_Nil by blast
qed

end
