(* ===== verification/System.thy ===== *)
theory System
  imports EndToEnd "HOL-Library.Sublist"
begin

text \<open>
  The whole program as one transition system: the server of \<open>Agora\<close>, the callbacks Mesos invokes, the failures of health checks and the
  framework's kill loop, in any order, from what \<open>main\<close> starts with. A state is the framework, with the task manager in it, and the channel
  \<open>TasksToKill\<close> as the list of what was sent on it and not received. An event that would panic ends a run. What Mesos and the clients of the API
  send is arbitrary. The history of a run is the list of its events; the driver keeps the calls it was asked for.
\<close>

section \<open>Events\<close>

datatype event =
    EvRequest route string request
  | EvMesos mesos_callback
  | EvFailure int64 go_time Result
  | EvKill "nat \<Rightarrow> int64 \<times> go_time"

type_synonym ('i, 'cur, 's, 'a) system = "('i, 'cur, 's, 'a) agora \<times> TaskID option list"

fun sys_do ::
  "('i, 'cur, 's, 'a) agora_env \<Rightarrow> ('s, 'a) tm_env \<Rightarrow> event \<Rightarrow> ('i, 'cur, 's, 'a) system \<Rightarrow> ('i, 'cur, 's, 'a) system option" where
  "sys_do env tenv (EvRequest rt name r) (fw, ch) = map_option (\<lambda>(_, fw'). (fw', ch)) (serve_route env rt name r fw)"
| "sys_do env tenv (EvMesos cb) (fw, ch) = map_option (\<lambda>fw'. (fw', ch)) (defaultMesosScheduler (ag_fenv env) cb fw)"
| "sys_do env tenv (EvFailure now later failure) (fw, ch) =
     (case fw_taskManager fw of
        None \<Rightarrow> None
      | Some tm \<Rightarrow>
          map_option (\<lambda>(ids, tm'). (fw\<lparr>fw_taskManager := Some tm'\<rparr>, ch @ ids)) (handle_failure tenv now later failure tm))"
| "sys_do env tenv (EvKill clock) (fw, ch) =
     (case ch of [] \<Rightarrow> None | t # ts \<Rightarrow> map_option (\<lambda>fw'. (fw', ts)) (kill_listed_task (ag_fenv env) clock t fw))"

inductive sys_run ::
  "('i, 'cur, InMemoryStore, 'a) agora_env \<Rightarrow> (InMemoryStore, 'a) tm_env \<Rightarrow> event list \<Rightarrow> ('i, 'cur, InMemoryStore, 'a) system \<Rightarrow> bool"
  for env tenv where
  run_start: "NewDefaultTaskManager mem next_free appStore = Some (Inr tm) \<Longrightarrow>
     Framework_Start (ag_fenv env) (NewFramework config tm) = Some (err, fw) \<Longrightarrow> sys_run env tenv [] (fw, [])"
| run_event: "sys_run env tenv evs s \<Longrightarrow> sys_do env tenv e s = Some s' \<Longrightarrow> sys_run env tenv (evs @ [e]) s'"

section \<open>What a run has asked of Mesos\<close>

fun launched_by :: "driver_call \<Rightarrow> TaskInfo list" where
  "launched_by (LaunchTasks i ts) = ts"
| "launched_by _ = []"

fun answered_by :: "driver_call \<Rightarrow> OfferID option list" where
  "answered_by (LaunchTasks i ts) = [i]"
| "answered_by (DeclineOffer i) = [i]"
| "answered_by _ = []"

fun killed_by :: "driver_call \<Rightarrow> TaskID option list" where
  "killed_by (KillTask t) = [t]"
| "killed_by _ = []"

abbreviation launches :: "driver_call list \<Rightarrow> TaskInfo list" where "launches cs \<equiv> concat (map launched_by cs)"
abbreviation answered :: "driver_call list \<Rightarrow> OfferID option list" where "answered cs \<equiv> concat (map answered_by cs)"
abbreviation kills :: "driver_call list \<Rightarrow> TaskID option list" where "kills cs \<equiv> concat (map killed_by cs)"

fun offers_in :: "event \<Rightarrow> (Offer \<times> string \<times> int64) list" where
  "offers_in (EvMesos (CbResourceOffers offers)) = offers"
| "offers_in _ = []"

abbreviation offers_of :: "event list \<Rightarrow> (Offer \<times> string \<times> int64) list" where "offers_of evs \<equiv> concat (map offers_in evs)"

text \<open>The tasks Mesos reports as staging or starting.\<close>

fun staging_in :: "event \<Rightarrow> TaskID option list" where
  "staging_in (EvMesos (CbStatusUpdate now later status)) =
     (if tst_State status \<in> {TASK_STAGING, TASK_STARTING} then [tst_TaskId status] else [])"
| "staging_in _ = []"

abbreviation staging_of :: "event list \<Rightarrow> TaskID option list" where "staging_of evs \<equiv> concat (map staging_in evs)"

section \<open>What an operation of the task manager does to the deployments\<close>

text \<open>Every stored value decodes, and the codec rejects the bytes a missing key is answered with, since the message has required fields.\<close>

definition tm_sound :: "('s, 'a) tm_env \<Rightarrow> (InMemoryStore, 'a) task_manager \<Rightarrow> bool" where
  "tm_sound env tm \<longleftrightarrow> tm_keyed env tm \<and> (\<forall>k v. ims_abs (dts_store (tm_tasks tm)) k = Some v \<longrightarrow> (\<exists>d. e_dec env v = Inr d))"

definition tenv_ok :: "(InMemoryStore, 'a) tm_env \<Rightarrow> bool" where
  "tenv_ok env \<longleftrightarrow> (\<exists>it. e_kv env = InMemoryStore_kv it) \<and> codec_ok (e_enc env) (e_dec env) \<and> (\<exists>err. e_dec env None = Inl err)"

text \<open>Deployments are forgotten or given another status, nothing else.\<close>

definition status_only :: "deployments \<Rightarrow> deployments \<Rightarrow> bool" where
  "status_only r r' \<longleftrightarrow> (\<forall>k d'. r' k = Some d' \<longrightarrow> (\<exists>d. r k = Some d \<and> d'\<lparr>dep_Status := None\<rparr> = d\<lparr>dep_Status := None\<rparr>))"

lemma status_only_refl [intro, simp]: "status_only r r"
  by (simp add: status_only_def)

lemma status_only_trans: "status_only r r' \<Longrightarrow> status_only r' r'' \<Longrightarrow> status_only r r''"
  unfolding status_only_def by metis

lemma status_only_upd: "r k = Some d \<Longrightarrow> status_only r (r(k \<mapsto> d\<lparr>dep_Status := s\<rparr>))"
  by (simp add: status_only_def)

lemma status_only_del: "status_only r (r(k := None))"
  by (simp add: status_only_def)

lemma status_onlyD:
  assumes "status_only r r'" and "r' k = Some d'"
  obtains d where "r k = Some d" and "dep_TaskId d' = dep_TaskId d" and "dep_Slave d' = dep_Slave d"
proof -
  obtain d where d: "r k = Some d" "d'\<lparr>dep_Status := None\<rparr> = d\<lparr>dep_Status := None\<rparr>" using assms by (auto simp: status_only_def)
  from arg_cong [OF d(2), of dep_TaskId] arg_cong [OF d(2), of dep_Slave] d(1) show thesis by (auto intro: that)
qed

definition keeps :: "('s, 'a) tm_env \<Rightarrow> (InMemoryStore, 'a) task_manager \<Rightarrow> (InMemoryStore, 'a) task_manager \<Rightarrow> bool" where
  "keeps env tm tm' \<longleftrightarrow> tm_sound env tm' \<and> status_only (tm_recorded env tm) (tm_recorded env tm')"

lemma keeps_trans: "keeps env tm tm1 \<Longrightarrow> keeps env tm1 tm2 \<Longrightarrow> keeps env tm tm2"
  unfolding keeps_def using status_only_trans by blast

lemma keeps_same: "tm_sound env tm \<Longrightarrow> tm_tasks tm' = tm_tasks tm \<Longrightarrow> keeps env tm tm'"
  by (simp add: keeps_def tm_sound_def tm_keyed_def tm_recorded_def)

text \<open>Saving and deleting.\<close>

lemma Save_sound:
  assumes env: "tenv_ok env" and inv: "tm_sound env tm" and ts: "tm_tasks tm' = snd (DefaultTaskStore_Save (e_kv env) (e_enc env) d (tm_tasks tm))"
  shows "tm_sound env tm' \<and>
    (tm_recorded env tm' = tm_recorded env tm \<or> tm_recorded env tm' = (tm_recorded env tm)(TaskID_GetValue (dep_TaskId d) \<mapsto> d))"
proof (cases "e_enc env d")
  case (Inl err)
  then have "tm_tasks tm' = tm_tasks tm" using ts by (simp add: DefaultTaskStore_Save_def task_writeBytes_def)
  then show ?thesis using keeps_same [OF inv] by (simp add: keeps_def tm_recorded_def)
next
  case (Inr b)
  obtain it where kv: "e_kv env = InMemoryStore_kv it" using env by (auto simp: tenv_ok_def)
  have key: "tm_keyed env tm" and wf: "ims_wf (dts_store (tm_tasks tm))" using inv by (simp_all add: tm_sound_def tm_keyed_def)
  have "tm_keyed env tm' \<and> tm_recorded env tm' = (tm_recorded env tm)(TaskID_GetValue (dep_TaskId d) \<mapsto> d)"
    using Save_recorded [OF key Inr refl, of it] ts unfolding kv by (metis snd_conv)
  moreover have dec: "e_dec env b = Inr d" using env Inr by (auto simp: tenv_ok_def codec_ok_def)
  moreover have "ims_abs (dts_store (tm_tasks tm')) = (ims_abs (dts_store (tm_tasks tm)))(TaskID_GetValue (dep_TaskId d) \<mapsto> b)"
    using mem.Save_task [of "tm_tasks tm", OF wf, of "e_enc env" d b it, OF Inr] ts unfolding kv by auto
  ultimately show ?thesis using inv by (auto simp: tm_sound_def split: if_splits)
qed

lemma Get_recorded:
  assumes "tenv_ok env" and "DefaultTaskStore_Get (e_kv env) (e_dec env) k (tm_tasks tm) = Inr x"
  shows "\<exists>d. x = Some d \<and> tm_recorded env tm k = Some d"
proof -
  obtain it err where "e_kv env = InMemoryStore_kv it" "e_dec env None = Inl err" using assms(1) by (auto simp: tenv_ok_def)
  with assms(2) show ?thesis unfolding tm_recorded_def decoded_Some
    by (cases "ims_abs (dts_store (tm_tasks tm)) k") (auto simp: ims_Get map_sum_def split: sum.splits)
qed

text \<open>The callbacks.\<close>

lemma updateStatus_saves:
  assumes "updateStatus env now later taskID status tm = Some (r, tm')"
  shows "tm_tasks tm' = tm_tasks tm \<or>
    (\<exists>d. DefaultTaskStore_Get (e_kv env) (e_dec env) (TaskID_GetValue taskID) (tm_tasks tm) = Inr (Some d) \<and>
         tm_tasks tm' = snd (DefaultTaskStore_Save (e_kv env) (e_enc env) (d\<lparr>dep_Status := Some status\<rparr>) (tm_tasks tm)))"
  using assms
  by (auto simp: updateStatus_def Let_def split: sum.splits option.splits if_splits prod.splits
      dest!: scheduleAppForDeployment_tasks update_health_tasks)

lemma updateStatus_keeps:
  assumes env: "tenv_ok env" and inv: "tm_sound env tm" and u: "updateStatus env now later taskID status tm = Some (r, tm')"
  shows "keeps env tm tm'"
  using updateStatus_saves [OF u]
proof (elim disjE exE conjE)
  fix d
  assume get: "DefaultTaskStore_Get (e_kv env) (e_dec env) (TaskID_GetValue taskID) (tm_tasks tm) = Inr (Some d)"
    and ts: "tm_tasks tm' = snd (DefaultTaskStore_Save (e_kv env) (e_enc env) (d\<lparr>dep_Status := Some status\<rparr>) (tm_tasks tm))"
  have r: "tm_recorded env tm (TaskID_GetValue taskID) = Some d" using Get_recorded [OF env get] by simp
  then have "TaskID_GetValue (dep_TaskId d) = TaskID_GetValue taskID" using inv by (simp add: tm_sound_def tm_keyed_def)
  then show ?thesis using Save_sound [OF env inv ts] status_only_upd [of "tm_recorded env tm", OF r] by (auto simp: keeps_def)
qed (simp add: keeps_same [OF inv])

lemma forgetTask_keeps:
  assumes env: "tenv_ok env" and inv: "tm_sound env tm" and f: "forgetTask env taskID tm = Some tm'"
  shows "keeps env tm tm'"
proof -
  obtain it where kv: "e_kv env = InMemoryStore_kv it" using env by (auto simp: tenv_ok_def)
  have key: "tm_keyed env tm" and wf: "ims_wf (dts_store (tm_tasks tm))" using inv by (simp_all add: tm_sound_def tm_keyed_def)
  have "tm_keyed env tm'" "tm_recorded env tm' = (tm_recorded env tm)(TaskID_GetValue taskID := None)"
    using forgetTask_forgets [OF kv] key f unfolding forgets_def by blast+
  moreover have "ims_abs (dts_store (tm_tasks tm')) = (ims_abs (dts_store (tm_tasks tm)))(TaskID_GetValue taskID := None)"
    using forgetTask_ok [OF kv wf, of taskID] f by auto
  ultimately show ?thesis using inv by (auto simp: keeps_def tm_sound_def status_only_del split: if_splits)
qed

lemma handle_failure_keeps:
  assumes env: "tenv_ok env" and inv: "tm_sound env tm" and f: "handle_failure env now later failure tm = Some (ids, tm')"
  shows "keeps env tm tm'"
  using f keeps_same [OF inv refl]
  by (auto simp: handle_failure_def dest: updateStatus_keeps [OF env inv] split: sum.splits option.splits)

text \<open>Requests to deploy touch the queue only.\<close>

lemma submit_loop_tasks: "submit_loop env var as tm = Some tm' \<Longrightarrow> tm_tasks tm' = tm_tasks tm"
  by (induction env var "as" tm rule: submit_loop.induct)
     (auto simp: Let_def split: option.splits dest!: scheduleAppForDeployment_tasks)

lemma SubmitApp_tasks: "SubmitApp env as tm = Some (r, tm') \<Longrightarrow> tm_tasks tm' = tm_tasks tm"
  by (auto simp: SubmitApp_def dest!: submit_loop_tasks)

text \<open>Offers.\<close>

lemma FulfillOffer_saves:
  assumes "FulfillOffer env i now offer tm = Some (ts, tm')"
  shows "tm_tasks tm' = tm_tasks tm \<or> (\<exists>d. tm_tasks tm' = snd (DefaultTaskStore_Save (e_kv env) (e_enc env) d (tm_tasks tm)))"
  using assms
  by (auto simp: FulfillOffer_def Let_def split: option.splits prod.splits dest!: take_fitting_tasks) (metis snd_conv)

lemma FulfillOffer_sound:
  assumes env: "tenv_ok env" and inv: "tm_sound env tm" and f: "FulfillOffer env i now offer tm = Some (ts, tm')"
  shows "tm_sound env tm' \<and> launched i offer (tm_recorded env tm) ts (tm_recorded env tm')"
proof -
  obtain it where kv: "e_kv env = InMemoryStore_kv it" using env by (auto simp: tenv_ok_def)
  have "launched i offer (tm_recorded env tm) ts (tm_recorded env tm')"
    using FulfillOffer_launched [OF kv _ f] inv by (simp add: tm_sound_def)
  moreover have "tm_sound env tm'"
    using FulfillOffer_saves [OF f] Save_sound [OF env inv, of tm'] keeps_same [OF inv, of tm'] by (auto simp: keeps_def)
  ultimately show ?thesis by simp
qed

section \<open>The invariant\<close>

text \<open>A deployment in the store was launched: Mesos was asked to launch a task with its id on its slave.\<close>

definition traced :: "driver_call list \<Rightarrow> deployments \<Rightarrow> bool" where
  "traced cs r \<longleftrightarrow> (\<forall>k d. r k = Some d \<longrightarrow>
     (\<exists>t \<in> set (launches cs). ti_TaskId t = dep_TaskId d \<and> ti_SlaveId t = dep_Slave d \<and> ti_TaskId t = Some \<lparr>tid_Value = Some k\<rparr>))"

text \<open>What a step that launches nothing may do: it adds calls that answer no offer and kill only tasks that are in \<open>K\<close>.\<close>

definition quiet_step ::
  "('s, 'a) tm_env \<Rightarrow> TaskID option set \<Rightarrow> ('i, 'cur, InMemoryStore, 'a) agora \<Rightarrow> ('i, 'cur, InMemoryStore, 'a) agora \<Rightarrow> bool" where
  "quiet_step tenv K fw fw' \<longleftrightarrow> (\<exists>tm tm' cs. fw_taskManager fw = Some tm \<and> fw_taskManager fw' = Some tm' \<and>
     fw_calls fw' = fw_calls fw @ cs \<and> launches cs = [] \<and> answered cs = [] \<and> set (kills cs) \<subseteq> K \<and>
     (tm_sound tenv tm \<longrightarrow> keeps tenv tm tm'))"

definition sys_inv :: "('s, 'a) tm_env \<Rightarrow> event list \<Rightarrow> ('i, 'cur, InMemoryStore, 'a) agora \<Rightarrow> bool" where
  "sys_inv tenv evs fw \<longleftrightarrow>
     (\<exists>tm. fw_taskManager fw = Some tm \<and> tm_sound tenv tm \<and> traced (fw_calls fw) (tm_recorded tenv tm)) \<and>
     answered (fw_calls fw) = map (\<lambda>x. off_Id (fst x)) (offers_of evs) \<and>
     subseq (map ti_TaskId (launches (fw_calls fw))) (map (\<lambda>x. Some \<lparr>tid_Value = Some (task_key x)\<rparr>) (offers_of evs)) \<and>
     set (kills (fw_calls fw)) \<subseteq> ti_TaskId ` set (launches (fw_calls fw)) \<union> set (staging_of evs)"

lemma traced_keeps: "traced cs r \<Longrightarrow> status_only r r' \<Longrightarrow> set (launches cs) \<subseteq> set (launches cs') \<Longrightarrow> traced cs' r'"
  unfolding traced_def by (metis status_onlyD subsetD)

lemma sys_grow: "A \<subseteq> K \<Longrightarrow> K \<subseteq> L \<union> T \<Longrightarrow> B \<subseteq> L \<union> S \<Longrightarrow> B \<union> A \<subseteq> L \<union> (S \<union> T)"
  by blast

lemma subseq_distinct_ids: "subseq xs ys \<Longrightarrow> distinct ys \<Longrightarrow> distinct xs"
  by (metis distinct_nthsI subseq_conv_nths)

lemma sys_inv_quiet:
  assumes inv: "sys_inv tenv evs fw" and q: "quiet_step tenv K fw fw'" and e: "offers_in e = []"
    and K: "K \<subseteq> ti_TaskId ` set (launches (fw_calls fw)) \<union> set (staging_in e)"
  shows "sys_inv tenv (evs @ [e]) fw'"
proof -
  obtain tm tm' cs where s: "fw_taskManager fw = Some tm" "fw_taskManager fw' = Some tm'" "fw_calls fw' = fw_calls fw @ cs"
    "launches cs = []" "answered cs = []" "set (kills cs) \<subseteq> K" "tm_sound tenv tm \<longrightarrow> keeps tenv tm tm'"
    using q unfolding quiet_step_def by blast
  have tm: "tm_sound tenv tm" "traced (fw_calls fw) (tm_recorded tenv tm)" using inv s(1) by (auto simp: sys_inv_def)
  with s(7) have k: "tm_sound tenv tm'" "status_only (tm_recorded tenv tm) (tm_recorded tenv tm')" by (simp_all add: keeps_def)
  have "traced (fw_calls fw') (tm_recorded tenv tm')" by (rule traced_keeps [OF tm(2) k(2)]) (simp add: s(3,4))
  moreover have "launches (fw_calls fw') = launches (fw_calls fw)" "answered (fw_calls fw') = answered (fw_calls fw)"
    "kills (fw_calls fw') = kills (fw_calls fw) @ kills cs" unfolding s(3) map_append concat_append s(4,5) by simp_all
  moreover have "offers_of (evs @ [e]) = offers_of evs" "staging_of (evs @ [e]) = staging_of evs @ staging_in e" using e by simp_all
  moreover have "set (kills (fw_calls fw)) \<union> set (kills cs) \<subseteq> ti_TaskId ` set (launches (fw_calls fw)) \<union> (set (staging_of evs) \<union> set (staging_in e))"
    by (rule sys_grow [OF s(6) K]) (use inv in \<open>simp add: sys_inv_def\<close>)
  ultimately show ?thesis using inv s(2) k(1) unfolding sys_inv_def by simp
qed

text \<open>An offer.\<close>

lemma answer_offer_inv:
  assumes env: "tenv_ok tenv" and fe: "fe_tm fenv = DefaultTaskManager_methods tenv"
    and inv: "sys_inv tenv (evs @ [EvMesos (CbResourceOffers earlier)]) fw" and a: "answer_offer fenv x fw = Some fw'"
  shows "sys_inv tenv (evs @ [EvMesos (CbResourceOffers (earlier @ [x]))]) fw'"
proof -
  obtain offer i now where x: "x = (offer, i, now)" by (cases x)
  obtain tm where tm: "fw_taskManager fw = Some tm" "tm_sound tenv tm" "traced (fw_calls fw) (tm_recorded tenv tm)"
    using inv by (auto simp: sys_inv_def)
  obtain ts tm' where f: "FulfillOffer tenv i now offer tm = Some (ts, tm')"
    "fw' = snd (drive fenv (if length ts = 0 then DeclineOffer (off_Id offer) else LaunchTasks (off_Id offer) ts) (fw\<lparr>fw_taskManager := Some tm'\<rparr>))"
    using a tm(1) by (auto simp: answer_offer_def x fe iface_simps split: option.splits)
  note s = FulfillOffer_sound [OF env tm(2) f(1)]
  consider "ts = []" "tm_recorded tenv tm' = tm_recorded tenv tm"
    | t d where "ts = [t]" "ti_TaskId t = Some \<lparr>tid_Value = Some (''exeggutor-task-'' @ i)\<rparr>" "ti_SlaveId t = off_SlaveId offer"
      "tm_recorded tenv tm' = (tm_recorded tenv tm)(''exeggutor-task-'' @ i \<mapsto> d)" "dep_TaskId d = ti_TaskId t" "dep_Slave d = off_SlaveId offer"
    using s unfolding launched_def by blast
  then show ?thesis
  proof cases
    case 1
    have "subseq (map ti_TaskId (launches (fw_calls fw)))
       (map (\<lambda>x. Some \<lparr>tid_Value = Some (task_key x)\<rparr>) (offers_of evs @ earlier) @ [Some \<lparr>tid_Value = Some (task_key x)\<rparr>])"
      by (rule subseq_rev_drop_many) (use inv in \<open>simp add: sys_inv_def\<close>)
    moreover have "traced (fw_calls fw @ [DeclineOffer (off_Id offer)]) (tm_recorded tenv tm')" using tm(3) 1 by (simp add: traced_def)
    ultimately show ?thesis using inv s f(2) 1(1) by (auto simp: sys_inv_def x)
  next
    case 2
    have "traced (fw_calls fw @ [LaunchTasks (off_Id offer) [t]]) (tm_recorded tenv tm')"
      using tm(3) 2 by (auto simp: traced_def)
    moreover have "subseq (map ti_TaskId (launches (fw_calls fw)) @ [ti_TaskId t])
       (map (\<lambda>x. Some \<lparr>tid_Value = Some (task_key x)\<rparr>) (offers_of evs @ earlier) @ [Some \<lparr>tid_Value = Some (task_key x)\<rparr>])"
      using inv 2(2) by (intro list_emb_append_mono) (auto simp: sys_inv_def task_key_def x)
    ultimately show ?thesis using inv s f(2) 2(1) by (auto simp: sys_inv_def x)
  qed
qed

lemma ResourceOffers_inv:
  assumes env: "tenv_ok tenv" and fe: "fe_tm fenv = DefaultTaskManager_methods tenv"
  shows "sys_inv tenv (evs @ [EvMesos (CbResourceOffers earlier)]) fw \<Longrightarrow> ResourceOffers fenv offers fw = Some fw' \<Longrightarrow>
    sys_inv tenv (evs @ [EvMesos (CbResourceOffers (earlier @ offers))]) fw'"
proof (induction offers arbitrary: fw earlier)
  case (Cons x offers)
  obtain fw1 where fw1: "answer_offer fenv x fw = Some fw1" "ResourceOffers fenv offers fw1 = Some fw'"
    using Cons.prems(2) by (auto split: option.splits)
  from Cons.IH [OF answer_offer_inv [OF env fe Cons.prems(1) fw1(1)] fw1(2)] show ?case by simp
qed simp

text \<open>The requests and the other callbacks.\<close>

lemma quiet_stepI:
  assumes "fw_taskManager fw = Some tm" and "fw_taskManager fw' = Some tm'" and "fw_calls fw' = fw_calls fw @ map KillTask ids"
    and "set ids \<subseteq> K" and "tm_sound tenv tm \<Longrightarrow> keeps tenv tm tm'"
  shows "quiet_step tenv K fw fw'"
proof -
  have "launches (map KillTask ids) = []" "answered (map KillTask ids) = []" "kills (map KillTask ids) = ids" by (induction ids) simp_all
  then show ?thesis unfolding quiet_step_def
    by (intro exI [of _ tm] exI [of _ tm'] exI [of _ "map KillTask ids"]) (simp add: assms)
qed

lemma Framework_ID_same: "fw_taskManager (snd (Framework_ID env fw)) = fw_taskManager fw \<and> fw_calls (snd (Framework_ID env fw)) = fw_calls fw"
  by (auto simp: Framework_ID_def Let_def split: option.split prod.split)

lemma request_quiet:
  assumes fe: "fe_tm (ag_fenv env) = DefaultTaskManager_methods tenv" and tm: "fw_taskManager fw = Some tm"
    and r: "serve_route env rt name r fw = Some (rs, fw')"
  shows "quiet_step tenv {} fw fw'"
proof -
  have "\<exists>tm'. fw_taskManager fw' = Some tm' \<and> fw_calls fw' = fw_calls fw \<and> tm_tasks tm' = tm_tasks tm"
  proof (cases rt)
    case RouteDeploy
    then have "fw' = fw \<or> (\<exists>as err. Framework_SubmitApp (ag_fenv env) as fw = Some (err, fw'))"
      using r tm by (auto simp: Deploy_def split: sum.splits option.splits)
    then show ?thesis using tm fe by (auto simp: Framework_SubmitApp_def iface_simps dest!: SubmitApp_tasks)
  next
    case RouteFrameworkID
    then show ?thesis using r tm Framework_ID_same [of "ag_fenv env" fw] by (auto simp: ShowFrameworkID_def split: prod.splits)
  qed (use r tm in \<open>auto simp: on_store_def split: prod.splits\<close>)
  then show ?thesis using tm by (auto intro!: quiet_stepI [where ids = "[]"] keeps_same)
qed

lemma status_quiet:
  assumes env: "tenv_ok tenv" and fe: "fe_tm fenv = DefaultTaskManager_methods tenv" and tm: "fw_taskManager fw = Some tm"
    and u: "StatusUpdate fenv now later st fw = Some fw'"
  shows "quiet_step tenv (set (staging_in (EvMesos (CbStatusUpdate now later st)))) fw fw'"
proof -
  have status: "quiet_step tenv K fw fw'"
    if "map_option (\<lambda>m'. fw\<lparr>fw_taskManager := Some m'\<rparr>) (map_option snd (updateStatus tenv now later tid s tm)) = Some fw'" for K tid s
    using that tm by (auto intro!: quiet_stepI [where ids = "[]"] updateStatus_keeps [OF env])
  have staging: "quiet_step tenv {tst_TaskId st} fw fw'"
    if "map_option (\<lambda>fw'. snd (drive fenv (KillTask (tst_TaskId st)) fw')) (map_option (\<lambda>m'. fw\<lparr>fw_taskManager := Some m'\<rparr>)
          (forgetTask tenv (tst_TaskId st) tm)) = Some fw'"
    using that tm by (auto intro!: quiet_stepI [where ids = "[tst_TaskId st]"] forgetTask_keeps [OF env])
  show ?thesis
    using u status staging
    by (cases "tst_State st")
       (simp_all add: StatusUpdate_def tm fe iface_simps Let_def TaskFailed_def TaskFinished_def TaskKilled_def TaskLost_def
          TaskRunning_def TaskStaging_def TaskStarting_def)
qed

text \<open>The kill loop kills recorded tasks.\<close>

lemma killApp_loop_quiet:
  assumes env: "tenv_ok tenv" and fe: "fe_tm fenv = DefaultTaskManager_methods tenv"
  shows "fw_taskManager fw = Some tm \<Longrightarrow> killApp_loop fenv clock ids err fw = Some (err', fw') \<Longrightarrow>
    quiet_step tenv (set ids) fw fw'"
proof (induction ids arbitrary: clock err fw tm)
  case Nil
  then show ?case by (auto intro!: quiet_stepI [where ids = "[]"] keeps_same)
next
  case (Cons t ids)
  obtain tm1 fw1 err1 where 1: "TaskStopping tenv (fst (clock 0)) (snd (clock 0)) t tm = Some tm1"
    "fw1 = fw\<lparr>fw_taskManager := Some tm1, fw_calls := fw_calls fw @ [KillTask t]\<rparr>"
    "killApp_loop fenv (\<lambda>n. clock (Suc n)) ids err1 fw1 = Some (err', fw')"
    using Cons.prems by (auto simp: fe iface_simps Let_def drive_def split: option.splits)
  have tm1: "fw_taskManager fw1 = Some tm1" using 1(2) by simp
  obtain tm' cs where q: "fw_taskManager fw' = Some tm'" "fw_calls fw' = fw_calls fw1 @ cs" "launches cs = []" "answered cs = []"
    "set (kills cs) \<subseteq> set ids" "tm_sound tenv tm1 \<longrightarrow> keeps tenv tm1 tm'"
    using Cons.IH [OF tm1 1(3)] tm1 unfolding quiet_step_def by auto
  have "keeps tenv tm tm'" if "tm_sound tenv tm"
  proof -
    have k: "keeps tenv tm tm1" using 1(1) by (auto simp: TaskStopping_def intro: updateStatus_keeps [OF env that])
    then have "tm_sound tenv tm1" by (simp add: keeps_def)
    with q(6) keeps_trans [OF k] show ?thesis by blast
  qed
  moreover have "fw_calls fw' = fw_calls fw @ (KillTask t # cs)" using q(2) 1(2) by simp
  ultimately show ?case using Cons.prems(1) q unfolding quiet_step_def
    by (intro exI [of _ tm] exI [of _ tm'] exI [of _ "KillTask t # cs"]) auto
qed

lemma FindTasksForApp_recorded:
  assumes env: "tenv_ok tenv" and tm: "tm_sound tenv tm"
  shows "set (fst (FindTasksForApp tenv name tm)) \<subseteq> {tid. \<exists>k d. tm_recorded tenv tm k = Some d \<and> tid = dep_TaskId d}"
proof -
  obtain it where kv: "e_kv tenv = InMemoryStore_kv it" using env by (auto simp: tenv_ok_def)
  have wf: "ims_wf (dts_store (tm_tasks tm))" using tm by (simp add: tm_sound_def tm_keyed_def)
  let ?es = "ims_range it (dts_store (tm_tasks tm))"
  have items: "fst (DefaultTaskStore_ForEach (e_kv tenv) (e_dec tenv) (tm_tasks tm)) = map (task_item (e_dec tenv)) ?es"
    by (simp add: DefaultTaskStore_ForEach_def kv iface_simps InMemoryStore_ForEach_def)
  have "\<exists>k d. tm_recorded tenv tm k = Some d \<and> Deployment_GetTaskId (task_item (e_dec tenv) e) = dep_TaskId d" if "e \<in> set ?es" for e
  proof -
    have abs: "ims_abs (dts_store (tm_tasks tm)) (kvd_Key e) = Some (kvd_Value e)"
      using entries_of_in [OF ims_range_entries [OF wf], of e it] that by simp
    then obtain d where d: "e_dec tenv (kvd_Value e) = Inr d" using tm unfolding tm_sound_def by blast
    with abs have "tm_recorded tenv tm (kvd_Key e) = Some d" by (auto simp: tm_recorded_def decoded_Some)
    with d show ?thesis by (auto simp: task_item_def Deployment_GetTaskId_def)
  qed
  then show ?thesis by (auto simp: FindTasksForApp_eq items)
qed

lemma kill_quiet:
  assumes env: "tenv_ok tenv" and fe: "fe_tm fenv = DefaultTaskManager_methods tenv" and tm: "fw_taskManager fw = Some tm" "tm_sound tenv tm"
    and k: "kill_listed_task fenv clock t fw = Some fw'"
  shows "quiet_step tenv {tid. \<exists>k d. tm_recorded tenv tm k = Some d \<and> tid = dep_TaskId d} fw fw'"
proof (cases "t = None")
  case True
  then show ?thesis using k tm by (auto simp: kill_listed_task_def intro!: quiet_stepI [where ids = "[]"] keeps_same)
next
  case False
  let ?ids = "fst (FindTasksForApp tenv (TaskID_GetValue t) tm)"
  obtain err where "killApp_loop fenv clock ?ids None fw = Some (err, fw')"
    using k False tm(1) by (auto simp: kill_listed_task_def KillApp_def fe iface_simps FindTasksForApp_eq split: if_splits)
  from killApp_loop_quiet [OF env fe tm(1) this] FindTasksForApp_recorded [OF env tm(2), of "TaskID_GetValue t"]
  show ?thesis unfolding quiet_step_def by blast
qed

text \<open>Every event keeps the invariant.\<close>

lemma sys_inv_event:
  assumes env: "tenv_ok tenv" and fe: "fe_tm (ag_fenv env) = DefaultTaskManager_methods tenv"
    and inv: "sys_inv tenv evs fw" and d: "sys_do env tenv e (fw, ch) = Some (fw', ch')"
  shows "sys_inv tenv (evs @ [e]) fw'"
proof -
  obtain tm where tm: "fw_taskManager fw = Some tm" "tm_sound tenv tm" "traced (fw_calls fw) (tm_recorded tenv tm)"
    using inv by (auto simp: sys_inv_def)
  note quiet = sys_inv_quiet [OF inv]
  show ?thesis
  proof (cases e)
    case (EvRequest rt name r)
    then obtain rs where "serve_route env rt name r fw = Some (rs, fw')" using d by auto
    from quiet [OF request_quiet [OF fe tm(1) this], of e] show ?thesis by (simp add: EvRequest)
  next
    case (EvMesos cb)
    then have cb: "defaultMesosScheduler (ag_fenv env) cb fw = Some fw'" using d by auto
    show ?thesis
    proof (cases cb)
      case (CbResourceOffers offers)
      have "sys_inv tenv (evs @ [EvMesos (CbResourceOffers [])]) fw" using inv by (simp add: sys_inv_def)
      from ResourceOffers_inv [OF env fe this, of offers fw'] cb show ?thesis by (simp add: EvMesos CbResourceOffers)
    next
      case (CbStatusUpdate now later st)
      then have "StatusUpdate (ag_fenv env) now later st fw = Some fw'" using cb by simp
      from quiet [OF status_quiet [OF env fe tm(1) this], of e] show ?thesis by (simp add: EvMesos CbStatusUpdate)
    next
      case (CbRegistered fwID)
      then have "quiet_step tenv {} fw fw'"
        using cb tm by (auto simp: Registered_def intro!: quiet_stepI [where ids = "[]"] keeps_same)
      from quiet [OF this, of e] show ?thesis by (simp add: EvMesos CbRegistered)
    qed (use cb inv in \<open>auto simp: EvMesos sys_inv_def\<close>)
  next
    case (EvFailure now later failure)
    then obtain ids tm' where "handle_failure tenv now later failure tm = Some (ids, tm')" "fw' = fw\<lparr>fw_taskManager := Some tm'\<rparr>"
      using d tm(1) by auto
    then have "quiet_step tenv {} fw fw'"
      using tm(1) handle_failure_keeps [OF env] by (auto intro!: quiet_stepI [where ids = "[]"])
    from quiet [OF this, of e] show ?thesis by (simp add: EvFailure)
  next
    case (EvKill clock)
    then obtain t where "kill_listed_task (ag_fenv env) clock t fw = Some fw'" using d by (auto split: list.splits)
    moreover have "{tid. \<exists>k d. tm_recorded tenv tm k = Some d \<and> tid = dep_TaskId d} \<subseteq> ti_TaskId ` set (launches (fw_calls fw)) \<union> set (staging_in e)"
      using tm(3) unfolding traced_def by force
    ultimately show ?thesis using quiet [OF kill_quiet [OF env fe tm(1,2)]] by (simp add: EvKill)
  qed
qed

text \<open>Starting asks the driver for nothing but to connect and to start.\<close>

lemma Framework_Start_quiet:
  assumes "Framework_Start env fw = Some (err, fw')"
  shows "fw_taskManager fw' = fw_taskManager fw \<and> (\<exists>cs. fw_calls fw' = fw_calls fw @ cs \<and> set cs \<subseteq> {DriverInit, DriverStart})"
proof -
  have owned: "fw_taskManager fw1 = fw_taskManager fw \<and> fw_calls fw1 = fw_calls fw" if "start_owned env fw = Some (e, fw1)" for e fw1
    using that by (auto simp: start_owned_def Let_def split: sum.splits if_splits)
  have info: "fw_taskManager fw2 = fw_taskManager fw1 \<and> fw_calls fw2 = fw_calls fw1" if "infoFromConfig env fw1 = Some (i, fw2)" for i fw1 fw2
    using that by (auto simp: infoFromConfig_def Let_def split: option.splits prod.splits)
  show ?thesis
    using assms by (auto simp: Framework_Start_def drive_def Let_def split: option.splits prod.splits if_splits dest!: owned info)
qed

lemma NewDefaultTaskManager_sound:
  fixes env :: "(InMemoryStore, 'a) tm_env"
  assumes "tenv_ok env" and "NewDefaultTaskManager mem addr appStore = Some (Inr tm)"
  shows "tm_sound env tm \<and> tm_recorded env tm = Map.empty"
proof -
  have "tm_tasks tm = empty_tasks" using assms(2) by (auto simp: NewDefaultTaskManager_def TaskStore_New_def empty_tasks_def TaskStore_NewWithStore_def)
  then show ?thesis using assms(1) empty_tasks_wf
    by (auto simp: tm_sound_def tm_keyed_def tm_recorded_def decoded_def tenv_ok_def empty_tasks_def TaskStore_NewWithStore_def
        NewEmptyInMemoryStore_def ims_abs_def)
qed

lemma sys_start_inv:
  assumes env: "tenv_ok tenv" and new: "NewDefaultTaskManager mem addr appStore = Some (Inr tm)"
    and start: "Framework_Start fenv (NewFramework config tm) = Some (err, fw)"
  shows "sys_inv tenv [] fw"
proof -
  obtain cs where s: "fw_taskManager fw = Some tm" "fw_calls fw = cs" "set cs \<subseteq> {DriverInit, DriverStart}"
    using Framework_Start_quiet [OF start] by (auto simp: NewFramework_def)
  from s(3) have "launches cs = []" "answered cs = []" "kills cs = []" by (induction cs) auto
  then show ?thesis using NewDefaultTaskManager_sound [OF env new] s(1,2) by (auto simp: sys_inv_def traced_def)
qed

lemma sys_run_inv:
  assumes "sys_run env tenv evs s" and "tenv_ok tenv" and "fe_tm (ag_fenv env) = DefaultTaskManager_methods tenv"
  shows "sys_inv tenv evs (fst s)"
  using assms
proof induction
  case (run_start mem addr appStore tm config err fw)
  then show ?case using sys_start_inv by simp
next
  case (run_event evs s e s')
  then show ?case using sys_inv_event [of tenv env evs "fst s" e "snd s" "fst s'" "snd s'"] by simp
qed

section \<open>A run\<close>

text \<open>The stored docker application is deployed, and launched for the first of two offers; the second is declined.\<close>

definition first_start :: "(InMemoryStore, InMemoryStore) task_manager" where
  "first_start = docker_tm\<lparr>tm_queue := empty_queue\<lparr>slots := []\<rparr>, tm_health := Some HealthChecker_New\<rparr>"

lemma first_start_new: "NewDefaultTaskManager empty_queue 1 stored_apps = Some (Inr first_start)"
  by (simp add: NewDefaultTaskManager_def TaskStore_New_def TaskQueue_New_def NewTaskQueueWithPrioQueue_def heap_Init_def
      PrioQueue_Len_def first_start_def docker_tm_def sample_tm_def empty_tasks_def TaskStore_NewWithStore_def)

lemma first_start_ok:
  assumes "length ds \<le> 256"
  shows "tenv_ok (docker_tenv ds)" "tm_wf first_start" "slots (tm_queue first_start) = []"
    "Framework_Start (ag_fenv (docker_agora ds)) (NewFramework sample_config first_start) =
       Some (None, (NewFramework sample_config first_start)\<lparr>fw_id := Some (), fw_Curator := Some (), fw_listening := True,
         fw_driver := Some \<lparr>sd_Master = ''zk://localhost:2181/mesos'', sd_Framework = \<lparr>fi_User = Some ''agora'', fi_Name = Some ''Agora'', fi_Id = None\<rparr>\<rparr>,
         fw_calls := [DriverInit, DriverStart]\<rparr>)"
proof -
  show "tenv_ok (docker_tenv ds)"
    using assms table_codec_ok [of ds] by (auto simp: tenv_ok_def docker_tenv_def sample_env_def)
  have same: "empty_queue\<lparr>slots := []\<rparr> = empty_queue" by (simp add: empty_queue_def sample_queue_def)
  show "tm_wf first_start" "slots (tm_queue first_start) = []"
    using docker_tm_ok(1,3) by (simp_all add: first_start_def tm_wf_def docker_tm_def sample_tm_def same)
  show "Framework_Start (ag_fenv (docker_agora ds)) (NewFramework sample_config first_start) =
       Some (None, (NewFramework sample_config first_start)\<lparr>fw_id := Some (), fw_Curator := Some (), fw_listening := True,
         fw_driver := Some \<lparr>sd_Master = ''zk://localhost:2181/mesos'', sd_Framework = \<lparr>fi_User = Some ''agora'', fi_Name = Some ''Agora'', fi_Id = None\<rparr>\<rparr>,
         fw_calls := [DriverInit, DriverStart]\<rparr>)"
    by (simp add: Framework_Start_def start_owned_def infoFromConfig_def drive_def NewFramework_def docker_agora_def sample_fw_env_def
        sample_config_def sample_fis_def)
qed

lemma sample_run:
  "\<exists>ds rs s0 t fw. length ds = 1 \<and> tenv_ok (docker_tenv ds) \<and>
     sys_run (docker_agora ds) (docker_tenv ds)
       [EvRequest RouteDeploy ''web'' rs, EvMesos (CbResourceOffers [(sample_offer 31000 32000, ''7'', 5)]), EvMesos (CbResourceOffers [(sample_offer 31000 32000, ''8'', 6)])] (fw, []) \<and>
     fw_calls fw = [DriverInit, DriverStart, LaunchTasks (Some \<lparr>oid_Value = Some ''offer-1''\<rparr>) [t], DeclineOffer (Some \<lparr>oid_Value = Some ''offer-1''\<rparr>)] \<and>
     s0 = fw_taskManager fw \<and> (\<exists>tm. s0 = Some tm \<and> tm_recorded (docker_tenv ds) tm ''exeggutor-task-7'' \<noteq> None)"
proof -
  let ?o = "sample_offer 31000 32000" and ?r = "json_request ''POST'' [] [] 1"
  note o = docker_offer [of 32000, simplified]
  have "\<exists>r \<in> set (port_ranges ?o). 1 < range_size r" using o(3,4) by simp
  then obtain task pm where b: "BuildTaskInfo (GetPorts 0) sample_scalar ''7'' ?o (Some docker_app)
      (ScheduledApp_zero\<lparr>sa_AppId := app_Id docker_app\<rparr>) = Some (task, pm)"
    using BuildTaskInfo_defined [OF o(2), of 1 docker_app 0 sample_scalar "''7''" "ScheduledApp_zero\<lparr>sa_AppId := app_Id docker_app\<rparr>"]
    by (auto simp: docker_app_simps)
  have tid: "TaskID_GetValue (ti_TaskId task) = ''exeggutor-task-7''"
    using b by (auto simp: BuildTaskInfo_def TaskID_GetValue_def split: option.splits prod.splits)
  define d where "d = \<lparr>dep_AppId = Some (Application_GetId (Some docker_app)), dep_TaskId = ti_TaskId task, dep_Status = Some AppStatus_DEPLOYING,
    dep_DeployedAt = Some 5, dep_Slave = off_SlaveId ?o, dep_HostName = off_Hostname ?o, dep_PortMapping = pm\<rparr>"
  let ?t = "docker_tenv [d]" and ?env = "docker_agora [d]"
  have env: "fe_tm (ag_fenv ?env) = DefaultTaskManager_methods ?t" "\<And>a tm. mon_CanDeploy (e_sla ?t) a tm" "e_kv ?t = InMemoryStore_kv id"
    by (simp_all add: docker_agora_def docker_tenv_def sample_env_simps iface_simps)
  note st = first_start_ok [of "[d]", simplified]
  let ?fw0 = "(NewFramework sample_config first_start)\<lparr>fw_id := Some (), fw_Curator := Some (), fw_listening := True,
         fw_driver := Some \<lparr>sd_Master = ''zk://localhost:2181/mesos'', sd_Framework = \<lparr>fi_User = Some ''agora'', fi_Name = Some ''Agora'', fi_Id = None\<rparr>\<rparr>,
         fw_calls := [DriverInit, DriverStart]\<rparr>"
  have fw0: "fw_taskManager ?fw0 = Some first_start" "fw_calls ?fw0 = [DriverInit, DriverStart]" by (simp_all add: NewFramework_def)
  have run0: "sys_run ?env ?t [] (?fw0, [])" by (rule sys_run.run_start [OF first_start_new st(4)])
  obtain tm1 item where s: "SubmitApp ?t [(docker_app, 1)] first_start = Some (None, tm1)" "tm_wf tm1" "slots (tm_queue tm1) = [item]"
    "sa_AppId (sas (tm_queue tm1) item) = app_Id docker_app" "deref_app (tm_queue tm1) (sa_App (sas (tm_queue tm1) item)) = Some docker_app"
    "tm_tasks tm1 = tm_tasks first_start" "tm_apps tm1 = tm_apps first_start"
    using SubmitApp_one [OF env(2) st(2,3) sortable_docker] by blast
  have stored: "DefaultAppStore_Get (ax_kv (ag_api ?env)) (ax_dec (ag_api ?env)) ''web'' (tm_apps first_start) = Inr (Some docker_app)"
    by (simp add: docker_agora_def sample_agora_def sample_api_def first_start_def docker_tm_def docker_stored)
  let ?fw1 = "?fw0\<lparr>fw_taskManager := Some tm1\<rparr>"
  have now: "rq_Now ?r = 1" by (simp add: json_request_def)
  obtain rs where "serve_route ?env RouteDeploy ''web'' ?r ?fw0 = Some (rs, ?fw1)"
    using serve_deploy [OF fw0(1) env(1) stored, of ?r] s(1) by (auto simp: now)
  with sys_run.run_event [OF run0, of "EvRequest RouteDeploy ''web'' ?r"]
  have run1: "sys_run ?env ?t [EvRequest RouteDeploy ''web'' ?r] (?fw1, [])" by simp
  have fw1: "fw_taskManager ?fw1 = Some tm1" "fw_calls ?fw1 = [DriverInit, DriverStart]" by (simp_all add: NewFramework_def)
  have "tm_keyed ?t docker_tm" by (rule docker_tm_ok(4)) simp
  then have keyed: "tm_keyed ?t tm1" using s(6) by (simp add: tm_keyed_def tm_recorded_def first_start_def)
  have build: "BuildTaskInfo (e_getPorts ?t) (e_scalar ?t) ''7'' ?o (Some docker_app) (ScheduledApp_zero\<lparr>sa_AppId := app_Id docker_app\<rparr>) = Some (task, pm)"
    using b by (simp add: docker_tenv_def sample_env_def)
  have enc: "tm_encodes ?t d" using table_encodes [of _ "[d]"] by (simp add: tm_encodes_def docker_tenv_def sample_env_simps)
  obtain tm2 fw2 where l: "ResourceOffers (ag_fenv ?env) [(?o, ''7'', 5)] ?fw1 = Some fw2" "fw_taskManager fw2 = Some tm2"
    "fw_calls fw2 = fw_calls ?fw1 @ [LaunchTasks (off_Id ?o) [task]]" "slots (tm_queue tm2) = []"
    "tm_recorded ?t tm2 = (tm_recorded ?t tm1)(TaskID_GetValue (ti_TaskId task) \<mapsto> d)"
    using launch_one [OF env(2,3,1) fw1(1) s(2) keyed s(3-5) o(1) build d_def enc] by blast
  with sys_run.run_event [OF run1, of "EvMesos (CbResourceOffers [(?o, ''7'', 5)])"]
  have run2: "sys_run ?env ?t [EvRequest RouteDeploy ''web'' ?r, EvMesos (CbResourceOffers [(?o, ''7'', 5)])] (fw2, [])" by simp
  obtain tm3 where f: "FulfillOffer ?t ''8'' 6 ?o tm2 = Some ([], tm3)" using FulfillOffer_empty_queue [OF env(2) l(4)] by blast
  let ?fw3 = "fw2\<lparr>fw_taskManager := Some tm3, fw_calls := fw_calls fw2 @ [DeclineOffer (off_Id ?o)]\<rparr>"
  have "ResourceOffers (ag_fenv ?env) [(?o, ''8'', 6)] fw2 = Some ?fw3"
    using f l(2) env(1) by (simp add: answer_offer_def iface_simps drive_def)
  with sys_run.run_event [OF run2, of "EvMesos (CbResourceOffers [(?o, ''8'', 6)])"]
  have run3: "sys_run ?env ?t [EvRequest RouteDeploy ''web'' ?r, EvMesos (CbResourceOffers [(?o, ''7'', 5)]), EvMesos (CbResourceOffers [(?o, ''8'', 6)])] (?fw3, [])" by simp
  have "tm_sound ?t tm2" using sys_run_inv [OF run2 st(1) env(1)] l(2) by (auto simp: sys_inv_def)
  from FulfillOffer_sound [OF st(1) this f] have "tm_recorded ?t tm3 = tm_recorded ?t tm2" by (simp add: launched_def)
  then have "tm_recorded ?t tm3 ''exeggutor-task-7'' \<noteq> None" using l(5) tid by simp
  moreover have "off_Id ?o = Some \<lparr>oid_Value = Some ''offer-1''\<rparr>" by (simp add: sample_offer_def)
  ultimately show ?thesis using run3 st(1) l(3) fw1(2)
    by (intro exI [of _ "[d]"] exI [of _ ?r] exI [of _ "Some tm3"] exI [of _ task] exI [of _ ?fw3]) auto
qed

section \<open>Properties\<close>

text \<open>C2. Whatever Mesos, the clients of the API and the health checks do, in whatever order, every task the program has on record was launched:
  Mesos was asked to launch a task with its id, under which it is stored, on its slave; and the program asks Mesos to kill a task only if it asked to
  launch it or Mesos reported it as staging or starting.\<close>

theorem system_tasks_are_traced:
  assumes "tenv_ok tenv" and "fe_tm (ag_fenv env) = DefaultTaskManager_methods tenv" and "sys_run env tenv evs (fw, ch)"
  shows "\<exists>tm. fw_taskManager fw = Some tm \<and>
    (\<forall>k d. tm_recorded tenv tm k = Some d \<longrightarrow>
       (\<exists>t \<in> set (launches (fw_calls fw)). ti_TaskId t = dep_TaskId d \<and> ti_SlaveId t = dep_Slave d \<and> ti_TaskId t = Some \<lparr>tid_Value = Some k\<rparr>)) \<and>
    set (kills (fw_calls fw)) \<subseteq> ti_TaskId ` set (launches (fw_calls fw)) \<union> set (staging_of evs)"
  using sys_run_inv [OF assms(3,1,2)] by (auto simp: sys_inv_def traced_def)

theorem system_tasks_are_traced_witness:
  "\<exists>ds evs fw tm t. sys_run (docker_agora ds) (docker_tenv ds) evs (fw, []) \<and> fw_taskManager fw = Some tm \<and>
     tm_recorded (docker_tenv ds) tm ''exeggutor-task-7'' \<noteq> None \<and> t \<in> set (launches (fw_calls fw)) \<and>
     ti_TaskId t = Some \<lparr>tid_Value = Some ''exeggutor-task-7''\<rparr>"
proof -
  obtain ds rs fw tm where r: "tenv_ok (docker_tenv ds)" "sys_run (docker_agora ds) (docker_tenv ds)
      [EvRequest RouteDeploy ''web'' rs, EvMesos (CbResourceOffers [(sample_offer 31000 32000, ''7'', 5)]), EvMesos (CbResourceOffers [(sample_offer 31000 32000, ''8'', 6)])] (fw, [])"
    "fw_taskManager fw = Some tm" "tm_recorded (docker_tenv ds) tm ''exeggutor-task-7'' \<noteq> None" using sample_run by blast
  have fe: "fe_tm (ag_fenv (docker_agora ds)) = DefaultTaskManager_methods (docker_tenv ds)" by (simp add: docker_agora_def)
  obtain d where d: "tm_recorded (docker_tenv ds) tm ''exeggutor-task-7'' = Some d" using r(4) by blast
  obtain tm' where t: "fw_taskManager fw = Some tm'"
    "\<forall>k d. tm_recorded (docker_tenv ds) tm' k = Some d \<longrightarrow>
       (\<exists>t \<in> set (launches (fw_calls fw)). ti_TaskId t = dep_TaskId d \<and> ti_SlaveId t = dep_Slave d \<and> ti_TaskId t = Some \<lparr>tid_Value = Some k\<rparr>)"
    using system_tasks_are_traced [OF r(1) fe r(2)] by blast
  have "tm' = tm" using t(1) r(3) by simp
  with t(2) [rule_format, of "''exeggutor-task-7''" d] d
  obtain t where "t \<in> set (launches (fw_calls fw))" "ti_TaskId t = Some \<lparr>tid_Value = Some ''exeggutor-task-7''\<rparr>" by blast
  with r(2-4) show ?thesis by blast
qed

text \<open>C3. Over every run of the program, whatever else happens in between, every offer Mesos ever made is answered exactly once, in the order the
  offers came in, with a launch or a decline; and the tasks that are launched have pairwise different ids as long as the ids drawn for the offers are
  different.\<close>

theorem system_answers_every_offer_once:
  assumes "tenv_ok tenv" and "fe_tm (ag_fenv env) = DefaultTaskManager_methods tenv" and "sys_run env tenv evs (fw, ch)"
    and "distinct (map (\<lambda>(offer, taskID, now). taskID) (offers_of evs))"
  shows "answered (fw_calls fw) = map (\<lambda>(offer, taskID, now). off_Id offer) (offers_of evs) \<and>
    distinct (map ti_TaskId (launches (fw_calls fw)))"
proof -
  note inv = sys_run_inv [OF assms(3,1,2)]
  have inj: "inj_on (\<lambda>i. Some \<lparr>tid_Value = Some (''exeggutor-task-'' @ i)\<rparr>) A" for A by (rule inj_onI) simp
  have ids: "map (\<lambda>x. Some \<lparr>tid_Value = Some (task_key x)\<rparr>) (offers_of evs) =
      map (\<lambda>i. Some \<lparr>tid_Value = Some (''exeggutor-task-'' @ i)\<rparr>) (map (\<lambda>(offer, taskID, now). taskID) (offers_of evs))"
    by (simp add: task_key_def case_prod_unfold)
  have "distinct (map (\<lambda>x. Some \<lparr>tid_Value = Some (task_key x)\<rparr>) (offers_of evs))"
    unfolding ids by (rule distinct_map [THEN iffD2], rule conjI [OF assms(4) inj])
  moreover have "subseq (map ti_TaskId (launches (fw_calls fw))) (map (\<lambda>x. Some \<lparr>tid_Value = Some (task_key x)\<rparr>) (offers_of evs))"
    "answered (fw_calls fw) = map (\<lambda>x. off_Id (fst x)) (offers_of evs)" using inv by (simp_all add: sys_inv_def)
  ultimately show ?thesis using subseq_distinct_ids by (simp add: case_prod_unfold)
qed

theorem system_answers_every_offer_once_witness:
  "\<exists>ds evs fw. sys_run (docker_agora ds) (docker_tenv ds) evs (fw, []) \<and>
     answered (fw_calls fw) = [Some \<lparr>oid_Value = Some ''offer-1''\<rparr>, Some \<lparr>oid_Value = Some ''offer-1''\<rparr>] \<and>
     length (launches (fw_calls fw)) = 1"
proof -
  obtain ds rs t fw where r: "tenv_ok (docker_tenv ds)" "sys_run (docker_agora ds) (docker_tenv ds)
      [EvRequest RouteDeploy ''web'' rs, EvMesos (CbResourceOffers [(sample_offer 31000 32000, ''7'', 5)]), EvMesos (CbResourceOffers [(sample_offer 31000 32000, ''8'', 6)])] (fw, [])"
    "fw_calls fw = [DriverInit, DriverStart, LaunchTasks (Some \<lparr>oid_Value = Some ''offer-1''\<rparr>) [t], DeclineOffer (Some \<lparr>oid_Value = Some ''offer-1''\<rparr>)]"
    using sample_run by blast
  have fe: "fe_tm (ag_fenv (docker_agora ds)) = DefaultTaskManager_methods (docker_tenv ds)" by (simp add: docker_agora_def)
  have "answered (fw_calls fw) = [Some \<lparr>oid_Value = Some ''offer-1''\<rparr>, Some \<lparr>oid_Value = Some ''offer-1''\<rparr>]"
    using system_answers_every_offer_once [OF r(1) fe r(2)] by (simp add: sample_offer_def)
  moreover have "length (launches (fw_calls fw)) = 1" using r(3) by simp
  ultimately show ?thesis using r(2) by blast
qed

end
