(* ===== verification/Races.thy ===== *)
theory Races
  imports System
begin

text \<open>
  Status updates beside each other. The callbacks of Mesos, the listener of the task manager and the kill loop run in goroutines of their own, and
  \<open>updateStatus\<close> of \<open>src/tasks/default_task_manager.go\<close> reads a deployment and writes it back without a lock around the two. Here an
  update is these two steps (\<open>updateStatus_read\<close>, \<open>updateStatus_write\<close>), and any steps of other goroutines may come in between: further
  updates and tasks that are forgotten.
\<close>

section \<open>Interleavings\<close>

text \<open>An update that has read: its task, its status, what it read.\<close>

datatype pending = Pending "TaskID option" AppStatus "Deployment option result"

inductive races ::
  "(InMemoryStore, 'a) tm_env \<Rightarrow> (InMemoryStore, 'a) task_manager \<Rightarrow> (InMemoryStore, 'a) task_manager \<times> pending list \<Rightarrow> bool"
  for env tm0 where
  race_start: "races env tm0 (tm0, [])"
| race_read: "races env tm0 (tm, ps) \<Longrightarrow> races env tm0 (tm, ps @ [Pending tid s (updateStatus_read env tid tm)])"
| race_write: "races env tm0 (tm, ps @ Pending tid s r # qs) \<Longrightarrow> updateStatus_write env now later tid s r tm = Some (e, tm') \<Longrightarrow>
    races env tm0 (tm', ps @ qs)"
| race_forget: "races env tm0 (tm, ps) \<Longrightarrow> forgetTask env tid tm = Some tm' \<Longrightarrow> races env tm0 (tm', ps)"

text \<open>A deployment as it was recorded at the start, up to its status.\<close>

definition restatus :: "deployments \<Rightarrow> string \<Rightarrow> Deployment \<Rightarrow> bool" where
  "restatus r0 k d \<longleftrightarrow> (\<exists>d0. r0 k = Some d0 \<and> d\<lparr>dep_Status := None\<rparr> = d0\<lparr>dep_Status := None\<rparr>)"

lemma restatus_keyed:
  assumes "restatus (tm_recorded env tm0) k d" and "tm_keyed env tm0"
  shows "TaskID_GetValue (dep_TaskId d) = k"
proof -
  obtain d0 where d0: "tm_recorded env tm0 k = Some d0" "d\<lparr>dep_Status := None\<rparr> = d0\<lparr>dep_Status := None\<rparr>" using assms(1) by (auto simp: restatus_def)
  from arg_cong [OF d0(2), of dep_TaskId] have "dep_TaskId d = dep_TaskId d0" by simp
  with d0(1) assms(2) show ?thesis by (simp add: tm_keyed_def)
qed

lemma restatus_status: "restatus r0 k d \<Longrightarrow> restatus r0 k (d\<lparr>dep_Status := s\<rparr>)"
  by (simp add: restatus_def)

definition races_inv :: "(InMemoryStore, 'a) tm_env \<Rightarrow> (InMemoryStore, 'a) task_manager \<Rightarrow> (InMemoryStore, 'a) task_manager \<Rightarrow> pending list \<Rightarrow> bool" where
  "races_inv env tm0 tm ps \<longleftrightarrow> tm_sound env tm \<and> (\<forall>k d. tm_recorded env tm k = Some d \<longrightarrow> restatus (tm_recorded env tm0) k d) \<and>
     (\<forall>tid s r d. Pending tid s r \<in> set ps \<longrightarrow> r = Inr (Some d) \<longrightarrow> restatus (tm_recorded env tm0) (TaskID_GetValue tid) d)"

lemma updateStatus_write_tasks:
  assumes "updateStatus_write env now later tid s r tm = Some (e, tm')"
  shows "tm_tasks tm' = tm_tasks tm \<or> (\<exists>d. r = Inr (Some d) \<and>
    tm_tasks tm' = snd (DefaultTaskStore_Save (e_kv env) (e_enc env) (d\<lparr>dep_Status := Some s\<rparr>) (tm_tasks tm)))"
  using assms
  by (auto simp: updateStatus_write_def Let_def split: sum.splits option.splits if_splits prod.splits
      dest!: scheduleAppForDeployment_tasks update_health_tasks)

lemma races_write:
  assumes env: "tenv_ok env" and key: "tm_keyed env tm0" and inv: "races_inv env tm0 tm (ps @ Pending tid s r # qs)"
    and w: "updateStatus_write env now later tid s r tm = Some (e, tm')"
  shows "races_inv env tm0 tm' (ps @ qs)"
proof -
  have tm: "tm_sound env tm" using inv by (simp add: races_inv_def)
  have pend: "restatus (tm_recorded env tm0) (TaskID_GetValue tid) d" if "r = Inr (Some d)" for d
    using inv that unfolding races_inv_def by auto
  from updateStatus_write_tasks [OF w] have "tm_sound env tm' \<and> (tm_recorded env tm' = tm_recorded env tm \<or>
      (\<exists>d. r = Inr (Some d) \<and> tm_recorded env tm' = (tm_recorded env tm)(TaskID_GetValue (dep_TaskId d) \<mapsto> d\<lparr>dep_Status := Some s\<rparr>)))"
  proof (elim disjE exE conjE)
    assume "tm_tasks tm' = tm_tasks tm"
    with keeps_same [OF tm this] show ?thesis by (simp add: keeps_def tm_recorded_def)
  next
    fix d
    assume "r = Inr (Some d)"
      and "tm_tasks tm' = snd (DefaultTaskStore_Save (e_kv env) (e_enc env) (d\<lparr>dep_Status := Some s\<rparr>) (tm_tasks tm))"
    with Save_sound [OF env tm, of tm' "d\<lparr>dep_Status := Some s\<rparr>"] show ?thesis by auto
  qed
  then show ?thesis
    using inv pend restatus_keyed [OF pend key] restatus_status [OF pend] unfolding races_inv_def by (auto split: if_splits)
qed

lemma races_reach:
  assumes "races env tm0 x" and env: "tenv_ok env" and tm0: "tm_sound env tm0"
  shows "races_inv env tm0 (fst x) (snd x)"
  using assms(1)
proof induction
  case race_start
  then show ?case using tm0 by (auto simp: races_inv_def restatus_def)
next
  case (race_read tm ps tid s)
  then show ?case
    using Get_recorded [OF env, of "TaskID_GetValue tid" tm] by (fastforce simp: races_inv_def updateStatus_read_def)
next
  case (race_write tm ps tid s r qs now later e tm')
  then show ?case using races_write [OF env _ _ race_write.hyps(2)] tm0 by (simp add: tm_sound_def)
next
  case (race_forget tm ps tid tm')
  then have tm: "tm_sound env tm" by (simp add: races_inv_def)
  obtain it where kv: "e_kv env = InMemoryStore_kv it" using env by (auto simp: tenv_ok_def)
  have "tm_recorded env tm' = (tm_recorded env tm)(TaskID_GetValue tid := None)"
    using forgetTask_forgets [OF kv] tm race_forget.hyps(2) unfolding forgets_def tm_sound_def by blast
  with race_forget.IH forgetTask_keeps [OF env tm race_forget.hyps(2)] show ?case by (auto simp: races_inv_def keeps_def split: if_splits)
qed

text \<open>What a forgotten task leaves behind.\<close>

lemma forgetTask_gone:
  assumes kv: "e_kv env = InMemoryStore_kv it" and key: "tm_keyed env t"
  shows "\<exists>tm'. forgetTask env tid t = Some tm' \<and> tm_recorded env tm' (TaskID_GetValue tid) = None \<and> tm_keyed env tm' \<and>
    tm_queue tm' = tm_queue t \<and> tm_next tm' = tm_next t \<and> ims_abs (dts_store (tm_tasks tm')) (TaskID_GetValue tid) = None"
proof -
  have "ims_wf (dts_store (tm_tasks t))" using key by (simp add: tm_keyed_def)
  from forgetTask_ok [OF kv this, of tid] obtain tm' where f: "forgetTask env tid t = Some tm'" "tm_queue tm' = tm_queue t" "tm_next tm' = tm_next t"
    "ims_abs (dts_store (tm_tasks tm')) = (ims_abs (dts_store (tm_tasks t)))(TaskID_GetValue tid := None)" by blast
  have "tm_keyed env tm' \<and> tm_recorded env tm' = (tm_recorded env t)(TaskID_GetValue tid := None)"
    using forgetTask_forgets [OF kv] key f(1) unfolding forgets_def by blast
  with f show ?thesis by simp
qed

lemma forgetTask_apps: "forgetTask env tid tm = Some tm' \<Longrightarrow> tm_apps tm' = tm_apps tm"
  by (auto simp: forgetTask_def Let_def split: option.splits prod.splits)

text \<open>A task manager with one recorded task, its codecs and an update of the task.\<close>

abbreviation raced_env :: "(InMemoryStore, InMemoryStore) tm_env" where
  "raced_env \<equiv> docker_tenv [sample_deployment, sample_deployment\<lparr>dep_Status := Some AppStatus_UNHEALTHY\<rparr>]"

abbreviation raced_tm :: "(InMemoryStore, InMemoryStore) task_manager" where
  "raced_tm \<equiv> docker_tm\<lparr>tm_tasks := one_task\<rparr>"

abbreviation task_1 :: "TaskID option" where
  "task_1 \<equiv> Some \<lparr>tid_Value = Some ''task-1''\<rparr>"

lemma raced_ok:
  "tenv_ok raced_env" "tm_sound raced_env raced_tm" "tm_wf raced_tm" "tm_room raced_env raced_tm"
  "tm_recorded raced_env raced_tm = [''task-1'' \<mapsto> sample_deployment]" "TaskID_GetValue task_1 = ''task-1''"
  "tm_encodes raced_env (sample_deployment\<lparr>dep_Status := Some AppStatus_UNHEALTHY\<rparr>)"
proof -
  let ?s = sample_deployment let ?ds = "[?s, ?s\<lparr>dep_Status := Some AppStatus_UNHEALTHY\<rparr>]"
  show "tenv_ok raced_env" by (rule first_start_ok(1)) simp
  show "tm_wf raced_tm" "tm_room raced_env raced_tm"
    using docker_tm_ok(1) docker_tm_ok(2) [of ?ds] by (simp_all add: tm_wf_def tm_room_def)
  show "TaskID_GetValue task_1 = ''task-1''" by (simp add: TaskID_GetValue_def)
  have same: "tm_recorded raced_env raced_tm = tm_recorded (sample_env ?ds) (sample_tm empty_queue)"
    "tm_keyed raced_env raced_tm = tm_keyed (sample_env ?ds) (sample_tm empty_queue)"
    by (simp_all add: tm_keyed_def tm_recorded_def docker_tenv_def sample_tm_def)
  show rec: "tm_recorded raced_env raced_tm = [''task-1'' \<mapsto> ?s]" unfolding same by (rule sample_recorded(1))
  have "TaskID_GetValue (dep_TaskId ?s) = ''task-1''" by (simp add: sample_deployment_def TaskID_GetValue_def)
  then have key: "tm_keyed raced_env raced_tm" unfolding same by (rule sample_recorded(2)) simp
  have "\<exists>d. e_dec raced_env v = Inr d" if "ims_abs (dts_store (tm_tasks raced_tm)) k = Some v" for k v
    using that by (auto simp: one_task_def TaskStore_NewWithStore_def NewInMemoryStore_def ims_abs_def docker_tenv_def sample_env_def split: if_splits)
  with key show "tm_sound raced_env raced_tm" unfolding tm_sound_def by blast
  show "tm_encodes raced_env (?s\<lparr>dep_Status := Some AppStatus_UNHEALTHY\<rparr>)"
    using table_encodes [of _ ?ds] by (simp add: tm_encodes_def docker_tenv_def sample_env_simps)
qed

section \<open>Properties\<close>

text \<open>C7. However status updates and tasks that are forgotten interleave, no deployment is invented and none gets another task, slave, application
  or port: what is recorded is what was recorded at the start, up to the status.\<close>

theorem interleaved_updates_invent_nothing:
  assumes "tenv_ok env" and "tm_sound env tm0" and "races env tm0 (tm, ps)" and "tm_recorded env tm k = Some d"
  shows "\<exists>d0. tm_recorded env tm0 k = Some d0 \<and> d\<lparr>dep_Status := None\<rparr> = d0\<lparr>dep_Status := None\<rparr>"
  using races_reach [OF assms(3,1,2)] assms(4) by (auto simp: races_inv_def restatus_def)

theorem interleaved_updates_invent_nothing_witness:
  "\<exists>tm ps. races raced_env raced_tm (tm, ps) \<and> ps = [Pending task_1 AppStatus_FAILED (Inr (Some sample_deployment))] \<and>
     tm_recorded raced_env tm ''task-1'' = Some (sample_deployment\<lparr>dep_Status := Some AppStatus_UNHEALTHY\<rparr>) \<and>
     (\<exists>d0. tm_recorded raced_env raced_tm ''task-1'' = Some d0 \<and>
        sample_deployment\<lparr>dep_Status := Some AppStatus_UNHEALTHY, dep_Status := None\<rparr> = d0\<lparr>dep_Status := None\<rparr>)"
proof -
  let ?s = sample_deployment let ?u = "?s\<lparr>dep_Status := Some AppStatus_UNHEALTHY\<rparr>"
  have kv: "e_kv raced_env = InMemoryStore_kv id" by (simp add: docker_tenv_def sample_env_simps)
  have key: "tm_keyed raced_env raced_tm" using raced_ok(2) by (simp add: tm_sound_def)
  have "tm_recorded raced_env raced_tm ''task-1'' = Some ?s" by (simp add: raced_ok(5))
  from recorded_Get [OF this, of id] have read: "updateStatus_read raced_env task_1 raced_tm = Inr (Some ?s)"
    unfolding updateStatus_read_def kv raced_ok(6) .
  obtain b where b: "e_enc raced_env ?u = Inr b" using raced_ok(7) by (auto simp: tm_encodes_def)
  have k: "TaskID_GetValue (dep_TaskId ?u) = ''task-1''" by (simp add: sample_deployment_def TaskID_GetValue_def)
  obtain ts where ts: "DefaultTaskStore_Save (e_kv raced_env) (e_enc raced_env) ?u (tm_tasks raced_tm) = (None, ts)"
    "\<And>tm'. tm_tasks tm' = ts \<Longrightarrow> tm_keyed raced_env tm' \<and> tm_recorded raced_env tm' = (tm_recorded raced_env raced_tm)(''task-1'' \<mapsto> ?u)"
    using Save_recorded [OF key b k, of id thesis] unfolding kv by blast
  obtain tm where u: "updateStatus_write raced_env 1 1 task_1 AppStatus_UNHEALTHY (Inr (Some ?s)) raced_tm = Some (None, tm)" "tm_tasks tm = ts"
    using updateStatus_write_ok [OF raced_ok(3,4) ts(1)] by blast
  have "races raced_env raced_tm (raced_tm, [] @ Pending task_1 AppStatus_UNHEALTHY (Inr (Some ?s)) # [Pending task_1 AppStatus_FAILED (Inr (Some ?s))])"
    using race_read [OF race_read [OF race_start [of raced_env raced_tm], of task_1 AppStatus_UNHEALTHY], of task_1 AppStatus_FAILED] by (simp add: read)
  from race_write [OF this u(1)] have r: "races raced_env raced_tm (tm, [Pending task_1 AppStatus_FAILED (Inr (Some ?s))])" by simp
  have rec: "tm_recorded raced_env tm ''task-1'' = Some ?u" using ts(2) [OF u(2)] by simp
  from interleaved_updates_invent_nothing [OF raced_ok(1,2) r rec] r rec show ?thesis by blast
qed

text \<open>C8. A task that is forgotten between the two steps of an update comes back: after the update it is recorded again, with the status of the
  update. One after the other, in either order, the two leave it forgotten.\<close>

theorem racing_update_revives_a_forgotten_task:
  assumes env: "tenv_ok env" and tm: "tm_sound env tm0" "tm_wf tm0" "tm_room env tm0"
    and d: "tm_recorded env tm0 (TaskID_GetValue tid) = Some d" and enc: "tm_encodes env (d\<lparr>dep_Status := Some s\<rparr>)"
  shows "\<exists>tm1 tm2. forgetTask env tid tm0 = Some tm1 \<and> tm_recorded env tm1 (TaskID_GetValue tid) = None \<and>
    updateStatus_write env now later tid s (updateStatus_read env tid tm0) tm1 = Some (None, tm2) \<and> races env tm0 (tm2, []) \<and>
    tm_recorded env tm2 (TaskID_GetValue tid) = Some (d\<lparr>dep_Status := Some s\<rparr>) \<and>
    (\<exists>err. updateStatus env now later tid s tm1 = Some (Some err, tm1)) \<and>
    (\<exists>tmu tmf. updateStatus env now later tid s tm0 = Some (None, tmu) \<and> forgetTask env tid tmu = Some tmf \<and>
       tm_recorded env tmf (TaskID_GetValue tid) = None)"
proof -
  let ?k = "TaskID_GetValue tid" and ?d = "d\<lparr>dep_Status := Some s\<rparr>"
  obtain it err where kv: "e_kv env = InMemoryStore_kv it" and none: "e_dec env None = Inl err" using env by (auto simp: tenv_ok_def)
  have key: "tm_keyed env tm0" using tm(1) by (simp add: tm_sound_def)
  have dk: "TaskID_GetValue (dep_TaskId ?d) = ?k" using d key by (simp add: tm_keyed_def)
  obtain b where b: "e_enc env ?d = Inr b" using enc by (auto simp: tm_encodes_def)
  obtain tm1 where f: "forgetTask env tid tm0 = Some tm1" "tm_recorded env tm1 ?k = None" "tm_keyed env tm1" "tm_queue tm1 = tm_queue tm0"
    "tm_next tm1 = tm_next tm0" "ims_abs (dts_store (tm_tasks tm1)) ?k = None" using forgetTask_gone [OF kv key] by blast
  have tm1: "tm_wf tm1" "tm_room env tm1" using tm(2,3) f(4,5) forgetTask_apps [OF f(1)] by (simp_all add: tm_wf_def tm_room_def)
  have read: "updateStatus_read env tid tm0 = Inr (Some d)" using recorded_Get [OF d, of it] by (simp add: updateStatus_read_def kv)
  obtain ts where ts: "DefaultTaskStore_Save (e_kv env) (e_enc env) ?d (tm_tasks tm1) = (None, ts)"
    "\<And>tm'. tm_tasks tm' = ts \<Longrightarrow> tm_keyed env tm' \<and> tm_recorded env tm' = (tm_recorded env tm1)(?k \<mapsto> ?d)"
    using Save_recorded [OF f(3) b dk, of it thesis] unfolding kv by blast
  obtain tm2 where u: "updateStatus_write env now later tid s (Inr (Some d)) tm1 = Some (None, tm2)" "tm_tasks tm2 = ts"
    using updateStatus_write_ok [OF tm1 ts(1)] by blast
  have 1: "tm_recorded env tm2 ?k = Some ?d" using ts(2) [OF u(2)] by simp
  have "races env tm0 (tm1, [] @ Pending tid s (Inr (Some d)) # [])"
    using race_forget [OF race_read [OF race_start, of env tm0 tid s] f(1)] by (simp add: read)
  from race_write [OF this u(1)] have 2: "races env tm0 (tm2, [])" by simp
  have 3: "updateStatus env now later tid s tm1 = Some (Some err, tm1)"
    by (simp add: updateStatus_def ims_Get kv f(6) none)
  obtain ts0 where ts0: "DefaultTaskStore_Save (e_kv env) (e_enc env) ?d (tm_tasks tm0) = (None, ts0)"
    using Save_recorded [OF key b dk, of it thesis] unfolding kv by blast
  obtain tmu where tmu: "updateStatus env now later tid s tm0 = Some (None, tmu)"
    using updateStatus_write_ok [OF tm(2,3) ts0] unfolding updateStatus_steps read by blast
  have "tm_keyed env tmu" using updateStatus_keeps [OF env tm(1) tmu] by (simp add: keeps_def tm_sound_def)
  from forgetTask_gone [OF kv this, of tid] obtain tmf where 4: "forgetTask env tid tmu = Some tmf" "tm_recorded env tmf ?k = None" by blast
  show ?thesis using f(1,2) u(1) 1 2 3 tmu 4 unfolding read by blast
qed

theorem racing_update_revives_a_forgotten_task_witness:
  "\<exists>tm1 tm2. forgetTask raced_env task_1 raced_tm = Some tm1 \<and> tm_recorded raced_env tm1 ''task-1'' = None \<and>
     races raced_env raced_tm (tm2, []) \<and>
     tm_recorded raced_env tm2 ''task-1'' = Some (sample_deployment\<lparr>dep_Status := Some AppStatus_UNHEALTHY\<rparr>)"
proof -
  have "tm_recorded raced_env raced_tm (TaskID_GetValue task_1) = Some sample_deployment" by (simp add: raced_ok(5,6))
  from racing_update_revives_a_forgotten_task [OF raced_ok(1-4) this raced_ok(7), of 1 1] show ?thesis unfolding raced_ok(6) by blast
qed

end
