(* ===== verification/Recovery.thy ===== *)
theory Recovery
  imports EndToEnd
begin

text \<open>
  What happens when Mesos loses a task, through the framework, the task manager, the monitor and the stores: the deployment is recorded as failed,
  the application is queued again, and the next offer it fits launches a replacement.
\<close>

text \<open>A status update queues another instance when the monitor wants one and the application is stored.\<close>

lemma updateStatus_requeues:
  assumes wf: "tm_wf tm" and room: "tm_room env tm" and empty: "slots (tm_queue tm) = []"
    and mon: "\<And>x. mon_NeedsMore (e_sla env) (Some a) x" "\<And>x. mon_CanDeploy (e_sla env) (Some a) x"
    and kv: "e_kv env = InMemoryStore_kv it" "tm_keyed env tm"
    and d: "tm_recorded env tm (TaskID_GetValue tid) = Some d" and enc: "tm_encodes env (d\<lparr>dep_Status := Some s\<rparr>)"
    and stored: "DefaultAppStore_Get (e_akv env) (e_adec env) (Deployment_GetAppId (Some d)) (tm_apps tm) = Inr (Some a)"
  shows "\<exists>tm' item. updateStatus env now later tid s tm = Some (None, tm') \<and> tm_wf tm' \<and> tm_keyed env tm' \<and> slots (tm_queue tm') = [item] \<and>
    sa_AppId (sas (tm_queue tm') item) = app_Id a \<and> deref_app (tm_queue tm') (sa_App (sas (tm_queue tm') item)) = Some a \<and>
    tm_recorded env tm' = (tm_recorded env tm)(TaskID_GetValue tid \<mapsto> d\<lparr>dep_Status := Some s\<rparr>) \<and> tm_apps tm' = tm_apps tm"
proof -
  let ?d = "d\<lparr>dep_Status := Some s\<rparr>" and ?v = "tm_next tm"
  have get: "DefaultTaskStore_Get (e_kv env) (e_dec env) (TaskID_GetValue tid) (tm_tasks tm) = Inr (Some d)"
    using recorded_Get [OF d, of it] by (simp add: kv(1))
  have ims: "ims_wf (dts_store (tm_tasks tm))" "codec_ok (e_enc env) (e_dec env)" "TaskID_GetValue (dep_TaskId d) = TaskID_GetValue tid"
    using kv(2) d by (simp_all add: tm_keyed_def)
  obtain b where b: "e_enc env ?d = Inr b" using enc by (auto simp: tm_encodes_def)
  obtain ts where ts: "DefaultTaskStore_Save (e_kv env) (e_enc env) ?d (tm_tasks tm) = (None, ts)"
    using ims_Save_Get [OF ims(1,2) b, of it] unfolding kv(1) by blast
  let ?tm2 = "tm\<lparr>tm_tasks := ts, tm_next := Suc ?v, tm_queue := (tm_queue tm)\<lparr>apps := (apps (tm_queue tm))(?v := a)\<rparr>\<rparr>"
  have srt: "sortable (Some a)" using room stored by (auto simp: tm_room_def)
  have wf2: "tm_wf ?tm2" using tm_wf_set_app [OF wf srt, of "Suc ?v" ?v] by (simp add: tm_wf_def)
  obtain q' where q': "scheduleAppForDeployment env now ?v ?tm2 = Some (?tm2\<lparr>tm_queue := q', tm_next := Suc (Suc ?v)\<rparr>)"
    "tm_wf (?tm2\<lparr>tm_queue := q', tm_next := Suc (Suc ?v)\<rparr>)" "apps q' = (apps (tm_queue tm))(?v := a)"
    "mset (slots q') = {#Suc ?v#}" "item_ref q' (Suc ?v) = (app_Id a, Some ?v)"
    using schedule_ok [OF wf2, of ?v env now] srt mon(2) empty by auto
  obtain hc where hc: "update_health later tid ?d a (?tm2\<lparr>tm_queue := q', tm_next := Suc (Suc ?v)\<rparr>) =
      Some (?tm2\<lparr>tm_queue := q', tm_next := Suc (Suc ?v)\<rparr>\<lparr>tm_health := hc\<rparr>)" using update_health_total by blast
  let ?tm' = "?tm2\<lparr>tm_queue := q', tm_next := Suc (Suc ?v)\<rparr>\<lparr>tm_health := hc\<rparr>"
  have id: "Deployment_GetAppId (Some ?d) = Deployment_GetAppId (Some d)" by (simp add: Deployment_GetAppId_def)
  have u: "updateStatus env now later tid s tm = Some (None, ?tm')"
    using get ts stored mon(1) q'(1) hc by (simp add: updateStatus_def Let_def id)
  have "tm_keyed env ?tm' \<and> tm_recorded env ?tm' = (tm_recorded env tm)(TaskID_GetValue tid \<mapsto> ?d)"
    using updateStatus_records [OF kv(1), of s now later] u kv(2) d enc unfolding records_status_def by auto
  moreover have "slots q' = [Suc ?v]" using q'(4) by simp
  moreover have "tm_wf ?tm'" using q'(2) by (simp add: tm_wf_def)
  ultimately show ?thesis using u q'(3,5) by (intro exI [of _ ?tm'] exI [of _ "Suc ?v"]) (simp add: item_ref_def deref_app_def)
qed

text \<open>C4. A task that Mesos reports as lost or failed is recorded as failed. Suppose the monitor then asks for another instance of its
  application and lets it have one, and lets no application have one, which is what \<open>FulfillOffer\<close> asks; and nothing else is queued. Then the task
  is replaced: the next offer its application fits is answered with the launch of a new task of the application, which is recorded as deploying
  beside the failed one. With the monitor that \<open>main.go\<close> puts into the program (\<open>wired\<close>) the task is recorded as failed and never
  replaced: every offer that follows is declined.\<close>

theorem lost_task_is_replaced_if_granted:
  assumes fe: "fe_tm env = DefaultTaskManager_methods tenv" and kv: "e_kv tenv = InMemoryStore_kv it"
    and granted: "\<forall>t. mon_NeedsMore (e_sla tenv) (Some a) t" "\<forall>t. mon_CanDeploy (e_sla tenv) (Some a) t" "\<forall>t. mon_CanDeploy (e_sla tenv) None t"
    and wired: "fe_tm env' = DefaultTaskManager_methods (wired tenv)"
    and fw: "fw_taskManager fw = Some tm" and tm: "tm_wf tm" "tm_room tenv tm" "tm_keyed tenv tm" "slots (tm_queue tm) = []"
    and lost: "tst_State st \<in> {TASK_LOST, TASK_FAILED}" "tm_recorded tenv tm (TaskID_GetValue (tst_TaskId st)) = Some old"
    and stored: "DefaultAppStore_Get (e_akv tenv) (e_adec tenv) (Deployment_GetAppId (Some old)) (tm_apps tm) = Inr (Some a)"
    and fits: "fitsInOffer offer (Some a)"
    and build: "BuildTaskInfo (e_getPorts tenv) (e_scalar tenv) i offer (Some a) (ScheduledApp_zero\<lparr>sa_AppId := app_Id a\<rparr>) = Some (task, pm)"
    and d: "d = \<lparr>dep_AppId = Some (Application_GetId (Some a)), dep_TaskId = ti_TaskId task, dep_Status = Some AppStatus_DEPLOYING,
                  dep_DeployedAt = Some now2, dep_Slave = off_SlaveId offer, dep_HostName = off_Hostname offer, dep_PortMapping = pm\<rparr>"
    and enc: "tm_encodes tenv d" "tm_encodes tenv (old\<lparr>dep_Status := Some AppStatus_FAILED\<rparr>)"
  shows "(\<exists>fw1 fw2 tm2. StatusUpdate env now1 later st fw = Some fw1 \<and> fw_calls fw1 = fw_calls fw \<and>
    ResourceOffers env [(offer, i, now2)] fw1 = Some fw2 \<and> fw_calls fw2 = fw_calls fw @ [LaunchTasks (off_Id offer) [task]] \<and>
    fw_taskManager fw2 = Some tm2 \<and>
    tm_recorded tenv tm2 = (tm_recorded tenv tm)(TaskID_GetValue (tst_TaskId st) \<mapsto> old\<lparr>dep_Status := Some AppStatus_FAILED\<rparr>,
                                                 TaskID_GetValue (ti_TaskId task) \<mapsto> d)) \<and>
    (\<exists>fw1 tm1. StatusUpdate env' now1 later st fw = Some fw1 \<and> fw_taskManager fw1 = Some tm1 \<and> fw_calls fw1 = fw_calls fw \<and>
      tm_recorded tenv tm1 = (tm_recorded tenv tm)(TaskID_GetValue (tst_TaskId st) \<mapsto> old\<lparr>dep_Status := Some AppStatus_FAILED\<rparr>) \<and>
      all_declined env' fw1)"
proof -
  obtain tm1 item where u: "updateStatus tenv now1 later (tst_TaskId st) AppStatus_FAILED tm = Some (None, tm1)" "tm_wf tm1" "tm_keyed tenv tm1"
    "slots (tm_queue tm1) = [item]" "sa_AppId (sas (tm_queue tm1) item) = app_Id a"
    "deref_app (tm_queue tm1) (sa_App (sas (tm_queue tm1) item)) = Some a"
    "tm_recorded tenv tm1 = (tm_recorded tenv tm)(TaskID_GetValue (tst_TaskId st) \<mapsto> old\<lparr>dep_Status := Some AppStatus_FAILED\<rparr>)"
    using updateStatus_requeues [OF tm(1,2,4) spec [OF granted(1)] spec [OF granted(2)] kv tm(3) lost(2) enc(2) stored] by blast
  let ?fw1 = "fw\<lparr>fw_taskManager := Some tm1\<rparr>"
  have su: "StatusUpdate env now1 later st fw = Some ?fw1"
    using lost(1) u(1) by (auto simp: StatusUpdate_def fw fe iface_simps Let_def TaskFailed_def TaskLost_def)
  have fw1: "fw_taskManager ?fw1 = Some tm1" by simp
  obtain tm2 fw2 where "ResourceOffers env [(offer, i, now2)] ?fw1 = Some fw2" "fw_taskManager fw2 = Some tm2"
    "fw_calls fw2 = fw_calls ?fw1 @ [LaunchTasks (off_Id offer) [task]]"
    "tm_recorded tenv tm2 = (tm_recorded tenv tm1)(TaskID_GetValue (ti_TaskId task) \<mapsto> d)"
    using launch_one [OF spec [OF granted(3)] kv fe fw1 u(2-6) fits build d enc(1)] by blast
  note replaced = this
  have failed: "status_of (tst_State st) = Some AppStatus_FAILED" using lost(1) by auto
  obtain fw' tm' where "StatusUpdate env' now1 later st fw = Some fw'" "fw_taskManager fw' = Some tm'" "fw_calls fw' = fw_calls fw"
    "tm_recorded tenv tm' = (tm_recorded tenv tm)(TaskID_GetValue (tst_TaskId st) \<mapsto> old\<lparr>dep_Status := Some AppStatus_FAILED\<rparr>)"
    using StatusUpdate_records [of tm "wired tenv" fw env' it _ st old now1 later, OF tm(1) _ fw wired] tm(2,3) kv lost(2) enc(2)
    by (auto simp: wired_same failed)
  moreover have "all_declined env' fw'" by (rule wired_declines [OF wired])
  ultimately have waits: "\<exists>fw1 tm1. StatusUpdate env' now1 later st fw = Some fw1 \<and> fw_taskManager fw1 = Some tm1 \<and> fw_calls fw1 = fw_calls fw \<and>
      tm_recorded tenv tm1 = (tm_recorded tenv tm)(TaskID_GetValue (tst_TaskId st) \<mapsto> old\<lparr>dep_Status := Some AppStatus_FAILED\<rparr>) \<and>
      all_declined env' fw1" by blast
  show ?thesis
  proof (rule conjI, goal_cases)
    case 1
    show ?case using su replaced by (intro exI [of _ ?fw1] exI [of _ fw2] exI [of _ tm2]) (simp add: u(7))
  next
    case 2
    show ?case by (rule waits)
  qed
qed

theorem lost_task_is_replaced_if_granted_witness:
  "\<exists>ds env tenv fw1 fw2 tm2 t d fw3. ds = [sample_deployment, sample_deployment\<lparr>dep_Status := Some AppStatus_FAILED\<rparr>, d] \<and> tenv = docker_tenv ds \<and>
     env = sample_fw_env []\<lparr>fe_tm := DefaultTaskManager_methods tenv\<rparr> \<and>
     StatusUpdate env 3 4 \<lparr>tst_TaskId = Some \<lparr>tid_Value = Some ''task-1''\<rparr>, tst_State = TASK_LOST, tst_Message = None, tst_SlaveId = None\<rparr>
       (sample_fw (docker_tm\<lparr>tm_tasks := one_task\<rparr>)) = Some fw1 \<and>
     ResourceOffers env [(sample_offer 31000 32000, ''7'', 5)] fw1 = Some fw2 \<and>
     fw_calls fw2 = [LaunchTasks (Some \<lparr>oid_Value = Some ''offer-1''\<rparr>) [t]] \<and> fw_taskManager fw2 = Some tm2 \<and>
     tm_recorded tenv tm2 = [''task-1'' \<mapsto> sample_deployment\<lparr>dep_Status := Some AppStatus_FAILED\<rparr>, TaskID_GetValue (ti_TaskId t) \<mapsto> d] \<and>
     all_declined (sample_fw_env []\<lparr>fe_tm := DefaultTaskManager_methods (wired tenv)\<rparr>) fw3"
proof -
  let ?o = "sample_offer 31000 32000" and ?s = sample_deployment let ?f = "?s\<lparr>dep_Status := Some AppStatus_FAILED\<rparr>"
  note o = docker_offer [of 32000, simplified]
  have "\<exists>r \<in> set (port_ranges ?o). 1 < range_size r" using o(3,4) by simp
  then obtain task pm where b: "BuildTaskInfo (GetPorts 0) sample_scalar ''7'' ?o (Some docker_app)
      (ScheduledApp_zero\<lparr>sa_AppId := app_Id docker_app\<rparr>) = Some (task, pm)"
    using BuildTaskInfo_defined [OF o(2), of 1 docker_app 0 sample_scalar "''7''" "ScheduledApp_zero\<lparr>sa_AppId := app_Id docker_app\<rparr>"]
    by (auto simp: docker_app_simps)
  define d where "d = \<lparr>dep_AppId = Some (Application_GetId (Some docker_app)), dep_TaskId = ti_TaskId task, dep_Status = Some AppStatus_DEPLOYING,
    dep_DeployedAt = Some 5, dep_Slave = off_SlaveId ?o, dep_HostName = off_Hostname ?o, dep_PortMapping = pm\<rparr>"
  let ?ds = "[?s, ?f, d]" and ?tm = "docker_tm\<lparr>tm_tasks := one_task\<rparr>"
  let ?t = "docker_tenv ?ds" and ?fw = "sample_fw ?tm"
  let ?env = "sample_fw_env []\<lparr>fe_tm := DefaultTaskManager_methods ?t\<rparr>"
  let ?st = "\<lparr>tst_TaskId = Some \<lparr>tid_Value = Some ''task-1''\<rparr>, tst_State = TASK_LOST, tst_Message = None, tst_SlaveId = None\<rparr>"
  have env: "fe_tm ?env = DefaultTaskManager_methods ?t" "e_kv ?t = InMemoryStore_kv id"
    "\<forall>x. mon_NeedsMore (e_sla ?t) (Some docker_app) x" "\<forall>x. mon_CanDeploy (e_sla ?t) (Some docker_app) x" "\<forall>x. mon_CanDeploy (e_sla ?t) None x"
    "fe_tm (sample_fw_env []\<lparr>fe_tm := DefaultTaskManager_methods (wired ?t)\<rparr>) = DefaultTaskManager_methods (wired ?t)"
    "fw_taskManager ?fw = Some ?tm" "fw_calls ?fw = []"
    by (simp_all add: docker_tenv_def sample_env_simps iface_simps sample_fw_def NewFramework_def)
  have tm: "tm_wf ?tm" "tm_room ?t ?tm" "slots (tm_queue ?tm) = []" using docker_tm_ok(1) docker_tm_ok(2) [of ?ds] docker_tm_ok(3) by (simp_all add: tm_wf_def tm_room_def)
  have same: "tm_recorded ?t ?tm = tm_recorded (sample_env ?ds) (sample_tm empty_queue)" "tm_keyed ?t ?tm = tm_keyed (sample_env ?ds) (sample_tm empty_queue)"
    by (simp_all add: tm_keyed_def tm_recorded_def docker_tenv_def sample_tm_def)
  have tid: "TaskID_GetValue (dep_TaskId ?s) = ''task-1''" by (simp add: sample_deployment_def TaskID_GetValue_def)
  have keyed: "tm_keyed ?t ?tm" unfolding same by (rule sample_recorded(2) [OF tid]) simp
  have rec: "tm_recorded ?t ?tm = [''task-1'' \<mapsto> ?s]" unfolding same by (rule sample_recorded(1))
  have old: "tst_State ?st \<in> {TASK_LOST, TASK_FAILED}" "tm_recorded ?t ?tm (TaskID_GetValue (tst_TaskId ?st)) = Some ?s"
    by (simp_all add: rec TaskID_GetValue_def)
  have stored: "DefaultAppStore_Get (e_akv ?t) (e_adec ?t) (Deployment_GetAppId (Some ?s)) (tm_apps ?tm) = Inr (Some docker_app)"
    by (simp add: docker_tenv_def sample_env_def docker_tm_def docker_stored Deployment_GetAppId_def sample_deployment_def)
  have build: "BuildTaskInfo (e_getPorts ?t) (e_scalar ?t) ''7'' ?o (Some docker_app) (ScheduledApp_zero\<lparr>sa_AppId := app_Id docker_app\<rparr>) = Some (task, pm)"
    using b by (simp add: docker_tenv_def sample_env_def)
  have enc: "tm_encodes ?t d" "tm_encodes ?t ?f"
    using table_encodes [of _ ?ds] by (simp_all add: tm_encodes_def docker_tenv_def sample_env_simps)
  have oid: "off_Id ?o = Some \<lparr>oid_Value = Some ''offer-1''\<rparr>" by (simp add: sample_offer_def)
  have k: "TaskID_GetValue (tst_TaskId ?st) = ''task-1''" by (simp add: TaskID_GetValue_def)
  obtain fw1 fw2 tm2 fw3 where "StatusUpdate ?env 3 4 ?st ?fw = Some fw1" "ResourceOffers ?env [(?o, ''7'', 5)] fw1 = Some fw2"
    "fw_calls fw2 = [LaunchTasks (Some \<lparr>oid_Value = Some ''offer-1''\<rparr>) [task]]" "fw_taskManager fw2 = Some tm2"
    "tm_recorded ?t tm2 = [''task-1'' \<mapsto> ?f, TaskID_GetValue (ti_TaskId task) \<mapsto> d]"
    "all_declined (sample_fw_env []\<lparr>fe_tm := DefaultTaskManager_methods (wired ?t)\<rparr>) fw3"
    using lost_task_is_replaced_if_granted [OF env(1-7) tm(1,2) keyed tm(3) old stored o(1) build d_def enc, of 3 4]
    unfolding oid env(8) append_Nil rec k fun_upd_upd by blast
  then show ?thesis
    by (intro exI [of _ ?ds] exI [of _ ?env] exI [of _ ?t] exI [of _ fw1] exI [of _ fw2] exI [of _ tm2] exI [of _ task] exI [of _ d]
        exI [of _ fw3] conjI refl)
qed

end
