(* ===== verification/TaskQueueContract.thy ===== *)
theory TaskQueueContract
  imports TaskQueue "HOL-Library.Multiset"
begin

text \<open>
  The interface \<open>TaskQueue\<close> of \<open>src/tasks/queue/task_queue.go\<close> as a record of methods, what it promises as a bag of queued items, and the proof
  that \<open>taskQueue\<close> keeps the promise over every sequence of calls. A client sees the queue only through the answers of its methods; what it cannot
  see, the slice and the positions, does not occur in the specification.
\<close>

section \<open>The interface\<close>

text \<open>A panic is None. The interface embeds \<open>exeggutor.Module\<close>, with \<open>Start\<close> and \<open>Stop\<close>.\<close>

record 'q TaskQueue_methods =
  tqi_Start :: "'q \<Rightarrow> goerr option \<times> 'q"
  tqi_Stop :: "'q \<Rightarrow> goerr option \<times> 'q"
  tqi_Enqueue :: "int64 \<Rightarrow> nat \<Rightarrow> 'q \<Rightarrow> (goerr option \<times> 'q) option"
  tqi_Dequeue :: "'q \<Rightarrow> (nat result \<times> 'q) option"
  tqi_DequeueFirst :: "('q \<Rightarrow> nat \<Rightarrow> bool) \<Rightarrow> 'q \<Rightarrow> (nat option result \<times> 'q) option"
  tqi_CountAppsForID :: "string \<Rightarrow> 'q \<Rightarrow> int32"
  tqi_CountsForApps :: "'q \<Rightarrow> (string \<rightharpoonup> int32)"
  tqi_Len :: "'q \<Rightarrow> int"

text \<open>Both take the lock and give it back.\<close>

definition taskQueue_Start :: "queue_mem \<Rightarrow> goerr option \<times> queue_mem" where
  "taskQueue_Start tq = (None, tq)"

definition taskQueue_Stop :: "queue_mem \<Rightarrow> goerr option \<times> queue_mem" where
  "taskQueue_Stop tq = (None, tq)"

definition taskQueue_methods :: "queue_mem TaskQueue_methods" where
  "taskQueue_methods =
     \<lparr>tqi_Start = taskQueue_Start, tqi_Stop = taskQueue_Stop,
      tqi_Enqueue = (\<lambda>now item q. map_option (Pair None) (Enqueue now item q)),
      tqi_Dequeue = (\<lambda>q. map_option (map_prod Inr id) (Dequeue q)),
      tqi_DequeueFirst = (\<lambda>P q. map_option (map_prod Inr id) (DequeueFirst P q)),
      tqi_CountAppsForID = (\<lambda>appID q. CountAppsForID q appID), tqi_CountsForApps = CountsForApps, tqi_Len = taskQueue_Len\<rparr>"

section \<open>The specification\<close>

text \<open>What the queued items refer to does not change while they are queued: the application and the id of an item.\<close>

type_synonym queue_refs = "(nat \<Rightarrow> Application) \<times> (nat \<Rightarrow> string option \<times> nat option)"

definition ref_app :: "queue_refs \<Rightarrow> nat \<Rightarrow> Application option" where
  "ref_app f item = map_option (fst f) (snd (snd f item))"

definition ref_id :: "queue_refs \<Rightarrow> nat \<Rightarrow> string" where
  "ref_id f item = (case fst (snd f item) of None \<Rightarrow> [] | Some s \<Rightarrow> s)"

datatype queue_op =
    OpStart | OpStop
  | OpEnqueue int64 nat
  | OpDequeue
  | OpDequeueFirst "queue_refs \<Rightarrow> nat \<Rightarrow> bool"
  | OpCount string
  | OpCounts
  | OpLen

datatype queue_answer =
    ADone "goerr option"
  | AItem "nat option result"
  | ACount int32
  | ACounts "string \<rightharpoonup> int32"
  | ALen int

abbreviation bag_count :: "queue_refs \<Rightarrow> entry multiset \<Rightarrow> string \<Rightarrow> nat" where
  "bag_count f b appID \<equiv> size (filter_mset (\<lambda>e. ref_id f (fst e) = appID) b)"

text \<open>Taking an item off: the entry is one of the bag, and the rest stays.\<close>

inductive bag_step :: "queue_refs \<Rightarrow> entry multiset \<Rightarrow> queue_op \<Rightarrow> queue_answer \<Rightarrow> entry multiset \<Rightarrow> bool" for f where
  bag_Start: "bag_step f b OpStart (ADone None) b"
| bag_Stop: "bag_step f b OpStop (ADone None) b"
| bag_Enqueue: "bag_step f b (OpEnqueue now item) (ADone None) (add_mset (item, ref_app f item, now) b)"
| bag_Dequeue: "\<forall>e' \<in># add_mset e b. \<not> before e' e \<Longrightarrow> bag_step f (add_mset e b) OpDequeue (AItem (Inr (Some (fst e)))) b"
| bag_First: "P f (fst e) \<Longrightarrow> bag_step f (add_mset e b) (OpDequeueFirst P) (AItem (Inr (Some (fst e)))) b"
| bag_First_none: "\<forall>e \<in># b. \<not> P f (fst e) \<Longrightarrow> bag_step f b (OpDequeueFirst P) (AItem (Inr None)) b"
| bag_Count: "bag_step f b (OpCount appID) (ACount (of_nat (bag_count f b appID))) b"
| bag_Counts: "bag_step f b OpCounts
    (ACounts (\<lambda>appID. if bag_count f b appID = 0 then None else Some (of_nat (bag_count f b appID)))) b"
| bag_Len: "bag_step f b OpLen (ALen (int (size b))) b"

inductive_cases bag_step_Dequeue: "bag_step f b OpDequeue a b'"
inductive_cases bag_step_Len: "bag_step f b OpLen a b'"

text \<open>A sequence of calls with its answers; \<open>Dequeue\<close> on an empty bag is the one call that panics, and ends it.\<close>

inductive bag_run :: "queue_refs \<Rightarrow> entry multiset \<Rightarrow> queue_op list \<Rightarrow> queue_answer list \<Rightarrow> entry multiset option \<Rightarrow> bool" for f where
  bag_end: "bag_run f b [] [] (Some b)"
| bag_panic: "bag_run f {#} (OpDequeue # ops) [] None"
| bag_call: "bag_step f b op a b' \<Longrightarrow> bag_run f b' ops answers r \<Longrightarrow> bag_run f b (op # ops) (a # answers) r"

inductive_cases bag_run_call: "bag_run f b (op # ops) answers r"

section \<open>Calls of an implementation\<close>

fun queue_do ::
  "'q TaskQueue_methods \<Rightarrow> ('q \<Rightarrow> queue_refs) \<Rightarrow> queue_op \<Rightarrow> 'q \<Rightarrow> (queue_answer \<times> 'q) option" where
  "queue_do m refs OpStart q = Some (map_prod ADone id (tqi_Start m q))"
| "queue_do m refs OpStop q = Some (map_prod ADone id (tqi_Stop m q))"
| "queue_do m refs (OpEnqueue now item) q = map_option (map_prod ADone id) (tqi_Enqueue m now item q)"
| "queue_do m refs OpDequeue q = map_option (map_prod (AItem \<circ> map_sum id Some) id) (tqi_Dequeue m q)"
| "queue_do m refs (OpDequeueFirst P) q = map_option (map_prod AItem id) (tqi_DequeueFirst m (\<lambda>q. P (refs q)) q)"
| "queue_do m refs (OpCount appID) q = Some (ACount (tqi_CountAppsForID m appID q), q)"
| "queue_do m refs OpCounts q = Some (ACounts (tqi_CountsForApps m q), q)"
| "queue_do m refs OpLen q = Some (ALen (tqi_Len m q), q)"

text \<open>The answers up to a panic, and the queue after the last call when there is none.\<close>

fun queue_run ::
  "'q TaskQueue_methods \<Rightarrow> ('q \<Rightarrow> queue_refs) \<Rightarrow> queue_op list \<Rightarrow> 'q \<Rightarrow> queue_answer list \<times> 'q option" where
  "queue_run m refs [] q = ([], Some q)"
| "queue_run m refs (op # ops) q =
     (case queue_do m refs op q of
        None \<Rightarrow> ([], None)
      | Some (a, q') \<Rightarrow> let (answers, r) = queue_run m refs ops q' in (a # answers, r))"

text \<open>Each item is enqueued at most once and is not queued before, its resources are no NaN, and the queue's positions fit an \<open>int32\<close>.\<close>

fun enqueued :: "queue_op list \<Rightarrow> nat list" where
  "enqueued [] = []"
| "enqueued (OpEnqueue now item # ops) = item # enqueued ops"
| "enqueued (_ # ops) = enqueued ops"

definition ops_fit :: "queue_refs \<Rightarrow> entry multiset \<Rightarrow> queue_op list \<Rightarrow> bool" where
  "ops_fit f b ops \<longleftrightarrow> distinct (enqueued ops) \<and> (\<forall>item \<in> set (enqueued ops). item \<notin># image_mset fst b \<and> sortable (ref_app f item)) \<and>
     size b + length (enqueued ops) < 2 ^ 31"

lemma ops_fit_step:
  assumes "ops_fit f b (op # ops)" and "bag_step f b op a b'"
  shows "ops_fit f b' ops"
  using assms(2,1) by cases (auto simp: ops_fit_def)

section \<open>The contract\<close>

text \<open>\<open>ok\<close> is the invariant of an implementation, \<open>bag\<close> what it holds.\<close>

locale task_queue =
  fixes m :: "'q TaskQueue_methods" and ok :: "'q \<Rightarrow> bool" and bag :: "'q \<Rightarrow> entry multiset" and refs :: "'q \<Rightarrow> queue_refs"
  assumes start: "tqi_Start m q = (None, q)" and stop: "tqi_Stop m q = (None, q)"
    and enqueue: "ok q \<Longrightarrow> item \<notin># image_mset fst (bag q) \<Longrightarrow> sortable (ref_app (refs q) item) \<Longrightarrow> Suc (size (bag q)) < 2 ^ 31 \<Longrightarrow>
      \<exists>q'. tqi_Enqueue m now item q = Some (None, q') \<and> ok q' \<and> refs q' = refs q \<and>
           bag q' = add_mset (item, ref_app (refs q) item, now) (bag q)"
    and dequeue: "ok q \<Longrightarrow> bag q \<noteq> {#} \<Longrightarrow>
      \<exists>e q'. tqi_Dequeue m q = Some (Inr (fst e), q') \<and> ok q' \<and> refs q' = refs q \<and> bag q = add_mset e (bag q') \<and>
             (\<forall>e' \<in># bag q. \<not> before e' e)"
    and dequeue_empty: "ok q \<Longrightarrow> bag q = {#} \<Longrightarrow> tqi_Dequeue m q = None"
    and first: "ok q \<Longrightarrow> \<exists>e \<in># bag q. P q (fst e) \<Longrightarrow>
      \<exists>e q'. tqi_DequeueFirst m P q = Some (Inr (Some (fst e)), q') \<and> P q (fst e) \<and> ok q' \<and> refs q' = refs q \<and> bag q = add_mset e (bag q')"
    and first_none: "ok q \<Longrightarrow> \<forall>e \<in># bag q. \<not> P q (fst e) \<Longrightarrow> tqi_DequeueFirst m P q = Some (Inr None, q)"
    and count: "ok q \<Longrightarrow> tqi_CountAppsForID m appID q = of_nat (bag_count (refs q) (bag q) appID)"
    and counts: "ok q \<Longrightarrow> tqi_CountsForApps m q appID =
      (if bag_count (refs q) (bag q) appID = 0 then None else Some (of_nat (bag_count (refs q) (bag q) appID)))"
    and len: "ok q \<Longrightarrow> tqi_Len m q = int (size (bag q))"
begin

text \<open>One call is one step of the specification, and panics only where the specification does.\<close>

lemma do_refines:
  assumes ok: "ok q" and fit: "ops_fit (refs q) (bag q) [op]"
  shows "(case queue_do m refs op q of
            None \<Rightarrow> op = OpDequeue \<and> bag q = {#}
          | Some (a, q') \<Rightarrow> ok q' \<and> refs q' = refs q \<and> bag_step (refs q) (bag q) op a (bag q'))"
proof (cases op)
  case (OpEnqueue now item)
  then have "item \<notin># image_mset fst (bag q)" "sortable (ref_app (refs q) item)" "Suc (size (bag q)) < 2 ^ 31" using fit by (auto simp: ops_fit_def)
  from enqueue [OF ok this, of now] show ?thesis using OpEnqueue by (auto intro: bag_step.intros)
next
  case OpDequeue
  show ?thesis
  proof (cases "bag q = {#}")
    case False
    then obtain e q' where e: "tqi_Dequeue m q = Some (Inr (fst e), q')" "ok q'" "refs q' = refs q" "bag q = add_mset e (bag q')"
      "\<forall>e' \<in># bag q. \<not> before e' e" using dequeue [OF ok] by blast
    then have "bag_step (refs q) (bag q) OpDequeue (AItem (Inr (Some (fst e)))) (bag q')" using bag_Dequeue [of e "bag q'"] by simp
    with e show ?thesis by (simp add: OpDequeue)
  qed (simp add: OpDequeue dequeue_empty [OF ok])
next
  case (OpDequeueFirst P)
  let ?P = "\<lambda>q. P (refs q)"
  show ?thesis
  proof (cases "\<exists>e \<in># bag q. ?P q (fst e)")
    case True
    obtain e q' where e: "tqi_DequeueFirst m ?P q = Some (Inr (Some (fst e)), q')" "P (refs q) (fst e)" "ok q'" "refs q' = refs q"
      "bag q = add_mset e (bag q')" using first [OF ok, of ?P] True by blast
    then have "bag_step (refs q) (bag q) (OpDequeueFirst P) (AItem (Inr (Some (fst e)))) (bag q')"
      using bag_First [of P "refs q" e "bag q'"] by simp
    with e show ?thesis by (simp add: OpDequeueFirst)
  next
    case False
    then show ?thesis using first_none [OF ok, of ?P] ok by (auto simp: OpDequeueFirst intro: bag_First_none)
  qed
next
  case OpCounts
  have eq: "tqi_CountsForApps m q = (\<lambda>appID. if bag_count (refs q) (bag q) appID = 0 then None else Some (of_nat (bag_count (refs q) (bag q) appID)))"
    using counts [OF ok] by (rule ext)
  have "bag_step (refs q) (bag q) OpCounts (ACounts (tqi_CountsForApps m q)) (bag q)" by (subst eq, rule bag_Counts)
  then show ?thesis using ok by (simp add: OpCounts)
qed (simp_all add: ok start stop count [OF ok] len [OF ok] bag_step.intros)

lemma run_refines:
  assumes "ok q" and "ops_fit (refs q) (bag q) ops"
  shows "bag_run (refs q) (bag q) ops (fst (queue_run m refs ops q)) (map_option bag (snd (queue_run m refs ops q)))"
  using assms
proof (induction ops arbitrary: q)
  case (Cons op ops)
  have fit: "ops_fit (refs q) (bag q) [op]" using Cons.prems(2) by (cases op) (auto simp: ops_fit_def)
  show ?case
  proof (cases "queue_do m refs op q")
    case None
    with do_refines [OF Cons.prems(1) fit] show ?thesis by (simp add: bag_panic)
  next
    case (Some x)
    then obtain a q' where x: "queue_do m refs op q = Some (a, q')" by (cases x) simp
    with do_refines [OF Cons.prems(1) fit] have step: "ok q'" "refs q' = refs q" "bag_step (refs q) (bag q) op a (bag q')" by simp_all
    have "ops_fit (refs q') (bag q') ops" using ops_fit_step [OF Cons.prems(2) step(3)] step(2) by simp
    from Cons.IH [OF step(1) this] bag_call [OF step(3)] show ?thesis by (auto simp: x step(2) split: prod.splits)
  qed
qed (simp add: bag_end)

end

section \<open>taskQueue keeps the contract\<close>

lemma entries_item: "e \<in> set (entries q) \<Longrightarrow> fst e \<in> set (slots q) \<and> e = queue_entry q (fst e)"
  by (auto simp: entries_def)

lemma ref_item:
  "ref_app (queue_frame q) item = deref_app q (sa_App (sas q item))"
  "ref_id (queue_frame q) item = ScheduledApp_GetAppId (Some (sas q item))"
  by (simp_all add: ref_app_def ref_id_def queue_frame_def deref_app_def ScheduledApp_GetAppId_def split: option.split)

lemma bag_count_slots:
  "bag_count (queue_frame q) (mset (entries q)) appID =
     length (filter (\<lambda>a. ScheduledApp_GetAppId (Some (sas q a)) = appID) (slots q))"
  unfolding mset_filter [symmetric] size_mset by (simp add: ref_item entries_def filter_map o_def)

lemma find_entry:
  assumes "List.find P (slots q) = Some item"
  shows "P item" and "queue_entry q item \<in> set (entries q)"
  using assms by (auto simp: find_Some_iff entries_def)

lemma entries_no_slots: "entries q = [] \<longleftrightarrow> slots q = []"
  by (simp add: entries_def)

interpretation tq: task_queue taskQueue_methods "\<lambda>q. queue_wf q \<and> queue_ordered q" "\<lambda>q. mset (entries q)" queue_frame
proof (unfold_locales, goal_cases)
  case (3 q item now)
  then have "can_push (item, now) q" by (auto simp: can_push_def ref_item entries_def image_image)
  with 3 Enqueue_ok [of q item now] show ?case by (auto simp: taskQueue_methods_def pushed_entry_def ref_item)
next
  case (4 q)
  then have ne: "slots q \<noteq> []" by (simp add: entries_no_slots)
  with 4 Dequeue_ok [of q] obtain q' where q': "Dequeue q = Some (hd (slots q), q')" "queue_wf q'" "queue_frame q' = queue_frame q"
    "mset (entries q) = add_mset (queue_entry q (hd (slots q))) (mset (entries q'))" "queue_ordered q'" by auto
  moreover have "\<forall>e' \<in> set (entries q). \<not> before e' (queue_entry q (hd (slots q)))" using Dequeue_least [of q] 4 by blast
  moreover have "set (entries q) = insert (queue_entry q (hd (slots q))) (set (entries q'))"
    using arg_cong [OF q'(4), of set_mset] by simp
  ultimately show ?case
    by (intro exI [of _ "queue_entry q (hd (slots q))"] exI [of _ q']) (simp add: taskQueue_methods_def)
next
  case (5 q)
  then have "slots q = []" by (simp add: entries_no_slots)
  then show ?case by (simp add: taskQueue_methods_def Dequeue_def heap_Pop_def PrioQueue_Len_def PrioQueue_Swap_def in_range_def Let_def)
next
  case (6 q P)
  then have "\<exists>a \<in> set (slots q). P q a" using entries_item by auto
  then obtain item where item: "List.find (P q) (slots q) = Some item"
    by (metis find_None_iff option.exhaust)
  from DequeueFirst_ok [of q P item, OF _ item] 6
  obtain q' where q': "DequeueFirst P q = Some (Some item, q')" "queue_wf q'" "queue_frame q' = queue_frame q"
    "mset (entries q) = add_mset (queue_entry q item) (mset (entries q'))" "queue_ordered q'" by auto
  then show ?case using find_entry(1) [OF item]
    by (intro exI [of _ "queue_entry q item"] exI [of _ q']) (simp add: taskQueue_methods_def)
next
  case (7 q P)
  then have "List.find (P q) (slots q) = None" by (auto simp: find_None_iff entries_def)
  then show ?case by (simp add: taskQueue_methods_def DequeueFirst_def)
next
  case (8 q appID)
  then show ?case by (simp add: taskQueue_methods_def CountAppsForID_eq bag_count_slots)
next
  case (9 q appID)
  have "CountsForApps q appID = (if filter (\<lambda>a. ScheduledApp_GetAppId (Some (sas q a)) = appID) (slots q) = [] then None
      else Some (of_nat (length (filter (\<lambda>a. ScheduledApp_GetAppId (Some (sas q a)) = appID) (slots q)))))"
    unfolding CountsForApps_def fold_tally by simp
  then show ?case unfolding bag_count_slots by (simp add: taskQueue_methods_def)
next
  case (10 q)
  then show ?case by (simp add: taskQueue_methods_def taskQueue_Len_def PrioQueue_Len_def)
qed (simp_all add: taskQueue_methods_def taskQueue_Start_def taskQueue_Stop_def)

section \<open>Properties\<close>

text \<open>C14. The queue behaves as a bag with priorities, over every sequence of calls of its interface that enqueues each item at most once: every
  answer is one the bag allows -- \<open>Dequeue\<close> hands out an entry no other goes before, \<open>DequeueFirst\<close> one the predicate accepts, or
  nothing when it accepts none, each removes the entry it hands out and no other, the counts are those of the bag -- and the one call that panics is
  \<open>Dequeue\<close> on an empty queue.\<close>

theorem task_queue_refines_bag:
  assumes "queue_wf q" and "queue_ordered q" and "ops_fit (queue_frame q) (mset (entries q)) ops"
  shows "bag_run (queue_frame q) (mset (entries q)) ops (fst (queue_run taskQueue_methods queue_frame ops q))
           (map_option (\<lambda>q'. mset (entries q')) (snd (queue_run taskQueue_methods queue_frame ops q)))"
  using tq.run_refines [of q ops] assms by simp

lemma bag_run_Len:
  "bag_run f b (OpLen # ops) answers r \<Longrightarrow> \<exists>answers'. answers = ALen (int (size b)) # answers' \<and> bag_run f b ops answers' r"
  by (auto elim!: bag_run_call bag_step_Len)

lemma bag_run_Dequeue:
  "bag_run f b (OpDequeue # ops) answers r \<Longrightarrow> size b = Suc n \<Longrightarrow>
     \<exists>item b' answers'. answers = AItem (Inr (Some item)) # answers' \<and> size b' = n \<and> bag_run f b' ops answers' r"
  "bag_run f {#} (OpDequeue # ops) answers r \<Longrightarrow> answers = [] \<and> r = None"
  by (auto elim!: bag_run_call bag_step_Dequeue)

theorem task_queue_refines_bag_witness:
  "\<exists>e1 e2 b. bag_run (queue_frame two_items) (mset (entries two_items)) [OpLen, OpDequeue, OpDequeue, OpDequeue]
       [ALen 2, AItem (Inr (Some e1)), AItem (Inr (Some e2))] None \<and>
     queue_run taskQueue_methods queue_frame [OpLen, OpDequeue, OpDequeue, OpDequeue] two_items =
       ([ALen 2, AItem (Inr (Some e1)), AItem (Inr (Some e2))], None) \<and> mset (entries two_items) = b \<and> size b = 2"
proof -
  let ?ops = "[OpLen, OpDequeue, OpDequeue, OpDequeue]"
  have "ops_fit (queue_frame two_items) (mset (entries two_items)) ?ops" by (simp add: ops_fit_def two_items_slots)
  note r0 = task_queue_refines_bag [OF two_items_wf two_items_ordered this]
  obtain answers q where run: "queue_run taskQueue_methods queue_frame ?ops two_items = (answers, q)" by (cases "queue_run taskQueue_methods queue_frame ?ops two_items")
  have r: "bag_run (queue_frame two_items) (mset (entries two_items)) ?ops answers (map_option (\<lambda>q'. mset (entries q')) q)"
    using r0 unfolding run fst_conv snd_conv .
  have size: "size (mset (entries two_items)) = 2" by (simp add: two_items_slots)
  obtain answers1 where a1: "answers = ALen 2 # answers1"
    "bag_run (queue_frame two_items) (mset (entries two_items)) [OpDequeue, OpDequeue, OpDequeue] answers1 (map_option (\<lambda>q'. mset (entries q')) q)"
    using bag_run_Len [OF r] size by auto
  obtain e1 b1 answers2 where a2: "answers1 = AItem (Inr (Some e1)) # answers2" "size b1 = 1"
    "bag_run (queue_frame two_items) b1 [OpDequeue, OpDequeue] answers2 (map_option (\<lambda>q'. mset (entries q')) q)"
    using bag_run_Dequeue(1) [OF a1(2), of 1] size by auto
  obtain e2 answers3 where a3: "answers2 = AItem (Inr (Some e2)) # answers3"
    "bag_run (queue_frame two_items) {#} [OpDequeue] answers3 (map_option (\<lambda>q'. mset (entries q')) q)"
    using bag_run_Dequeue(1) [OF a2(3), of 0] a2(2) by auto
  have "answers3 = []" "q = None" using bag_run_Dequeue(2) [OF a3(2)] by auto
  with r size show ?thesis unfolding run a1(1) a2(1) a3(1) by auto
qed

end
