(* ===== verification/StoreContracts.thy ===== *)
theory StoreContracts
  imports AppStore
begin

text \<open>
  The interfaces \<open>TaskStore\<close> (\<open>src/store/tasks/task_store.go\<close>) and \<open>AppStore\<close> (\<open>src/store/apps/app_store.go\<close>) as records of methods, and what
  both promise: they behave as a finite map from keys to messages, over every sequence of calls. The locale \<open>typed_store\<close> is the promise;
  \<open>tasks\<close> and \<open>applications\<close> interpret it on the two stores, over the in-memory store.
\<close>

section \<open>The interfaces\<close>

record 's AppStore_methods =
  asi_Start :: "'s \<Rightarrow> goerr option \<times> 's"
  asi_Stop :: "'s \<Rightarrow> goerr option \<times> 's"
  asi_Get :: "string \<Rightarrow> 's \<Rightarrow> Application option result"
  asi_Save :: "Application \<Rightarrow> 's \<Rightarrow> goerr option \<times> 's"
  asi_Delete :: "string \<Rightarrow> 's \<Rightarrow> goerr option \<times> 's"
  asi_Size :: "'s \<Rightarrow> nat result"
  asi_Keys :: "'s \<Rightarrow> string list result"
  asi_ForEach :: "'s \<Rightarrow> Application option list \<times> goerr option"
  asi_Filter :: "(Application option \<Rightarrow> bool) \<Rightarrow> 's \<Rightarrow> Application option list result"
  asi_Find :: "(Application option \<Rightarrow> bool) \<Rightarrow> 's \<Rightarrow> Application option result"
  asi_Contains :: "string \<Rightarrow> 's \<Rightarrow> bool result"

record 's TaskStore_methods =
  tsi_Start :: "'s \<Rightarrow> goerr option \<times> 's"
  tsi_Stop :: "'s \<Rightarrow> goerr option \<times> 's"
  tsi_Get :: "string \<Rightarrow> 's \<Rightarrow> Deployment option result"
  tsi_Save :: "Deployment \<Rightarrow> 's \<Rightarrow> goerr option \<times> 's"
  tsi_Delete :: "string \<Rightarrow> 's \<Rightarrow> goerr option \<times> 's"
  tsi_Size :: "'s \<Rightarrow> nat result"
  tsi_Keys :: "'s \<Rightarrow> string list result"
  tsi_ForEach :: "'s \<Rightarrow> Deployment option list \<times> goerr option"
  tsi_FilterToTaskIds :: "(Deployment option \<Rightarrow> bool) \<Rightarrow> 's \<Rightarrow> TaskID option list result option"
  tsi_Filter :: "(Deployment option \<Rightarrow> bool) \<Rightarrow> 's \<Rightarrow> Deployment option list result"
  tsi_Find :: "(Deployment option \<Rightarrow> bool) \<Rightarrow> 's \<Rightarrow> Deployment option result"
  tsi_Contains :: "string \<Rightarrow> 's \<Rightarrow> bool result"
  tsi_RunningApps :: "string \<Rightarrow> 's \<Rightarrow> Deployment option list result"
  tsi_RunningAppsCount :: "string \<Rightarrow> 's \<Rightarrow> int32"

definition DefaultAppStore_methods ::
  "'s KVStore \<Rightarrow> Application marshal \<Rightarrow> Application unmarshal \<Rightarrow> 's DefaultAppStore AppStore_methods" where
  "DefaultAppStore_methods kv enc dec =
     \<lparr>asi_Start = DefaultAppStore_Start kv, asi_Stop = DefaultAppStore_Stop kv, asi_Get = DefaultAppStore_Get kv dec,
      asi_Save = DefaultAppStore_Save kv enc, asi_Delete = DefaultAppStore_Delete kv, asi_Size = DefaultAppStore_Size kv,
      asi_Keys = DefaultAppStore_Keys kv, asi_ForEach = DefaultAppStore_ForEach kv dec, asi_Filter = DefaultAppStore_Filter kv dec,
      asi_Find = DefaultAppStore_Find kv dec, asi_Contains = DefaultAppStore_Contains kv\<rparr>"

definition DefaultTaskStore_methods ::
  "'s KVStore \<Rightarrow> Deployment marshal \<Rightarrow> Deployment unmarshal \<Rightarrow> 's DefaultTaskStore TaskStore_methods" where
  "DefaultTaskStore_methods kv enc dec =
     \<lparr>tsi_Start = DefaultTaskStore_Start kv, tsi_Stop = DefaultTaskStore_Stop kv, tsi_Get = DefaultTaskStore_Get kv dec,
      tsi_Save = DefaultTaskStore_Save kv enc, tsi_Delete = DefaultTaskStore_Delete kv, tsi_Size = DefaultTaskStore_Size kv,
      tsi_Keys = DefaultTaskStore_Keys kv, tsi_ForEach = DefaultTaskStore_ForEach kv dec,
      tsi_FilterToTaskIds = DefaultTaskStore_FilterToTaskIds kv dec, tsi_Filter = DefaultTaskStore_Filter kv dec,
      tsi_Find = DefaultTaskStore_Find kv dec, tsi_Contains = DefaultTaskStore_Contains kv,
      tsi_RunningApps = DefaultTaskStore_RunningApps kv dec, tsi_RunningAppsCount = DefaultTaskStore_RunningAppsCount kv dec\<rparr>"

section \<open>The specification\<close>

datatype 'v store_op =
    StoreSave 'v
  | StoreDelete string
  | StoreGet string
  | StoreSize
  | StoreFilter "'v option \<Rightarrow> bool"
  | StoreFind "'v option \<Rightarrow> bool"

datatype 'v store_answer =
    AnsError "goerr option"
  | AnsValue "'v option result"
  | AnsSize "nat result"
  | AnsValues "'v option list result"

text \<open>A value that cannot be encoded is refused; reading a missing key gives no value, be it with an error or without.\<close>

inductive map_step ::
  "('v \<Rightarrow> string) \<Rightarrow> ('v \<Rightarrow> bool) \<Rightarrow> (string \<rightharpoonup> 'v) \<Rightarrow> 'v store_op \<Rightarrow> 'v store_answer \<Rightarrow> (string \<rightharpoonup> 'v) \<Rightarrow> bool"
  for key encodes where
  map_Save: "encodes v \<Longrightarrow> map_step key encodes m (StoreSave v) (AnsError None) (m(key v \<mapsto> v))"
| map_Save_refused: "\<not> encodes v \<Longrightarrow> map_step key encodes m (StoreSave v) (AnsError (Some err)) m"
| map_Delete: "map_step key encodes m (StoreDelete k) (AnsError None) (m(k := None))"
| map_Get: "m k = Some v \<Longrightarrow> map_step key encodes m (StoreGet k) (AnsValue (Inr (Some v))) m"
| map_Get_missing: "m k = None \<Longrightarrow> r = Inr None \<or> r = Inl err \<Longrightarrow> map_step key encodes m (StoreGet k) (AnsValue r) m"
| map_Size: "map_step key encodes m StoreSize (AnsSize (Inr (card (dom m)))) m"
| map_Filter: "distinct ks \<Longrightarrow> set ks = {k \<in> dom m. P (m k)} \<Longrightarrow> map_step key encodes m (StoreFilter P) (AnsValues (Inr (map m ks))) m"
| map_Find: "m k = Some v \<Longrightarrow> P (Some v) \<Longrightarrow> map_step key encodes m (StoreFind P) (AnsValue (Inr (Some v))) m"
| map_Find_none: "\<forall>k \<in> dom m. \<not> P (m k) \<Longrightarrow> map_step key encodes m (StoreFind P) (AnsValue (Inr None)) m"

inductive map_run ::
  "('v \<Rightarrow> string) \<Rightarrow> ('v \<Rightarrow> bool) \<Rightarrow> (string \<rightharpoonup> 'v) \<Rightarrow> 'v store_op list \<Rightarrow> 'v store_answer list \<Rightarrow> (string \<rightharpoonup> 'v) \<Rightarrow> bool"
  for key encodes where
  map_end: "map_run key encodes m [] [] m"
| map_call: "map_step key encodes m op a m' \<Longrightarrow> map_run key encodes m' ops answers m'' \<Longrightarrow> map_run key encodes m (op # ops) (a # answers) m''"

inductive_cases map_run_call: "map_run key encodes m (op # ops) answers m'"
inductive_cases map_run_end: "map_run key encodes m [] answers m'"
inductive_cases map_step_Get: "map_step key encodes m (StoreGet k) a m'"
inductive_cases map_step_Save: "map_step key encodes m (StoreSave v) a m'"
inductive_cases map_step_Delete: "map_step key encodes m (StoreDelete k) a m'"
inductive_cases map_step_Size: "map_step key encodes m StoreSize a m'"

section \<open>Calls of an implementation\<close>

text \<open>What the two interfaces have in common.\<close>

record ('s, 'v) store_methods =
  so_Get :: "string \<Rightarrow> 's \<Rightarrow> 'v option result"
  so_Save :: "'v \<Rightarrow> 's \<Rightarrow> goerr option \<times> 's"
  so_Delete :: "string \<Rightarrow> 's \<Rightarrow> goerr option \<times> 's"
  so_Size :: "'s \<Rightarrow> nat result"
  so_Filter :: "('v option \<Rightarrow> bool) \<Rightarrow> 's \<Rightarrow> 'v option list result"
  so_Find :: "('v option \<Rightarrow> bool) \<Rightarrow> 's \<Rightarrow> 'v option result"

definition of_TaskStore :: "'s TaskStore_methods \<Rightarrow> ('s, Deployment) store_methods" where
  "of_TaskStore ts = \<lparr>so_Get = tsi_Get ts, so_Save = tsi_Save ts, so_Delete = tsi_Delete ts, so_Size = tsi_Size ts,
     so_Filter = tsi_Filter ts, so_Find = tsi_Find ts\<rparr>"

definition of_AppStore :: "'s AppStore_methods \<Rightarrow> ('s, Application) store_methods" where
  "of_AppStore as_store = \<lparr>so_Get = asi_Get as_store, so_Save = asi_Save as_store, so_Delete = asi_Delete as_store,
     so_Size = asi_Size as_store, so_Filter = asi_Filter as_store, so_Find = asi_Find as_store\<rparr>"

fun store_do :: "('s, 'v) store_methods \<Rightarrow> 'v store_op \<Rightarrow> 's \<Rightarrow> 'v store_answer \<times> 's" where
  "store_do m (StoreSave v) s = map_prod AnsError id (so_Save m v s)"
| "store_do m (StoreDelete k) s = map_prod AnsError id (so_Delete m k s)"
| "store_do m (StoreGet k) s = (AnsValue (so_Get m k s), s)"
| "store_do m StoreSize s = (AnsSize (so_Size m s), s)"
| "store_do m (StoreFilter P) s = (AnsValues (so_Filter m P s), s)"
| "store_do m (StoreFind P) s = (AnsValue (so_Find m P s), s)"

fun store_run :: "('s, 'v) store_methods \<Rightarrow> 'v store_op list \<Rightarrow> 's \<Rightarrow> 'v store_answer list \<times> 's" where
  "store_run m [] s = ([], s)"
| "store_run m (op # ops) s =
     (let (a, s1) = store_do m op s; (answers, s2) = store_run m ops s1 in (a # answers, s2))"

section \<open>The contract\<close>

text \<open>\<open>ok\<close> is the invariant of an implementation, \<open>view\<close> the map it stands for, \<open>encodes\<close> says which messages can be stored.\<close>

locale typed_store =
  fixes m :: "('s, 'v) store_methods" and ok :: "'s \<Rightarrow> bool" and view :: "'s \<Rightarrow> (string \<rightharpoonup> 'v)"
    and key :: "'v \<Rightarrow> string" and encodes :: "'v \<Rightarrow> bool"
  assumes get_present: "ok s \<Longrightarrow> view s k = Some v \<Longrightarrow> so_Get m k s = Inr (Some v)"
    and get_missing: "ok s \<Longrightarrow> view s k = None \<Longrightarrow> so_Get m k s = Inr None \<or> (\<exists>err. so_Get m k s = Inl err)"
    and save_encoded: "ok s \<Longrightarrow> encodes v \<Longrightarrow> \<exists>s'. so_Save m v s = (None, s') \<and> ok s' \<and> view s' = (view s)(key v \<mapsto> v)"
    and save_refused: "ok s \<Longrightarrow> \<not> encodes v \<Longrightarrow> \<exists>err. so_Save m v s = (Some err, s)"
    and delete_key: "ok s \<Longrightarrow> \<exists>s'. so_Delete m k s = (None, s') \<and> ok s' \<and> view s' = (view s)(k := None)"
    and size_is: "ok s \<Longrightarrow> so_Size m s = Inr (card (dom (view s)))"
    and filter_is: "ok s \<Longrightarrow> \<exists>ks. so_Filter m P s = Inr (map (view s) ks) \<and> distinct ks \<and> set ks = {k \<in> dom (view s). P (view s k)}"
    and find_is: "ok s \<Longrightarrow> \<exists>r. so_Find m P s = Inr r \<and>
      (case r of None \<Rightarrow> \<forall>k \<in> dom (view s). \<not> P (view s k) | Some v \<Rightarrow> P (Some v) \<and> (\<exists>k. view s k = Some v))"
begin

lemma do_refines:
  assumes ok: "ok s"
  shows "ok (snd (store_do m op s)) \<and> map_step key encodes (view s) op (fst (store_do m op s)) (view (snd (store_do m op s)))"
proof (cases op)
  case (StoreSave v)
  then show ?thesis using save_encoded [OF ok, of v] save_refused [OF ok, of v] ok
    by (cases "encodes v") (auto intro: map_Save map_Save_refused)
next
  case (StoreDelete k)
  then show ?thesis using delete_key [OF ok, of k] by (auto intro: map_Delete)
next
  case (StoreGet k)
  then show ?thesis using get_present [OF ok, of k] get_missing [OF ok, of k] ok
    by (cases "view s k") (auto intro: map_Get map_Get_missing)
next
  case StoreSize
  then show ?thesis using ok by (simp add: size_is map_Size)
next
  case (StoreFilter P)
  then show ?thesis using filter_is [OF ok, of P] ok by (auto intro: map_Filter)
next
  case (StoreFind P)
  obtain r where r: "so_Find m P s = Inr r"
    "case r of None \<Rightarrow> \<forall>k \<in> dom (view s). \<not> P (view s k) | Some v \<Rightarrow> P (Some v) \<and> (\<exists>k. view s k = Some v)"
    using find_is [OF ok] by blast
  then show ?thesis using ok by (cases r) (auto simp: StoreFind intro: map_Find map_Find_none)
qed

lemma run_refines:
  "ok s \<Longrightarrow> ok (snd (store_run m ops s)) \<and> map_run key encodes (view s) ops (fst (store_run m ops s)) (view (snd (store_run m ops s)))"
proof (induction ops arbitrary: s)
  case (Cons op ops)
  from do_refines [OF Cons.prems, of op] Cons.IH [of "snd (store_do m op s)"]
  show ?case by (auto simp: case_prod_unfold Let_def intro: map_call)
qed (simp add: map_end)

end

section \<open>The stores keep the contract\<close>

text \<open>
  What the stores rely on: the codec reads back what it wrote, it rejects no bytes at all where a message has required fields, and it never
  writes a nil slice, as the protobuf library documents; and every value in the store decodes.
\<close>

definition tasks_ok :: "Deployment marshal \<Rightarrow> Deployment unmarshal \<Rightarrow> InMemoryStore DefaultTaskStore \<Rightarrow> bool" where
  "tasks_ok enc dec t \<longleftrightarrow> codec_ok enc dec \<and> (\<exists>err. dec None = Inl err) \<and> ims_wf (dts_store t) \<and>
     (\<forall>k v. ims_abs (dts_store t) k = Some v \<longrightarrow> (\<exists>d. dec v = Inr d))"

definition apps_ok :: "Application marshal \<Rightarrow> Application unmarshal \<Rightarrow> InMemoryStore DefaultAppStore \<Rightarrow> bool" where
  "apps_ok enc dec a \<longleftrightarrow> codec_ok enc dec \<and> (\<forall>v. enc v \<noteq> Inr None) \<and> ims_wf (das_store a) \<and>
     (\<forall>k v. ims_abs (das_store a) k = Some v \<longrightarrow> v \<noteq> None \<and> (\<exists>d. dec v = Inr d))"

lemma decoded_dom: "\<forall>k v. m k = Some v \<longrightarrow> (\<exists>d. dec v = Inr d) \<Longrightarrow> dom (decoded dec m) = dom m"
  by (auto simp: decoded_Some dom_def)

lemma decoded_items:
  assumes "entries_of m kvs" and "\<forall>k v. m k = Some v \<longrightarrow> (\<exists>d. dec v = Inr d)"
    and item: "\<And>i d. dec (kvd_Value i) = Inr d \<Longrightarrow> item i = Some d"
  shows "\<exists>ks. filter P (map item kvs) = map (decoded dec m) ks \<and> distinct ks \<and> set ks = {k \<in> dom (decoded dec m). P (decoded dec m k)}"
proof -
  have eq: "item i = decoded dec m (kvd_Key i)" if "i \<in> set kvs" for i
  proof -
    have m: "m (kvd_Key i) = Some (kvd_Value i)" using assms(1) that by (simp add: entries_of_in)
    with assms(2) obtain d where "dec (kvd_Value i) = Inr d" by blast
    with m item show ?thesis by (simp add: decoded_def)
  qed
  have keys: "map item kvs = map (decoded dec m) (map kvd_Key kvs)" using eq by simp
  have "k \<in> kvd_Key ` set kvs" if "m k = Some v" for k v
    using assms(1) that by (intro image_eqI [of k kvd_Key "\<lparr>kvd_Key = k, kvd_Value = v\<rparr>"]) (simp_all add: entries_of_def)
  then have "set (map kvd_Key kvs) = dom m" using entries_of_in [OF assms(1)] by (auto simp: dom_def)
  then have "set (map kvd_Key kvs) = dom (decoded dec m)" using decoded_dom [of m dec, OF assms(2)] by simp
  moreover have "distinct (map kvd_Key kvs)" using assms(1) by (simp add: entries_of_def)
  ultimately show ?thesis
    by (intro exI [of _ "filter (\<lambda>k. P (decoded dec m k)) (map kvd_Key kvs)"]) (auto simp: keys filter_map o_def distinct_map_filter simp del: map_map)
qed

lemma find_decoded:
  assumes "case r of None \<Rightarrow> \<forall>k d. decoded dec m k = Some d \<longrightarrow> \<not> P (Some d) | Some d \<Rightarrow> P (Some d) \<and> (\<exists>k. decoded dec m k = Some d)"
  shows "case r of None \<Rightarrow> \<forall>k \<in> dom (decoded dec m). \<not> P (decoded dec m k) | Some d \<Rightarrow> P (Some d) \<and> (\<exists>k. decoded dec m k = Some d)"
  using assms by (auto split: option.splits)

interpretation tasks: typed_store "of_TaskStore (DefaultTaskStore_methods (InMemoryStore_kv it) enc dec)" "tasks_ok enc dec"
  "\<lambda>t. decoded dec (ims_abs (dts_store t))" "\<lambda>d. TaskID_GetValue (dep_TaskId d)" "\<lambda>d. \<exists>b. enc d = Inr b" for it enc dec
proof (unfold_locales, goal_cases)
  case (1 t k d)
  then show ?case by (auto simp: of_TaskStore_def DefaultTaskStore_methods_def ims_Get decoded_Some)
next
  case (2 t k)
  then show ?case
    by (auto simp: of_TaskStore_def DefaultTaskStore_methods_def ims_Get decoded_def tasks_ok_def split: option.splits sum.splits)
next
  case (3 t d)
  then obtain b where b: "enc d = Inr b" and wf: "ims_wf (dts_store t)" by (auto simp: tasks_ok_def)
  obtain t' where t': "DefaultTaskStore_Save (InMemoryStore_kv it) enc d t = (None, t')" "ims_wf (dts_store t')"
    "ims_abs (dts_store t') = (ims_abs (dts_store t))(TaskID_GetValue (dep_TaskId d) \<mapsto> b)"
    using mem.Save_task [of t, OF wf, of enc d b, OF b] by blast
  have dec: "dec b = Inr d" using 3 b by (auto simp: tasks_ok_def codec_ok_def)
  then have "tasks_ok enc dec t'" using 3 t' by (auto simp: tasks_ok_def split: if_splits)
  then show ?case using t' by (simp add: of_TaskStore_def DefaultTaskStore_methods_def decoded_upd [of dec, OF dec])
next
  case (4 t d)
  then show ?case
    by (cases "enc d") (auto simp: of_TaskStore_def DefaultTaskStore_methods_def DefaultTaskStore_Save_def task_writeBytes_def)
next
  case (5 t k)
  then obtain s where s: "kv_Delete (InMemoryStore_kv it) k (dts_store t) = (None, s)" "ims_wf s" "ims_abs s = (ims_abs (dts_store t))(k := None)"
    using mem.Delete_ok [of "dts_store t"] unfolding tasks_ok_def by blast
  then have "tasks_ok enc dec (t\<lparr>dts_store := s\<rparr>)" using 5 by (auto simp: tasks_ok_def split: if_splits)
  then show ?case using s by (simp add: of_TaskStore_def DefaultTaskStore_methods_def DefaultTaskStore_Delete_def decoded_del)
next
  case (6 t)
  then show ?case
    using mem.Size_ok [of "dts_store t"] decoded_dom [of "ims_abs (dts_store t)" dec]
    by (simp add: of_TaskStore_def DefaultTaskStore_methods_def DefaultTaskStore_Size_def tasks_ok_def)
next
  case (7 t P)
  then have wf: "ims_wf (dts_store t)" and all: "\<forall>k v. ims_abs (dts_store t) k = Some v \<longrightarrow> (\<exists>d. dec v = Inr d)" by (auto simp: tasks_ok_def)
  obtain kvs where "entries_of (ims_abs (dts_store t)) kvs"
    "DefaultTaskStore_Filter (InMemoryStore_kv it) dec P t = Inr (filter P (map (task_item dec) kvs))"
    by (rule mem.Filter_task [of t, OF wf])
  with decoded_items [OF _ all, of kvs "task_item dec" P] show ?case
    by (auto simp: of_TaskStore_def DefaultTaskStore_methods_def task_item_Some)
next
  case (8 t P)
  then have "ims_wf (dts_store t)" by (simp add: tasks_ok_def)
  from mem.Find_task [of t, OF this] obtain r where "DefaultTaskStore_Find (InMemoryStore_kv it) dec P t = Inr r"
    "case r of None \<Rightarrow> \<forall>k d. decoded dec (ims_abs (dts_store t)) k = Some d \<longrightarrow> \<not> P (Some d)
     | Some d \<Rightarrow> P (Some d) \<and> (\<exists>k. decoded dec (ims_abs (dts_store t)) k = Some d)" by blast
  then show ?case by (intro exI [of _ r]) (simp add: of_TaskStore_def DefaultTaskStore_methods_def find_decoded)
qed

context kv_store
begin

lemma Find_app:
  assumes "inv (das_store a)"
  shows "\<exists>r. DefaultAppStore_Find kv dec P a = Inr r \<and>
     (case r of
        None \<Rightarrow> \<forall>k d. decoded dec (abs (das_store a)) k = Some d \<longrightarrow> \<not> P (Some d)
      | Some d \<Rightarrow> P (Some d) \<and> (\<exists>k. decoded dec (abs (das_store a)) k = Some d))"
proof -
  let ?acc = "\<lambda>item. case dec (kvd_Value item) of Inl _ \<Rightarrow> False | Inr d \<Rightarrow> P (Some d)"
  obtain kvs where kvs: "entries_of (abs (das_store a)) kvs"
    "kv_Find kv ?acc (das_store a) = (fst (find_trace ?acc kvs), Inr (List.find ?acc kvs))"
    using Find_ok [OF assms] by metis
  have r: "DefaultAppStore_Find kv dec P a =
      Inr (case List.find ?acc kvs of None \<Rightarrow> None | Some x \<Rightarrow> app_item dec x)"
    by (simp add: DefaultAppStore_Find_def kvs(2) fold_find_trace)
  show ?thesis
  proof (cases "List.find ?acc kvs")
    case None
    then have "\<not> ?acc \<lparr>kvd_Key = k, kvd_Value = v\<rparr>" if "abs (das_store a) k = Some v" for k v
      using that kvs(1) by (auto simp: find_None_iff entries_of_def)
    then show ?thesis using r None by (fastforce simp: decoded_Some)
  next
    case (Some x)
    then have "x \<in> set kvs" "?acc x" by (auto simp: find_Some_iff)
    with kvs(1) have "abs (das_store a) (kvd_Key x) = Some (kvd_Value x)" by (simp add: entries_of_in)
    with \<open>?acc x\<close> r Some show ?thesis
      by (auto simp: decoded_Some app_item_def split: sum.splits)
  qed
qed

end

interpretation applications: typed_store "of_AppStore (DefaultAppStore_methods (InMemoryStore_kv it) enc dec)" "apps_ok enc dec"
  "\<lambda>a. decoded dec (ims_abs (das_store a))" "\<lambda>v. Application_GetId (Some v)" "\<lambda>v. \<exists>b. enc v = Inr b" for it enc dec
proof (unfold_locales, goal_cases)
  case (1 a k v)
  then obtain w where w: "ims_abs (das_store a) k = Some w" "dec w = Inr v" "ims_wf (das_store a)"
    by (auto simp: apps_ok_def decoded_Some)
  then have "w \<noteq> None" using 1 unfolding apps_ok_def by blast
  with w obtain bs where "ims_abs (das_store a) k = Some (Some bs)" "dec (Some bs) = Inr v" "ims_wf (das_store a)" by auto
  then show ?case using mem.Get_app_present [of a k bs] by (simp add: of_AppStore_def DefaultAppStore_methods_def)
next
  case (2 a k)
  then have "ims_wf (das_store a)" and all: "\<forall>k v. ims_abs (das_store a) k = Some v \<longrightarrow> (\<exists>d. dec v = Inr d)" by (auto simp: apps_ok_def)
  moreover have "ims_abs (das_store a) k = None" using 2(2) decoded_dom [OF all] by (metis domIff)
  ultimately have "ims_abs (das_store a) k = None" "ims_wf (das_store a)" by simp_all
  then show ?case using mem.Get_app_missing [of a k] by (simp add: of_AppStore_def DefaultAppStore_methods_def)
next
  case (3 a v)
  then obtain b where b: "enc v = Inr b" and wf: "ims_wf (das_store a)" by (auto simp: apps_ok_def)
  obtain a' where a': "DefaultAppStore_Save (InMemoryStore_kv it) enc v a = (None, a')" "ims_wf (das_store a')"
    "ims_abs (das_store a') = (ims_abs (das_store a))(Application_GetId (Some v) \<mapsto> b)"
    using mem.Save_app [of a, OF wf, of enc v b, OF b] by blast
  have dec: "dec b = Inr v" using 3 b by (auto simp: apps_ok_def codec_ok_def)
  have "b \<noteq> None" using 3 b unfolding apps_ok_def by metis
  then have "apps_ok enc dec a'" using 3 a' dec by (auto simp: apps_ok_def split: if_splits)
  then show ?case using a' by (simp add: of_AppStore_def DefaultAppStore_methods_def decoded_upd [of dec, OF dec])
next
  case (4 a v)
  then show ?case
    by (cases "enc v") (auto simp: of_AppStore_def DefaultAppStore_methods_def DefaultAppStore_Save_def app_writeBytes_def)
next
  case (5 a k)
  then obtain s where s: "kv_Delete (InMemoryStore_kv it) k (das_store a) = (None, s)" "ims_wf s" "ims_abs s = (ims_abs (das_store a))(k := None)"
    using mem.Delete_ok [of "das_store a"] unfolding apps_ok_def by blast
  then have "apps_ok enc dec (a\<lparr>das_store := s\<rparr>)" using 5 by (auto simp: apps_ok_def split: if_splits)
  then show ?case using s by (simp add: of_AppStore_def DefaultAppStore_methods_def DefaultAppStore_Delete_def decoded_del)
next
  case (6 a)
  then have "\<forall>k v. ims_abs (das_store a) k = Some v \<longrightarrow> (\<exists>d. dec v = Inr d)" by (auto simp: apps_ok_def)
  then show ?case
    using 6 mem.Size_ok [of "das_store a"] decoded_dom [of "ims_abs (das_store a)" dec]
    by (simp add: of_AppStore_def DefaultAppStore_methods_def DefaultAppStore_Size_def apps_ok_def)
next
  case (7 a P)
  then have wf: "ims_wf (das_store a)" and all: "\<forall>k v. ims_abs (das_store a) k = Some v \<longrightarrow> (\<exists>d. dec v = Inr d)" by (auto simp: apps_ok_def)
  obtain kvs where "entries_of (ims_abs (das_store a)) kvs"
    "DefaultAppStore_ForEach (InMemoryStore_kv it) dec a = (map (app_item dec) kvs, None)" by (rule mem.ForEach_app [of a, OF wf])
  with decoded_items [OF _ all, of kvs "app_item dec" P] show ?case
    by (auto simp: of_AppStore_def DefaultAppStore_methods_def DefaultAppStore_Filter_def fold_filter app_item_Some)
next
  case (8 a P)
  then have "ims_wf (das_store a)" by (simp add: apps_ok_def)
  from mem.Find_app [of a, OF this] obtain r where "DefaultAppStore_Find (InMemoryStore_kv it) dec P a = Inr r"
    "case r of None \<Rightarrow> \<forall>k d. decoded dec (ims_abs (das_store a)) k = Some d \<longrightarrow> \<not> P (Some d)
     | Some d \<Rightarrow> P (Some d) \<and> (\<exists>k. decoded dec (ims_abs (das_store a)) k = Some d)" by blast
  then show ?case by (intro exI [of _ r]) (simp add: of_AppStore_def DefaultAppStore_methods_def find_decoded)
qed

section \<open>Properties\<close>

text \<open>C15. Both stores behave as a finite map, over every sequence of calls and whatever order the in-memory store iterates in: what was
  saved last under a key is what is read there until it is deleted, a message that cannot be encoded is refused and changes nothing, the size is the
  number of keys, \<open>Filter\<close> answers each accepted message once, and \<open>Find\<close> one that is accepted, or nil when there is none.\<close>

theorem stores_refine_maps:
  "(tasks_ok tenc tdec t \<longrightarrow>
      (let (answers, t') = store_run (of_TaskStore (DefaultTaskStore_methods (InMemoryStore_kv it) tenc tdec)) tops t
       in tasks_ok tenc tdec t' \<and>
          map_run (\<lambda>d. TaskID_GetValue (dep_TaskId d)) (\<lambda>d. \<exists>b. tenc d = Inr b)
            (decoded tdec (ims_abs (dts_store t))) tops answers (decoded tdec (ims_abs (dts_store t'))))) \<and>
   (apps_ok aenc adec a \<longrightarrow>
      (let (answers, a') = store_run (of_AppStore (DefaultAppStore_methods (InMemoryStore_kv it) aenc adec)) aops a
       in apps_ok aenc adec a' \<and>
          map_run (\<lambda>v. Application_GetId (Some v)) (\<lambda>v. \<exists>b. aenc v = Inr b)
            (decoded adec (ims_abs (das_store a))) aops answers (decoded adec (ims_abs (das_store a')))))"
  using tasks.run_refines [of tenc tdec t it tops] applications.run_refines [of aenc adec a it aops]
  by (simp add: case_prod_unfold)

theorem stores_refine_maps_witness:
  "\<exists>t' a'. store_run (of_TaskStore (DefaultTaskStore_methods (InMemoryStore_kv rev) (table_enc [sample_deployment]) (table_dec [sample_deployment])))
       [StoreSave sample_deployment, StoreGet ''task-1'', StoreDelete ''task-1'', StoreSize] empty_tasks =
       ([AnsError None, AnsValue (Inr (Some sample_deployment)), AnsError None, AnsSize (Inr 0)], t') \<and>
     store_run (of_AppStore (DefaultAppStore_methods (InMemoryStore_kv rev) (table_enc [sample_application]) (table_dec [sample_application])))
       [StoreSave sample_application, StoreGet ''web'', StoreSize] empty_apps =
       ([AnsError None, AnsValue (Inr (Some sample_application)), AnsSize (Inr 1)], a')"
proof -
  let ?e = "table_enc [sample_deployment]" and ?d = "table_dec [sample_deployment]"
  let ?ae = "table_enc [sample_application]" and ?ad = "table_dec [sample_application]"
  let ?ops = "[StoreSave sample_deployment, StoreGet ''task-1'', StoreDelete ''task-1'', StoreSize]"
  let ?aops = "[StoreSave sample_application, StoreGet ''web'', StoreSize]"
  let ?run = "store_run (of_TaskStore (DefaultTaskStore_methods (InMemoryStore_kv rev) ?e ?d)) ?ops empty_tasks"
  let ?arun = "store_run (of_AppStore (DefaultAppStore_methods (InMemoryStore_kv rev) ?ae ?ad)) ?aops empty_apps"
  have ok: "tasks_ok ?e ?d empty_tasks"
    using table_codec_ok [of "[sample_deployment]"] empty_tasks_wf
    by (auto simp: tasks_ok_def empty_tasks_def TaskStore_NewWithStore_def NewEmptyInMemoryStore_def ims_abs_def)
  have aok: "apps_ok ?ae ?ad empty_apps"
    using table_codec_ok [of "[sample_application]"] empty_apps_wf
    by (auto simp: apps_ok_def empty_apps_def AppStore_NewWithStore_def NewEmptyInMemoryStore_def ims_abs_def table_enc_def split: option.splits)
  have enc: "\<exists>b. ?e sample_deployment = Inr b" "\<exists>b. ?ae sample_application = Inr b" by (simp_all add: table_enc_single)
  have key: "TaskID_GetValue (dep_TaskId sample_deployment) = ''task-1''" "Application_GetId (Some sample_application) = ''web''"
    by (simp_all add: sample_deployment_def TaskID_GetValue_def sample_application_def Application_GetId_def)
  have empty: "decoded ?d (ims_abs (dts_store empty_tasks)) = Map.empty" "decoded ?ad (ims_abs (das_store empty_apps)) = Map.empty"
    by (auto simp: decoded_def empty_tasks_def TaskStore_NewWithStore_def NewEmptyInMemoryStore_def ims_abs_def empty_apps_def AppStore_NewWithStore_def)
  obtain answers t' where run: "?run = (answers, t')" by (cases ?run)
  obtain aanswers a' where arun: "?arun = (aanswers, a')" by (cases ?arun)
  have r: "map_run (\<lambda>d. TaskID_GetValue (dep_TaskId d)) (\<lambda>d. \<exists>b. ?e d = Inr b) Map.empty ?ops answers (decoded ?d (ims_abs (dts_store t')))"
    "map_run (\<lambda>v. Application_GetId (Some v)) (\<lambda>v. \<exists>b. ?ae v = Inr b) Map.empty ?aops aanswers (decoded ?ad (ims_abs (das_store a')))"
    using stores_refine_maps [of ?e ?d empty_tasks rev ?ops ?ae ?ad empty_apps ?aops] ok aok run arun unfolding empty by simp_all
  have "answers = [AnsError None, AnsValue (Inr (Some sample_deployment)), AnsError None, AnsSize (Inr 0)]"
    using r(1) enc(1) key(1)
    by (auto elim!: map_run_call map_run_end map_step_Get map_step_Save map_step_Delete map_step_Size split: if_splits)
  moreover have "aanswers = [AnsError None, AnsValue (Inr (Some sample_application)), AnsSize (Inr 1)]"
    using r(2) enc(2) key(2)
    by (auto elim!: map_run_call map_run_end map_step_Get map_step_Save map_step_Size split: if_splits)
  ultimately show ?thesis using run arun by blast
qed

end
