(* ===== verification/GoChan.thy ===== *)
theory GoChan
  imports Prelude
begin

text \<open>
  Goroutines and channels. A goroutine is a value of a type \<open>'p\<close> that says where it is; \<open>beh\<close> lists what it may do next,
  several entries for a \<open>select\<close>. A system is a list of goroutines, the state they share, and for
  every channel what it buffers and whether it was closed. A send on an unbuffered channel
  meets a receive of another goroutine; a receive from a closed channel that is empty gets no value; a send on, or a second close
  of, a closed channel panics, which ends the program.
\<close>

section \<open>Systems\<close>

datatype ('s, 'c, 'v, 'p) act =
    Local "'s \<Rightarrow> 's \<times> 'p"
  | Go 'p 'p
  | Send 'c 'v 'p
  | Recv 'c "'v option \<Rightarrow> 'p"
  | Close 'c 'p
  | Panic

text \<open>A step that leaves the shared state alone.\<close>

abbreviation Tau :: "'p \<Rightarrow> ('s, 'c, 'v, 'p) act" where
  "Tau p \<equiv> Local (\<lambda>h. (h, p))"

record ('s, 'c, 'v, 'p) gosys =
  sh :: 's
  procs :: "'p list"
  buf :: "'c \<Rightarrow> 'v list"
  closed :: "'c \<Rightarrow> bool"
  panicked :: bool

inductive go_step ::
  "('p \<Rightarrow> ('s, 'c, 'v, 'p) act list) \<Rightarrow> ('c \<Rightarrow> nat) \<Rightarrow> ('s, 'c, 'v, 'p) gosys \<Rightarrow> ('s, 'c, 'v, 'p) gosys \<Rightarrow> bool"
  for beh cap where
  local: "go_step beh cap s (s\<lparr>sh := fst (f (sh s)), procs := (procs s)[i := snd (f (sh s))]\<rparr>)"
    if "\<not> panicked s" and "i < length (procs s)" and "Local f \<in> set (beh (procs s ! i))"
| spawn: "go_step beh cap s (s\<lparr>procs := (procs s)[i := p] @ [q]\<rparr>)"
    if "\<not> panicked s" and "i < length (procs s)" and "Go q p \<in> set (beh (procs s ! i))"
| sync: "go_step beh cap s (s\<lparr>procs := (procs s)[i := p, j := k (Some v)]\<rparr>)"
    if "\<not> panicked s" and "i < length (procs s)" and "j < length (procs s)" and "i \<noteq> j"
      and "Send c v p \<in> set (beh (procs s ! i))" and "Recv c k \<in> set (beh (procs s ! j))" and "cap c = 0" and "\<not> closed s c"
| put: "go_step beh cap s (s\<lparr>procs := (procs s)[i := p], buf := (buf s)(c := buf s c @ [v])\<rparr>)"
    if "\<not> panicked s" and "i < length (procs s)" and "Send c v p \<in> set (beh (procs s ! i))"
      and "length (buf s c) < cap c" and "\<not> closed s c"
| get: "go_step beh cap s (s\<lparr>procs := (procs s)[j := k (Some v)], buf := (buf s)(c := vs)\<rparr>)"
    if "\<not> panicked s" and "j < length (procs s)" and "Recv c k \<in> set (beh (procs s ! j))" and "buf s c = v # vs"
| get_closed: "go_step beh cap s (s\<lparr>procs := (procs s)[j := k None]\<rparr>)"
    if "\<not> panicked s" and "j < length (procs s)" and "Recv c k \<in> set (beh (procs s ! j))" and "buf s c = []" and "closed s c"
| close: "go_step beh cap s (s\<lparr>procs := (procs s)[i := p], closed := (closed s)(c := True)\<rparr>)"
    if "\<not> panicked s" and "i < length (procs s)" and "Close c p \<in> set (beh (procs s ! i))" and "\<not> closed s c"
| send_panics: "go_step beh cap s (s\<lparr>panicked := True\<rparr>)"
    if "\<not> panicked s" and "i < length (procs s)" and "Send c v p \<in> set (beh (procs s ! i))" and "closed s c"
| close_panics: "go_step beh cap s (s\<lparr>panicked := True\<rparr>)"
    if "\<not> panicked s" and "i < length (procs s)" and "Close c p \<in> set (beh (procs s ! i))" and "closed s c"
| panics: "go_step beh cap s (s\<lparr>panicked := True\<rparr>)"
    if "\<not> panicked s" and "i < length (procs s)" and "Panic \<in> set (beh (procs s ! i))"

text \<open>The states a system can get to.\<close>

abbreviation go_reach ::
  "('p \<Rightarrow> ('s, 'c, 'v, 'p) act list) \<Rightarrow> ('c \<Rightarrow> nat) \<Rightarrow> ('s, 'c, 'v, 'p) gosys \<Rightarrow> ('s, 'c, 'v, 'p) gosys \<Rightarrow> bool" where
  "go_reach beh cap \<equiv> (go_step beh cap)\<^sup>*\<^sup>*"

lemma go_reach_invariant:
  assumes "go_reach beh cap s s'" and "P s" and "\<And>s s'. P s \<Longrightarrow> go_step beh cap s s' \<Longrightarrow> P s'"
  shows "P s'"
  using assms by (induction rule: rtranclp_induct) auto

text \<open>A measure that some step decreases leads to a state where none has to.\<close>

lemma go_reach_measure:
  assumes "P s" and step: "\<And>s. P s \<Longrightarrow> \<not> Q s \<Longrightarrow> \<exists>s'. go_step beh cap s s' \<and> P s' \<and> m s' < (m s :: nat)"
  shows "\<exists>s'. go_reach beh cap s s' \<and> P s' \<and> Q s'"
  using assms(1)
proof (induction "m s" arbitrary: s rule: less_induct)
  case less
  show ?case
  proof (cases "Q s")
    case False
    then obtain s1 where "go_step beh cap s s1" "P s1" "m s1 < m s" using step less.prems by blast
    with less.hyps show ?thesis by (meson converse_rtranclp_into_rtranclp)
  qed (use less.prems in blast)
qed

section \<open>Running a schedule\<close>

text \<open>
  A move names the goroutines that act and which of their offers they take; \<open>One i n\<close> is anything but a rendezvous, which is
  \<open>Two i n j m\<close>, with the sender first.
\<close>

datatype move = One nat nat | Two nat nat nat nat

definition offer :: "('p \<Rightarrow> ('s, 'c, 'v, 'p) act list) \<Rightarrow> ('s, 'c, 'v, 'p) gosys \<Rightarrow> nat \<Rightarrow> nat \<Rightarrow> ('s, 'c, 'v, 'p) act option" where
  "offer beh s i n =
     (if i < length (procs s) \<and> n < length (beh (procs s ! i)) then Some (beh (procs s ! i) ! n) else None)"

fun make_move ::
  "('p \<Rightarrow> ('s, 'c, 'v, 'p) act list) \<Rightarrow> ('c \<Rightarrow> nat) \<Rightarrow> move \<Rightarrow> ('s, 'c, 'v, 'p) gosys \<Rightarrow> ('s, 'c, 'v, 'p) gosys option" where
  "make_move beh cap (One i n) s =
     (if panicked s then None
      else (case offer beh s i n of
          None \<Rightarrow> None
        | Some (Local f) \<Rightarrow> Some (s\<lparr>sh := fst (f (sh s)), procs := (procs s)[i := snd (f (sh s))]\<rparr>)
        | Some (Go q p) \<Rightarrow> Some (s\<lparr>procs := (procs s)[i := p] @ [q]\<rparr>)
        | Some (Send c v p) \<Rightarrow>
            if closed s c then Some (s\<lparr>panicked := True\<rparr>)
            else if length (buf s c) < cap c then Some (s\<lparr>procs := (procs s)[i := p], buf := (buf s)(c := buf s c @ [v])\<rparr>)
            else None
        | Some (Recv c k) \<Rightarrow>
            (case buf s c of
               v # vs \<Rightarrow> Some (s\<lparr>procs := (procs s)[i := k (Some v)], buf := (buf s)(c := vs)\<rparr>)
             | [] \<Rightarrow> if closed s c then Some (s\<lparr>procs := (procs s)[i := k None]\<rparr>) else None)
        | Some Panic \<Rightarrow> Some (s\<lparr>panicked := True\<rparr>)
        | Some (Close c p) \<Rightarrow>
            Some (if closed s c then s\<lparr>panicked := True\<rparr>
                  else s\<lparr>procs := (procs s)[i := p], closed := (closed s)(c := True)\<rparr>)))"
| "make_move beh cap (Two i n j m) s =
     (if panicked s \<or> i = j then None
      else (case (offer beh s i n, offer beh s j m) of
          (Some (Send c v p), Some (Recv c' k)) \<Rightarrow>
            if c = c' \<and> cap c = 0 \<and> \<not> closed s c then Some (s\<lparr>procs := (procs s)[i := p, j := k (Some v)]\<rparr>) else None
        | _ \<Rightarrow> None))"

fun run_moves ::
  "('p \<Rightarrow> ('s, 'c, 'v, 'p) act list) \<Rightarrow> ('c \<Rightarrow> nat) \<Rightarrow> move list \<Rightarrow> ('s, 'c, 'v, 'p) gosys \<Rightarrow> ('s, 'c, 'v, 'p) gosys option" where
  "run_moves beh cap [] s = Some s"
| "run_moves beh cap (m # ms) s = (case make_move beh cap m s of None \<Rightarrow> None | Some s' \<Rightarrow> run_moves beh cap ms s')"

lemma offer_member: "offer beh s i n = Some a \<Longrightarrow> i < length (procs s) \<and> a \<in> set (beh (procs s ! i))"
  by (auto simp: offer_def split: if_splits)

lemma make_move_step: "make_move beh cap m s = Some s' \<Longrightarrow> go_step beh cap s s'"
proof (cases m)
  case (One i n)
  assume h: "make_move beh cap m s = Some s'"
  then obtain a where a: "offer beh s i n = Some a" "\<not> panicked s" by (auto simp: One split: if_splits option.splits)
  note g = offer_member [OF a(1)]
  show ?thesis
  proof (cases a)
    case (Recv c k)
    then show ?thesis using h a g by (cases "buf s c") (auto simp: One split: if_splits intro: go_step.intros)
  qed (use h a g in \<open>auto simp: One split: if_splits intro: go_step.intros\<close>)
next
  case (Two i n j m')
  assume h: "make_move beh cap m s = Some s'"
  then obtain c v p k where o: "offer beh s i n = Some (Send c v p)" "offer beh s j m' = Some (Recv c k)" "\<not> panicked s" "i \<noteq> j"
    "cap c = 0" "\<not> closed s c" "s' = s\<lparr>procs := (procs s)[i := p, j := k (Some v)]\<rparr>"
    by (auto simp: Two split: if_splits option.splits act.splits)
  then show ?thesis using offer_member [OF o(1)] offer_member [OF o(2)] by (auto intro: go_step.sync)
qed

lemma run_moves_reach: "run_moves beh cap ms s = Some s' \<Longrightarrow> go_reach beh cap s s'"
proof (induction ms arbitrary: s)
  case (Cons m ms)
  then show ?case
    by (auto split: option.splits intro: converse_rtranclp_into_rtranclp make_move_step)
qed simp

end
