(* ===== verification/Lifecycle.thy ===== *)
theory Lifecycle
  imports GoChan TaskManager
begin

text \<open>
  Starting and stopping: the goroutines of the task manager (\<open>src/tasks/default_task_manager.go\<close>), of the SLA monitor
  (\<open>src/health/sla/sla.go\<close>), of the health checker and its pool (\<open>src/health/checker.go\<close>) and the
  framework's kill loop (\<open>src/scheduler/scheduler.go\<close>), with every communication on their channels. What they compute between two
  communications is the subject of the other theories: here a sweep of the SLA monitor finds one of the given lists of changes, a check
  gives one of the given verdicts, and the queue of checks is the list of their ids.
\<close>

section \<open>The goroutines\<close>

datatype chan =
    Closing | BoolC | TasksToKill | Failures | NeedsScaling | SlaClosing | SlaBool
  | PoolClosing | PoolErr | Work | Updates | Results | Slot nat

datatype msg = Reply | Item string | Outcome string bool | Change ChangeDeployCount | Kill string

text \<open>
  Each constructor is a place in the code. \<open>Tm\<close>: a call of the task manager's \<open>Stop\<close>; \<open>Li\<close>: its listener; \<open>Mo\<close>: the SLA monitor;
  \<open>Sl\<close>: a call of the monitor's \<open>Stop\<close>; \<open>Po\<close>: the worker pool; \<open>Wk\<close>: one of its workers; \<open>Di\<close>: the
  dispatcher of results; \<open>Dq\<close>: the dequeue loop; \<open>Kl\<close>: the kill loop of the framework.
\<close>

datatype goroutine =
    TmStop | TmWait | TmStores | TmCloseKill | TmCloseClosing | TmCloseBool | TmReturned "goerr option"
  | LiSelect | LiFailed string | LiKill string
  | LiPoolStop | LiPoolWait | LiCloseFailures | LiCloseResults | LiSlaStop | LiSlaWait | LiReply | LiDone
  | MoSelect | MoSend "ChangeDeployCount list" | MoReply | MoDone
  | SlStop | SlWait | SlReturned
  | PoSelect "nat option" "string list" | PoGot string "nat option" "string list" | PoSpawn string "nat option" "string list"
  | PoReset "string list" | PoForward string bool "nat option" "string list" | PoPanic
  | PoCloseUpdates | PoReply | PoCloseWork | PoDone
  | WkCheck string | WkSend string bool | WkIfSlot | WkSlot | WkSignal nat | WkNil | WkDone
  | DiRange | DiPush string bool | DiFail string | DiDone
  | DqLoop | DqPop | DqSend string | DqWait | DqTick
  | KlRange | KlKill string | KlDone

text \<open>
  The pool's size, whether the monitor was given an interval, what a sweep may find, whether the task store has a
  deployment for a task, the verdicts a check may give, and the error of stopping the task store or the queue.
\<close>

record life_env =
  le_pool :: nat
  le_ticking :: bool
  le_sweeps :: "ChangeDeployCount list list"
  le_known :: "string \<Rightarrow> bool"
  le_verdicts :: "string \<Rightarrow> bool list"
  le_stopErr :: "goerr option"

text \<open>What goroutines share: the queue, the pool's variable \<open>waitForSlot\<close>, and how many channels were made for it.\<close>

record life_shared =
  lh_queue :: "string list"
  lh_slot :: "nat option"
  lh_slots :: nat

type_synonym life_act = "(life_shared, chan, msg, goroutine) act"

definition chan_cap :: "life_env \<Rightarrow> chan \<Rightarrow> nat" where
  "chan_cap env c = (case c of Work \<Rightarrow> le_pool env | Updates \<Rightarrow> le_pool env | Results \<Rightarrow> le_pool env | _ \<Rightarrow> 0)"

text \<open>\<open>DefaultTaskManager.Stop\<close>; an error of the stores is returned before the channels are closed.\<close>

fun tm_stop_beh :: "life_env \<Rightarrow> goroutine \<Rightarrow> life_act list" where
  "tm_stop_beh env TmStop = [Send Closing Reply TmWait]"
| "tm_stop_beh env TmWait = [Recv BoolC (\<lambda>_. TmStores)]"
| "tm_stop_beh env TmStores = [Tau (if le_stopErr env \<noteq> None then TmReturned (le_stopErr env) else TmCloseKill)]"
| "tm_stop_beh env TmCloseKill = [Close TasksToKill TmCloseClosing]"
| "tm_stop_beh env TmCloseClosing = [Close Closing TmCloseBool]"
| "tm_stop_beh env TmCloseBool = [Close BoolC (TmReturned None)]"
| "tm_stop_beh env _ = []"

text \<open>
  \<open>listenForHealthFailures\<close>. A failure of a known task is sent to the kill loop; requests to scale are received and
  ignored. When closing, it stops the health checker (\<open>LiPoolStop\<close> on) and the monitor, and then replies.
\<close>

fun listener_beh :: "life_env \<Rightarrow> goroutine \<Rightarrow> life_act list" where
  "listener_beh env LiSelect =
     [Recv Failures (\<lambda>v. case v of Some (Outcome i _) \<Rightarrow> LiFailed i | _ \<Rightarrow> LiFailed []),
      Recv NeedsScaling (\<lambda>_. LiSelect), Recv Closing (\<lambda>_. LiPoolStop)]"
| "listener_beh env (LiFailed i) = [Tau (if le_known env i then LiKill i else LiSelect)]"
| "listener_beh env (LiKill i) = [Send TasksToKill (Kill i) LiSelect]"
| "listener_beh env LiSlaStop = [Send SlaClosing Reply LiSlaWait]"
| "listener_beh env LiSlaWait = [Recv SlaBool (\<lambda>_. LiReply)]"
| "listener_beh env LiReply = [Send BoolC Reply LiDone]"
| "listener_beh env _ = []"

text \<open>\<open>HealthChecker.Stop\<close>: it stops the pool and waits for its answer, then closes two channels.\<close>

fun checker_stop_beh :: "life_env \<Rightarrow> goroutine \<Rightarrow> life_act list" where
  "checker_stop_beh env LiPoolStop = [Send PoolClosing Reply LiPoolWait]"
| "checker_stop_beh env LiPoolWait = [Recv PoolErr (\<lambda>_. LiCloseFailures)]"
| "checker_stop_beh env LiCloseFailures = [Close Failures LiCloseResults]"
| "checker_stop_beh env LiCloseResults = [Close Results (if le_ticking env then LiSlaStop else LiReply)]"
| "checker_stop_beh env _ = []"

text \<open>The goroutine of \<open>simpleSLAMonitor.Start\<close>: every tick sends what the sweep found, one change after the other.\<close>

fun monitor_beh :: "life_env \<Rightarrow> goroutine \<Rightarrow> life_act list" where
  "monitor_beh env MoSelect = Recv SlaClosing (\<lambda>_. MoReply) # map (\<lambda>changes. Tau (MoSend changes)) (le_sweeps env)"
| "monitor_beh env (MoSend []) = [Tau MoSelect]"
| "monitor_beh env (MoSend (c # cs)) = [Send NeedsScaling (Change c) (MoSend cs)]"
| "monitor_beh env MoReply = [Send SlaBool Reply MoDone]"
| "monitor_beh env _ = []"

text \<open>\<open>simpleSLAMonitor.Stop\<close>, called on its own.\<close>

fun sla_stop_beh :: "life_env \<Rightarrow> goroutine \<Rightarrow> life_act list" where
  "sla_stop_beh env SlStop = (if le_ticking env then [Send SlaClosing Reply SlWait] else [Tau SlReturned])"
| "sla_stop_beh env SlWait = [Recv SlaBool (\<lambda>_. SlReturned)]"
| "sla_stop_beh env _ = []"

text \<open>
  The loop of \<open>workerPool.Start\<close>, and its workers. When as many checks are pending as the pool is large, it
  makes a channel on which a worker that has sent its result signals; a nil channel blocks for ever. \<open>PoSelect\<close> keeps the channel its
  \<open>select\<close> waits on, which only the pool itself changes. Cancelling the pending checks sends nothing.
\<close>

fun pool_beh :: "life_env \<Rightarrow> goroutine \<Rightarrow> life_act list" where
  "pool_beh env (PoSelect slot pending) =
     [Recv Work (\<lambda>v. case v of Some (Item i) \<Rightarrow> PoGot i slot (pending @ [i]) | _ \<Rightarrow> PoSelect slot pending),
      Recv Updates (\<lambda>v. case v of Some (Outcome i h) \<Rightarrow> PoForward i h slot pending | _ \<Rightarrow> PoSelect slot pending),
      Recv PoolClosing (\<lambda>_. PoCloseUpdates)] @
     (case slot of None \<Rightarrow> [] | Some n \<Rightarrow> [Recv (Slot n) (\<lambda>_. PoReset pending)])"
| "pool_beh env (PoGot i slot pending) =
     [Local (\<lambda>h. if length pending = le_pool env
        then (h\<lparr>lh_slot := Some (lh_slots h), lh_slots := lh_slots h + 1\<rparr>, PoSpawn i (Some (lh_slots h)) pending)
        else (h, PoSpawn i slot pending))]"
| "pool_beh env (PoSpawn i slot pending) = [Go (WkCheck i) (PoSelect slot pending)]"
| "pool_beh env (PoReset pending) = [Local (\<lambda>h. (h\<lparr>lh_slot := None\<rparr>, PoSelect None pending))]"
| "pool_beh env (PoForward i h slot pending) =
     [Send Results (Outcome i h) (case remove_pending (\<lambda>x. x = i) pending of Some pending' \<Rightarrow> PoSelect slot pending' | None \<Rightarrow> PoPanic)]"
| "pool_beh env PoPanic = [Panic]"
| "pool_beh env PoCloseUpdates = [Close Updates PoReply]"
| "pool_beh env PoReply = [Send PoolErr Reply PoCloseWork]"
| "pool_beh env PoCloseWork = [Close Work PoDone]"
| "pool_beh env (WkCheck i) = map (\<lambda>h. Tau (WkSend i h)) (le_verdicts env i)"
| "pool_beh env (WkSend i h) = [Send Updates (Outcome i h) WkIfSlot]"
| "pool_beh env WkIfSlot = [Local (\<lambda>h. (h, if lh_slot h \<noteq> None then WkSlot else WkDone))]"
| "pool_beh env WkSlot = [Local (\<lambda>h. (h, case lh_slot h of Some n \<Rightarrow> WkSignal n | None \<Rightarrow> WkNil))]"
| "pool_beh env (WkSignal n) = [Send (Slot n) Reply WkDone]"
| "pool_beh env _ = []"

text \<open>\<open>dispatchResultsLoop\<close> and \<open>dequeueLoop\<close> share the queue. The first item may have expired or not; the dequeue loop never
  ends. The ticker may tick at any time: that no tick comes once \<open>HealthChecker.Stop\<close> has stopped it, but for one that is buffered, is left out.\<close>

fun checker_beh :: "life_env \<Rightarrow> goroutine \<Rightarrow> life_act list" where
  "checker_beh env DiRange = [Recv Results (\<lambda>v. case v of Some (Outcome i h) \<Rightarrow> DiPush i h | _ \<Rightarrow> DiDone)]"
| "checker_beh env (DiPush i h) = [Local (\<lambda>s. (s\<lparr>lh_queue := lh_queue s @ [i]\<rparr>, if h then DiRange else DiFail i))]"
| "checker_beh env (DiFail i) = [Send Failures (Outcome i False) DiRange]"
| "checker_beh env DqLoop = [Local (\<lambda>s. (s, if lh_queue s = [] then DqTick else DqPop))]"
| "checker_beh env DqPop =
     [Local (\<lambda>s. case lh_queue s of [] \<Rightarrow> (s, DqWait) | i # q \<Rightarrow> (s\<lparr>lh_queue := q\<rparr>, DqSend i)), Tau DqWait]"
| "checker_beh env (DqSend i) = [Send Work (Item i) DqLoop]"
| "checker_beh env DqWait = [Tau DqLoop]"
| "checker_beh env DqTick = [Tau DqLoop]"
| "checker_beh env _ = []"

text \<open>\<open>listenForTasksToKill\<close>.\<close>

fun killer_beh :: "life_env \<Rightarrow> goroutine \<Rightarrow> life_act list" where
  "killer_beh env KlRange = [Recv TasksToKill (\<lambda>v. case v of Some (Kill i) \<Rightarrow> KlKill i | _ \<Rightarrow> KlDone)]"
| "killer_beh env (KlKill i) = [Tau KlRange]"
| "killer_beh env _ = []"

definition beh :: "life_env \<Rightarrow> goroutine \<Rightarrow> life_act list" where
  "beh env g = tm_stop_beh env g @ listener_beh env g @ checker_stop_beh env g @ monitor_beh env g @ sla_stop_beh env g @ pool_beh env g @
     checker_beh env g @ killer_beh env g"

text \<open>What runs after \<open>Start\<close>, with the checks of the queue \<open>q\<close> registered, when \<open>Stop\<close> is called.\<close>

type_synonym life = "(life_shared, chan, msg, goroutine) gosys"

definition system :: "string list \<Rightarrow> goroutine list \<Rightarrow> life" where
  "system q ps = \<lparr>sh = \<lparr>lh_queue = q, lh_slot = None, lh_slots = 0\<rparr>, procs = ps, buf = (\<lambda>_. []), closed = (\<lambda>_. False), panicked = False\<rparr>"

definition stopping :: "string list \<Rightarrow> life" where
  "stopping q = system q [TmStop, LiSelect, MoSelect, PoSelect None [], DiRange, DqLoop, KlRange]"

section \<open>Starting\<close>

text \<open>
  \<open>DefaultTaskManager.Start\<close>: what it starts and stops, in order, given the errors of the four components; the
  listener runs only if there is a health checker.
\<close>

datatype start_call = StartTaskStore | StartQueue | StartMonitor | StartHealth | StopTaskStore | StopQueue | GoListener

record start_errors =
  se_taskStore :: "goerr option"
  se_queue :: "goerr option"
  se_monitor :: "goerr option"
  se_health :: "goerr option option"

definition DefaultTaskManager_Start :: "start_errors \<Rightarrow> goerr option \<times> start_call list" where
  "DefaultTaskManager_Start e =
     (if se_taskStore e \<noteq> None then (se_taskStore e, [StartTaskStore])
      else if se_queue e \<noteq> None then (se_queue e, [StartTaskStore, StartQueue, StopTaskStore])
      else if se_monitor e \<noteq> None then (se_monitor e, [StartTaskStore, StartQueue, StartMonitor, StopTaskStore, StopQueue])
      else (case se_health e of
          None \<Rightarrow> (None, [StartTaskStore, StartQueue, StartMonitor])
        | Some (Some err) \<Rightarrow> (Some err, [StartTaskStore, StartQueue, StartMonitor, StartHealth, StopTaskStore, StopQueue])
        | Some None \<Rightarrow> (None, [StartTaskStore, StartQueue, StartMonitor, StartHealth, GoListener])))"

text \<open>\<open>simpleSLAMonitor.Start\<close> starts a goroutine only with a positive interval, in nanoseconds; \<open>New\<close> ticks every minute.\<close>

definition SLA_New_interval :: int64 where "SLA_New_interval = 60000000000"

definition SLA_ticking :: "int64 \<Rightarrow> bool" where "SLA_ticking interval \<longleftrightarrow> 0 < sint interval"

section \<open>Unfolding\<close>

lemmas beh_simps = beh_def tm_stop_beh.simps listener_beh.simps checker_stop_beh.simps monitor_beh.simps sla_stop_beh.simps pool_beh.simps
  checker_beh.simps killer_beh.simps

end
