(* ===== verification/Wiring.thy ===== *)
theory Wiring
  imports Agora Lifecycle TaskManagerInvariant
begin

text \<open>
  How the program is put together: the structures that hold its parts, and the functions that make them. A part another one only keeps is
  a type parameter. A channel that is made is its name in \<open>Lifecycle\<close> with its capacity, and the lemmas here show that the channels are
  made with the capacities \<open>Lifecycle\<close> runs them with, and that the chain of \<open>Agora\<close> is the one made of these middlewares.
\<close>

section \<open>Message builder, src/tasks/builders/builders.go\<close>

definition EmptyPortRange :: "PortRange list" where
  "EmptyPortRange = []"

record PortPicker =
  pp_GetPorts :: "Offer \<Rightarrow> int64 \<Rightarrow> (PortRange list \<times> int32 list) option"

text \<open>A picker without state; \<open>pick\<close> is what \<open>rand.Intn\<close> will answer.\<close>

definition RandomPortPicker :: "nat \<Rightarrow> PortPicker" where
  "RandomPortPicker pick = \<lparr>pp_GetPorts = GetPorts pick\<rparr>"

record MesosMessageBuilder =
  mmb_config :: Config
  mmb_PortPicker :: PortPicker

definition builders_New :: "nat \<Rightarrow> Config \<Rightarrow> MesosMessageBuilder" where
  "builders_New pick config = \<lparr>mmb_config = config, mmb_PortPicker = RandomPortPicker pick\<rparr>"

section \<open>SLA monitor, src/health/sla/sla.go\<close>

type_synonym made = "chan \<times> nat"

record ('t, 'a, 'q) simpleSLAMonitor =
  sm_taskStore :: 't
  sm_appStore :: 'a
  sm_queue :: 'q
  sm_ticker :: "int64 option"
  sm_closing :: made
  sm_needsScaling :: made
  sm_interval :: int64

definition NewWithInterval :: "'t \<Rightarrow> 'a \<Rightarrow> 'q \<Rightarrow> int64 \<Rightarrow> ('t, 'a, 'q) simpleSLAMonitor" where
  "NewWithInterval ts as_store q interval =
     \<lparr>sm_taskStore = ts, sm_appStore = as_store, sm_queue = q, sm_ticker = None, sm_closing = (SlaClosing, 0),
      sm_needsScaling = (NeedsScaling, 0), sm_interval = interval\<rparr>"

definition SLA_New :: "'t \<Rightarrow> 'a \<Rightarrow> 'q \<Rightarrow> ('t, 'a, 'q) simpleSLAMonitor" where
  "SLA_New ts as_store q = NewWithInterval ts as_store q SLA_New_interval"

definition ScaleUpOrDown :: "('t, 'a, 'q) simpleSLAMonitor \<Rightarrow> made" where
  "ScaleUpOrDown s = sm_needsScaling s"

text \<open>The monitor the tests run with; a nil channel is None.\<close>

definition NoopSLAMonitor_ScaleUpOrDown :: "unit \<Rightarrow> made option" where
  "NoopSLAMonitor_ScaleUpOrDown c = None"

definition NoopSLAMonitor_Start :: "unit \<Rightarrow> goerr option" where
  "NoopSLAMonitor_Start c = None"

definition NoopSLAMonitor_Stop :: "unit \<Rightarrow> goerr option" where
  "NoopSLAMonitor_Stop c = None"

section \<open>Health checker, src/health/checker.go\<close>

record healthResult =
  hr_item :: nat
  hr_result :: Result

record workerPool =
  wp_poolSize :: nat
  wp_work :: made
  wp_updates :: made
  wp_closing :: made
  wp_results :: made

definition newPool :: "nat \<Rightarrow> made \<Rightarrow> workerPool" where
  "newPool nrw replyTo =
     \<lparr>wp_poolSize = nrw, wp_work = (Work, nrw), wp_updates = (Updates, nrw), wp_closing = (PoolClosing, 0), wp_results = replyTo\<rparr>"

text \<open>The health checker as it is made: its state is \<open>checker\<close>, beside it the pool, its channels and the ticker's period in nanoseconds.
  Making a channel with a negative capacity panics.\<close>

record HealthCheckerParts =
  hp_checker :: checker
  hp_pool :: workerPool
  hp_failures :: made
  hp_results :: made
  hp_ticker :: int64

definition health_New :: "int64 \<Rightarrow> HealthCheckerParts option" where
  "health_New nrw =
     (if sint nrw < 0 then None
      else let results = (Results, nat (sint nrw))
           in Some \<lparr>hp_checker = HealthChecker_New, hp_pool = newPool (nat (sint nrw)) results, hp_failures = (Failures, 0),
                    hp_results = results, hp_ticker = 1000000000\<rparr>)"

definition HealthChecker_Failures :: "HealthCheckerParts \<Rightarrow> made" where
  "HealthChecker_Failures h = hp_failures h"

section \<open>Task manager, src/tasks/default\_task\_manager.go\<close>

record ('s, 'a) DefaultTaskManager =
  dtm_queue :: queue_mem
  dtm_taskStore :: "'s DefaultTaskStore"
  dtm_appStore :: "'a DefaultAppStore"
  dtm_builder :: MesosMessageBuilder
  dtm_healtchecks :: "HealthCheckerParts option"
  dtm_slaMonitor :: "('s DefaultTaskStore, 'a DefaultAppStore, queue_mem) simpleSLAMonitor"
  dtm_closing :: made
  dtm_tasksToKill :: made

text \<open>\<open>NewDefaultTaskManager\<close> with all its parts; without \<open>FrameworkInfo\<close> reading the concurrency panics.\<close>

definition NewDefaultTaskManager_parts ::
  "queue_mem \<Rightarrow> nat \<Rightarrow> Config \<Rightarrow> 'a DefaultAppStore \<Rightarrow> (InMemoryStore, 'a) DefaultTaskManager result option" where
  "NewDefaultTaskManager_parts mem pick config appStore =
     (case TaskStore_New of
        Inl err \<Rightarrow> Some (Inl err)
      | Inr store \<Rightarrow>
          (case (TaskQueue_New mem, Option.bind (cfg_FrameworkInfo config) (\<lambda>fc. health_New (fc_HealthCheckConcurrency fc))) of
             (Some q, Some health) \<Rightarrow>
               Some (Inr \<lparr>dtm_queue = q, dtm_taskStore = store, dtm_appStore = appStore, dtm_builder = builders_New pick config,
                          dtm_healtchecks = Some health, dtm_slaMonitor = SLA_New store appStore q,
                          dtm_closing = (Closing, 0), dtm_tasksToKill = (TasksToKill, 0)\<rparr>)
           | _ \<Rightarrow> None))"

definition DefaultTaskManager_TasksToKill :: "('s, 'a) DefaultTaskManager \<Rightarrow> made" where
  "DefaultTaskManager_TasksToKill t = dtm_tasksToKill t"

section \<open>API, src/agora/api/\<close>

record ('f, 'a) APIContext =
  ac_Framework :: 'f
  ac_Config :: Config
  ac_AppStore :: 'a

record ApplicationsConverter =
  acv_config :: Config

definition converters_New :: "Config \<Rightarrow> ApplicationsConverter" where
  "converters_New config = \<lparr>acv_config = config\<rparr>"

record ('f, 'a) ApplicationsController =
  apc_apiContext :: "('f, 'a) APIContext"
  apc_AppStore :: 'a
  apc_appConverter :: ApplicationsConverter

definition NewApplicationsController :: "('f, 'a) APIContext \<Rightarrow> ('f, 'a) ApplicationsController" where
  "NewApplicationsController context =
     \<lparr>apc_apiContext = context, apc_AppStore = ac_AppStore context, apc_appConverter = converters_New (ac_Config context)\<rparr>"

record ('f, 'a) MesosController =
  mc_context :: "('f, 'a) APIContext"

definition NewMesosController :: "('f, 'a) APIContext \<Rightarrow> ('f, 'a) MesosController" where
  "NewMesosController context = \<lparr>mc_context = context\<rparr>"

record fwID =
  fwid_Value :: string

text \<open>\<open>json.Encoder\<close> writes what it encoded and a newline, or nothing; \<open>json.Decoder\<close> may have filled a part of the data when it fails.\<close>

definition renderJSON :: "('d \<Rightarrow> string result) \<Rightarrow> 'd \<Rightarrow> rw_call list" where
  "renderJSON encode data = (case encode data of Inl err \<Rightarrow> [] | Inr s \<Rightarrow> [Write (s @ [CHR 0x0A])])"

definition readJSON :: "(string \<Rightarrow> 'd \<Rightarrow> goerr option \<times> 'd) \<Rightarrow> string \<Rightarrow> 'd \<Rightarrow> goerr option \<times> 'd" where
  "readJSON decode reqBody data =
     (let (err, data') = decode reqBody data
      in if err \<noteq> None then (err, data') else (None, data'))"

section \<open>Middlewares, src/agora/middlewares/\<close>

record 'st EventSourceMiddleWare =
  esm_eventSource :: "'st handler"

definition NewEventSource :: "'st handler \<Rightarrow> 'st EventSourceMiddleWare" where
  "NewEventSource es = \<lparr>esm_eventSource = es\<rparr>"

text \<open>The logger is its module's name.\<close>

record JSONOnlyAPI =
  joa_Logger :: string

definition NewJSONOnlyAPI :: JSONOnlyAPI where
  "NewJSONOnlyAPI = \<lparr>joa_Logger = ''JsonApi''\<rparr>"

text \<open>\<open>httputil.NewSingleHostReverseProxy\<close> is a parameter.\<close>

record 'st ProxyHostMiddleware =
  phm_BasePath :: string
  phm_proxy :: "'st handler"

definition NewProxyHost :: "(URL \<Rightarrow> 'st handler) \<Rightarrow> string \<Rightarrow> URL \<Rightarrow> 'st ProxyHostMiddleware" where
  "NewProxyHost newProxy basePath remoteHost = \<lparr>phm_BasePath = basePath, phm_proxy = newProxy remoteHost\<rparr>"

section \<open>The parts fit together\<close>

text \<open>Every channel is made with the capacity it runs with.\<close>

lemma pool_channels:
  assumes "le_pool env = nrw" and "p = newPool nrw (Results, nrw)"
  shows "\<forall>(c, n) \<in> {wp_work p, wp_updates p, wp_closing p, wp_results p}. chan_cap env c = n"
  using assms by (simp add: newPool_def chan_cap_def)

lemma monitor_channels: "\<forall>(c, n) \<in> {sm_closing m, ScaleUpOrDown m}. chan_cap env c = n" if "m = NewWithInterval ts as_store q interval"
  by (simp add: that NewWithInterval_def ScaleUpOrDown_def chan_cap_def)

text \<open>What a new task manager is, as far as \<open>TaskManager\<close> goes.\<close>

definition parts_abs :: "nat \<Rightarrow> ('s, 'a) DefaultTaskManager \<Rightarrow> ('s, 'a) task_manager" where
  "parts_abs addr p = \<lparr>tm_queue = dtm_queue p, tm_next = addr, tm_tasks = dtm_taskStore p, tm_apps = dtm_appStore p,
     tm_health = map_option hp_checker (dtm_healtchecks p)\<rparr>"

text \<open>Creating the task manager panics exactly when the configuration has no \<open>FrameworkInfo\<close> or asks for a negative number of health check
  workers; otherwise the parts that are made are those \<open>TaskManager\<close> starts from, the monitor looks at the same stores and the same queue, it will
  tick every minute, and every channel is made with the capacity the goroutines use it with.\<close>

theorem NewDefaultTaskManager_fits_together:
  "(NewDefaultTaskManager_parts mem pick config appStore = None \<longleftrightarrow>
      (case cfg_FrameworkInfo config of None \<Rightarrow> True | Some fc \<Rightarrow> sint (fc_HealthCheckConcurrency fc) < 0)) \<and>
   (\<forall>fc p env. cfg_FrameworkInfo config = Some fc \<longrightarrow> NewDefaultTaskManager_parts mem pick config appStore = Some (Inr p) \<longrightarrow>
      le_pool env = nat (sint (fc_HealthCheckConcurrency fc)) \<longrightarrow>
      NewDefaultTaskManager mem addr appStore = Some (Inr (parts_abs addr p)) \<and>
      sm_taskStore (dtm_slaMonitor p) = dtm_taskStore p \<and> sm_appStore (dtm_slaMonitor p) = appStore \<and>
      sm_queue (dtm_slaMonitor p) = dtm_queue p \<and> SLA_ticking (sm_interval (dtm_slaMonitor p)) \<and>
      (\<exists>h. dtm_healtchecks p = Some h \<and> wp_results (hp_pool h) = hp_results h \<and>
         (\<forall>(c, n) \<in> {dtm_closing p, DefaultTaskManager_TasksToKill p, sm_closing (dtm_slaMonitor p), ScaleUpOrDown (dtm_slaMonitor p),
              wp_work (hp_pool h), wp_updates (hp_pool h), wp_closing (hp_pool h), wp_results (hp_pool h), HealthChecker_Failures h}.
            chan_cap env c = n)))"
proof -
  obtain q where q: "TaskQueue_New mem = Some q" using TaskQueue_New_ok by blast
  obtain st where st: "TaskStore_New = Inr st" by (simp add: TaskStore_New_def)
  have "0 < sint SLA_New_interval" by (simp add: SLA_New_interval_def)
  then show ?thesis
    by (auto simp: NewDefaultTaskManager_parts_def NewDefaultTaskManager_def q st health_New_def parts_abs_def SLA_New_def NewWithInterval_def
        SLA_ticking_def newPool_def chan_cap_def DefaultTaskManager_TasksToKill_def ScaleUpOrDown_def HealthChecker_Failures_def Let_def
        split: option.splits bind_splits if_splits)
qed

theorem NewDefaultTaskManager_fits_together_witness:
  "NewDefaultTaskManager_parts empty_queue 0 (sample_config\<lparr>cfg_FrameworkInfo := Some \<lparr>fc_User = [], fc_Name = [], fc_HealthCheckConcurrency = - 1\<rparr>\<rparr>)
     empty_apps = None"
  using NewDefaultTaskManager_fits_together
    [of empty_queue 0 "sample_config\<lparr>cfg_FrameworkInfo := Some \<lparr>fc_User = [], fc_Name = [], fc_HealthCheckConcurrency = - 1\<rparr>\<rparr>" empty_apps]
  by simp

text \<open>The chain of middlewares is the one made by these constructors.\<close>

lemma agora_chain:
  assumes "es = NewEventSource (ag_events env)" and "px = NewProxyHost newProxy ''/docker'' url" and "ag_docker env = newProxy url"
  shows "agora_ServeHTTP env = EventSource_ServeHTTP (esm_eventSource es) (JSONOnlyAPI_ServeHTTP (ag_recovery env (ag_logger env
    (\<lambda>r fw. fst (ProxyHost_ServeHTTP (phm_BasePath px) (phm_proxy px) (ag_static env (router_ServeHTTP env)) r fw)))))"
  using assms by (simp add: agora_ServeHTTP_def NewEventSource_def NewProxyHost_def)

text \<open>The encoder of \<open>ShowFrameworkID\<close> is \<open>renderJSON\<close> of \<open>fwID\<close>, whose field is left out when it is empty.\<close>

lemma ShowFrameworkID_renders:
  assumes "encode = (\<lambda>v. Inr (''{'' @ (if fwid_Value v = [] then [] else ''\"frameworkId\":'' @ quote (fwid_Value v)) @ ''}''))"
  shows "fst (ShowFrameworkID quote fenv fw) = renderJSON encode \<lparr>fwid_Value = fst (Framework_ID fenv fw)\<rparr>"
  by (simp add: ShowFrameworkID_def renderJSON_def assms case_prod_unfold Let_def)

end
