(* ===== verification/FFJson.thy ===== *)
theory FFJson
  imports ApiModel
begin

text \<open>
  The JSON encoder of the API's model, \<open>src/agora/api/model/app_component_ffjson.go\<close>: writing an integer
  in a base (\<open>ffjson_FormatBits\<close>), writing a string with its escapes (\<open>ffjson_WriteJsonString\<close>), and the two
  \<open>MarshalJSON\<close> methods. A buffer is what has been written to it, a string a list of bytes. \<open>encoding/json\<close>'s
  \<open>Marshal\<close>, which the maps fall back to, is an argument.
\<close>

unbundle bit_operations_syntax

section \<open>Integers\<close>

definition ff_digits :: string where
  "ff_digits = ''0123456789abcdefghijklmnopqrstuvwxyz''"

definition ff_digits01 :: string where
  "ff_digits01 = concat (replicate 10 ''0123456789'')"

definition ff_digits10 :: string where
  "ff_digits10 = concat (map (replicate 10) ''0123456789'')"

text \<open>
  The array \<open>a\<close> of 65 bytes is filled from its end: the state is the part \<open>a[i:]\<close> that has been
  written, and a write in front of it panics once all 65 are taken.
\<close>

definition ff_put :: "string \<Rightarrow> string \<Rightarrow> string option" where
  "ff_put cs acc = (if length cs + length acc \<le> 65 then Some (cs @ acc) else None)"

lemma word_div_less: "(2 :: uint64) \<le> b \<Longrightarrow> b \<le> u \<Longrightarrow> unat (u div b) < unat u"
proof -
  assume "2 \<le> b" "b \<le> u"
  then have "2 \<le> unat b" "unat b \<le> unat u" by (simp_all add: word_le_nat_alt)
  then show ?thesis by (simp add: unat_div)
qed

function ff_loop10 :: "string \<Rightarrow> uint64 \<Rightarrow> (string \<times> uint64) option" where
  "ff_loop10 acc u =
     (if u \<ge> 100
      then let q = u div 100; j = unat (u - q * 100)
           in (case ff_put [ff_digits10 ! j, ff_digits01 ! j] acc of None \<Rightarrow> None | Some acc' \<Rightarrow> ff_loop10 acc' q)
      else Some (acc, u))"
  by pat_completeness auto

termination
  by (relation "measure (\<lambda>(_, u). unat u)") (auto intro: word_div_less)

text \<open>The table of shifts: the exponent for a power of two, else 0.\<close>

definition ff_shifts :: "int64 \<Rightarrow> nat" where
  "ff_shifts base = (if base = 2 then 1 else if base = 4 then 2 else if base = 8 then 3
     else if base = 16 then 4 else if base = 32 then 5 else 0)"

lemma unat_pow2: "s < 64 \<Longrightarrow> unat ((2 :: uint64) ^ s) = 2 ^ s"
proof -
  assume "s < 64"
  then have "(2 :: nat) ^ s < 2 ^ 64" by (rule power_strict_increasing) simp
  then have "unat (of_nat (2 ^ s) :: uint64) = 2 ^ s" by (simp only: unat_of_nat take_bit_nat_eq_self len_of_numeral_defs) simp
  then show ?thesis by simp
qed

lemma unat_drop_bit: "unat (drop_bit s u) = unat u div 2 ^ s"
  by (rule trans [OF unat_drop_bit_eq drop_bit_eq_div])

function ff_loop_shift :: "nat \<Rightarrow> string \<Rightarrow> uint64 \<Rightarrow> (string \<times> uint64) option" where
  "ff_loop_shift s acc u =
     (if s \<noteq> 0 \<and> s < 64 \<and> u \<ge> 2 ^ s
      then (case ff_put [ff_digits ! unat (u AND (2 ^ s - 1))] acc of
              None \<Rightarrow> None | Some acc' \<Rightarrow> ff_loop_shift s acc' (drop_bit s u))
      else Some (acc, u))"
  by pat_completeness auto

termination
proof (relation "measure (\<lambda>(_, _, u). unat u)", simp, clarsimp)
  fix s :: nat and u :: uint64
  assume s: "0 < s" "s < 64" and u: "2 ^ s \<le> u"
  have "2 ^ s \<le> unat u" using u by (simp add: word_le_nat_alt unat_pow2 [OF s(2)])
  then have "0 < unat u" by (metis gr0I not_less power_eq_0_iff zero_less_numeral zero_neq_numeral less_le_trans zero_less_power)
  moreover have "(1 :: nat) < 2 ^ s" using s(1) by (intro one_less_power) simp_all
  ultimately have "unat u div 2 ^ s < unat u" by (intro div_less_dividend)
  then show "unat (drop_bit s u) < unat u" by (simp only: unat_drop_bit)
qed

function ff_loop_base :: "uint64 \<Rightarrow> string \<Rightarrow> uint64 \<Rightarrow> (string \<times> uint64) option" where
  "ff_loop_base b acc u =
     (if 2 \<le> b \<and> u \<ge> b
      then (case ff_put [ff_digits ! unat (u mod b)] acc of
              None \<Rightarrow> None | Some acc' \<Rightarrow> ff_loop_base b acc' (u div b))
      else Some (acc, u))"
  by pat_completeness auto

termination
  by (relation "measure (\<lambda>(_, _, u). unat u)") (auto intro: word_div_less)

definition ffjson_FormatBits :: "uint64 \<Rightarrow> int64 \<Rightarrow> bool \<Rightarrow> string option" where
  "ffjson_FormatBits u0 base neg =
     (if sint base < 2 \<or> sint base > int (length ff_digits) then None
      else
        let u = (if neg then - u0 else u0);
            looped = (if base = 10
              then (case ff_loop10 [] u of
                      None \<Rightarrow> None
                    | Some (acc, v) \<Rightarrow>
                        if v \<ge> 10
                        then let q = v div 10 in map_option (\<lambda>acc'. (acc', q)) (ff_put [ff_digits ! unat (v - q * 10)] acc)
                        else Some (acc, v))
              else if ff_shifts base > 0 then ff_loop_shift (ff_shifts base) [] u
              else ff_loop_base base [] u)
        in (case looped of
              None \<Rightarrow> None
            | Some (acc, v) \<Rightarrow>
                (case ff_put [ff_digits ! unat v] acc of
                   None \<Rightarrow> None
                 | Some acc' \<Rightarrow> if neg then ff_put ''-'' acc' else Some acc')))"

section \<open>The integers are right\<close>

text \<open>The reference: the digits of a natural number in a base.\<close>

function base_digits :: "nat \<Rightarrow> nat \<Rightarrow> string" where
  "base_digits b n = (if n < b \<or> b < 2 then [ff_digits ! n] else base_digits b (n div b) @ [ff_digits ! (n mod b)])"
  by pat_completeness auto

termination
  by (relation "measure (\<lambda>(_, n). n)") auto

declare base_digits.simps [simp del] ff_loop10.simps [simp del] ff_loop_shift.simps [simp del] ff_loop_base.simps [simp del]

lemma base_digits_small: "n < b \<Longrightarrow> base_digits b n = [ff_digits ! n]"
  by (subst base_digits.simps) simp

lemma base_digits_step: "2 \<le> b \<Longrightarrow> b \<le> n \<Longrightarrow> base_digits b n = base_digits b (n div b) @ [ff_digits ! (n mod b)]"
  by (subst base_digits.simps) simp

text \<open>A 64-bit number has at most 64 digits, which leaves room for the sign.\<close>

lemma length_base_digits: "2 \<le> b \<Longrightarrow> n < 2 ^ Suc k \<Longrightarrow> length (base_digits b n) \<le> Suc k"
proof (induction k arbitrary: n)
  case 0
  then show ?case by (simp add: base_digits_small)
next
  case (Suc k)
  show ?case
  proof (cases "n < b")
    case False
    have "n div b \<le> n div 2" using Suc.prems(1) by (intro div_le_mono2) simp_all
    also have "\<dots> < 2 ^ Suc k" using Suc.prems(2) by (simp add: less_mult_imp_div_less)
    finally have "length (base_digits b (n div b)) \<le> Suc k" using Suc by blast
    with False Suc.prems(1) show ?thesis by (simp add: base_digits_step)
  qed (simp add: base_digits_small)
qed

lemma length_base_digits_uint64: "2 \<le> b \<Longrightarrow> length (base_digits b (unat (u :: uint64))) \<le> 64"
  using length_base_digits [of b "unat u" 63] unsigned_less [of u] by simp

lemma ff_put_ok: "length cs + length acc \<le> 65 \<Longrightarrow> ff_put cs acc = Some (cs @ acc)"
  by (simp add: ff_put_def)

text \<open>What every loop does: it moves digits from the number to the written part.\<close>

definition moves :: "nat \<Rightarrow> string \<Rightarrow> uint64 \<Rightarrow> (string \<times> uint64) option \<Rightarrow> nat \<Rightarrow> bool" where
  "moves b acc u r m \<longleftrightarrow>
     (\<exists>acc' u'. r = Some (acc', u') \<and> base_digits b (unat u) @ acc = base_digits b (unat u') @ acc' \<and> unat u' < m)"

lemma moves_step:
  assumes "2 \<le> b" and "b \<le> unat u" and q: "unat q = unat u div b" and d: "d = ff_digits ! (unat u mod b)"
    and len: "length (base_digits b (unat u)) + length acc \<le> 65"
    and rest: "length (base_digits b (unat q)) + length (d # acc) \<le> 65 \<Longrightarrow> moves b (d # acc) q r m"
  shows "ff_put [d] acc = Some (d # acc) \<and> moves b acc u r m"
proof -
  have n: "base_digits b (unat u) = base_digits b (unat q) @ [d]" using assms(1,2) by (simp add: base_digits_step q d)
  then show ?thesis using len rest by (auto simp: moves_def ff_put_def)
qed

lemma moves_done: "unat u < m \<Longrightarrow> moves b acc u (Some (acc, u)) m"
  by (simp add: moves_def)

lemma ff_loop_base_moves:
  "2 \<le> b \<Longrightarrow> length (base_digits (unat b) (unat u)) + length acc \<le> 65 \<Longrightarrow>
     moves (unat b) acc u (ff_loop_base b acc u) (unat b)"
proof (induction b acc u rule: ff_loop_base.induct)
  case (1 b acc u)
  have b: "2 \<le> unat b" using "1.prems"(1) by (simp add: word_le_nat_alt)
  show ?case
  proof (cases "u \<ge> b")
    case True
    let ?d = "ff_digits ! unat (u mod b)"
    have "ff_put [?d] acc = Some (?d # acc) \<and> moves (unat b) acc u (ff_loop_base b (?d # acc) (u div b)) (unat b)"
      using "1.prems" True b "1.IH" [of "?d # acc"]
      by (intro moves_step [where q = "u div b"]) (simp_all add: unat_div unat_mod word_le_nat_alt ff_put_def)
    then show ?thesis using True "1.prems"(1) by (subst ff_loop_base.simps) simp
  next
    case False
    then show ?thesis by (subst ff_loop_base.simps) (simp add: moves_done word_le_nat_alt)
  qed
qed

lemma ff_loop_shift_moves:
  "0 < s \<Longrightarrow> s < 64 \<Longrightarrow> length (base_digits (2 ^ s) (unat u)) + length acc \<le> 65 \<Longrightarrow>
     moves (2 ^ s) acc u (ff_loop_shift s acc u) (2 ^ s)"
proof (induction s acc u rule: ff_loop_shift.induct)
  case (1 s acc u)
  have b: "(2 :: nat) \<le> 2 ^ s" using "1.prems"(1) by (cases s) simp_all
  have m: "unat (u AND (2 ^ s - 1)) = unat u mod 2 ^ s"
    using "1.prems"(2) by (simp flip: mask_eq_exp_minus_1 take_bit_eq_mask) (simp add: unat_mod unat_pow2 take_bit_eq_mod)
  show ?case
  proof (cases "u \<ge> 2 ^ s")
    case True
    let ?d = "ff_digits ! unat (u AND (2 ^ s - 1))"
    have "ff_put [?d] acc = Some (?d # acc) \<and> moves (2 ^ s) acc u (ff_loop_shift s (?d # acc) (drop_bit s u)) (2 ^ s)"
      using "1.prems" True b "1.IH" [of "?d # acc"]
      by (intro moves_step [where q = "drop_bit s u"]) (simp_all only: m unat_drop_bit word_le_nat_alt unat_pow2 ff_put_def, simp_all)
    then show ?thesis using True "1.prems" by (subst ff_loop_shift.simps) simp
  next
    case False
    then show ?thesis using "1.prems" by (subst ff_loop_shift.simps) (simp add: moves_done word_le_nat_alt unat_pow2)
  qed
qed

text \<open>The two digits of a number below 100 are looked up in two tables.\<close>

lemma ff_digit_tables: "j < 100 \<Longrightarrow> ff_digits10 ! j = ff_digits ! (j div 10) \<and> ff_digits01 ! j = ff_digits ! (j mod 10)"
proof -
  have "list_all (\<lambda>j. ff_digits10 ! j = ff_digits ! (j div 10) \<and> ff_digits01 ! j = ff_digits ! (j mod 10)) [0..<100]"
    by code_simp
  then show "j < 100 \<Longrightarrow> ?thesis" by (simp add: list_all_iff)
qed

lemma ff_loop10_moves:
  "length (base_digits 10 (unat u)) + length acc \<le> 65 \<Longrightarrow> moves 10 acc u (ff_loop10 acc u) 100"
proof (induction acc u rule: ff_loop10.induct)
  case (1 acc u)
  show ?case
  proof (cases "u \<ge> 100")
    case True
    let ?j = "unat (u - u div 100 * 100)"
    have n: "100 \<le> unat u" using True by (simp add: word_le_nat_alt)
    have q: "unat (u div 100) = unat u div 100" by (simp add: unat_div)
    have j: "?j = unat u mod 100" by (simp add: minus_div_mult_eq_mod unat_mod)
    let ?ds = "[ff_digits10 ! ?j, ff_digits01 ! ?j]"
    have "unat u mod 100 = 10 * (unat u div 10 mod 10) + unat u mod 10"
      using mod_mult2_eq [of "unat u" 10 10] by simp
    then have "unat u mod 100 div 10 = unat u div 10 mod 10" "unat u mod 100 mod 10 = unat u mod 10" by simp_all
    then have ds: "?ds = [ff_digits ! (unat u div 10 mod 10), ff_digits ! (unat u mod 10)]"
      using ff_digit_tables [of ?j] by (simp add: j)
    have "base_digits 10 (unat u) = base_digits 10 (unat u div 10) @ [ff_digits ! (unat u mod 10)]"
      "base_digits 10 (unat u div 10) = base_digits 10 (unat u div 10 div 10) @ [ff_digits ! (unat u div 10 mod 10)]"
      using n by (simp_all add: base_digits_step)
    then have d: "base_digits 10 (unat u) = base_digits 10 (unat (u div 100)) @ ?ds"
      by (simp only: ds q flip: div_mult2_eq) simp
    have put: "ff_put ?ds acc = Some (?ds @ acc)"
      using "1.prems" by (intro ff_put_ok) (simp add: d)
    have "moves 10 (?ds @ acc) (u div 100) (ff_loop10 (?ds @ acc) (u div 100)) 100"
      using "1.IH" [OF True refl refl put] "1.prems" by (simp add: d)
    then have "moves 10 acc u (ff_loop10 (?ds @ acc) (u div 100)) 100" by (simp add: moves_def d)
    then show ?thesis using True put by (subst ff_loop10.simps) (simp add: Let_def)
  next
    case False
    then show ?thesis by (subst ff_loop10.simps) (simp add: moves_done word_le_nat_alt)
  qed
qed

lemma length_ff_digits: "length ff_digits = 36"
  by (simp add: ff_digits_def)

lemma moves_length:
  "moves b acc u r m \<Longrightarrow> \<exists>acc' u'. r = Some (acc', u') \<and> base_digits b (unat u') @ acc' = base_digits b (unat u) @ acc \<and> unat u' < m"
  by (auto simp: moves_def)

text \<open>Writing the last digit and the sign.\<close>

lemma ff_finish:
  assumes "2 \<le> b" and "moves b [] u r b"
  shows "(case r of None \<Rightarrow> None | Some (acc, v) \<Rightarrow>
            (case ff_put [ff_digits ! unat v] acc of None \<Rightarrow> None
             | Some acc' \<Rightarrow> if neg then ff_put ''-'' acc' else Some acc')) =
         Some ((if neg then ''-'' else []) @ base_digits b (unat u))"
proof -
  obtain acc v where r: "r = Some (acc, v)" "base_digits b (unat v) @ acc = base_digits b (unat u)" "unat v < b"
    using assms(2) by (auto simp: moves_def)
  then have d: "ff_digits ! unat v # acc = base_digits b (unat u)" by (simp add: base_digits_small)
  have len: "length (base_digits b (unat u)) \<le> 64" by (rule length_base_digits_uint64 [OF assms(1)])
  then have "length acc < 64" by (simp flip: d)
  then show ?thesis using r(1) d len by (simp add: ff_put_def)
qed

lemma ff_base10_moves:
  "moves 10 [] u (case ff_loop10 [] u of
      None \<Rightarrow> None
    | Some (acc, v) \<Rightarrow>
        if v \<ge> 10
        then let q = v div 10 in map_option (\<lambda>acc'. (acc', q)) (ff_put [ff_digits ! unat (v - q * 10)] acc)
        else Some (acc, v)) 10"
proof -
  have len: "length (base_digits 10 (unat u)) \<le> 64" by (rule length_base_digits_uint64) simp
  then have "moves 10 [] u (ff_loop10 [] u) 100" by (intro ff_loop10_moves) simp
  then obtain acc v where l: "ff_loop10 [] u = Some (acc, v)" "base_digits 10 (unat u) = base_digits 10 (unat v) @ acc" "unat v < 100"
    by (auto simp: moves_def)
  show ?thesis
  proof (cases "v \<ge> 10")
    case True
    then have n: "10 \<le> unat v" by (simp add: word_le_nat_alt)
    have q: "unat (v div 10) = unat v div 10" and j: "unat (v - v div 10 * 10) = unat v mod 10"
      by (simp_all add: unat_div minus_div_mult_eq_mod unat_mod)
    have d: "base_digits 10 (unat v) = base_digits 10 (unat (v div 10)) @ [ff_digits ! (unat v mod 10)]"
      using n by (simp add: base_digits_step q)
    have "length acc \<le> 64" using l(2) len by simp
    then show ?thesis using True l d q by (simp add: Let_def ff_put_ok j moves_def)
  next
    case False
    then have "unat v < 10" by (simp add: word_le_nat_alt)
    with False l show ?thesis by (simp add: moves_def)
  qed
qed

text \<open>The bases that have a shift.\<close>

lemma ff_shifts_pos: "0 < ff_shifts base \<Longrightarrow> unat base = 2 ^ ff_shifts base \<and> ff_shifts base < 64"
  by (auto simp: ff_shifts_def split: if_splits)

lemma FormatBits_base_digits:
  assumes "2 \<le> sint base" and "sint base \<le> 36"
  shows "ffjson_FormatBits u base neg = Some ((if neg then ''-'' else []) @ base_digits (unat base) (unat (if neg then - u else u)))"
proof -
  let ?u = "if neg then - u else u"
  have b: "2 \<le> unat base"
  proof (rule ccontr)
    assume "\<not> 2 \<le> unat base"
    then have "unat base = 0 \<or> unat base = 1" by arith
    then have "base = 0 \<or> base = 1" by (simp add: word_unat_eq_iff)
    then show False using assms(1) by auto
  qed
  have r: "\<not> (sint base < 2 \<or> sint base > int (length ff_digits))" using assms by (simp add: length_ff_digits)
  have len: "length (base_digits (unat base) (unat ?u)) \<le> 64" by (rule length_base_digits_uint64 [OF b])
  have m: "moves (unat base) [] ?u (if base = 10
      then (case ff_loop10 [] ?u of None \<Rightarrow> None | Some (acc, v) \<Rightarrow>
              if v \<ge> 10 then let q = v div 10 in map_option (\<lambda>acc'. (acc', q)) (ff_put [ff_digits ! unat (v - q * 10)] acc)
              else Some (acc, v))
      else if ff_shifts base > 0 then ff_loop_shift (ff_shifts base) [] ?u else ff_loop_base base [] ?u) (unat base)"
  proof (cases "base = 10")
    case True
    then show ?thesis using ff_base10_moves [of ?u] by simp
  next
    case False
    show ?thesis
    proof (cases "ff_shifts base > 0")
      case True
      with ff_shifts_pos [OF True] ff_loop_shift_moves [of "ff_shifts base" ?u "[]"] False len show ?thesis by simp
    next
      case no: False
      have "2 \<le> base" using b by (simp add: word_le_nat_alt)
      with ff_loop_base_moves [of base ?u "[]"] False no len show ?thesis by simp
    qed
  qed
  show ?thesis unfolding ffjson_FormatBits_def if_not_P [OF r] Let_def by (rule ff_finish [OF b m [unfolded Let_def]])
qed


lemma base_digits_10: "base_digits 10 n = nat_digits n"
proof (induction n rule: nat_digits.induct)
  case (1 n)
  have "list_all (\<lambda>d. ff_digits ! d = digit d) [0..<10]" by code_simp
  then have d: "d < 10 \<Longrightarrow> ff_digits ! d = digit d" for d by (simp add: list_all_iff)
  from 1 show ?case
    by (cases "n < 10") (subst nat_digits.simps, simp add: base_digits_small base_digits_step d)+
qed

text \<open>Negating a negative number at 64 bits gives its magnitude, the smallest one included.\<close>

lemma unat_magnitude: "unat (if sint n < 0 then - n else n :: int64) = nat \<bar>sint n\<bar>"
proof -
  have r: "- (2 ^ 63) \<le> sint n" "sint n < 2 ^ 63" using sint_ge [of n] sint_lt [of n] by simp_all
  have u: "uint n = sint n mod 2 ^ 64" by (simp add: uint_sint take_bit_eq_mod)
  have "uint (if sint n < 0 then - n else n) = \<bar>sint n\<bar>"
  proof (cases "sint n < 0")
    case True
    have "uint (- n) = (- sint n) mod 2 ^ 64" by (simp add: uint_word_ariths u mod_minus_eq)
    then show ?thesis using True r by simp
  next
    case False
    then show ?thesis using r by (simp add: u)
  qed
  then show ?thesis by (simp flip: nat_uint_eq)
qed

lemma FormatBits_Itoa: "ffjson_FormatBits n 10 (sint n < 0) = Some (Itoa (sint n))"
  using FormatBits_base_digits [of 10 n "sint n < 0"] unat_magnitude [of n] by (auto simp: base_digits_10 Itoa_def)

section \<open>Properties\<close>

text \<open>C24. In every base from 2 to 36, whichever of its three loops runs, the formatter writes the sign and the digits of the
  number, never leaves its array of 65 bytes, and panics in any other base; in base 10, the way
  the encoder calls it for a signed integer, this is the number \<open>strconv.Itoa\<close> writes, the smallest one included.\<close>

theorem FormatBits_writes_the_number:
  "ffjson_FormatBits u base neg =
     (if sint base \<in> {2..36}
      then Some ((if neg then ''-'' else []) @ base_digits (unat base) (unat (if neg then - u else u))) else None) \<and>
   ffjson_FormatBits n 10 (sint n < 0) = Some (Itoa (sint n))"
proof
  show "ffjson_FormatBits u base neg =
     (if sint base \<in> {2..36}
      then Some ((if neg then ''-'' else []) @ base_digits (unat base) (unat (if neg then - u else u))) else None)"
    using FormatBits_base_digits [of base u neg] by (auto simp: ffjson_FormatBits_def length_ff_digits)
qed (rule FormatBits_Itoa)

end
