(* ===== verification/FFJsonString.thy ===== *)
theory FFJsonString
  imports FFJson
begin

text \<open>
  The rest of the JSON encoder, \<open>src/agora/api/model/app_component_ffjson.go\<close>: \<open>ffjson_WriteJsonString\<close>, which
  writes a string of arbitrary bytes, and the \<open>MarshalJSON\<close> methods of \<open>App\<close> and \<open>AppComponent\<close>.
  The reference is a reader of JSON strings. \<open>json.Marshal\<close>, which the maps fall back to, is an argument.
\<close>

section \<open>UTF-8\<close>

abbreviation ord :: "char \<Rightarrow> nat" where "ord c \<equiv> of_char c"

definition RuneError :: nat where "RuneError = 0xFFFD"

text \<open>What a leading byte announces: the length of the sequence and the range of its second byte.\<close>

definition utf8_first :: "nat \<Rightarrow> (nat \<times> nat \<times> nat) option" where
  "utf8_first b =
     (if b < 0xC2 then None else if b < 0xE0 then Some (2, 0x80, 0xBF)
      else if b = 0xE0 then Some (3, 0xA0, 0xBF) else if b = 0xED then Some (3, 0x80, 0x9F)
      else if b < 0xF0 then Some (3, 0x80, 0xBF) else if b = 0xF0 then Some (4, 0x90, 0xBF)
      else if b < 0xF4 then Some (4, 0x80, 0xBF) else if b = 0xF4 then Some (4, 0x80, 0x8F) else None)"

definition continuation :: "nat \<Rightarrow> bool" where
  "continuation b \<longleftrightarrow> 0x80 \<le> b \<and> b \<le> 0xBF"

text \<open>\<open>utf8.DecodeRuneInString\<close>: a rune and the bytes it takes; a faulty sequence is one byte of \<open>RuneError\<close>.\<close>

definition DecodeRuneInString :: "string \<Rightarrow> nat \<times> nat" where
  "DecodeRuneInString s =
     (case map ord s of
        [] \<Rightarrow> (RuneError, 0)
      | b # bs \<Rightarrow>
          if b < 0x80 then (b, 1)
          else (case (utf8_first b, bs) of
              (Some (n, lo, hi), b1 # bs1) \<Rightarrow>
                if b1 < lo \<or> hi < b1 then (RuneError, 1)
                else if n = 2 then (b mod 32 * 64 + b1 mod 64, 2)
                else (case bs1 of
                    b2 # bs2 \<Rightarrow>
                      if \<not> continuation b2 then (RuneError, 1)
                      else if n = 3 then (b mod 16 * 4096 + b1 mod 64 * 64 + b2 mod 64, 3)
                      else (case bs2 of
                          b3 # _ \<Rightarrow> if \<not> continuation b3 then (RuneError, 1)
                             else (b mod 8 * 262144 + b1 mod 64 * 4096 + b2 mod 64 * 64 + b3 mod 64, 4)
                        | [] \<Rightarrow> (RuneError, 1))
                  | [] \<Rightarrow> (RuneError, 1))
            | _ \<Rightarrow> (RuneError, 1)))"

lemma Decode_size: "s \<noteq> [] \<Longrightarrow> 0 < snd (DecodeRuneInString s) \<and> snd (DecodeRuneInString s) \<le> length s"
  by (auto simp: DecodeRuneInString_def split: list.splits option.splits)

section \<open>Writing a string\<close>

definition hex :: string where "hex = ''0123456789abcdef''"

text \<open>The bytes below \<open>utf8.RuneSelf\<close> that stand for themselves, and what the others become.\<close>

definition plain :: "char \<Rightarrow> bool" where
  "plain b \<longleftrightarrow> 0x20 \<le> ord b \<and> b \<noteq> CHR 0x5C \<and> b \<noteq> CHR 0x22 \<and> b \<noteq> CHR ''<'' \<and> b \<noteq> CHR ''>'' \<and> b \<noteq> CHR ''&''"

definition ff_escape :: "char \<Rightarrow> string" where
  "ff_escape b =
     (if b = CHR 0x5C \<or> b = CHR 0x22 then [CHR 0x5C, b]
      else if b = CHR 0x0A then [CHR 0x5C, CHR ''n'']
      else if b = CHR 0x0D then [CHR 0x5C, CHR ''r'']
      else CHR 0x5C # ''u00'' @ [hex ! (ord b div 16), hex ! (ord b mod 16)])"

text \<open>\<open>if start < i\<close>: write the bytes that were passed over.\<close>

definition ff_flush :: "string \<Rightarrow> string \<Rightarrow> nat \<Rightarrow> nat \<Rightarrow> string" where
  "ff_flush s buf start i = (if start < i then buf @ take (i - start) (drop start s) else buf)"

lemma Decode_advances: "i < length s \<Longrightarrow> (c, n) = DecodeRuneInString (drop i s) \<Longrightarrow> 0 < n \<and> i + n \<le> length s"
  using Decode_size [of "drop i s"] by (cases "DecodeRuneInString (drop i s)") auto

function ff_string_loop :: "string \<Rightarrow> string \<Rightarrow> nat \<Rightarrow> nat \<Rightarrow> string \<times> nat" where
  "ff_string_loop s buf start i =
     (if i < length s
      then if ord (s ! i) < 0x80
        then if plain (s ! i) then ff_string_loop s buf start (i + 1)
          else ff_string_loop s (ff_flush s buf start i @ ff_escape (s ! i)) (i + 1) (i + 1)
        else let (c, size) = DecodeRuneInString (drop i s)
          in if c = RuneError \<and> size = 1
            then ff_string_loop s (ff_flush s buf start i @ CHR 0x5C # ''ufffd'') (i + size) (i + size)
            else if c = 0x2028 \<or> c = 0x2029
            then ff_string_loop s (ff_flush s buf start i @ CHR 0x5C # ''u202'' @ [hex ! (c mod 16)]) (i + size) (i + size)
            else ff_string_loop s buf start (i + size)
      else (buf, start))"
  by pat_completeness auto

termination
proof (relation "measure (\<lambda>(s, _, _, i). length s - i)", goal_cases)
  case (4 s buf start i x c n)
  then show ?case using Decode_advances [of i s c n] by auto
next
  case (5 s buf start i x c n)
  then show ?case using Decode_advances [of i s c n] by auto
next
  case (6 s buf start i x c n)
  then show ?case using Decode_advances [of i s c n] by auto
qed auto

definition ffjson_WriteJsonString :: "string \<Rightarrow> string \<Rightarrow> string" where
  "ffjson_WriteJsonString buf s =
     (let (buf, start) = ff_string_loop s (buf @ [CHR 0x22]) 0 0
      in (if start < length s then buf @ drop start s else buf) @ [CHR 0x22])"

section \<open>The reference\<close>

definition hexval :: "char \<Rightarrow> nat option" where
  "hexval c = (if 48 \<le> ord c \<and> ord c \<le> 57 then Some (ord c - 48)
     else if 97 \<le> ord c \<and> ord c \<le> 102 then Some (ord c - 87)
     else if 65 \<le> ord c \<and> ord c \<le> 70 then Some (ord c - 55) else None)"

text \<open>The bytes of a rune of at most 16 bits.\<close>

definition utf8_encode :: "nat \<Rightarrow> string" where
  "utf8_encode n =
     (if n < 0x80 then [char_of n]
      else if n < 0x800 then [char_of (0xC0 + n div 64), char_of (0x80 + n mod 64)]
      else [char_of (0xE0 + n div 4096), char_of (0x80 + n div 64 mod 64), char_of (0x80 + n mod 64)])"

definition simple_escape :: "char \<Rightarrow> char option" where
  "simple_escape e = map_of [(CHR 0x22, CHR 0x22), (CHR 0x5C, CHR 0x5C), (CHR ''/'', CHR ''/''), (CHR ''b'', CHR 0x08),
     (CHR ''f'', CHR 0x0C), (CHR ''n'', CHR 0x0A), (CHR ''r'', CHR 0x0D), (CHR ''t'', CHR 0x09)] e"

text \<open>The rest of a JSON string up to the quote that ends it, which must end the input.\<close>

function json_chars :: "string \<Rightarrow> string option" where
  "json_chars s =
     (case s of
        [] \<Rightarrow> None
      | c # cs \<Rightarrow>
          if c = CHR 0x22 then (if cs = [] then Some [] else None)
          else if c = CHR 0x5C
          then (case cs of
              [] \<Rightarrow> None
            | e # r \<Rightarrow>
                if e = CHR ''u''
                then (case r of
                    h1 # h2 # h3 # h4 # t \<Rightarrow>
                      (case (hexval h1, hexval h2, hexval h3, hexval h4) of
                         (Some n1, Some n2, Some n3, Some n4) \<Rightarrow>
                            map_option (append (utf8_encode (n1 * 4096 + n2 * 256 + n3 * 16 + n4))) (json_chars t)
                       | _ \<Rightarrow> None)
                  | _ \<Rightarrow> None)
                else (case simple_escape e of None \<Rightarrow> None | Some x \<Rightarrow> map_option (Cons x) (json_chars r)))
          else if ord c < 0x20 then None
          else map_option (Cons c) (json_chars cs))"
  by pat_completeness auto

termination
  by (relation "measure length") auto

definition json_string :: "string \<Rightarrow> string option" where
  "json_string s = (case s of [] \<Rightarrow> None | c # cs \<Rightarrow> if c = CHR 0x22 then json_chars cs else None)"

lemma Decode_shortens: "s \<noteq> [] \<Longrightarrow> (c, n) = DecodeRuneInString s \<Longrightarrow> length s - n < length s"
  using Decode_size [of s] by (cases "DecodeRuneInString s") auto

text \<open>A text with each faulty byte replaced by the replacement character.\<close>

function to_valid :: "string \<Rightarrow> string" where
  "to_valid s =
     (if s = [] then []
      else let (c, n) = DecodeRuneInString s
        in if c = RuneError \<and> n = 1 then utf8_encode RuneError @ to_valid (drop 1 s)
           else take n s @ to_valid (drop n s))"
  by pat_completeness auto

termination
  by (relation "measure length") (auto dest: Decode_shortens)

declare ff_string_loop.simps [simp del] json_chars.simps [simp del] to_valid.simps [simp del]

section \<open>The loop writes the escaped text\<close>

text \<open>The same text without indices.\<close>

function json_text :: "string \<Rightarrow> string" where
  "json_text s =
     (case s of
        [] \<Rightarrow> []
      | b # bs \<Rightarrow>
          if ord b < 0x80 then (if plain b then [b] else ff_escape b) @ json_text bs
          else let (c, n) = DecodeRuneInString s
            in (if c = RuneError \<and> n = 1 then CHR 0x5C # ''ufffd''
                else if c = 0x2028 \<or> c = 0x2029 then CHR 0x5C # ''u202'' @ [hex ! (c mod 16)]
                else take n s) @ json_text (drop n s))"
  by pat_completeness auto

termination
proof (relation "measure length", goal_cases)
  case (3 s b bs x c n)
  then show ?case using Decode_size [of s] by (cases "DecodeRuneInString s") auto
qed auto

declare json_text.simps [simp del]

lemma json_text_Nil [simp]: "json_text [] = []"
  by (subst json_text.simps) simp

lemma ff_flush_eq: "start \<le> i \<Longrightarrow> ff_flush s buf start i = buf @ take (i - start) (drop start s)"
  by (simp add: ff_flush_def)

text \<open>Bytes passed over are written later.\<close>

lemma slice_extend: "start \<le> i \<Longrightarrow> i + n \<le> length s \<Longrightarrow>
    take (i + n - start) (drop start s) = take (i - start) (drop start s) @ take n (drop i s)"
  using take_add [of "i - start" n "drop start s"] by simp

definition loop_result :: "string \<Rightarrow> string \<times> nat \<Rightarrow> string" where
  "loop_result s r = (if snd r < length s then fst r @ drop (snd r) s else fst r)"

lemma ff_string_loop_text:
  "start \<le> i \<Longrightarrow> i \<le> length s \<Longrightarrow>
     loop_result s (ff_string_loop s buf start i) = buf @ take (i - start) (drop start s) @ json_text (drop i s)"
proof (induction s buf start i rule: ff_string_loop.induct)
  case (1 s buf start i)
  show ?case
  proof (cases "i < length s")
    case False
    then show ?thesis using "1.prems" by (subst ff_string_loop.simps) (simp add: loop_result_def)
  next
    case True
    then have d: "drop i s = s ! i # drop (Suc i) s" by (simp add: Cons_nth_drop_Suc)
    obtain c n where D: "DecodeRuneInString (drop i s) = (c, n)" by fastforce
    have n: "0 < n" "i + n \<le> length s" using Decode_advances [OF True D [symmetric]] by simp_all
    note IH = "1.IH" [OF True]
    show ?thesis
    proof (cases "ord (s ! i) < 0x80")
      case low: True
      show ?thesis
      proof (cases "plain (s ! i)")
        case True
        then show ?thesis using IH(1) [OF low] low "1.prems" \<open>i < length s\<close> slice_extend [of start i 1 s] d
          by (subst ff_string_loop.simps, subst json_text.simps) (simp add: take_Suc_conv_app_nth)
      next
        case no: False
        then show ?thesis using IH(2) [OF low] low "1.prems" \<open>i < length s\<close> d
          by (subst ff_string_loop.simps, subst json_text.simps) (simp add: ff_flush_eq)
      qed
    next
      case high: False
      have d2: "drop (i + n) s = drop n (s ! i # drop (Suc i) s)" by (simp add: add.commute flip: d)
      have t: "json_text (drop i s) = (if c = RuneError \<and> n = 1 then CHR 0x5C # ''ufffd''
                else if c = 0x2028 \<or> c = 0x2029 then CHR 0x5C # ''u202'' @ [hex ! (c mod 16)]
                else take n (drop i s)) @ json_text (drop (i + n) s)"
        using high D d2 by (subst json_text.simps) (simp add: d)
      consider "c = RuneError \<and> n = 1" | "\<not> (c = RuneError \<and> n = 1)" "c = 0x2028 \<or> c = 0x2029"
        | "\<not> (c = RuneError \<and> n = 1)" "\<not> (c = 0x2028 \<or> c = 0x2029)" by blast
      then show ?thesis
      proof cases
        case 1
        then show ?thesis using IH(3) [OF high D [symmetric] refl 1] high "1.prems" n True D
          by (subst ff_string_loop.simps) (simp add: ff_flush_eq t)
      next
        case 2
        then have ne: "c \<noteq> RuneError" by (auto simp: RuneError_def)
        show ?thesis using IH(4) [OF high D [symmetric] refl 2] 2(2) high "1.prems" n True D
          by (subst ff_string_loop.simps) (simp only: t, simp add: ne ff_flush_eq)
      next
        case 3
        then show ?thesis using IH(5) [OF high D [symmetric] refl 3] high "1.prems" n True D slice_extend [of start i n s]
          by (subst ff_string_loop.simps) (simp only: t, auto)
      qed
    qed
  qed
qed

lemma WriteJsonString_text: "ffjson_WriteJsonString buf s = buf @ CHR 0x22 # json_text s @ [CHR 0x22]"
  using ff_string_loop_text [of 0 0 s "buf @ [CHR 0x22]"]
  by (cases "ff_string_loop s (buf @ [CHR 0x22]) 0 0") (auto simp: ffjson_WriteJsonString_def loop_result_def)

section \<open>Reading it back\<close>

lemma json_chars_quote: "json_chars [CHR 0x22] = Some []"
  by (subst json_chars.simps) simp

lemma json_chars_byte: "c \<noteq> CHR 0x22 \<Longrightarrow> c \<noteq> CHR 0x5C \<Longrightarrow> 0x20 \<le> ord c \<Longrightarrow>
    json_chars (c # cs) = map_option (Cons c) (json_chars cs)"
  by (subst json_chars.simps) simp

lemma json_chars_bytes: "\<forall>c \<in> set xs. 0x80 \<le> ord c \<Longrightarrow> json_chars (xs @ r) = map_option (append xs) (json_chars r)"
proof (induction xs)
  case Nil
  then show ?case by (simp add: option.map_ident)
next
  case (Cons c xs)
  then have "c \<noteq> CHR 0x22" "c \<noteq> CHR 0x5C" "0x20 \<le> ord c" by auto
  with Cons show ?case by (simp add: json_chars_byte option.map_comp comp_def)
qed

lemma json_chars_u:
  assumes "hexval h1 = Some n1" "hexval h2 = Some n2" "hexval h3 = Some n3" "hexval h4 = Some n4"
  shows "json_chars (CHR 0x5C # CHR ''u'' # h1 # h2 # h3 # h4 # t) =
    map_option (append (utf8_encode (n1 * 4096 + n2 * 256 + n3 * 16 + n4))) (json_chars t)"
  by (subst json_chars.simps) (simp add: assms)

lemma json_chars_simple: "e \<noteq> CHR ''u'' \<Longrightarrow> simple_escape e = Some x \<Longrightarrow>
    json_chars (CHR 0x5C # e # t) = map_option (Cons x) (json_chars t)"
  by (subst json_chars.simps) simp

lemma hexval_hex: "d < 16 \<Longrightarrow> hexval (hex ! d) = Some d"
proof -
  have "list_all (\<lambda>d. hexval (hex ! d) = Some d) [0..<16]" by code_simp
  then show "d < 16 \<Longrightarrow> ?thesis" by (simp add: list_all_iff)
qed

lemma json_chars_escape:
  assumes "ord b < 0x80" and "\<not> plain b"
  shows "json_chars (ff_escape b @ t) = map_option (Cons b) (json_chars t)"
proof -
  have z: "hexval CHR ''0'' = Some 0" by (simp add: hexval_def)
  have u: "utf8_encode (ord b div 16 * 16 + ord b mod 16) = [b]" using assms(1) by (simp add: utf8_encode_def)
  have "json_chars (CHR 0x5C # ''u00'' @ [hex ! (ord b div 16), hex ! (ord b mod 16)] @ t) = map_option (Cons b) (json_chars t)"
    using json_chars_u [OF z z hexval_hex hexval_hex, of "ord b div 16" "ord b mod 16" t] assms(1) u
    by (simp add: append_Cons [abs_def] less_mult_imp_div_less)
  then show ?thesis by (auto simp: ff_escape_def json_chars_simple simple_escape_def)
qed

text \<open>What decoding a sequence of several bytes tells.\<close>

lemma utf8_first_range: "utf8_first b = Some (n, lo, hi) \<Longrightarrow> n \<in> {2, 3, 4} \<and> 0x80 \<le> lo \<and> hi \<le> 0xBF"
  by (auto simp: utf8_first_def split: if_splits)

lemma Decode_multi:
  assumes "DecodeRuneInString (b # bs) = (c, n)" and "\<not> ord b < 0x80" and "\<not> (c = RuneError \<and> n = 1)"
  shows "\<forall>x \<in> set (take n (b # bs)). 0x80 \<le> ord x"
  using assms utf8_first_range
  by (fastforce simp: DecodeRuneInString_def continuation_def take_Cons' split: option.splits list.splits if_splits)

text \<open>The two separators are three bytes, the ones their encoding has.\<close>

lemma separator_digits:
  assumes "x mod 16 * 4096 + y mod 64 * 64 + z mod 64 = (m :: nat)" and m: "m = 0x2028 \<or> m = 0x2029"
  shows "x mod 16 = 2 \<and> y mod 64 = 0 \<and> z mod 64 = m - 0x2000"
proof -
  have "x mod 16 < 16" "y mod 64 < 64" "z mod 64 < 64" by simp_all
  moreover from this have "x mod 16 = 2" using assms by linarith
  moreover from calculation have "y mod 64 = 0" using assms by linarith
  ultimately show ?thesis using assms(1) by simp
qed

lemma mod_offset: "m \<le> x \<Longrightarrow> x < m + n \<Longrightarrow> n dvd m \<Longrightarrow> x = m + x mod n" for x m n :: nat
  by (auto simp: dvd_def dest!: le_Suc_ex)

lemma continuation_value: "0x80 \<le> y \<Longrightarrow> y \<le> 0xBF \<Longrightarrow> y = 0x80 + y mod 64" for y :: nat
  by (intro mod_offset) simp_all

lemma Decode_separator:
  assumes D: "DecodeRuneInString (b # bs) = (c, n)" and hi: "\<not> ord b < 0x80" and c: "c = 0x2028 \<or> c = 0x2029"
  shows "utf8_encode c = take n (b # bs)"
proof -
  have "c \<noteq> RuneError" using c by (auto simp: RuneError_def)
  then obtain k lo up b1 r where f: "utf8_first (ord b) = Some (k, lo, up)" "bs = b1 # r" "lo \<le> ord b1" "ord b1 \<le> up"
    using D hi by (auto simp: DecodeRuneInString_def not_less split: option.splits list.splits if_splits)
  note r = utf8_first_range [OF f(1)]
  have two: "x mod 32 * 64 + y mod 64 < 0x2028" for x y :: nat
    using mod_less_divisor [of 32 x] mod_less_divisor [of 64 y] by linarith
  have "k \<noteq> 2" using D hi f c two [of "ord b" "ord b1"] by (auto simp: DecodeRuneInString_def)
  with r consider "k = 3" | "k = 4" by auto
  then show ?thesis
  proof cases
    case 1
    then obtain b2 r' where b2: "r = b2 # r'" "continuation (ord b2)" "n = 3"
      "ord b mod 16 * 4096 + ord b1 mod 64 * 64 + ord b2 mod 64 = c"
      using D hi f \<open>c \<noteq> RuneError\<close> by (auto simp: DecodeRuneInString_def not_less split: list.splits if_splits)
    note d = separator_digits [OF b2(4) c]
    have "0xE0 \<le> ord b" "ord b < 0xF0" using f(1) 1 by (auto simp: utf8_first_def split: if_splits)
    then have "ord b = 0xE0 + ord b mod 16" by (intro mod_offset) simp_all
    moreover have "ord b1 = 0x80 + ord b1 mod 64" "ord b2 = 0x80 + ord b2 mod 64"
      using f(3,4) r b2(2) by (intro continuation_value; simp add: continuation_def)+
    ultimately have "ord b = 0xE2" "ord b1 = 0x80" "ord b2 = 0x80 + (c - 0x2000)" using d by simp_all
    then have "b = char_of (0xE2 :: nat)" "b1 = char_of (0x80 :: nat)" "b2 = char_of (0x80 + (c - 0x2000))"
      by (metis char_of_char)+
    then show ?thesis using c b2(1,3) f(2) by (auto simp: utf8_encode_def)
  next
    case 2
    have "0x10000 \<le> ord b mod 8 * 262144 + ord b1 mod 64 * 4096"
    proof (cases "ord b = 0xF0")
      case True
      then have "0x90 \<le> ord b1" using f by (simp add: utf8_first_def)
      moreover have "ord b1 = 0x80 + ord b1 mod 64" using f(3,4) r by (intro continuation_value) simp_all
      ultimately show ?thesis by linarith
    next
      case False
      then have "0xF0 < ord b" "ord b \<le> 0xF4" using f(1) 2 by (auto simp: utf8_first_def split: if_splits)
      moreover from this have "ord b = 0xF0 + ord b mod 8" by (intro mod_offset) simp_all
      ultimately show ?thesis by linarith
    qed
    moreover have "\<exists>w. c = ord b mod 8 * 262144 + ord b1 mod 64 * 4096 + w"
      using D hi f \<open>c \<noteq> RuneError\<close> 2 by (auto simp: DecodeRuneInString_def not_less split: list.splits if_splits)
    ultimately show ?thesis using c by auto
  qed
qed

lemma json_chars_text: "json_chars (json_text s @ [CHR 0x22]) = Some (to_valid s)"
proof (induction s rule: json_text.induct)
  case (1 s)
  show ?case
  proof (cases s)
    case Nil
    then show ?thesis by (subst to_valid.simps) (simp add: json_chars_quote)
  next
    case (Cons b bs)
    show ?thesis
    proof (cases "ord b < 0x80")
      case True
      have D: "DecodeRuneInString s = (ord b, 1)" "ord b \<noteq> RuneError"
        using True by (simp_all add: Cons DecodeRuneInString_def RuneError_def)
      have "to_valid s = b # to_valid bs" using D by (subst to_valid.simps) (simp add: Cons)
      moreover have "json_chars (json_text bs @ [CHR 0x22]) = Some (to_valid bs)" by (rule "1.IH"(1) [OF Cons True])
      ultimately show ?thesis using True
        by (subst json_text.simps) (auto simp: Cons json_chars_escape json_chars_byte plain_def)
    next
      case False
      obtain c n where D: "DecodeRuneInString s = (c, n)" by fastforce
      have IH: "json_chars (json_text (drop n s) @ [CHR 0x22]) = Some (to_valid (drop n s))"
        by (rule "1.IH"(2) [OF Cons False D [symmetric] refl])
      have v: "to_valid s = (if c = RuneError \<and> n = 1 then utf8_encode RuneError else take n s) @ to_valid (drop n s)"
        using D by (subst to_valid.simps) (simp add: Cons)
      have t: "json_text s = (if c = RuneError \<and> n = 1 then CHR 0x5C # ''ufffd''
                else if c = 0x2028 \<or> c = 0x2029 then CHR 0x5C # ''u202'' @ [hex ! (c mod 16)]
                else take n s) @ json_text (drop n s)"
        using False D by (subst json_text.simps) (simp add: Cons)
      consider "c = RuneError \<and> n = 1" | "\<not> (c = RuneError \<and> n = 1)" "c = 0x2028 \<or> c = 0x2029"
        | "\<not> (c = RuneError \<and> n = 1)" "\<not> (c = 0x2028 \<or> c = 0x2029)" by blast
      then show ?thesis
      proof cases
        case 1
        then show ?thesis unfolding v t using IH
          by (simp add: json_chars_u [of _ 15 _ 15 _ 15 _ 13] hexval_def RuneError_def)
      next
        case 2
        have "utf8_encode c = take n s" using Decode_separator [OF D [unfolded Cons] False 2(2)] by (simp add: Cons)
        moreover have "hexval (hex ! (c mod 16)) = Some (c mod 16)" by (rule hexval_hex) simp
        ultimately show ?thesis unfolding v t using 2
          by (auto simp: json_chars_u [of _ 2 _ 0 _ 2 _ "c mod 16"] hexval_def [of "CHR ''0''"] hexval_def [of "CHR ''2''"] IH)
      next
        case 3
        have "\<forall>x \<in> set (take n s). 0x80 \<le> ord x"
          using Decode_multi [OF D [unfolded Cons] False 3(1)] by (simp add: Cons)
        moreover have "(c = RuneError \<and> n = 1) = False" using 3(1) by blast
        ultimately show ?thesis unfolding v t using 3(2) by (simp only: if_False, simp add: json_chars_bytes IH)
      qed
    qed
  qed
qed

lemma hex_safe: "d < 16 \<Longrightarrow> 0x20 \<le> ord (hex ! d) \<and> hex ! d \<notin> {CHR ''<'', CHR ''>'', CHR ''&''}"
proof -
  have "list_all (\<lambda>d. 0x20 \<le> ord (hex ! d) \<and> hex ! d \<notin> {CHR ''<'', CHR ''>'', CHR ''&''}) [0..<16]" by code_simp
  then show "d < 16 \<Longrightarrow> ?thesis" by (simp add: list_all_iff)
qed

text \<open>What is written is printable and safe inside HTML.\<close>

lemma json_text_safe: "list_all (\<lambda>c. 0x20 \<le> ord c \<and> c \<notin> {CHR ''<'', CHR ''>'', CHR ''&''}) (json_text s)"
proof (induction s rule: json_text.induct)
  case (1 s)
  show ?case
  proof (cases s)
    case (Cons b bs)
    show ?thesis
    proof (cases "ord b < 0x80")
      case True
      have "list_all (\<lambda>c. 0x20 \<le> ord c \<and> c \<notin> {CHR ''<'', CHR ''>'', CHR ''&''}) (ff_escape b)"
        using True hex_safe [of "ord b div 16"] hex_safe [of "ord b mod 16"] by (auto simp: ff_escape_def)
      then show ?thesis using True "1.IH"(1) [OF Cons True]
        by (subst json_text.simps) (simp add: Cons plain_def)
    next
      case False
      obtain c n where D: "DecodeRuneInString s = (c, n)" by fastforce
      have "\<not> (c = RuneError \<and> n = 1) \<Longrightarrow> list_all (\<lambda>c. 0x20 \<le> ord c \<and> c \<notin> {CHR ''<'', CHR ''>'', CHR ''&''}) (take n s)"
        using Decode_multi [OF D [unfolded Cons] False] by (fastforce simp: list_all_iff Cons)
      then show ?thesis using False D "1.IH"(2) [OF Cons False D [symmetric] refl] hex_safe [of "c mod 16"]
        by (subst json_text.simps) (auto simp: Cons)
    qed
  qed simp
qed

section \<open>The objects\<close>

text \<open>A key and what separates it from the field before; the flag says whether there is none.\<close>

definition ff_key :: "string \<Rightarrow> string \<times> bool \<Rightarrow> string \<times> bool" where
  "ff_key k = (\<lambda>(buf, first). ((if first then buf else buf @ '','') @ CHR 0x22 # k @ [CHR 0x22, CHR '':''], False))"

definition ff_string :: "string \<Rightarrow> string \<times> bool \<Rightarrow> string \<times> bool" where
  "ff_string v = (\<lambda>(buf, first). (ffjson_WriteJsonString buf v, first))"

definition ff_int :: "'w::len word \<Rightarrow> string \<times> bool \<Rightarrow> (string \<times> bool) option" where
  "ff_int v = (\<lambda>(buf, first). map_option (\<lambda>w. (buf @ w, first)) (ffjson_FormatBits (scast v) 10 (sint v < 0)))"

text \<open>
  \<open>MarshalJSONBuf\<close>: the buffer afterwards and the error, None for a panic. \<open>menv\<close>, \<open>mports\<close> and
  \<open>mcomps\<close> are \<open>json.Marshal\<close> on the maps.
\<close>

definition AppComponent_MarshalJSONBuf ::
  "((string \<times> string) list \<Rightarrow> string result) \<Rightarrow> ((string \<times> int64) list \<Rightarrow> string result) \<Rightarrow> AppComponent \<Rightarrow> string \<Rightarrow>
     (string \<times> goerr option) option" where
  "AppComponent_MarshalJSONBuf menv mports mj buf =
     (let st = (buf @ ''{'', True);
          st = (if length (ac_Command mj) \<noteq> 0 then ff_string (ac_Command mj) (ff_key ''command'' st) else st);
          st = ff_string (ac_ComponentType mj) (ff_key ''component_type'' st)
      in do {
        st \<leftarrow> ff_int (ac_Cpus mj) (ff_key ''cpus'' st);
        st \<leftarrow> (if ac_DiskSpace mj \<noteq> 0 then ff_int (ac_DiskSpace mj) (ff_key ''disk_space'' st) else Some st);
        let st = ff_string (ac_DistURL mj) (ff_key ''dist_url'' st);
        let st = ff_key ''env'' st;
        (case menv (ac_Env mj) of
           Inl e \<Rightarrow> Some (fst st, Some e)
         | Inr obj \<Rightarrow> do {
             st \<leftarrow> ff_int (ac_Mem mj) (ff_key ''mem'' (fst st @ obj, snd st));
             let st = ff_string (ac_Name mj) (ff_key ''name'' st);
             let st = ff_key ''ports'' st;
             (case mports (ac_Ports mj) of
                Inl e \<Rightarrow> Some (fst st, Some e)
              | Inr obj \<Rightarrow>
                  (let st = ff_string (ac_Version mj) (ff_key ''version'' (fst st @ obj, snd st))
                   in Some (fst st @ ''}'', None)))
           })
      })"

definition AppComponent_MarshalJSON ::
  "((string \<times> string) list \<Rightarrow> string result) \<Rightarrow> ((string \<times> int64) list \<Rightarrow> string result) \<Rightarrow> AppComponent \<Rightarrow> string result option" where
  "AppComponent_MarshalJSON menv mports mj =
     map_option (\<lambda>(buf, err). case err of Some e \<Rightarrow> Inl e | None \<Rightarrow> Inr buf) (AppComponent_MarshalJSONBuf menv mports mj [])"

definition App_MarshalJSONBuf ::
  "((string \<times> AppComponent) list \<Rightarrow> string result) \<Rightarrow> App \<Rightarrow> string \<Rightarrow> string \<times> goerr option" where
  "App_MarshalJSONBuf mcomps mj buf =
     (let st = ff_key ''components'' (buf @ ''{'', True)
      in (case mcomps (ap_Components mj) of
            Inl e \<Rightarrow> (fst st, Some e)
          | Inr obj \<Rightarrow>
              (let st = ff_string (ap_Name mj) (ff_key ''name'' (fst st @ obj, snd st))
               in (fst st @ ''}'', None))))"

definition App_MarshalJSON :: "((string \<times> AppComponent) list \<Rightarrow> string result) \<Rightarrow> App \<Rightarrow> string result" where
  "App_MarshalJSON mcomps mj =
     (case App_MarshalJSONBuf mcomps mj [] of (buf, Some e) \<Rightarrow> Inl e | (buf, None) \<Rightarrow> Inr buf)"

section \<open>The reference for objects\<close>

fun json_fields :: "(string \<times> string) list \<Rightarrow> string" where
  "json_fields [] = []"
| "json_fields [(k, v)] = CHR 0x22 # k @ [CHR 0x22, CHR '':''] @ v"
| "json_fields ((k, v) # f # fs) = CHR 0x22 # k @ [CHR 0x22, CHR '':''] @ v @ '','' @ json_fields (f # fs)"

definition json_object :: "(string \<times> string) list \<Rightarrow> string" where
  "json_object fs = ''{'' @ json_fields fs @ ''}''"

lemma json_fields_snoc:
  "json_fields (fs @ [(k, v)]) = (if fs = [] then [] else json_fields fs @ '','') @ CHR 0x22 # k @ [CHR 0x22, CHR '':''] @ v"
  by (induction fs rule: json_fields.induct) simp_all

lemma scast_sint: "sint (scast (v :: 'w::len word) :: int64) = sint v" if "LENGTH('w) \<le> 64"
  using that by (simp add: sint_up_scast is_up)

lemma ff_int_Itoa:
  assumes "LENGTH('w::len) \<le> 64"
  shows "ff_int (v :: 'w word) (buf, first) = Some (buf @ Itoa (sint v), first)"
  using FormatBits_Itoa [of "scast v"] scast_sint [of v] assms by (simp add: ff_int_def)

text \<open>The fields written so far.\<close>

definition written :: "(string \<times> string) list \<Rightarrow> string \<times> bool" where
  "written fs = (''{'' @ json_fields fs, fs = [])"

lemma written_key: "ff_key k (written fs) = (''{'' @ json_fields (fs @ [(k, [])]), False)"
  by (simp add: ff_key_def written_def json_fields_snoc)

lemma written_value: "(''{'' @ json_fields (fs @ [(k, [])]) @ v, False) = written (fs @ [(k, v)])"
  by (simp add: written_def json_fields_snoc)

definition quoted :: "string \<Rightarrow> string" where "quoted s = ffjson_WriteJsonString [] s"

lemma written_string: "ff_string v (ff_key k (written fs)) = written (fs @ [(k, quoted v)])"
  by (simp add: written_key ff_string_def WriteJsonString_text quoted_def flip: written_value)

lemma written_int: "LENGTH('w::len) \<le> 64 \<Longrightarrow> ff_int (v :: 'w word) (ff_key k (written fs)) = Some (written (fs @ [(k, Itoa (sint v))]))"
  by (simp add: written_key ff_int_Itoa flip: written_value)

text \<open>The fields of a component, given what the maps became.\<close>

definition component_fields :: "AppComponent \<Rightarrow> string \<Rightarrow> string \<Rightarrow> (string \<times> string) list" where
  "component_fields c env ports =
     (if ac_Command c = [] then [] else [(''command'', quoted (ac_Command c))]) @
     [(''component_type'', quoted (ac_ComponentType c)), (''cpus'', Itoa (sint (ac_Cpus c)))] @
     (if ac_DiskSpace c = 0 then [] else [(''disk_space'', Itoa (sint (ac_DiskSpace c)))]) @
     [(''dist_url'', quoted (ac_DistURL c)), (''env'', env), (''mem'', Itoa (sint (ac_Mem c))),
      (''name'', quoted (ac_Name c)), (''ports'', ports), (''version'', quoted (ac_Version c))]"

lemma component_written:
  "AppComponent_MarshalJSONBuf menv mports c [] =
     (case menv (ac_Env c) of
        Inl e \<Rightarrow> Some (fst (ff_key ''env'' (written (take (length (component_fields c [] []) - 5) (component_fields c [] [])))), Some e)
      | Inr env \<Rightarrow>
         (case mports (ac_Ports c) of
            Inl e \<Rightarrow> Some (fst (ff_key ''ports'' (written (take (length (component_fields c env []) - 2) (component_fields c env [])))), Some e)
          | Inr ports \<Rightarrow> Some (json_object (component_fields c env ports), None)))"
proof -
  have w0: "(''{'', True) = written []" by (simp add: written_def)
  have ww: "(fst (ff_key k (written fs)) @ v, snd (ff_key k (written fs))) = written (fs @ [(k, v)])" for k v fs
    by (simp add: written_key flip: written_value)
  have fin: "fst (written fs) @ ''}'' = json_object fs" for fs by (simp add: written_def json_object_def)
  show ?thesis
    by (simp add: AppComponent_MarshalJSONBuf_def w0 written_string written_int ww fin component_fields_def
        Let_def split: sum.split)
qed

lemma MarshalJSON_fields:
  "AppComponent_MarshalJSON menv mports c =
     Some (case (menv (ac_Env c), mports (ac_Ports c)) of
        (Inr env, Inr ports) \<Rightarrow> Inr (json_object (component_fields c env ports))
      | (Inr env, Inl e) \<Rightarrow> Inl e | (Inl e, _) \<Rightarrow> Inl e)"
  by (simp add: AppComponent_MarshalJSON_def component_written split: sum.split)

lemma component_fields_stale: "component_fields (c\<lparr>ac_Active := active, ac_SLA := sla\<rparr>) = component_fields c"
  by (rule ext, rule ext) (simp add: component_fields_def)

section \<open>Properties\<close>

text \<open>C23. A string written by the encoder is read back by any JSON reader as the same text, each byte that is not valid
  UTF-8 as the replacement character, and what is written has no control character and none of the three characters that
  are unsafe inside HTML.\<close>

theorem WriteJsonString_reads_back:
  "\<exists>json. ffjson_WriteJsonString buf s = buf @ json \<and> json_string json = Some (to_valid s) \<and>
    list_all (\<lambda>c. 0x20 \<le> ord c \<and> c \<notin> {CHR ''<'', CHR ''>'', CHR ''&''}) json"
proof (intro exI conjI)
  show "ffjson_WriteJsonString buf s = buf @ (CHR 0x22 # json_text s @ [CHR 0x22])" by (simp add: WriteJsonString_text)
  show "json_string (CHR 0x22 # json_text s @ [CHR 0x22]) = Some (to_valid s)" by (simp add: json_string_def json_chars_text)
  show "list_all (\<lambda>c. 0x20 \<le> ord c \<and> c \<notin> {CHR ''<'', CHR ''>'', CHR ''&''}) (CHR 0x22 # json_text s @ [CHR 0x22])"
    using json_text_safe by simp
qed

text \<open>The encoder of a component writes one JSON object, its fields in alphabetical order separated by commas, the command
  and the disk space left out when they are empty, numbers as signed decimals; an error of the library for one of the maps is
  returned. Whether the component is active and its SLA are never written, though the model declares JSON names for both.\<close>

theorem component_json_omits_sla:
  "AppComponent_MarshalJSON menv mports c =
     Some (case (menv (ac_Env c), mports (ac_Ports c)) of
        (Inr env, Inr ports) \<Rightarrow> Inr (json_object (component_fields c env ports))
      | (Inr env, Inl e) \<Rightarrow> Inl e | (Inl e, _) \<Rightarrow> Inl e) \<and>
   AppComponent_MarshalJSON menv mports (c\<lparr>ac_Active := active, ac_SLA := sla\<rparr>) = AppComponent_MarshalJSON menv mports c \<and>
   map fst (component_fields c env ports) =
     filter (\<lambda>k. if k = ''command'' then ac_Command c \<noteq> [] else if k = ''disk_space'' then ac_DiskSpace c \<noteq> 0 else True)
       [''command'', ''component_type'', ''cpus'', ''disk_space'', ''dist_url'', ''env'', ''mem'', ''name'', ''ports'', ''version'']"
proof (intro conjI)
  show "map fst (component_fields c env ports) =
     filter (\<lambda>k. if k = ''command'' then ac_Command c \<noteq> [] else if k = ''disk_space'' then ac_DiskSpace c \<noteq> 0 else True)
       [''command'', ''component_type'', ''cpus'', ''disk_space'', ''dist_url'', ''env'', ''mem'', ''name'', ''ports'', ''version'']"
    by (simp add: component_fields_def)
qed (simp_all add: MarshalJSON_fields component_fields_stale split: sum.split)

end
