(* ===== verification/MdbStore.thy ===== *)
theory MdbStore
  imports Store "HOL-Library.Char_ord" "HOL-Library.List_Lexorder"
begin

text \<open>
  The store on LMDB, \<open>src/store/mdb_store.go\<close>. The library \<open>gomdb\<close> is an argument: a record with one field per
  function the store calls, over the state \<open>'w\<close> of the library, with the handles of environments, transactions and cursors
  of any type. What the theorems on contents ask of it is \<open>lmdb_ok\<close>, LMDB's documented behaviour: a transaction works on the content
  that was committed when it began, at most one writes, a commit replaces the content, and a cursor
  visits the entries in the order of their keys. The theorem on leaks only asks that transactions are opened and closed
  by the functions that say so (\<open>txns_ok\<close>), whatever errors the library reports.
\<close>

section \<open>The library\<close>

text \<open>\<open>md_AbortNil\<close> is \<open>Abort\<close> called on a nil transaction, \<open>None\<close> if it panics. \<open>md_Next\<close> is \<open>Cursor.Get\<close> with \<open>NEXT\<close>.\<close>

record ('w, 'e, 't, 'c) gomdb =
  md_NotFound :: goerr
  md_NewEnv :: "'w \<Rightarrow> 'e result \<times> 'w"
  md_SetMapSize :: "'e \<Rightarrow> uint64 \<Rightarrow> 'w \<Rightarrow> goerr option \<times> 'w"
  md_Open :: "'e \<Rightarrow> string \<Rightarrow> 'w \<Rightarrow> goerr option \<times> 'w"
  md_Close :: "'e \<Rightarrow> 'w \<Rightarrow> 'w"
  md_BeginTxn :: "'e \<Rightarrow> bool \<Rightarrow> 'w \<Rightarrow> 't result \<times> 'w"
  md_DBIOpen :: "'t \<Rightarrow> bool \<Rightarrow> 'w \<Rightarrow> nat result \<times> 'w"
  md_Get :: "'t \<Rightarrow> nat \<Rightarrow> string \<Rightarrow> 'w \<Rightarrow> slice result \<times> 'w"
  md_Put :: "'t \<Rightarrow> nat \<Rightarrow> string \<Rightarrow> slice \<Rightarrow> 'w \<Rightarrow> goerr option \<times> 'w"
  md_Del :: "'t \<Rightarrow> nat \<Rightarrow> string \<Rightarrow> 'w \<Rightarrow> goerr option \<times> 'w"
  md_Commit :: "'t \<Rightarrow> 'w \<Rightarrow> goerr option \<times> 'w"
  md_Abort :: "'t \<Rightarrow> 'w \<Rightarrow> 'w"
  md_AbortNil :: "'w \<Rightarrow> 'w option"
  md_CursorOpen :: "'t \<Rightarrow> nat \<Rightarrow> 'w \<Rightarrow> 'c result \<times> 'w"
  md_Next :: "'c \<Rightarrow> 'w \<Rightarrow> (string \<times> slice) result \<times> 'w"
  md_CursorClose :: "'c \<Rightarrow> 'w \<Rightarrow> goerr option \<times> 'w"

section \<open>The store\<close>

record 'e MdbStore =
  ms_env :: 'e
  ms_path :: string
  ms_maxSize :: uint64

definition defaultSize :: uint64 where "defaultSize = 0"

definition NewMdbStoreWithSize ::
  "(string \<Rightarrow> 'w \<Rightarrow> goerr option \<times> 'w) \<Rightarrow> ('w, 'e, 't, 'c) gomdb \<Rightarrow> string \<Rightarrow> uint64 \<Rightarrow> 'w \<Rightarrow> 'e MdbStore result \<times> 'w" where
  "NewMdbStoreWithSize mkdirAll lib path maxSize w =
     (case mkdirAll path w of
        (Some err, w) \<Rightarrow> (Inl err, w)
      | (None, w) \<Rightarrow>
          (case md_NewEnv lib w of
             (Inl err, w) \<Rightarrow> (Inl err, w)
           | (Inr env, w) \<Rightarrow> (Inr \<lparr>ms_env = env, ms_path = path, ms_maxSize = maxSize\<rparr>, w)))"

definition NewMdbStore ::
  "(string \<Rightarrow> 'w \<Rightarrow> goerr option \<times> 'w) \<Rightarrow> ('w, 'e, 't, 'c) gomdb \<Rightarrow> string \<Rightarrow> 'w \<Rightarrow> 'e MdbStore result \<times> 'w" where
  "NewMdbStore mkdirAll lib base w = NewMdbStoreWithSize mkdirAll lib base defaultSize w"

text \<open>\<open>startTxn\<close>: a transaction and the main database, which a writing transaction may create.\<close>

definition startTxn :: "('w, 'e, 't, 'c) gomdb \<Rightarrow> 'e MdbStore \<Rightarrow> bool \<Rightarrow> 'w \<Rightarrow> ('t \<times> nat) result \<times> 'w" where
  "startTxn lib i readonly w =
     (case md_BeginTxn lib (ms_env i) readonly w of
        (Inl err, w) \<Rightarrow> (Inl err, w)
      | (Inr tx, w) \<Rightarrow>
          (case md_DBIOpen lib tx (\<not> readonly) w of
             (Inl err, w) \<Rightarrow> (Inl err, md_Abort lib tx w)
           | (Inr dbi, w) \<Rightarrow> (Inr (tx, dbi), w)))"

definition MdbStore_Get :: "('w, 'e, 't, 'c) gomdb \<Rightarrow> 'e MdbStore \<Rightarrow> string \<Rightarrow> 'w \<Rightarrow> slice result \<times> 'w" where
  "MdbStore_Get lib i key w =
     (case startTxn lib i True w of
        (Inl err, w) \<Rightarrow> (Inl err, w)
      | (Inr (tx, dbi), w) \<Rightarrow>
          (case md_Get lib tx dbi key w of
             (Inl err, w) \<Rightarrow> (Inl (if err = md_NotFound lib then ErrNotFound else err), md_Abort lib tx w)
           | (Inr val, w) \<Rightarrow> (Inr val, md_Abort lib tx w)))"

definition MdbStore_Set :: "('w, 'e, 't, 'c) gomdb \<Rightarrow> 'e MdbStore \<Rightarrow> string \<Rightarrow> slice \<Rightarrow> 'w \<Rightarrow> goerr option \<times> 'w" where
  "MdbStore_Set lib i key v w =
     (case startTxn lib i False w of
        (Inl err, w) \<Rightarrow> (Some err, w)
      | (Inr (tx, dbi), w) \<Rightarrow>
          (case md_Put lib tx dbi key v w of
             (Some err, w) \<Rightarrow> (Some err, md_Abort lib tx w)
           | (None, w) \<Rightarrow> md_Commit lib tx w))"

definition MdbStore_Delete :: "('w, 'e, 't, 'c) gomdb \<Rightarrow> 'e MdbStore \<Rightarrow> string \<Rightarrow> 'w \<Rightarrow> goerr option \<times> 'w" where
  "MdbStore_Delete lib i key w =
     (case startTxn lib i False w of
        (Inl err, w) \<Rightarrow> (Some err, w)
      | (Inr (tx, dbi), w) \<Rightarrow>
          (case md_Del lib tx dbi key w of
             (Some err, w) \<Rightarrow> (Some err, md_Abort lib tx w)
           | (None, w) \<Rightarrow> md_Commit lib tx w))"

definition MdbStore_Contains :: "('w, 'e, 't, 'c) gomdb \<Rightarrow> 'e MdbStore \<Rightarrow> string \<Rightarrow> 'w \<Rightarrow> bool result \<times> 'w" where
  "MdbStore_Contains lib i key w =
     (case startTxn lib i True w of
        (Inl err, w) \<Rightarrow> (Inl err, w)
      | (Inr (tx, dbi), w) \<Rightarrow>
          (case md_Get lib tx dbi key w of
             (Inl err, w) \<Rightarrow> (if err = md_NotFound lib then Inr False else Inl err, md_Abort lib tx w)
           | (Inr val, w) \<Rightarrow> (Inr (0 < slice_len val), md_Abort lib tx w)))"

subsection \<open>Walking over the entries\<close>

text \<open>
  The loops of \<open>ForEach\<close> and \<open>Find\<close> end when the cursor reports \<open>NotFound\<close> or another error; a library that never
  does keeps them running, so they are partial. \<open>seen\<close> is what the callback has been called on.
\<close>

partial_function (option) forEach_loop ::
  "('w, 'e, 't, 'c) gomdb \<Rightarrow> 'c \<Rightarrow> KVData list \<Rightarrow> 'w \<Rightarrow> (KVData list \<times> goerr option \<times> 'w) option" where
  "forEach_loop lib cursor seen w =
     (case md_Next lib cursor w of
        (r, w) \<Rightarrow>
          (case r of
             Inl err \<Rightarrow> Some (seen, if err = md_NotFound lib then None else Some err, w)
           | Inr kv \<Rightarrow> forEach_loop lib cursor (seen @ [\<lparr>kvd_Key = fst kv, kvd_Value = snd kv\<rparr>]) w))"

partial_function (option) find_loop ::
  "('w, 'e, 't, 'c) gomdb \<Rightarrow> (KVData \<Rightarrow> bool) \<Rightarrow> 'c \<Rightarrow> KVData list \<Rightarrow> 'w \<Rightarrow> (KVData list \<times> KVData option result \<times> 'w) option" where
  "find_loop lib p cursor seen w =
     (case md_Next lib cursor w of
        (r, w) \<Rightarrow>
          (case r of
             Inl err \<Rightarrow> Some (seen, if err = md_NotFound lib then Inr None else Inl err, w)
           | Inr kv \<Rightarrow>
               if p \<lparr>kvd_Key = fst kv, kvd_Value = snd kv\<rparr>
               then Some (seen @ [\<lparr>kvd_Key = fst kv, kvd_Value = snd kv\<rparr>], Inr (Some \<lparr>kvd_Key = fst kv, kvd_Value = snd kv\<rparr>), w)
               else find_loop lib p cursor (seen @ [\<lparr>kvd_Key = fst kv, kvd_Value = snd kv\<rparr>]) w))"

text \<open>The deferred calls: the cursor is closed before the transaction is aborted; an error of closing is only logged.\<close>

definition close_all :: "('w, 'e, 't, 'c) gomdb \<Rightarrow> 't \<Rightarrow> 'c \<Rightarrow> 'a \<times> 'b \<times> 'w \<Rightarrow> 'a \<times> 'b \<times> 'w" where
  "close_all lib tx cursor = (\<lambda>(seen, r, w). (seen, r, md_Abort lib tx (snd (md_CursorClose lib cursor w))))"

definition MdbStore_ForEach ::
  "('w, 'e, 't, 'c) gomdb \<Rightarrow> 'e MdbStore \<Rightarrow> 'w \<Rightarrow> (KVData list \<times> goerr option \<times> 'w) option" where
  "MdbStore_ForEach lib i w =
     (case startTxn lib i True w of
        (Inl err, w) \<Rightarrow> Some ([], Some err, w)
      | (Inr (tx, dbi), w) \<Rightarrow>
          (case md_CursorOpen lib tx dbi w of
             (Inl err, w) \<Rightarrow> Some ([], Some err, md_Abort lib tx w)
           | (Inr cursor, w) \<Rightarrow> map_option (close_all lib tx cursor) (forEach_loop lib cursor [] w)))"

definition MdbStore_Find ::
  "('w, 'e, 't, 'c) gomdb \<Rightarrow> 'e MdbStore \<Rightarrow> (KVData \<Rightarrow> bool) \<Rightarrow> 'w \<Rightarrow> (KVData list \<times> KVData option result \<times> 'w) option" where
  "MdbStore_Find lib i p w =
     (case startTxn lib i True w of
        (Inl err, w) \<Rightarrow> Some ([], Inl err, w)
      | (Inr (tx, dbi), w) \<Rightarrow>
          (case md_CursorOpen lib tx dbi w of
             (Inl err, w) \<Rightarrow> Some ([], Inl err, md_Abort lib tx w)
           | (Inr cursor, w) \<Rightarrow> map_option (close_all lib tx cursor) (find_loop lib p cursor [] w)))"

definition MdbStore_ForEachKey ::
  "('w, 'e, 't, 'c) gomdb \<Rightarrow> 'e MdbStore \<Rightarrow> 'w \<Rightarrow> (string list \<times> goerr option \<times> 'w) option" where
  "MdbStore_ForEachKey lib i w = map_option (\<lambda>(kvs, err, w). (map kvd_Key kvs, err, w)) (MdbStore_ForEach lib i w)"

definition MdbStore_ForEachValue ::
  "('w, 'e, 't, 'c) gomdb \<Rightarrow> 'e MdbStore \<Rightarrow> 'w \<Rightarrow> (slice list \<times> goerr option \<times> 'w) option" where
  "MdbStore_ForEachValue lib i w = map_option (\<lambda>(kvs, err, w). (map kvd_Value kvs, err, w)) (MdbStore_ForEach lib i w)"

text \<open>\<open>Size\<close> returns the count beside the error.\<close>

definition MdbStore_Size :: "('w, 'e, 't, 'c) gomdb \<Rightarrow> 'e MdbStore \<Rightarrow> 'w \<Rightarrow> (nat \<times> goerr option \<times> 'w) option" where
  "MdbStore_Size lib i w = map_option (\<lambda>(kvs, err, w). (length kvs, err, w)) (MdbStore_ForEach lib i w)"

definition MdbStore_Keys :: "('w, 'e, 't, 'c) gomdb \<Rightarrow> 'e MdbStore \<Rightarrow> 'w \<Rightarrow> (string list result \<times> 'w) option" where
  "MdbStore_Keys lib i w =
     map_option (\<lambda>(keys, err, w). (case err of Some e \<Rightarrow> Inl e | None \<Rightarrow> Inr keys, w)) (MdbStore_ForEachKey lib i w)"

subsection \<open>Opening and closing\<close>

definition MdbStore_Start :: "('w, 'e, 't, 'c) gomdb \<Rightarrow> 'e MdbStore \<Rightarrow> 'w \<Rightarrow> (goerr option \<times> 'w) option" where
  "MdbStore_Start lib i w =
     (case md_SetMapSize lib (ms_env i) (ms_maxSize i) w of
        (Some err, w) \<Rightarrow> Some (Some err, w)
      | (None, w) \<Rightarrow>
          (case md_Open lib (ms_env i) (ms_path i) w of
             (Some err, w) \<Rightarrow> Some (Some err, w)
           | (None, w) \<Rightarrow>
               (case startTxn lib i False w of
                  (Inl err, w) \<Rightarrow> map_option (Pair (Some err)) (md_AbortNil lib w)
                | (Inr (tx, _), w) \<Rightarrow> Some (md_Commit lib tx w))))"

definition MdbStore_Stop :: "('w, 'e, 't, 'c) gomdb \<Rightarrow> 'e MdbStore \<Rightarrow> 'w \<Rightarrow> goerr option \<times> 'w" where
  "MdbStore_Stop lib i w = (None, md_Close lib (ms_env i) w)"

section \<open>No transaction is left open\<close>

text \<open>What opens and closes a transaction, whatever is reported. \<open>live\<close> are the transactions that are open. Closing an environment may end
  transactions and opens none; aborting no transaction, where it does not panic, ends none.\<close>

definition txns_ok :: "('w, 'e, 't, 'c) gomdb \<Rightarrow> ('w \<Rightarrow> 't set) \<Rightarrow> bool" where
  "txns_ok lib live \<longleftrightarrow>
     (\<forall>w e ro. case md_BeginTxn lib e ro w of (Inl _, w') \<Rightarrow> live w' = live w | (Inr t, w') \<Rightarrow> t \<notin> live w \<and> live w' = insert t (live w)) \<and>
     (\<forall>w t. live (md_Abort lib t w) = live w - {t} \<and> live (snd (md_Commit lib t w)) = live w - {t}) \<and>
     (\<forall>w t d k v. live (snd (md_Get lib t d k w)) = live w \<and> live (snd (md_Put lib t d k v w)) = live w \<and>
        live (snd (md_Del lib t d k w)) = live w \<and> live (snd (md_CursorOpen lib t d w)) = live w) \<and>
     (\<forall>w t c b. live (snd (md_DBIOpen lib t b w)) = live w \<and> live (snd (md_Next lib c w)) = live w \<and>
        live (snd (md_CursorClose lib c w)) = live w) \<and>
     (\<forall>w e n path. live (snd (md_SetMapSize lib e n w)) = live w \<and> live (snd (md_Open lib e path w)) = live w \<and>
        live (md_Close lib e w) \<subseteq> live w) \<and>
     (\<forall>w. pred_option (\<lambda>w'. live w' = live w) (md_AbortNil lib w))"

lemma txns_okD:
  assumes "txns_ok lib live"
  shows "md_BeginTxn lib e ro w = (Inl err, w') \<Longrightarrow> live w' = live w"
    and "md_BeginTxn lib e ro w = (Inr t, w') \<Longrightarrow> t \<notin> live w \<and> live w' = insert t (live w)"
    and "live (md_Abort lib t w) = live w - {t}"
    and "md_Commit lib t w = (r, w') \<Longrightarrow> live w' = live w - {t}"
    and "md_Get lib t d k w = (g, w') \<Longrightarrow> live w' = live w"
    and "md_Put lib t d k v w = (r, w') \<Longrightarrow> live w' = live w"
    and "md_Del lib t d k w = (r, w') \<Longrightarrow> live w' = live w"
    and "md_CursorOpen lib t d w = (c, w') \<Longrightarrow> live w' = live w"
    and "md_DBIOpen lib t b w = (n, w') \<Longrightarrow> live w' = live w"
    and "md_Next lib cu w = (x, w') \<Longrightarrow> live w' = live w"
    and "live (snd (md_CursorClose lib cu w)) = live w"
    and "md_SetMapSize lib e sz w = (r, w') \<Longrightarrow> live w' = live w"
    and "md_Open lib e path w = (r, w') \<Longrightarrow> live w' = live w"
    and "live (md_Close lib e w) \<subseteq> live w"
    and "md_AbortNil lib w = Some w' \<Longrightarrow> live w' = live w"
proof -
  have b: "case md_BeginTxn lib e ro w of (Inl _, w') \<Rightarrow> live w' = live w
        | (Inr t, w') \<Rightarrow> t \<notin> live w \<and> live w' = insert t (live w)"
    and c: "live (md_Abort lib t w) = live w - {t}" "live (snd (md_Commit lib t w)) = live w - {t}"
    and g: "live (snd (md_Get lib t d k w)) = live w" "live (snd (md_Put lib t d k v w)) = live w"
      "live (snd (md_Del lib t d k w)) = live w" "live (snd (md_CursorOpen lib t d w)) = live w"
      "live (snd (md_DBIOpen lib t b w)) = live w" "live (snd (md_Next lib cu w)) = live w"
      "live (snd (md_CursorClose lib cu w)) = live w"
    and o: "live (snd (md_SetMapSize lib e sz w)) = live w" "live (snd (md_Open lib e path w)) = live w" "live (md_Close lib e w) \<subseteq> live w"
      "pred_option (\<lambda>w'. live w' = live w) (md_AbortNil lib w)"
    using assms unfolding txns_ok_def by simp_all
  show "md_SetMapSize lib e sz w = (r, w') \<Longrightarrow> live w' = live w" "md_Open lib e path w = (r, w') \<Longrightarrow> live w' = live w"
    "live (md_Close lib e w) \<subseteq> live w" "md_AbortNil lib w = Some w' \<Longrightarrow> live w' = live w" using o by simp_all
  show "md_BeginTxn lib e ro w = (Inl err, w') \<Longrightarrow> live w' = live w"
    "md_BeginTxn lib e ro w = (Inr t, w') \<Longrightarrow> t \<notin> live w \<and> live w' = insert t (live w)"
    using b by simp_all
  show "live (md_Abort lib t w) = live w - {t}" "live (snd (md_CursorClose lib cu w)) = live w"
    "md_Commit lib t w = (r, w') \<Longrightarrow> live w' = live w - {t}" by (rule c(1), rule g(7), use c(2) in simp)
  show "md_Get lib t d k w = (g, w') \<Longrightarrow> live w' = live w" "md_Put lib t d k v w = (r, w') \<Longrightarrow> live w' = live w"
    "md_Del lib t d k w = (r, w') \<Longrightarrow> live w' = live w" "md_CursorOpen lib t d w = (c, w') \<Longrightarrow> live w' = live w"
    "md_DBIOpen lib t b w = (n, w') \<Longrightarrow> live w' = live w" "md_Next lib cu w = (x, w') \<Longrightarrow> live w' = live w"
    using g by simp_all
qed

text \<open>A transaction that \<open>startTxn\<close> hands out is open and new; if it reports an error, none is.\<close>

lemma startTxn_live:
  assumes "txns_ok lib live" and "startTxn lib i ro w = (r, w')"
  shows "case r of Inl _ \<Rightarrow> live w' = live w | Inr (tx, _) \<Rightarrow> live w' - {tx} = live w"
  using assms(2) txns_okD [OF assms(1)]
  by (auto simp: startTxn_def split: prod.splits sum.splits)

lemma forEach_loop_live:
  assumes ok: "txns_ok lib live" and run: "forEach_loop lib cursor seen w = Some (kvs, r, w')"
  shows "live w' = live w"
proof -
  have "lib = lib \<longrightarrow> live (snd (snd (kvs, r, w'))) = live w"
  proof (rule forEach_loop.raw_induct [where P = "\<lambda>l cursor seen w y. l = lib \<longrightarrow> live (snd (snd y)) = live w", OF _ run], intro impI, goal_cases)
    case (1 rec l cursor seen w y)
    obtain x w1 where n: "md_Next l cursor w = (x, w1)" by fastforce
    then have "live w1 = live w" using txns_okD(10) [OF ok] 1 by auto
    with 1 n show ?case by (auto split: sum.splits)
  qed
  then show ?thesis by simp
qed

lemma find_loop_live:
  assumes ok: "txns_ok lib live" and run: "find_loop lib p cursor seen w = Some (kvs, r, w')"
  shows "live w' = live w"
proof -
  have "lib = lib \<longrightarrow> live (snd (snd (kvs, r, w'))) = live w"
  proof (rule find_loop.raw_induct [where P = "\<lambda>l p cursor seen w y. l = lib \<longrightarrow> live (snd (snd y)) = live w", OF _ run], intro impI, goal_cases)
    case (1 rec l p cursor seen w y)
    obtain x w1 where n: "md_Next l cursor w = (x, w1)" by fastforce
    then have "live w1 = live w" using txns_okD(10) [OF ok] 1 by auto
    with 1 n show ?case by (auto split: sum.splits if_splits)
  qed
  then show ?thesis by simp
qed

lemma Get_live: "txns_ok lib live \<Longrightarrow> MdbStore_Get lib i k w = (r, w') \<Longrightarrow> live w' = live w"
  using startTxn_live [of lib live i True w] txns_okD(3,5) [of lib live]
  by (fastforce simp: MdbStore_Get_def split: prod.splits sum.splits)

lemma Contains_live: "txns_ok lib live \<Longrightarrow> MdbStore_Contains lib i k w = (r, w') \<Longrightarrow> live w' = live w"
  using startTxn_live [of lib live i True w] txns_okD(3,5) [of lib live]
  by (fastforce simp: MdbStore_Contains_def split: prod.splits sum.splits)

lemma Set_live: "txns_ok lib live \<Longrightarrow> MdbStore_Set lib i k v w = (r, w') \<Longrightarrow> live w' = live w"
  using startTxn_live [of lib live i False w] txns_okD(3,4,6) [of lib live]
  by (fastforce simp: MdbStore_Set_def split: prod.splits sum.splits option.splits)

lemma Delete_live: "txns_ok lib live \<Longrightarrow> MdbStore_Delete lib i k w = (r, w') \<Longrightarrow> live w' = live w"
  using startTxn_live [of lib live i False w] txns_okD(3,4,7) [of lib live]
  by (fastforce simp: MdbStore_Delete_def split: prod.splits sum.splits option.splits)

lemma ForEach_live: "txns_ok lib live \<Longrightarrow> MdbStore_ForEach lib i w = Some (kvs, err, w') \<Longrightarrow> live w' = live w"
  using startTxn_live [of lib live i True w] txns_okD(3,8,11) [of lib live] forEach_loop_live [of lib live]
  by (fastforce simp: MdbStore_ForEach_def close_all_def split: prod.splits sum.splits)

lemma Start_live:
  assumes ok: "txns_ok lib live" and run: "MdbStore_Start lib i w = Some (r, w')"
  shows "live w' = live w"
proof -
  obtain e1 w1 where a: "md_SetMapSize lib (ms_env i) (ms_maxSize i) w = (e1, w1)" by fastforce
  obtain e2 w2 where b: "md_Open lib (ms_env i) (ms_path i) w1 = (e2, w2)" by fastforce
  obtain x w3 where c: "startTxn lib i False w2 = (x, w3)" by fastforce
  note live = txns_okD(12) [OF ok a] txns_okD(13) [OF ok b] startTxn_live [OF ok c]
  consider (failed) "w' \<in> {w1, w2}" | (refused) err where "x = Inl err" "md_AbortNil lib w3 = Some w'"
    | (created) tx dbi where "x = Inr (tx, dbi)" "md_Commit lib tx w3 = (r, w')"
    using run by (auto simp: MdbStore_Start_def a b c split: option.splits sum.splits)
  then show ?thesis
  proof cases
    case refused
    then show ?thesis using live txns_okD(15) [OF ok refused(2)] by simp
  next
    case created
    then show ?thesis using live txns_okD(4) [OF ok created(2)] by simp
  qed (use live in auto)
qed

lemma Find_live: "txns_ok lib live \<Longrightarrow> MdbStore_Find lib i p w = Some (kvs, r, w') \<Longrightarrow> live w' = live w"
  using startTxn_live [of lib live i True w] txns_okD(3,8,11) [of lib live] find_loop_live [of lib live]
  by (fastforce simp: MdbStore_Find_def close_all_def split: prod.splits sum.splits)

section \<open>What LMDB documents\<close>

text \<open>
  What a state of the library stands for: the committed content of an open environment, the open transactions with
  the environment they belong to, whether they only read, and the content they see, and the cursors with what they have not
  visited yet.
\<close>

record ('e, 't, 'c) lmdb =
  lm_content :: "'e \<Rightarrow> (string \<rightharpoonup> byte list) option"
  lm_txns :: "'t \<rightharpoonup> 'e \<times> bool \<times> (string \<rightharpoonup> byte list)"
  lm_cursors :: "'c \<rightharpoonup> 't \<times> (string \<times> byte list) list"

definition bytes :: "slice \<Rightarrow> byte list" where
  "bytes v = (case v of None \<Rightarrow> [] | Some b \<Rightarrow> b)"

text \<open>LMDB accepts keys of 1 to 511 bytes.\<close>

definition valid_key :: "string \<Rightarrow> bool" where
  "valid_key k \<longleftrightarrow> 1 \<le> length k \<and> length k \<le> 511"

definition in_key_order :: "(string \<rightharpoonup> byte list) \<Rightarrow> (string \<times> byte list) list \<Rightarrow> bool" where
  "in_key_order m xs \<longleftrightarrow> sorted (map fst xs) \<and> distinct (map fst xs) \<and> map_of xs = m"

definition no_writer :: "('e, 't, 'c) lmdb \<Rightarrow> 'e \<Rightarrow> bool" where
  "no_writer v e \<longleftrightarrow> (\<forall>t m. lm_txns v t \<noteq> Some (e, False, m))"

definition begin_ok :: "('w, 'e, 't, 'c) gomdb \<Rightarrow> ('w \<Rightarrow> ('e, 't, 'c) lmdb) \<Rightarrow> bool" where
  "begin_ok lib view \<longleftrightarrow>
     (\<forall>w e ro m. lm_content (view w) e = Some m \<longrightarrow> ro \<or> no_writer (view w) e \<longrightarrow>
        (\<exists>t w'. md_BeginTxn lib e ro w = (Inr t, w') \<and> lm_txns (view w) t = None \<and>
           view w' = (view w)\<lparr>lm_txns := (lm_txns (view w))(t \<mapsto> (e, ro, m))\<rparr>))"

definition abort_ok :: "('w, 'e, 't, 'c) gomdb \<Rightarrow> ('w \<Rightarrow> ('e, 't, 'c) lmdb) \<Rightarrow> bool" where
  "abort_ok lib view \<longleftrightarrow>
     (\<forall>w t. lm_txns (view w) t \<noteq> None \<longrightarrow> view (md_Abort lib t w) = (view w)\<lparr>lm_txns := (lm_txns (view w))(t := None)\<rparr>)"

definition commit_ok :: "('w, 'e, 't, 'c) gomdb \<Rightarrow> ('w \<Rightarrow> ('e, 't, 'c) lmdb) \<Rightarrow> bool" where
  "commit_ok lib view \<longleftrightarrow>
     (\<forall>w t e m. lm_txns (view w) t = Some (e, False, m) \<longrightarrow>
        (\<exists>w'. md_Commit lib t w = (None, w') \<and>
           view w' = (view w)\<lparr>lm_content := (lm_content (view w))(e \<mapsto> m), lm_txns := (lm_txns (view w))(t := None)\<rparr>))"

text \<open>The main database is \<open>main\<close>.\<close>

definition dbi_ok :: "('w, 'e, 't, 'c) gomdb \<Rightarrow> ('w \<Rightarrow> ('e, 't, 'c) lmdb) \<Rightarrow> nat \<Rightarrow> bool" where
  "dbi_ok lib view main \<longleftrightarrow>
     (\<forall>w t b. lm_txns (view w) t \<noteq> None \<longrightarrow> (\<exists>w'. md_DBIOpen lib t b w = (Inr main, w') \<and> view w' = view w))"

definition get_ok :: "('w, 'e, 't, 'c) gomdb \<Rightarrow> ('w \<Rightarrow> ('e, 't, 'c) lmdb) \<Rightarrow> nat \<Rightarrow> bool" where
  "get_ok lib view main \<longleftrightarrow>
     (\<forall>w t e ro m k. lm_txns (view w) t = Some (e, ro, m) \<longrightarrow> valid_key k \<longrightarrow>
        (\<exists>w'. md_Get lib t main k w = (case m k of None \<Rightarrow> Inl (md_NotFound lib) | Some v \<Rightarrow> Inr (Some v), w') \<and> view w' = view w))"

text \<open>A \<open>Put\<close> that would not fit into the map is refused; \<open>fits\<close> says which contents do.\<close>

definition put_ok ::
  "('w, 'e, 't, 'c) gomdb \<Rightarrow> ('w \<Rightarrow> ('e, 't, 'c) lmdb) \<Rightarrow> nat \<Rightarrow> ((string \<rightharpoonup> byte list) \<Rightarrow> bool) \<Rightarrow> bool" where
  "put_ok lib view main fits \<longleftrightarrow>
     (\<forall>w t e m k v. lm_txns (view w) t = Some (e, False, m) \<longrightarrow> valid_key k \<longrightarrow>
        (\<exists>w' err m'. md_Put lib t main k v w = (if fits (m(k \<mapsto> bytes v)) then None else Some err, w') \<and>
           (fits (m(k \<mapsto> bytes v)) \<longrightarrow> m' = m(k \<mapsto> bytes v)) \<and>
           view w' = (view w)\<lparr>lm_txns := (lm_txns (view w))(t \<mapsto> (e, False, m'))\<rparr>))"

definition del_ok :: "('w, 'e, 't, 'c) gomdb \<Rightarrow> ('w \<Rightarrow> ('e, 't, 'c) lmdb) \<Rightarrow> nat \<Rightarrow> bool" where
  "del_ok lib view main \<longleftrightarrow>
     (\<forall>w t e m k. lm_txns (view w) t = Some (e, False, m) \<longrightarrow> valid_key k \<longrightarrow>
        (\<exists>w'. md_Del lib t main k w = (if m k = None then Some (md_NotFound lib) else None, w') \<and>
           view w' = (view w)\<lparr>lm_txns := (lm_txns (view w))(t \<mapsto> (e, False, m(k := None)))\<rparr>))"

definition cursor_open_ok :: "('w, 'e, 't, 'c) gomdb \<Rightarrow> ('w \<Rightarrow> ('e, 't, 'c) lmdb) \<Rightarrow> nat \<Rightarrow> bool" where
  "cursor_open_ok lib view main \<longleftrightarrow>
     (\<forall>w t e ro m. lm_txns (view w) t = Some (e, ro, m) \<longrightarrow>
        (\<exists>c w' xs. md_CursorOpen lib t main w = (Inr c, w') \<and> lm_cursors (view w) c = None \<and> in_key_order m xs \<and>
           view w' = (view w)\<lparr>lm_cursors := (lm_cursors (view w))(c \<mapsto> (t, xs))\<rparr>))"

definition cursor_next_ok :: "('w, 'e, 't, 'c) gomdb \<Rightarrow> ('w \<Rightarrow> ('e, 't, 'c) lmdb) \<Rightarrow> bool" where
  "cursor_next_ok lib view \<longleftrightarrow>
     (\<forall>w c t xs. lm_cursors (view w) c = Some (t, xs) \<longrightarrow> lm_txns (view w) t \<noteq> None \<longrightarrow>
        (case xs of
           [] \<Rightarrow> \<exists>w'. md_Next lib c w = (Inl (md_NotFound lib), w') \<and> view w' = view w
         | (k, v) # ys \<Rightarrow> \<exists>w'. md_Next lib c w = (Inr (k, Some v), w') \<and>
             view w' = (view w)\<lparr>lm_cursors := (lm_cursors (view w))(c \<mapsto> (t, ys))\<rparr>))"

definition cursor_close_ok :: "('w, 'e, 't, 'c) gomdb \<Rightarrow> ('w \<Rightarrow> ('e, 't, 'c) lmdb) \<Rightarrow> bool" where
  "cursor_close_ok lib view \<longleftrightarrow>
     (\<forall>w c. lm_cursors (view w) c \<noteq> None \<longrightarrow>
        view (snd (md_CursorClose lib c w)) = (view w)\<lparr>lm_cursors := (lm_cursors (view w))(c := None)\<rparr>)"

definition lmdb_ok ::
  "('w, 'e, 't, 'c) gomdb \<Rightarrow> ('w \<Rightarrow> ('e, 't, 'c) lmdb) \<Rightarrow> nat \<Rightarrow> ((string \<rightharpoonup> byte list) \<Rightarrow> bool) \<Rightarrow> bool" where
  "lmdb_ok lib view main fits \<longleftrightarrow> begin_ok lib view \<and> abort_ok lib view \<and> commit_ok lib view \<and> dbi_ok lib view main \<and>
     get_ok lib view main \<and> put_ok lib view main fits \<and> del_ok lib view main \<and>
     cursor_open_ok lib view main \<and> cursor_next_ok lib view \<and> cursor_close_ok lib view"

lemma lmdb_okD:
  assumes "lmdb_ok lib view main fits"
  shows "begin_ok lib view" "abort_ok lib view" "commit_ok lib view" "dbi_ok lib view main" "get_ok lib view main"
    "put_ok lib view main fits" "del_ok lib view main" "cursor_open_ok lib view main" "cursor_next_ok lib view" "cursor_close_ok lib view"
  using assms by (simp_all add: lmdb_ok_def)

section \<open>The store is a finite map\<close>

lemma fresh_upd_del: "lm_txns v t = None \<Longrightarrow> v\<lparr>lm_txns := (lm_txns v)(t := None)\<rparr> = v"
  by (cases v) (auto simp: fun_upd_idem)

lemma fresh_cursor_del: "lm_cursors v c = None \<Longrightarrow> v\<lparr>lm_cursors := (lm_cursors v)(c := None)\<rparr> = v"
  by (cases v) (auto simp: fun_upd_idem)

lemma startTxn_ok:
  assumes ok: "lmdb_ok lib view main fits" and m: "lm_content (view w) (ms_env i) = Some m"
    and free: "ro \<or> no_writer (view w) (ms_env i)"
  obtains t w' where "startTxn lib i ro w = (Inr (t, main), w')" "lm_txns (view w) t = None"
    "view w' = (view w)\<lparr>lm_txns := (lm_txns (view w))(t \<mapsto> (ms_env i, ro, m))\<rparr>"
proof -
  obtain t w1 where b: "md_BeginTxn lib (ms_env i) ro w = (Inr t, w1)" "lm_txns (view w) t = None"
    "view w1 = (view w)\<lparr>lm_txns := (lm_txns (view w))(t \<mapsto> (ms_env i, ro, m))\<rparr>"
    using lmdb_okD(1) [OF ok] m free unfolding begin_ok_def by blast
  then have "lm_txns (view w1) t \<noteq> None" by simp
  then obtain w2 where "md_DBIOpen lib t (\<not> ro) w1 = (Inr main, w2)" "view w2 = view w1"
    using lmdb_okD(4) [OF ok] unfolding dbi_ok_def by blast
  with b show thesis by (intro that [of t w2]) (simp_all add: startTxn_def)
qed

text \<open>Leaving a reading transaction restores the state it was opened in.\<close>

lemma Abort_ok:
  assumes "lmdb_ok lib view main fits" and "lm_txns v t = None" and "view w = v\<lparr>lm_txns := (lm_txns v)(t \<mapsto> x)\<rparr>"
  shows "view (md_Abort lib t w) = v"
proof -
  have "lm_txns (view w) t \<noteq> None" using assms(3) by simp
  then have "view (md_Abort lib t w) = (view w)\<lparr>lm_txns := (lm_txns (view w))(t := None)\<rparr>"
    using lmdb_okD(2) [OF assms(1)] unfolding abort_ok_def by blast
  then show ?thesis using assms(2,3) by (simp add: fresh_upd_del)
qed

lemma Commit_ok:
  assumes "lmdb_ok lib view main fits" and "lm_txns v t = None" and "view w = v\<lparr>lm_txns := (lm_txns v)(t \<mapsto> (e, False, m))\<rparr>"
  shows "\<exists>w'. md_Commit lib t w = (None, w') \<and> view w' = v\<lparr>lm_content := (lm_content v)(e \<mapsto> m)\<rparr>"
proof -
  have "lm_txns (view w) t = Some (e, False, m)" using assms(3) by simp
  then obtain w' where "md_Commit lib t w = (None, w')"
    "view w' = (view w)\<lparr>lm_content := (lm_content (view w))(e \<mapsto> m), lm_txns := (lm_txns (view w))(t := None)\<rparr>"
    using lmdb_okD(3) [OF assms(1)] unfolding commit_ok_def by blast
  then show ?thesis using assms(2,3) by (cases v) (auto simp: fun_upd_idem)
qed

lemma Get_map:
  assumes ok: "lmdb_ok lib view main fits" and m: "lm_content (view w) (ms_env i) = Some m" and k: "valid_key k"
  shows "\<exists>w'. MdbStore_Get lib i k w = (case m k of None \<Rightarrow> Inl ErrNotFound | Some v \<Rightarrow> Inr (Some v), w') \<and> view w' = view w"
    and "\<exists>w'. MdbStore_Contains lib i k w = (Inr (\<exists>v. m k = Some v \<and> v \<noteq> []), w') \<and> view w' = view w"
proof -
  obtain t w1 where s: "startTxn lib i True w = (Inr (t, main), w1)" "lm_txns (view w) t = None"
    "view w1 = (view w)\<lparr>lm_txns := (lm_txns (view w))(t \<mapsto> (ms_env i, True, m))\<rparr>"
    using startTxn_ok [OF ok m] by blast
  then have "lm_txns (view w1) t = Some (ms_env i, True, m)" by simp
  then obtain w2 where g: "md_Get lib t main k w1 = (case m k of None \<Rightarrow> Inl (md_NotFound lib) | Some v \<Rightarrow> Inr (Some v), w2)"
    "view w2 = view w1"
    using lmdb_okD(5) [OF ok] k unfolding get_ok_def by blast
  have "view (md_Abort lib t w2) = view w" using Abort_ok [OF ok s(2)] g(2) s(3) by simp
  then show "\<exists>w'. MdbStore_Get lib i k w = (case m k of None \<Rightarrow> Inl ErrNotFound | Some v \<Rightarrow> Inr (Some v), w') \<and> view w' = view w"
    "\<exists>w'. MdbStore_Contains lib i k w = (Inr (\<exists>v. m k = Some v \<and> v \<noteq> []), w') \<and> view w' = view w"
    using s(1) g(1) by (auto simp: MdbStore_Get_def MdbStore_Contains_def slice_len_def split: option.split)
qed

lemma Set_map:
  assumes ok: "lmdb_ok lib view main fits" and m: "lm_content (view w) (ms_env i) = Some m"
    and free: "no_writer (view w) (ms_env i)" and k: "valid_key k"
  shows "\<exists>err w'. MdbStore_Set lib i k v w = (if fits (m(k \<mapsto> bytes v)) then None else Some err, w') \<and>
    view w' = (if fits (m(k \<mapsto> bytes v)) then (view w)\<lparr>lm_content := (lm_content (view w))(ms_env i \<mapsto> m(k \<mapsto> bytes v))\<rparr> else view w)"
proof -
  obtain t w1 where s: "startTxn lib i False w = (Inr (t, main), w1)" "lm_txns (view w) t = None"
    "view w1 = (view w)\<lparr>lm_txns := (lm_txns (view w))(t \<mapsto> (ms_env i, False, m))\<rparr>"
    using startTxn_ok [OF ok m] free by blast
  then have "lm_txns (view w1) t = Some (ms_env i, False, m)" by simp
  then obtain w2 err m' where p: "md_Put lib t main k v w1 = (if fits (m(k \<mapsto> bytes v)) then None else Some err, w2)"
    "fits (m(k \<mapsto> bytes v)) \<Longrightarrow> m' = m(k \<mapsto> bytes v)"
    "view w2 = (view w1)\<lparr>lm_txns := (lm_txns (view w1))(t \<mapsto> (ms_env i, False, m'))\<rparr>"
    using lmdb_okD(6) [OF ok] k unfolding put_ok_def by meson
  have w2: "view w2 = (view w)\<lparr>lm_txns := (lm_txns (view w))(t \<mapsto> (ms_env i, False, m'))\<rparr>" using p(3) s(3) by simp
  show ?thesis
    using s(1) p(1,2) Abort_ok [OF ok s(2) w2] Commit_ok [OF ok s(2) w2] by (auto simp: MdbStore_Set_def)
qed

lemma Delete_map:
  assumes ok: "lmdb_ok lib view main fits" and m: "lm_content (view w) (ms_env i) = Some m"
    and free: "no_writer (view w) (ms_env i)" and k: "valid_key k"
  shows "\<exists>w'. MdbStore_Delete lib i k w = (if m k = None then Some (md_NotFound lib) else None, w') \<and>
    view w' = (if m k = None then view w else (view w)\<lparr>lm_content := (lm_content (view w))(ms_env i \<mapsto> m(k := None))\<rparr>)"
proof -
  obtain t w1 where s: "startTxn lib i False w = (Inr (t, main), w1)" "lm_txns (view w) t = None"
    "view w1 = (view w)\<lparr>lm_txns := (lm_txns (view w))(t \<mapsto> (ms_env i, False, m))\<rparr>"
    using startTxn_ok [OF ok m] free by blast
  then have "lm_txns (view w1) t = Some (ms_env i, False, m)" by simp
  then obtain w2 where p: "md_Del lib t main k w1 = (if m k = None then Some (md_NotFound lib) else None, w2)"
    "view w2 = (view w1)\<lparr>lm_txns := (lm_txns (view w1))(t \<mapsto> (ms_env i, False, m(k := None)))\<rparr>"
    using lmdb_okD(7) [OF ok] k unfolding del_ok_def by meson
  have w2: "view w2 = (view w)\<lparr>lm_txns := (lm_txns (view w))(t \<mapsto> (ms_env i, False, m(k := None)))\<rparr>" using p(2) s(3) by simp
  show ?thesis
    using s(1) p(1) Abort_ok [OF ok s(2) w2] Commit_ok [OF ok s(2) w2] by (auto simp: MdbStore_Delete_def fun_upd_def)
qed

text \<open>The cursor visits what is left of its entries; afterwards it has none left.\<close>

definition kvdata :: "string \<times> byte list \<Rightarrow> KVData" where
  "kvdata x = \<lparr>kvd_Key = fst x, kvd_Value = Some (snd x)\<rparr>"

lemma Next_end:
  assumes "lmdb_ok lib view main fits" and "lm_cursors (view w) c = Some (t, [])" and "lm_txns (view w) t \<noteq> None"
  shows "\<exists>w'. md_Next lib c w = (Inl (md_NotFound lib), w') \<and> view w' = view w"
  using lmdb_okD(9) [OF assms(1)] assms(2,3) unfolding cursor_next_ok_def by fastforce

lemma Next_entry:
  assumes "lmdb_ok lib view main fits" and "lm_cursors (view w) c = Some (t, x # xs)" and "lm_txns (view w) t \<noteq> None"
  shows "\<exists>w'. md_Next lib c w = (Inr (fst x, Some (snd x)), w') \<and> view w' = (view w)\<lparr>lm_cursors := (lm_cursors (view w))(c \<mapsto> (t, xs))\<rparr>"
  using lmdb_okD(9) [OF assms(1)] assms(2,3) unfolding cursor_next_ok_def by (cases x) fastforce

lemma forEach_loop_map:
  assumes ok: "lmdb_ok lib view main fits"
  shows "lm_cursors (view w) c = Some (t, xs) \<Longrightarrow> lm_txns (view w) t \<noteq> None \<Longrightarrow>
    \<exists>w'. forEach_loop lib c seen w = Some (seen @ map kvdata xs, None, w') \<and>
      view w' = (view w)\<lparr>lm_cursors := (lm_cursors (view w))(c \<mapsto> (t, []))\<rparr>"
proof (induction xs arbitrary: seen w)
  case Nil
  obtain w' where "md_Next lib c w = (Inl (md_NotFound lib), w')" "view w' = view w" using Next_end [OF ok Nil] by blast
  then show ?case using Nil(1) by (subst forEach_loop.simps) (simp add: fun_upd_idem)
next
  case (Cons x xs)
  obtain w1 where n: "md_Next lib c w = (Inr (fst x, Some (snd x)), w1)"
    "view w1 = (view w)\<lparr>lm_cursors := (lm_cursors (view w))(c \<mapsto> (t, xs))\<rparr>"
    using Next_entry [OF ok Cons.prems] by blast
  then have "lm_cursors (view w1) c = Some (t, xs)" "lm_txns (view w1) t \<noteq> None" using Cons.prems(2) by simp_all
  then obtain w' where "forEach_loop lib c (seen @ [kvdata x]) w1 = Some ((seen @ [kvdata x]) @ map kvdata xs, None, w')"
    "view w' = (view w1)\<lparr>lm_cursors := (lm_cursors (view w1))(c \<mapsto> (t, []))\<rparr>"
    using Cons.IH [of w1 "seen @ [kvdata x]"] by blast
  with n show ?case by (subst forEach_loop.simps) (simp add: kvdata_def)
qed

lemma find_loop_map:
  assumes ok: "lmdb_ok lib view main fits"
  shows "lm_cursors (view w) c = Some (t, xs) \<Longrightarrow> lm_txns (view w) t \<noteq> None \<Longrightarrow>
    \<exists>w' ys. find_loop lib p c seen w = Some (seen @ fst (find_trace p (map kvdata xs)), Inr (List.find p (map kvdata xs)), w') \<and>
      view w' = (view w)\<lparr>lm_cursors := (lm_cursors (view w))(c \<mapsto> (t, ys))\<rparr>"
proof (induction xs arbitrary: seen w)
  case Nil
  obtain w' where "md_Next lib c w = (Inl (md_NotFound lib), w')" "view w' = view w" using Next_end [OF ok Nil] by blast
  then show ?case using Nil(1) by (subst find_loop.simps) (auto simp: fun_upd_idem intro: exI [of _ "[]"])
next
  case (Cons x xs)
  obtain w1 where n: "md_Next lib c w = (Inr (fst x, Some (snd x)), w1)"
    "view w1 = (view w)\<lparr>lm_cursors := (lm_cursors (view w))(c \<mapsto> (t, xs))\<rparr>"
    using Next_entry [OF ok Cons.prems] by blast
  then have "lm_cursors (view w1) c = Some (t, xs)" "lm_txns (view w1) t \<noteq> None" using Cons.prems(2) by simp_all
  then obtain w' ys where "find_loop lib p c (seen @ [kvdata x]) w1 =
      Some ((seen @ [kvdata x]) @ fst (find_trace p (map kvdata xs)), Inr (List.find p (map kvdata xs)), w')"
    "view w' = (view w1)\<lparr>lm_cursors := (lm_cursors (view w1))(c \<mapsto> (t, ys))\<rparr>"
    using Cons.IH [of w1 "seen @ [kvdata x]"] by blast
  with n show ?case by (subst find_loop.simps) (auto simp: kvdata_def split: prod.split)
qed

lemma CursorClose_ok:
  assumes "lmdb_ok lib view main fits" and "lm_cursors v c = None" and "view w = v\<lparr>lm_cursors := (lm_cursors v)(c \<mapsto> x)\<rparr>"
  shows "view (snd (md_CursorClose lib c w)) = v"
proof -
  have "lm_cursors (view w) c \<noteq> None" using assms(3) by simp
  then have "view (snd (md_CursorClose lib c w)) = (view w)\<lparr>lm_cursors := (lm_cursors (view w))(c := None)\<rparr>"
    using lmdb_okD(10) [OF assms(1)] unfolding cursor_close_ok_def by blast
  then show ?thesis using assms(2,3) by (simp add: fresh_cursor_del)
qed

text \<open>Opening a cursor in a fresh reading transaction, and what leaving both gives back.\<close>

lemma open_cursor:
  assumes ok: "lmdb_ok lib view main fits" and m: "lm_content (view w) (ms_env i) = Some m"
  obtains t w1 c w2 xs where "startTxn lib i True w = (Inr (t, main), w1)" "md_CursorOpen lib t main w1 = (Inr c, w2)"
    "in_key_order m xs" "lm_cursors (view w2) c = Some (t, xs)" "lm_txns (view w2) t \<noteq> None"
    "\<And>w3 ys. view w3 = (view w2)\<lparr>lm_cursors := (lm_cursors (view w2))(c \<mapsto> (t, ys))\<rparr> \<Longrightarrow>
       view (md_Abort lib t (snd (md_CursorClose lib c w3))) = view w"
proof -
  obtain t w1 where s: "startTxn lib i True w = (Inr (t, main), w1)" "lm_txns (view w) t = None"
    "view w1 = (view w)\<lparr>lm_txns := (lm_txns (view w))(t \<mapsto> (ms_env i, True, m))\<rparr>"
    using startTxn_ok [OF ok m] by blast
  then have "lm_txns (view w1) t = Some (ms_env i, True, m)" by simp
  then obtain c w2 xs where c: "md_CursorOpen lib t main w1 = (Inr c, w2)" "lm_cursors (view w1) c = None" "in_key_order m xs"
    "view w2 = (view w1)\<lparr>lm_cursors := (lm_cursors (view w1))(c \<mapsto> (t, xs))\<rparr>"
    using lmdb_okD(8) [OF ok] unfolding cursor_open_ok_def by blast
  have leave: "view (md_Abort lib t (snd (md_CursorClose lib c w3))) = view w"
    if "view w3 = (view w2)\<lparr>lm_cursors := (lm_cursors (view w2))(c \<mapsto> (t, ys))\<rparr>" for w3 ys
  proof -
    have "view w3 = (view w1)\<lparr>lm_cursors := (lm_cursors (view w1))(c \<mapsto> (t, ys))\<rparr>" using that c(4) by simp
    then have "view (snd (md_CursorClose lib c w3)) = view w1" by (rule CursorClose_ok [OF ok c(2)])
    then show ?thesis using Abort_ok [OF ok s(2)] s(3) by simp
  qed
  show thesis by (rule that [OF s(1) c(1,3) _ _ leave]) (use c(4) s(3) in simp_all)
qed

lemma ForEach_map:
  assumes ok: "lmdb_ok lib view main fits" and m: "lm_content (view w) (ms_env i) = Some m"
  shows "\<exists>xs w'. in_key_order m xs \<and> MdbStore_ForEach lib i w = Some (map kvdata xs, None, w') \<and> view w' = view w"
proof -
  obtain t w1 c w2 xs where o: "startTxn lib i True w = (Inr (t, main), w1)" "md_CursorOpen lib t main w1 = (Inr c, w2)"
    "in_key_order m xs" "lm_cursors (view w2) c = Some (t, xs)" "lm_txns (view w2) t \<noteq> None"
    "\<And>w3 ys. view w3 = (view w2)\<lparr>lm_cursors := (lm_cursors (view w2))(c \<mapsto> (t, ys))\<rparr> \<Longrightarrow>
       view (md_Abort lib t (snd (md_CursorClose lib c w3))) = view w"
    by (rule open_cursor [of lib view main fits w i m, OF ok m], rule that)
  obtain w3 where "forEach_loop lib c [] w2 = Some (map kvdata xs, None, w3)"
    "view w3 = (view w2)\<lparr>lm_cursors := (lm_cursors (view w2))(c \<mapsto> (t, []))\<rparr>"
    using forEach_loop_map [OF ok o(4,5), of "[]"] by auto
  then show ?thesis using o(1,2,3) o(6) [of w3] by (auto simp: MdbStore_ForEach_def close_all_def)
qed

lemma Find_map:
  assumes ok: "lmdb_ok lib view main fits" and m: "lm_content (view w) (ms_env i) = Some m"
  shows "\<exists>xs w'. in_key_order m xs \<and> view w' = view w \<and>
    MdbStore_Find lib i p w = Some (fst (find_trace p (map kvdata xs)), Inr (List.find p (map kvdata xs)), w')"
proof -
  obtain t w1 c w2 xs where o: "startTxn lib i True w = (Inr (t, main), w1)" "md_CursorOpen lib t main w1 = (Inr c, w2)"
    "in_key_order m xs" "lm_cursors (view w2) c = Some (t, xs)" "lm_txns (view w2) t \<noteq> None"
    "\<And>w3 ys. view w3 = (view w2)\<lparr>lm_cursors := (lm_cursors (view w2))(c \<mapsto> (t, ys))\<rparr> \<Longrightarrow>
       view (md_Abort lib t (snd (md_CursorClose lib c w3))) = view w"
    by (rule open_cursor [of lib view main fits w i m, OF ok m], rule that)
  obtain w3 ys where "find_loop lib p c [] w2 = Some (fst (find_trace p (map kvdata xs)), Inr (List.find p (map kvdata xs)), w3)"
    "view w3 = (view w2)\<lparr>lm_cursors := (lm_cursors (view w2))(c \<mapsto> (t, ys))\<rparr>"
    using find_loop_map [OF ok o(4,5), of p "[]"] by auto
  then show ?thesis using o(1,2,3) o(6) [of w3] by (auto simp: MdbStore_Find_def close_all_def)
qed

text \<open>The key order is unique.\<close>

lemma map_of_keys: "distinct (map fst zs) \<Longrightarrow> map (\<lambda>k. (k, the (map_of zs k))) (map fst zs) = zs"
  by (auto intro!: map_idI)

lemma in_key_order_unique:
  assumes "in_key_order m xs" and "in_key_order m ys"
  shows "xs = ys"
proof -
  have "set (map fst xs) = set (map fst ys)"
    using assms by (simp add: in_key_order_def flip: dom_map_of_conv_image_fst)
  then have "map fst xs = map fst ys"
    using assms by (intro sorted_distinct_set_unique) (simp_all add: in_key_order_def)
  then show ?thesis using assms map_of_keys [of xs] map_of_keys [of ys] by (simp add: in_key_order_def)
qed

lemma in_key_order_length: "in_key_order m xs \<Longrightarrow> length xs = card (dom m)"
  unfolding in_key_order_def
  by (metis distinct_card dom_map_of_conv_image_fst length_map list.set_map)

section \<open>A library that keeps the promises\<close>

text \<open>
  An executable library with one environment: its content as an association list, a copy of it per transaction, and
  the cursors. It shows that \<open>lmdb_ok\<close> and \<open>txns_ok\<close> can hold, and witnesses run the store on it.
\<close>

record sim =
  sim_data :: "(string \<times> byte list) list"
  sim_txns :: "(nat \<times> bool \<times> (string \<times> byte list) list) list"
  sim_cursors :: "(nat \<times> nat \<times> (string \<times> byte list) list) list"

definition fresh_id :: "(nat \<times> 'a) list \<Rightarrow> nat" where
  "fresh_id xs = Suc (foldr max (map fst xs) 0)"

definition sim_lib :: "(sim, unit, nat, nat) gomdb" where
  "sim_lib = \<lparr>md_NotFound = Err ''MDB_NOTFOUND'',
     md_NewEnv = (\<lambda>w. (Inr (), w)), md_SetMapSize = (\<lambda>_ _ w. (None, w)), md_Open = (\<lambda>_ _ w. (None, w)), md_Close = (\<lambda>_ w. w),
     md_BeginTxn = (\<lambda>_ ro w. (Inr (fresh_id (sim_txns w)), w\<lparr>sim_txns := (fresh_id (sim_txns w), ro, sim_data w) # sim_txns w\<rparr>)),
     md_DBIOpen = (\<lambda>_ _ w. (Inr 1, w)),
     md_Get = (\<lambda>t _ k w. (case map_of (sim_txns w) t of None \<Rightarrow> Inl (Err ''MDB_BAD_TXN'')
        | Some (_, xs) \<Rightarrow> (case map_of xs k of None \<Rightarrow> Inl (Err ''MDB_NOTFOUND'') | Some v \<Rightarrow> Inr (Some v)), w)),
     md_Put = (\<lambda>t _ k v w. (case map_of (sim_txns w) t of None \<Rightarrow> (Some (Err ''MDB_BAD_TXN''), w)
        | Some (ro, xs) \<Rightarrow> (None, w\<lparr>sim_txns := AList.update t (ro, AList.update k (bytes v) xs) (sim_txns w)\<rparr>))),
     md_Del = (\<lambda>t _ k w. (case map_of (sim_txns w) t of None \<Rightarrow> (Some (Err ''MDB_BAD_TXN''), w)
        | Some (ro, xs) \<Rightarrow> (if map_of xs k = None then Some (Err ''MDB_NOTFOUND'') else None,
            w\<lparr>sim_txns := AList.update t (ro, AList.delete k xs) (sim_txns w)\<rparr>))),
     md_Commit = (\<lambda>t w. (case map_of (sim_txns w) t of None \<Rightarrow> (Some (Err ''MDB_BAD_TXN''), w)
        | Some (_, xs) \<Rightarrow> (None, w\<lparr>sim_data := xs, sim_txns := AList.delete t (sim_txns w)\<rparr>))),
     md_Abort = (\<lambda>t w. w\<lparr>sim_txns := AList.delete t (sim_txns w)\<rparr>), md_AbortNil = (\<lambda>_. None),
     md_CursorOpen = (\<lambda>t _ w. (case map_of (sim_txns w) t of None \<Rightarrow> (Inl (Err ''MDB_BAD_TXN''), w)
        | Some (_, xs) \<Rightarrow> (Inr (fresh_id (sim_cursors w)),
            w\<lparr>sim_cursors := (fresh_id (sim_cursors w), t, sort_key fst (AList.clearjunk xs)) # sim_cursors w\<rparr>))),
     md_Next = (\<lambda>c w. (case map_of (sim_cursors w) c of
          None \<Rightarrow> (Inl (Err ''MDB_NOTFOUND''), w) | Some (_, []) \<Rightarrow> (Inl (Err ''MDB_NOTFOUND''), w)
        | Some (t, (k, v) # xs) \<Rightarrow> (Inr (k, Some v), w\<lparr>sim_cursors := AList.update c (t, xs) (sim_cursors w)\<rparr>))),
     md_CursorClose = (\<lambda>c w. (None, w\<lparr>sim_cursors := AList.delete c (sim_cursors w)\<rparr>))\<rparr>"

definition sim_view :: "sim \<Rightarrow> (unit, nat, nat) lmdb" where
  "sim_view w = \<lparr>lm_content = (\<lambda>_. Some (map_of (sim_data w))),
     lm_txns = (\<lambda>t. map_option (\<lambda>(ro, xs). ((), ro, map_of xs)) (map_of (sim_txns w) t)), lm_cursors = map_of (sim_cursors w)\<rparr>"

definition sim_live :: "sim \<Rightarrow> nat set" where
  "sim_live w = dom (map_of (sim_txns w))"

lemma fresh_id_new: "fresh_id xs \<notin> fst ` set xs"
proof -
  have "(k, v) \<in> set xs \<Longrightarrow> k \<le> foldr max (map fst xs) 0" for k v by (induction xs) auto
  then show ?thesis by (fastforce simp: fresh_id_def)
qed

lemma fresh_id_None: "map_of xs (fresh_id xs) = None"
  using fresh_id_new [of xs] by (simp add: map_of_eq_None_iff)

lemma sorted_entries: "in_key_order (map_of xs) (sort_key fst (AList.clearjunk xs))"
proof -
  have d: "distinct (map fst (AList.clearjunk xs))" by (rule distinct_clearjunk)
  then have "distinct (map fst (sort_key fst (AList.clearjunk xs)))" by (simp add: distinct_map)
  moreover from this d have "map_of (sort_key fst (AList.clearjunk xs)) = map_of (AList.clearjunk xs)"
    by (subst map_of_inject_set) simp_all
  ultimately show ?thesis by (simp add: in_key_order_def map_of_clearjunk)
qed

lemma sim_txns_ok: "txns_ok sim_lib sim_live"
  unfolding txns_ok_def
proof (intro conjI allI, goal_cases)
  case (1 w e ro)
  show ?case by (auto simp: sim_lib_def sim_live_def fresh_id_None)
qed (auto simp: sim_lib_def sim_live_def delete_conv' update_conv' domIff split: option.splits list.splits if_splits)

lemma sim_view_txn: "lm_txns (sim_view w) t = Some (e, ro, m) \<longleftrightarrow> (\<exists>xs. map_of (sim_txns w) t = Some (ro, xs) \<and> m = map_of xs)"
  by (auto simp: sim_view_def)

lemma sim_lmdb_ok: "lmdb_ok sim_lib sim_view 1 (\<lambda>_. True)"
  unfolding lmdb_ok_def
proof (intro conjI, goal_cases)
  case 1
  show ?case by (auto simp: begin_ok_def sim_lib_def sim_view_def fresh_id_None fun_eq_iff)
next
  case 2
  show ?case by (auto simp: abort_ok_def sim_lib_def sim_view_def delete_conv' fun_eq_iff)
next
  case 3
  show ?case by (auto simp: commit_ok_def sim_lib_def sim_view_def delete_conv' fun_eq_iff)
next
  case 4
  show ?case by (auto simp: dbi_ok_def sim_lib_def)
next
  case 5
  show ?case by (auto simp: get_ok_def sim_view_txn) (simp add: sim_lib_def split: option.split)
next
  case 6
  show ?case
    unfolding put_ok_def sim_view_txn
  proof (intro allI impI, elim exE conjE, goal_cases)
    case (1 w t e m k v xs)
    then show ?case
      by (intro exI [of _ "snd (md_Put sim_lib t 1 k v w)"] exI [of _ "Err []"] exI [of _ "m(k \<mapsto> bytes v)"])
         (simp add: sim_lib_def sim_view_def update_conv' fun_eq_iff)
  qed
next
  case 7
  show ?case by (auto simp: del_ok_def sim_lib_def sim_view_def update_conv' delete_conv' fun_eq_iff)
next
  case 8
  show ?case
    unfolding cursor_open_ok_def sim_view_txn
    using sorted_entries fresh_id_None by (fastforce simp: sim_lib_def sim_view_def fun_eq_iff)
next
  case 9
  show ?case by (auto simp: cursor_next_ok_def sim_lib_def sim_view_def update_conv' fun_eq_iff split: list.split)
next
  case 10
  show ?case by (auto simp: cursor_close_ok_def sim_lib_def sim_view_def delete_conv' fun_eq_iff)
qed

section \<open>Properties\<close>

text \<open>C16. Over a library that behaves as LMDB documents, the reading methods answer from the finite map the store stands for:
  Get looks a key up, Contains says whether the key has a value that is not empty (it is false for a key that is there with an empty
  value, although its comment promises true if the key exists), the walks visit every entry exactly once in the order of the keys and
  end, Find stops at the first entry that satisfies the predicate, Size is the number of keys, and none of them changes anything.\<close>

theorem MdbStore_reads_a_map:
  assumes ok: "lmdb_ok lib view main fits" and m: "lm_content (view w) (ms_env i) = Some m" and k: "valid_key k"
  shows "\<exists>xs w1 w2 w3 w4 w5 w6. in_key_order m xs \<and>
    MdbStore_Get lib i k w = (case m k of None \<Rightarrow> Inl ErrNotFound | Some v \<Rightarrow> Inr (Some v), w1) \<and>
    MdbStore_Contains lib i k w = (Inr (\<exists>v. m k = Some v \<and> v \<noteq> []), w2) \<and>
    MdbStore_ForEach lib i w = Some (map kvdata xs, None, w3) \<and>
    MdbStore_Find lib i p w = Some (fst (find_trace p (map kvdata xs)), Inr (List.find p (map kvdata xs)), w4) \<and>
    MdbStore_Size lib i w = Some (card (dom m), None, w5) \<and>
    MdbStore_Keys lib i w = Some (Inr (map fst xs), w6) \<and> view ` {w1, w2, w3, w4, w5, w6} = {view w}"
proof -
  obtain xs w3 where e: "in_key_order m xs" "MdbStore_ForEach lib i w = Some (map kvdata xs, None, w3)" "view w3 = view w"
    using ForEach_map [OF ok m] by blast
  obtain w4 where "MdbStore_Find lib i p w = Some (fst (find_trace p (map kvdata xs)), Inr (List.find p (map kvdata xs)), w4)"
    "view w4 = view w"
    using Find_map [OF ok m, of p] in_key_order_unique [OF e(1)] by blast
  moreover have "map (kvd_Key \<circ> kvdata) xs = map fst xs" by (simp add: kvdata_def)
  then have "MdbStore_Size lib i w = Some (card (dom m), None, w3)" "MdbStore_Keys lib i w = Some (Inr (map fst xs), w3)"
    using e(2) in_key_order_length [OF e(1)] by (simp_all add: MdbStore_Size_def MdbStore_Keys_def MdbStore_ForEachKey_def)
  moreover obtain w1 where "MdbStore_Get lib i k w = (case m k of None \<Rightarrow> Inl ErrNotFound | Some v \<Rightarrow> Inr (Some v), w1)" "view w1 = view w"
    using Get_map(1) [OF ok m k] by blast
  moreover obtain w2 where "MdbStore_Contains lib i k w = (Inr (\<exists>v. m k = Some v \<and> v \<noteq> []), w2)" "view w2 = view w"
    using Get_map(2) [OF ok m k] by blast
  ultimately show ?thesis
    by (intro exI [of _ xs] exI [of _ w1] exI [of _ w2] exI [of _ w3] exI [of _ w4] exI [of _ w3] exI [of _ w3]) (simp add: e)
qed

definition sim_store :: "unit MdbStore" where
  "sim_store = \<lparr>ms_env = (), ms_path = ''/tmp/db'', ms_maxSize = 0\<rparr>"

definition sim_world :: sim where
  "sim_world = \<lparr>sim_data = [(''b'', [2]), (''a'', [])], sim_txns = [], sim_cursors = []\<rparr>"

theorem MdbStore_reads_a_map_witness:
  "\<exists>w' w'' xs. MdbStore_Get sim_lib sim_store ''b'' sim_world = (Inr (Some [2]), w') \<and>
     MdbStore_Keys sim_lib sim_store sim_world = Some (Inr [''a'', ''b''], w'')"
proof -
  have m: "lm_content (sim_view sim_world) (ms_env sim_store) = Some (map_of (sim_data sim_world))" by (simp add: sim_view_def)
  have k: "valid_key ''b''" by (simp add: valid_key_def)
  have "in_key_order (map_of (sim_data sim_world)) [(''a'', []), (''b'', [2])]"
    by (auto simp: in_key_order_def sim_world_def less_eq_char_def fun_eq_iff)
  then have x: "in_key_order (map_of (sim_data sim_world)) xs \<Longrightarrow> map fst xs = [''a'', ''b'']" for xs
    using in_key_order_unique by fastforce
  have "map_of (sim_data sim_world) ''b'' = Some [2]" by (simp add: sim_world_def)
  moreover obtain xs w1 w2 where "in_key_order (map_of (sim_data sim_world)) xs"
    "MdbStore_Get sim_lib sim_store ''b'' sim_world =
       (case map_of (sim_data sim_world) ''b'' of None \<Rightarrow> Inl ErrNotFound | Some v \<Rightarrow> Inr (Some v), w1)"
    "MdbStore_Keys sim_lib sim_store sim_world = Some (Inr (map fst xs), w2)"
    using MdbStore_reads_a_map [OF sim_lmdb_ok m k, of "\<lambda>_. True"] by blast
  ultimately show ?thesis using x by simp
qed

text \<open>C17. Set and Delete change exactly one key: Set stores the value, a nil slice as an empty one, unless LMDB has no room for it, in
  which case its error is returned and nothing changes; Delete removes a key that is there and reports LMDB's error for one that is
  not, which the store in memory accepts.\<close>

theorem MdbStore_writes_a_map:
  assumes ok: "lmdb_ok lib view main fits" and m: "lm_content (view w) (ms_env i) = Some m"
    and free: "no_writer (view w) (ms_env i)" and k: "valid_key k"
  shows "(\<exists>err w'. MdbStore_Set lib i k v w = (if fits (m(k \<mapsto> bytes v)) then None else Some err, w') \<and>
      view w' = (if fits (m(k \<mapsto> bytes v)) then (view w)\<lparr>lm_content := (lm_content (view w))(ms_env i \<mapsto> m(k \<mapsto> bytes v))\<rparr> else view w)) \<and>
    (\<exists>w'. MdbStore_Delete lib i k w = (if m k = None then Some (md_NotFound lib) else None, w') \<and>
      view w' = (if m k = None then view w else (view w)\<lparr>lm_content := (lm_content (view w))(ms_env i \<mapsto> m(k := None))\<rparr>)) \<and>
    (\<exists>s'. kv_Delete (InMemoryStore_kv it) k s = (None, s'))"
  using Set_map [OF ok m free k] Delete_map [OF ok m free k] by (simp add: iface_simps InMemoryStore_Delete_def)

theorem MdbStore_writes_a_map_witness:
  "\<exists>w' w''. MdbStore_Set sim_lib sim_store ''c'' (Some [3]) sim_world = (None, w') \<and>
     lm_content (sim_view w') () = Some (map_of [(''a'', []), (''b'', [2]), (''c'', [3])]) \<and>
     MdbStore_Delete sim_lib sim_store ''c'' sim_world = (Some (Err ''MDB_NOTFOUND''), w'')"
proof -
  have m: "lm_content (sim_view sim_world) (ms_env sim_store) = Some (map_of (sim_data sim_world))" by (simp add: sim_view_def)
  have k: "valid_key ''c''" by (simp add: valid_key_def)
  have free: "no_writer (sim_view sim_world) (ms_env sim_store)" by (simp add: no_writer_def sim_view_def sim_world_def)
  have d: "(map_of (sim_data sim_world))(''c'' \<mapsto> [3]) = map_of [(''a'', []), (''b'', [2]), (''c'', [3])]"
    "map_of (sim_data sim_world) ''c'' = None" "md_NotFound sim_lib = Err ''MDB_NOTFOUND''"
    by (auto simp: sim_world_def sim_lib_def fun_eq_iff)
  obtain w' w'' where "MdbStore_Set sim_lib sim_store ''c'' (Some [3]) sim_world = (None, w')"
    "sim_view w' = (sim_view sim_world)\<lparr>lm_content := (lm_content (sim_view sim_world))
       (ms_env sim_store \<mapsto> (map_of (sim_data sim_world))(''c'' \<mapsto> [3]))\<rparr>"
    "MdbStore_Delete sim_lib sim_store ''c'' sim_world = (Some (Err ''MDB_NOTFOUND''), w'')"
    using MdbStore_writes_a_map [OF sim_lmdb_ok m free k, of "Some [3]" id NewEmptyInMemoryStore] by (auto simp: bytes_def d(2,3))
  then show ?thesis by (simp add: d(1))
qed

text \<open>C19. Whatever errors the library reports, no method of the store leaves a transaction open: after every one that returns, also after
  Start, which opens one to create the database, the open transactions are those that were open before, or fewer once Stop has closed the
  environment.\<close>

theorem MdbStore_leaks_no_transaction:
  assumes "txns_ok lib live"
  shows "live (snd (MdbStore_Get lib i k w)) = live w \<and> live (snd (MdbStore_Contains lib i k w)) = live w \<and>
    live (snd (MdbStore_Set lib i k v w)) = live w \<and> live (snd (MdbStore_Delete lib i k w)) = live w \<and>
    pred_option (\<lambda>(_, _, w'). live w' = live w) (MdbStore_ForEach lib i w) \<and>
    pred_option (\<lambda>(_, _, w'). live w' = live w) (MdbStore_ForEachKey lib i w) \<and>
    pred_option (\<lambda>(_, _, w'). live w' = live w) (MdbStore_ForEachValue lib i w) \<and>
    pred_option (\<lambda>(_, _, w'). live w' = live w) (MdbStore_Find lib i p w) \<and>
    pred_option (\<lambda>(_, _, w'). live w' = live w) (MdbStore_Size lib i w) \<and>
    pred_option (\<lambda>(_, w'). live w' = live w) (MdbStore_Keys lib i w) \<and>
    pred_option (\<lambda>(_, w'). live w' = live w) (MdbStore_Start lib i w) \<and>
    live (snd (MdbStore_Stop lib i w)) \<subseteq> live w"
proof (intro conjI)
  have f: "pred_option (\<lambda>(_, _, w'). live w' = live w) (MdbStore_ForEach lib i w)"
    using ForEach_live [OF assms, of i w] by (cases "MdbStore_ForEach lib i w") auto
  then show "pred_option (\<lambda>(_, _, w'). live w' = live w) (MdbStore_ForEach lib i w)"
    "pred_option (\<lambda>(_, _, w'). live w' = live w) (MdbStore_ForEachKey lib i w)"
    "pred_option (\<lambda>(_, _, w'). live w' = live w) (MdbStore_ForEachValue lib i w)"
    "pred_option (\<lambda>(_, _, w'). live w' = live w) (MdbStore_Size lib i w)"
    "pred_option (\<lambda>(_, w'). live w' = live w) (MdbStore_Keys lib i w)"
    by (simp_all add: MdbStore_Size_def MdbStore_Keys_def MdbStore_ForEachKey_def MdbStore_ForEachValue_def option.pred_map comp_def
        case_prod_unfold)
  show "pred_option (\<lambda>(_, _, w'). live w' = live w) (MdbStore_Find lib i p w)"
    using Find_live [OF assms, of i p w] by (cases "MdbStore_Find lib i p w") auto
  show "pred_option (\<lambda>(_, w'). live w' = live w) (MdbStore_Start lib i w)"
    using Start_live [OF assms, of i w] by (cases "MdbStore_Start lib i w") auto
  show "live (snd (MdbStore_Stop lib i w)) \<subseteq> live w" using txns_okD(14) [OF assms] by (simp add: MdbStore_Stop_def)
qed (rule Get_live [OF assms prod.collapse [symmetric]] Contains_live [OF assms prod.collapse [symmetric]]
    Set_live [OF assms prod.collapse [symmetric]] Delete_live [OF assms prod.collapse [symmetric]])+

theorem MdbStore_leaks_no_transaction_witness:
  "sim_live (snd (MdbStore_Delete sim_lib sim_store ''c'' sim_world)) = {} \<and>
   pred_option (\<lambda>(_, w'). sim_live w' = {}) (MdbStore_Start sim_lib sim_store sim_world)"
proof -
  have "sim_live sim_world = {}" by (simp add: sim_live_def sim_world_def)
  then show ?thesis using MdbStore_leaks_no_transaction [OF sim_txns_ok, of sim_store "''c''" sim_world None "\<lambda>_. True"] by simp
qed

end
