(* ===== verification/LifecycleFacts.thy ===== *)
theory LifecycleFacts
  imports Lifecycle
begin

text \<open>
  Whether the task manager's \<open>Stop\<close> returns: always if no sweep of the SLA monitor finds anything and no check is registered, never
  again once it runs into a sweep that does, and what it leaves running.
\<close>

section \<open>Goroutines that do not matter\<close>

text \<open>With an empty queue these stay among themselves: they only receive from channels that are closed.\<close>

definition quiet :: "goroutine \<Rightarrow> bool" where
  "quiet g \<longleftrightarrow> g \<in> {DiRange, DiDone, DqLoop, DqTick, KlRange, KlDone}"

text \<open>What is shared before anything happened.\<close>

definition idle :: life_shared where "idle = \<lparr>lh_queue = [], lh_slot = None, lh_slots = 0\<rparr>"

lemma quiet_beh:
  assumes "quiet g" and "a \<in> set (beh env g)"
  shows "a = Recv Results (\<lambda>v. case v of Some (Outcome i h) \<Rightarrow> DiPush i h | _ \<Rightarrow> DiDone) \<or>
    a = Recv TasksToKill (\<lambda>v. case v of Some (Kill i) \<Rightarrow> KlKill i | _ \<Rightarrow> KlDone) \<or>
    (\<exists>f. a = Local f \<and> fst (f idle) = idle \<and> quiet (snd (f idle)))"
  using assms by (auto simp: quiet_def beh_simps idle_def)

section \<open>A deadlock\<close>

definition stuck :: "ChangeDeployCount list \<Rightarrow> life \<Rightarrow> bool" where
  "stuck cs s \<longleftrightarrow> (\<exists>qs. procs s = TmWait # LiSlaStop # MoSend cs # PoDone # qs \<and> (\<forall>g \<in> set qs. quiet g)) \<and>
     sh s = idle \<and> buf s = (\<lambda>_. []) \<and> \<not> closed s BoolC \<and> \<not> closed s SlaClosing \<and> \<not> closed s NeedsScaling \<and> \<not> panicked s"

lemma nth_four: "i < length (a # b # c # d # qs) \<Longrightarrow>
    i = 0 \<or> i = 1 \<or> i = 2 \<or> i = 3 \<or> (\<exists>k. i = k + 4 \<and> k < length qs)"
proof (cases "i < 4")
  case False
  moreover assume "i < length (a # b # c # d # qs)"
  ultimately have "i = (i - 4) + 4 \<and> i - 4 < length qs" by auto
  then show ?thesis by blast
qed auto

lemma nth_four_simps:
  "(a # b # c # d # qs) ! 0 = a" "(a # b # c # d # qs) ! 1 = b" "(a # b # c # d # qs) ! 2 = c" "(a # b # c # d # qs) ! 3 = d"
  "(a # b # c # d # qs) ! (k + 4) = qs ! k"
  "(a # b # c # d # qs)[0 := x] = x # b # c # d # qs" "(a # b # c # d # qs)[1 := x] = a # x # c # d # qs"
  "(a # b # c # d # qs)[2 := x] = a # b # x # d # qs" "(a # b # c # d # qs)[3 := x] = a # b # c # x # qs"
  "(a # b # c # d # qs)[k + 4 := x] = a # b # c # d # qs[k := x]"
  by (simp_all add: numeral_eq_Suc)

lemma stuck_step:
  assumes s: "stuck (c # cs) s" and step: "go_step (beh env) (chan_cap env) s s'"
  shows "stuck (c # cs) s'"
proof -
  obtain qs where p: "procs s = TmWait # LiSlaStop # MoSend (c # cs) # PoDone # qs" and q: "\<forall>g \<in> set qs. quiet g"
    using s by (auto simp: stuck_def)
  have acts: "(i < 4 \<and> (a = Recv BoolC (\<lambda>_. TmStores) \<or> a = Send SlaClosing Reply LiSlaWait \<or> a = Send NeedsScaling (Change c) (MoSend cs))) \<or>
      (\<exists>k. i = k + 4 \<and> k < length qs \<and> a \<in> set (beh env (qs ! k)))"
    if "i < length (procs s)" "a \<in> set (beh env (procs s ! i))" for i a
    using nth_four [of i TmWait LiSlaStop "MoSend (c # cs)" PoDone qs] that
    by (auto simp: p nth_four_simps beh_simps)
  have quiet_act: "a = Recv Results (\<lambda>v. case v of Some (Outcome i h) \<Rightarrow> DiPush i h | _ \<Rightarrow> DiDone) \<or>
    a = Recv TasksToKill (\<lambda>v. case v of Some (Kill i) \<Rightarrow> KlKill i | _ \<Rightarrow> KlDone) \<or>
    (\<exists>f. a = Local f \<and> fst (f idle) = idle \<and> quiet (snd (f idle)))" if "k < length qs" "a \<in> set (beh env (qs ! k))" for k a
    using quiet_beh [OF _ that(2)] q that(1) by simp
  have upd: "quiet g \<Longrightarrow> \<forall>x \<in> set (qs[k := g]). quiet x" for g k using q set_update_subset_insert [of qs k g] by blast
  have upd4: "(procs s)[k + 4 := g] = TmWait # LiSlaStop # MoSend (c # cs) # PoDone # qs[k := g]" for k g
    unfolding p by (rule nth_four_simps(10))
  have quiets: "quiet DiDone" "quiet KlDone" by (simp_all add: quiet_def)
  from step show ?thesis
  proof cases
    case (local i f)
    from acts [OF local(3,4)] obtain k where k: "i = k + 4" "k < length qs" "Local f \<in> set (beh env (qs ! k))" by auto
    then have "fst (f idle) = idle" "quiet (snd (f idle))" using quiet_act [OF k(2,3)] by auto
    with s k local(1) upd show ?thesis by (auto simp: stuck_def upd4)
  next
    case (spawn i q' p')
    from acts [OF spawn(3,4)] quiet_act show ?thesis by fastforce
  next
    case (sync i j ch v p' k)
    from acts [OF sync(3) sync(6)] acts [OF sync(4) sync(7)] quiet_act sync(5) show ?thesis by fastforce
  next
    case (put i ch v p')
    from acts [OF put(3,4)] quiet_act put(5) show ?thesis by (fastforce simp: chan_cap_def)
  next
    case (get j ch k v vs)
    with s show ?thesis by (simp add: stuck_def)
  next
    case (get_closed j ch k)
    have "\<not> closed s BoolC" using s by (simp add: stuck_def)
    with acts [OF get_closed(3,4)] get_closed(6) obtain n where n: "j = n + 4" "n < length qs" "Recv ch k \<in> set (beh env (qs ! n))" by auto
    then have "quiet (k None)" using quiet_act [OF n(2,3)] quiets by auto
    with s n get_closed(1) upd show ?thesis by (auto simp: stuck_def upd4)
  next
    case (close i ch p')
    from acts [OF close(3,4)] quiet_act show ?thesis by fastforce
  next
    case (send_panics i ch v p')
    from acts [OF send_panics(3,4)] quiet_act send_panics(5) s show ?thesis by (fastforce simp: stuck_def)
  next
    case (close_panics i ch p')
    from acts [OF close_panics(3,4)] quiet_act show ?thesis by fastforce
  next
    case (panics i)
    from acts [OF panics(3,4)] quiet_act show ?thesis by fastforce
  qed
qed

text \<open>How to get there: the monitor starts to send what a sweep found after the listener has left its \<open>select\<close>.\<close>

lemmas run_simps = idle_def stopping_def system_def offer_def beh_simps chan_cap_def numeral_eq_Suc

lemma stuck_run:
  assumes "le_ticking env" and "n < length (le_sweeps env)" and "le_sweeps env ! n = c # cs"
  shows "\<exists>s. run_moves (beh env) (chan_cap env)
      [One 2 (Suc n), Two 0 0 1 2, Two 1 0 3 2, One 3 0, Two 3 0 1 0, One 3 0, One 1 0, One 1 0] (stopping []) = Some s \<and>
    stuck (c # cs) s"
  using assms by (simp add: run_simps stuck_def quiet_def)

section \<open>What is left running\<close>

lemma stop_run:
  assumes "le_ticking env" and "le_stopErr env = None"
  shows "\<exists>s. run_moves (beh env) (chan_cap env)
      [Two 0 0 1 2, Two 1 0 3 2, One 3 0, Two 3 0 1 0, One 3 0, One 1 0, One 1 0, Two 1 0 2 0, Two 2 0 1 0, Two 1 0 0 0,
       One 0 0, One 0 0, One 0 0, One 0 0] (stopping (i # q)) = Some s \<and>
    hd (procs s) = TmReturned None \<and> \<not> panicked s \<and>
    (\<exists>s'. run_moves (beh env) (chan_cap env) [One 5 0, One 5 0, One 5 0] s = Some s' \<and> panicked s')"
  using assms by (simp add: run_simps)

text \<open>What panics is a send on, or a second close of, a closed channel: goroutines that offer neither cannot bring a panic about.\<close>

definition offers_panic :: "life_act list \<Rightarrow> (chan \<Rightarrow> bool) \<Rightarrow> bool" where
  "offers_panic as cl \<longleftrightarrow> (\<exists>a \<in> set as. case a of Send c _ _ \<Rightarrow> cl c | Close c _ \<Rightarrow> cl c | Panic \<Rightarrow> True | _ \<Rightarrow> False)"

lemma no_offer_no_panic:
  assumes "go_step (beh env) cap s s'" and "\<not> panicked s" and "\<forall>p \<in> set (procs s). \<not> offers_panic (beh env p) (closed s)"
  shows "\<not> panicked s'"
  using assms(1)
proof cases
  case (send_panics i c v p)
  then have "offers_panic (beh env (procs s ! i)) (closed s)" by (force simp: offers_panic_def)
  with send_panics(3) assms(3) show ?thesis by simp
next
  case (close_panics i c p)
  then have "offers_panic (beh env (procs s ! i)) (closed s)" by (force simp: offers_panic_def)
  with close_panics(3) assms(3) show ?thesis by simp
next
  case (panics i)
  then have "offers_panic (beh env (procs s ! i)) (closed s)" by (force simp: offers_panic_def)
  with panics(3) assms(3) show ?thesis by simp
qed (use assms(2) in simp_all)

text \<open>A check in flight: its worker sends the result on the channel the pool closes when it stops.\<close>

lemma in_flight_run:
  assumes "0 < le_pool env" and "n < length (le_verdicts env i)" "le_verdicts env i ! n = v"
  shows "\<exists>s. run_moves (beh env) (chan_cap env)
      [One 5 0, One 5 0, One 5 0, One 3 0, One 3 0, One 3 0, Two 0 0 1 2, Two 1 0 3 2, One 3 0, One 7 n]
      (stopping (i # q)) = Some s \<and> \<not> panicked s \<and> closed s = (\<lambda>_. False)(Updates := True) \<and>
    procs s = [TmWait, LiPoolWait, MoSelect, PoReply, DiRange, DqLoop, KlRange, WkSend i v]"
proof -
  have "le_pool env = Suc 0 \<or> (\<exists>m. le_pool env = Suc (Suc m))" using assms(1) by presburger
  then show ?thesis
    by (elim disjE exE) (simp_all add: run_simps assms(2,3))
qed

section \<open>A quiet stop\<close>

text \<open>Where the four goroutines of a stop can be together, when no sweep finds anything.\<close>

inductive ctl :: "goroutine \<Rightarrow> goroutine \<Rightarrow> goroutine \<Rightarrow> goroutine \<Rightarrow> bool" where
  "mo \<in> {MoSelect, MoSend []} \<Longrightarrow> ctl TmStop LiSelect mo (PoSelect None [])"
| "mo \<in> {MoSelect, MoSend []} \<Longrightarrow> ctl TmWait LiPoolStop mo (PoSelect None [])"
| "mo \<in> {MoSelect, MoSend []} \<Longrightarrow> po \<in> {PoCloseUpdates, PoReply} \<Longrightarrow> ctl TmWait LiPoolWait mo po"
| "mo \<in> {MoSelect, MoSend []} \<Longrightarrow> po \<in> {PoCloseWork, PoDone} \<Longrightarrow> li \<in> {LiCloseFailures, LiCloseResults, LiSlaStop} \<Longrightarrow>
     ctl TmWait li mo po"
| "po \<in> {PoCloseWork, PoDone} \<Longrightarrow> ctl TmWait LiSlaWait MoReply po"
| "po \<in> {PoCloseWork, PoDone} \<Longrightarrow> ctl TmWait LiReply MoDone po"
| "po \<in> {PoCloseWork, PoDone} \<Longrightarrow> tm \<in> {TmStores, TmCloseKill, TmCloseClosing, TmCloseBool, TmReturned None} \<Longrightarrow>
     ctl tm LiDone MoDone po"

inductive_cases ctl_cases: "ctl tm li mo po"

text \<open>Which channels are closed at that point.\<close>

definition closed_at :: "goroutine \<Rightarrow> goroutine \<Rightarrow> goroutine \<Rightarrow> chan \<Rightarrow> bool" where
  "closed_at tm li po c =
     (case c of
        Updates \<Rightarrow> po \<in> {PoReply, PoCloseWork, PoDone}
      | Work \<Rightarrow> po = PoDone
      | Failures \<Rightarrow> li \<in> {LiCloseResults, LiSlaStop, LiSlaWait, LiReply, LiDone}
      | Results \<Rightarrow> li \<in> {LiSlaStop, LiSlaWait, LiReply, LiDone}
      | TasksToKill \<Rightarrow> tm \<in> {TmCloseClosing, TmCloseBool, TmReturned None}
      | Closing \<Rightarrow> tm \<in> {TmCloseBool, TmReturned None}
      | BoolC \<Rightarrow> tm = TmReturned None
      | _ \<Rightarrow> False)"

definition quiet_stop :: "life \<Rightarrow> bool" where
  "quiet_stop s \<longleftrightarrow> (\<exists>tm li mo po qs. procs s = tm # li # mo # po # qs \<and> ctl tm li mo po \<and> closed s = closed_at tm li po \<and>
     (\<forall>g \<in> set qs. quiet g)) \<and> sh s = idle \<and> buf s = (\<lambda>_. []) \<and> \<not> panicked s"

lemma closed_at_close:
  "(closed_at tm li po)(c := True) = closed_at tm' li' po' \<longleftrightarrow> (\<forall>d. closed_at tm' li' po' d = (d = c \<or> closed_at tm li po d))"
  by (auto simp: fun_eq_iff)

lemma all_chan: "(\<forall>d. P d) \<longleftrightarrow> P Closing \<and> P BoolC \<and> P TasksToKill \<and> P Failures \<and> P NeedsScaling \<and> P SlaClosing \<and> P SlaBool \<and>
    P PoolClosing \<and> P PoolErr \<and> P Work \<and> P Updates \<and> P Results \<and> (\<forall>n. P (Slot n))"
proof (intro iffI allI)
  fix d
  assume "P Closing \<and> P BoolC \<and> P TasksToKill \<and> P Failures \<and> P NeedsScaling \<and> P SlaClosing \<and> P SlaBool \<and>
    P PoolClosing \<and> P PoolErr \<and> P Work \<and> P Updates \<and> P Results \<and> (\<forall>n. P (Slot n))"
  then show "P d" by (cases d) simp_all
qed blast

text \<open>Who does what there.\<close>

definition quiet_env :: "life_env \<Rightarrow> bool" where
  "quiet_env env \<longleftrightarrow> le_ticking env \<and> le_stopErr env = None \<and> set (le_sweeps env) \<subseteq> {[]}"

lemma quiet_envD:
  assumes "quiet_env env"
  shows "le_ticking env" and "le_stopErr env = None" and "\<And>x. x \<in> set (le_sweeps env) \<Longrightarrow> x = []"
  using assms unfolding quiet_env_def by blast+

definition tm_place :: "goroutine \<Rightarrow> bool" where
  "tm_place g \<longleftrightarrow> g \<in> {TmStop, TmWait, TmStores, TmCloseKill, TmCloseClosing, TmCloseBool, TmReturned None}"

definition li_place :: "goroutine \<Rightarrow> bool" where
  "li_place g \<longleftrightarrow> g \<in> {LiSelect, LiPoolStop, LiPoolWait, LiCloseFailures, LiCloseResults, LiSlaStop, LiSlaWait, LiReply, LiDone}"

definition mo_place :: "goroutine \<Rightarrow> bool" where
  "mo_place g \<longleftrightarrow> g \<in> {MoSelect, MoSend [], MoReply, MoDone}"

definition po_place :: "goroutine \<Rightarrow> bool" where
  "po_place g \<longleftrightarrow> g \<in> {PoSelect None [], PoCloseUpdates, PoReply, PoCloseWork, PoDone}"

lemma ctl_places: "ctl tm li mo po \<Longrightarrow> tm_place tm \<and> li_place li \<and> mo_place mo \<and> po_place po"
  by (cases rule: ctl.cases) (auto simp: tm_place_def li_place_def mo_place_def po_place_def)

lemma tm_acts:
  assumes "tm_place g" and "a \<in> set (beh env g)" and "quiet_env env"
  shows "g = TmStop \<and> a = Send Closing Reply TmWait \<or> g = TmWait \<and> a = Recv BoolC (\<lambda>_. TmStores) \<or>
    g = TmStores \<and> a = Tau TmCloseKill \<or> g = TmCloseKill \<and> a = Close TasksToKill TmCloseClosing \<or>
    g = TmCloseClosing \<and> a = Close Closing TmCloseBool \<or> g = TmCloseBool \<and> a = Close BoolC (TmReturned None)"
  using assms(1) unfolding tm_place_def insert_iff empty_iff
  by (elim disjE; use assms(2) quiet_envD(2) [OF assms(3)] in \<open>simp add: beh_simps\<close>)

lemma li_acts:
  assumes "li_place g" and "a \<in> set (beh env g)" and "quiet_env env"
  shows "g = LiSelect \<and> ((\<exists>k. a = Recv Failures k \<or> a = Recv NeedsScaling k) \<or> a = Recv Closing (\<lambda>_. LiPoolStop)) \<or>
    g = LiPoolStop \<and> a = Send PoolClosing Reply LiPoolWait \<or> g = LiPoolWait \<and> a = Recv PoolErr (\<lambda>_. LiCloseFailures) \<or>
    g = LiCloseFailures \<and> a = Close Failures LiCloseResults \<or> g = LiCloseResults \<and> a = Close Results LiSlaStop \<or>
    g = LiSlaStop \<and> a = Send SlaClosing Reply LiSlaWait \<or> g = LiSlaWait \<and> a = Recv SlaBool (\<lambda>_. LiReply) \<or>
    g = LiReply \<and> a = Send BoolC Reply LiDone"
  using assms(1) unfolding li_place_def insert_iff empty_iff
  by (elim disjE; use assms(2) quiet_envD(1) [OF assms(3)] in \<open>simp add: beh_simps\<close>; (elim disjE; simp)?)

lemma mo_acts:
  assumes "mo_place g" and "a \<in> set (beh env g)" and "quiet_env env"
  shows "g = MoSelect \<and> (a = Recv SlaClosing (\<lambda>_. MoReply) \<or> a = Tau (MoSend [])) \<or> g = MoSend [] \<and> a = Tau MoSelect \<or>
    g = MoReply \<and> a = Send SlaBool Reply MoDone"
  using assms(1) unfolding mo_place_def insert_iff empty_iff
  by (elim disjE; use assms(2) quiet_envD(3) [OF assms(3)] in \<open>auto simp: beh_simps\<close>)

lemma po_acts:
  assumes "po_place g" and "a \<in> set (beh env g)"
  shows "g = PoSelect None [] \<and> ((\<exists>k. a = Recv Work k \<or> a = Recv Updates k) \<or> a = Recv PoolClosing (\<lambda>_. PoCloseUpdates)) \<or>
    g = PoCloseUpdates \<and> a = Close Updates PoReply \<or> g = PoReply \<and> a = Send PoolErr Reply PoCloseWork \<or>
    g = PoCloseWork \<and> a = Close Work PoDone"
  using assms by (auto simp: po_place_def beh_simps)

lemma qu_acts:
  assumes "quiet g" and "a \<in> set (beh env g)"
  shows "(\<exists>k. a = Recv Results k \<and> k None = DiDone) \<or> (\<exists>k. a = Recv TasksToKill k \<and> k None = KlDone) \<or>
    (\<exists>f. a = Local f \<and> fst (f idle) = idle \<and> quiet (snd (f idle)))"
  using quiet_beh [OF assms] by auto

lemma four_cases:
  assumes "i < length (tm # li # mo # po # qs)" and "\<forall>g \<in> set qs. quiet g" and "ctl tm li mo po"
    and "a \<in> set (beh env ((tm # li # mo # po # qs) ! i))"
  shows "i = 0 \<and> tm_place tm \<and> a \<in> set (beh env tm) \<or> i = 1 \<and> li_place li \<and> a \<in> set (beh env li) \<or>
    i = 2 \<and> mo_place mo \<and> a \<in> set (beh env mo) \<or> i = 3 \<and> po_place po \<and> a \<in> set (beh env po) \<or>
    (\<exists>n. i = n + 4 \<and> n < length qs \<and> quiet (qs ! n) \<and> a \<in> set (beh env (qs ! n)))"
  using nth_four [OF assms(1)] assms(2,4) ctl_places [OF assms(3)] by (auto simp: nth_four_simps)

lemma ctl_send:
  assumes "ctl tm li mo po" and "\<forall>g \<in> set qs. quiet g" and "i < length (tm # li # mo # po # qs)"
    and "Send c v p \<in> set (beh env ((tm # li # mo # po # qs) ! i))" and q: "quiet_env env"
  shows "(i, c, p) = (0, Closing, TmWait) \<and> tm = TmStop \<or> (i, c, p) = (1, BoolC, LiDone) \<and> li = LiReply \<or>
    (i, c, p) = (1, SlaClosing, LiSlaWait) \<and> li = LiSlaStop \<or> (i, c, p) = (2, SlaBool, MoDone) \<and> mo = MoReply \<or>
    (i, c, p) = (1, PoolClosing, LiPoolWait) \<and> li = LiPoolStop \<or> (i, c, p) = (3, PoolErr, PoCloseWork) \<and> po = PoReply"
  using four_cases [OF assms(3,2,1,4)]
  by - (elim disjE conjE exE; drule (1) tm_acts [OF _ _ q] li_acts [OF _ _ q] mo_acts [OF _ _ q] po_acts qu_acts; auto)

lemma ctl_recv:
  assumes "ctl tm li mo po" and "\<forall>g \<in> set qs. quiet g" and "i < length (tm # li # mo # po # qs)"
    and "Recv c k \<in> set (beh env ((tm # li # mo # po # qs) ! i))" and q: "quiet_env env"
  shows "i = 0 \<and> c = BoolC \<and> tm = TmWait \<and> (\<forall>v. k v = TmStores) \<or>
    i = 1 \<and> li = LiSelect \<and> (c = Closing \<and> (\<forall>v. k v = LiPoolStop) \<or> c = Failures \<or> c = NeedsScaling) \<or>
    i = 1 \<and> li = LiPoolWait \<and> c = PoolErr \<and> (\<forall>v. k v = LiCloseFailures) \<or>
    i = 1 \<and> li = LiSlaWait \<and> c = SlaBool \<and> (\<forall>v. k v = LiReply) \<or>
    i = 2 \<and> mo = MoSelect \<and> c = SlaClosing \<and> (\<forall>v. k v = MoReply) \<or>
    i = 3 \<and> po = PoSelect None [] \<and> (c = PoolClosing \<and> (\<forall>v. k v = PoCloseUpdates) \<or> c = Work \<or> c = Updates) \<or>
    (\<exists>n. i = n + 4 \<and> n < length qs \<and> (c = Results \<and> k None = DiDone \<or> c = TasksToKill \<and> k None = KlDone))"
  using four_cases [OF assms(3,2,1,4)]
  by - (elim disjE conjE exE; drule (1) tm_acts [OF _ _ q] li_acts [OF _ _ q] mo_acts [OF _ _ q] po_acts qu_acts; auto)

lemma ctl_close:
  assumes "ctl tm li mo po" and "\<forall>g \<in> set qs. quiet g" and "i < length (tm # li # mo # po # qs)"
    and "Close c p \<in> set (beh env ((tm # li # mo # po # qs) ! i))" and q: "quiet_env env"
  shows "i = 0 \<and> (tm, c, p) \<in> {(TmCloseKill, TasksToKill, TmCloseClosing), (TmCloseClosing, Closing, TmCloseBool),
      (TmCloseBool, BoolC, TmReturned None)} \<or>
    i = 1 \<and> (li, c, p) \<in> {(LiCloseFailures, Failures, LiCloseResults), (LiCloseResults, Results, LiSlaStop)} \<or>
    i = 3 \<and> (po, c, p) \<in> {(PoCloseUpdates, Updates, PoReply), (PoCloseWork, Work, PoDone)}"
  using four_cases [OF assms(3,2,1,4)]
  by - (elim disjE conjE exE; drule (1) tm_acts [OF _ _ q] li_acts [OF _ _ q] mo_acts [OF _ _ q] po_acts qu_acts; auto)

lemma ctl_local:
  assumes "ctl tm li mo po" and "\<forall>g \<in> set qs. quiet g" and "i < length (tm # li # mo # po # qs)"
    and "Local f \<in> set (beh env ((tm # li # mo # po # qs) ! i))" and q: "quiet_env env"
  shows "fst (f idle) = idle \<and> (i = 0 \<and> tm = TmStores \<and> snd (f idle) = TmCloseKill \<or>
    i = 2 \<and> mo \<in> {MoSelect, MoSend []} \<and> snd (f idle) \<in> {MoSelect, MoSend []} \<or>
    (\<exists>n. i = n + 4 \<and> n < length qs \<and> quiet (snd (f idle))))"
  using four_cases [OF assms(3,2,1,4)]
  by - (elim disjE conjE exE; drule (1) tm_acts [OF _ _ q] li_acts [OF _ _ q] mo_acts [OF _ _ q] po_acts qu_acts; auto)

lemma ctl_others:
  assumes "ctl tm li mo po" and "\<forall>g \<in> set qs. quiet g" and "i < length (tm # li # mo # po # qs)" and q: "quiet_env env"
  shows "Go q' p \<notin> set (beh env ((tm # li # mo # po # qs) ! i))" and "Panic \<notin> set (beh env ((tm # li # mo # po # qs) ! i))"
  by (rule notI, drule four_cases [OF assms(3,2,1)],
      elim disjE conjE exE; drule (1) tm_acts [OF _ _ q] li_acts [OF _ _ q] mo_acts [OF _ _ q] po_acts qu_acts; auto)+

lemma upd_four:
  "(tm # li # mo # po # qs)[0 := x] = x # li # mo # po # qs" "(tm # li # mo # po # qs)[Suc 0 := x] = tm # x # mo # po # qs"
  "(tm # li # mo # po # qs)[2 := x] = tm # li # x # po # qs" "(tm # li # mo # po # qs)[3 := x] = tm # li # mo # x # qs"
  "(tm # li # mo # po # qs)[n + 4 := x] = tm # li # mo # po # qs[n := x]"
  by (simp_all add: numeral_eq_Suc)

lemma quiet_update: "\<forall>g \<in> set qs. quiet g \<Longrightarrow> quiet x \<Longrightarrow> \<forall>g \<in> set (qs[n := x]). quiet g"
  using set_update_subset_insert [of qs n x] by blast

lemma quiet_stopI:
  assumes "procs s = tm # li # mo # po # qs" and "ctl tm li mo po" and "\<forall>c. closed s c = closed_at tm li po c"
    and "\<forall>g \<in> set qs. quiet g" and "sh s = idle" and "buf s = (\<lambda>_. [])" and "\<not> panicked s"
  shows "quiet_stop s"
  using assms by (auto simp: quiet_stop_def fun_eq_iff)

lemma quiet_stop_move:
  assumes "procs s = tm # li # mo # po # qs" and "closed s = closed_at tm li po" and "\<forall>g \<in> set qs. quiet g" and "sh s = idle"
    and "buf s = (\<lambda>_. [])" and "\<not> panicked s"
    and "ctl tm' li' mo' po'" and "\<forall>c. closed_at tm' li' po' c = closed_at tm li po c"
  shows "quiet_stop (s\<lparr>procs := tm' # li' # mo' # po' # qs\<rparr>)"
  using assms by (auto simp: quiet_stop_def fun_eq_iff)

lemma quiet_stop_close:
  assumes "procs s = tm # li # mo # po # qs" and "closed s = closed_at tm li po" and "\<forall>g \<in> set qs. quiet g" and "sh s = idle"
    and "buf s = (\<lambda>_. [])" and "\<not> panicked s"
    and "ctl tm' li' mo' po'" and "\<forall>d. closed_at tm' li' po' d = (d = c \<or> closed_at tm li po d)"
  shows "quiet_stop (s\<lparr>procs := tm' # li' # mo' # po' # qs, closed := (closed s)(c := True)\<rparr>)"
  using assms by (auto simp: quiet_stop_def fun_eq_iff)

lemma ctl_mo:
  "ctl tm li mo po \<Longrightarrow> mo \<in> {MoSelect, MoSend []} \<Longrightarrow> mo' \<in> {MoSelect, MoSend []} \<Longrightarrow> ctl tm li mo' po"
  by (erule ctl_cases) (auto intro: ctl.intros)

lemma quiet_stop_step:
  assumes s: "quiet_stop s" and env: "quiet_env env" and step: "go_step (beh env) (chan_cap env) s s'"
  shows "quiet_stop s'"
proof -
  obtain tm li mo po qs where p: "procs s = tm # li # mo # po # qs" and c: "ctl tm li mo po"
    and cl: "closed s = closed_at tm li po" and q: "\<forall>g \<in> set qs. quiet g"
    and idle: "sh s = idle" "buf s = (\<lambda>_. [])" "\<not> panicked s"
    using s by (auto simp: quiet_stop_def)
  note acts = ctl_send [OF c q _ _ env] ctl_recv [OF c q _ _ env] ctl_close [OF c q _ _ env] ctl_local [OF c q _ _ env]
  from step show ?thesis
  proof cases
    case (local i f)
    from acts(4) [OF local(3,4) [unfolded p]] have f: "fst (f idle) = idle" and
      d: "i = 0 \<and> tm = TmStores \<and> snd (f idle) = TmCloseKill \<or>
        i = 2 \<and> mo \<in> {MoSelect, MoSend []} \<and> snd (f idle) \<in> {MoSelect, MoSend []} \<or>
        (\<exists>n. i = n + 4 \<and> n < length qs \<and> quiet (snd (f idle)))" by blast+
    from d show ?thesis
    proof (elim disjE conjE exE)
      assume "i = 0" and "tm = TmStores" and t: "snd (f idle) = TmCloseKill"
      moreover have "ctl TmCloseKill li mo po" "closed_at TmStores li po = closed_at TmCloseKill li po"
        using c \<open>tm = TmStores\<close> by (auto elim!: ctl_cases intro: ctl.intros simp: closed_at_def fun_eq_iff split: chan.split)
      ultimately show ?thesis using local(1) p cl q idle f by (intro quiet_stopI [of s' TmCloseKill li mo po qs]) (simp_all add: upd_four)
    next
      assume "i = 2" and "mo \<in> {MoSelect, MoSend []}" and "snd (f idle) \<in> {MoSelect, MoSend []}"
      then have "ctl tm li (snd (f idle)) po" by (intro ctl_mo [OF c])
      with \<open>i = 2\<close> show ?thesis using local(1) p cl q idle f
        by (intro quiet_stopI [of s' tm li "snd (f idle)" po qs]) (simp_all add: upd_four)
    next
      fix n
      assume "i = n + 4" and "quiet (snd (f idle))"
      then show ?thesis using local(1) p c cl quiet_update [OF q] idle f
        by (intro quiet_stopI [of s' tm li mo po "qs[n := snd (f idle)]"]) (simp_all add: upd_four del: list_update.simps)
    qed
  next
    case (spawn i q' p')
    with ctl_others(1) [OF c q _ env] p show ?thesis by simp
  next
    case (sync i j ch v p' k)
    note send = acts(1) [OF sync(3,6) [unfolded p]] and recv = acts(2) [OF sync(4,7) [unfolded p]]
    have match: "i = 0 \<and> j = 1 \<and> tm = TmStop \<and> li = LiSelect \<and> p' = TmWait \<and> k (Some v) = LiPoolStop \<or>
      i = 1 \<and> j = 0 \<and> li = LiReply \<and> tm = TmWait \<and> p' = LiDone \<and> k (Some v) = TmStores \<or>
      i = 1 \<and> j = 2 \<and> li = LiSlaStop \<and> mo = MoSelect \<and> p' = LiSlaWait \<and> k (Some v) = MoReply \<or>
      i = 2 \<and> j = 1 \<and> mo = MoReply \<and> li = LiSlaWait \<and> p' = MoDone \<and> k (Some v) = LiReply \<or>
      i = 1 \<and> j = 3 \<and> li = LiPoolStop \<and> po = PoSelect None [] \<and> p' = LiPoolWait \<and> k (Some v) = PoCloseUpdates \<or>
      i = 3 \<and> j = 1 \<and> po = PoReply \<and> li = LiPoolWait \<and> p' = PoCloseWork \<and> k (Some v) = LiCloseFailures"
      using send recv by (elim disjE; simp)
    then show ?thesis using c sync(1) p by (elim disjE conjE) (simp; rule quiet_stop_move [OF p cl q idle]; auto elim!: ctl_cases intro: ctl.intros simp: closed_at_def all_chan)+
  next
    case (put i ch v p')
    from acts(1) [OF put(3,4) [unfolded p]] put(5) show ?thesis by (auto simp: chan_cap_def)
  next
    case (get j ch k v vs)
    with idle show ?thesis by simp
  next
    case (get_closed j ch k)
    show ?thesis
      using acts(2) [OF get_closed(3,4) [unfolded p]]
    proof (elim disjE conjE exE)
      fix n
      assume "j = n + 4" and "k None = DiDone"
      then show ?thesis using get_closed(1) p c cl quiet_update [OF q, of DiDone] idle
        by (intro quiet_stopI [of s' tm li mo po "qs[n := DiDone]"]) (simp_all add: upd_four quiet_def del: list_update.simps)
    next
      fix n
      assume "j = n + 4" and "k None = KlDone"
      then show ?thesis using get_closed(1) p c cl quiet_update [OF q, of KlDone] idle
        by (intro quiet_stopI [of s' tm li mo po "qs[n := KlDone]"]) (simp_all add: upd_four quiet_def del: list_update.simps)
    qed (use get_closed(6) c cl in \<open>auto elim!: ctl_cases simp: closed_at_def\<close>)
  next
    case (close i ch p')
    have "i = 0 \<and> tm = TmCloseKill \<and> ch = TasksToKill \<and> p' = TmCloseClosing \<or>
      i = 0 \<and> tm = TmCloseClosing \<and> ch = Closing \<and> p' = TmCloseBool \<or>
      i = 0 \<and> tm = TmCloseBool \<and> ch = BoolC \<and> p' = TmReturned None \<or>
      i = 1 \<and> li = LiCloseFailures \<and> ch = Failures \<and> p' = LiCloseResults \<or>
      i = 1 \<and> li = LiCloseResults \<and> ch = Results \<and> p' = LiSlaStop \<or>
      i = 3 \<and> po = PoCloseUpdates \<and> ch = Updates \<and> p' = PoReply \<or>
      i = 3 \<and> po = PoCloseWork \<and> ch = Work \<and> p' = PoDone"
      using acts(3) [OF close(3,4) [unfolded p]] by auto
    then show ?thesis using c close(1) p
      by (elim disjE conjE)
        (simp; rule quiet_stop_close [OF p cl q idle]; auto elim!: ctl_cases intro: ctl.intros simp: closed_at_def all_chan)+
  next
    case (send_panics i ch v p')
    show ?thesis
      using acts(1) [OF send_panics(3,4) [unfolded p]] c send_panics(5) cl
      by (elim disjE) (auto elim!: ctl_cases simp: closed_at_def)
  next
    case (close_panics i ch p')
    show ?thesis
      using acts(3) [OF close_panics(3,4) [unfolded p]] c close_panics(5) cl
      by (elim disjE) (auto elim!: ctl_cases simp: closed_at_def)
  next
    case (panics i)
    with ctl_others(2) [OF c q _ env] p show ?thesis by simp
  qed
qed

text \<open>Progress: some step brings one of the four goroutines further.\<close>

fun rank :: "goroutine \<Rightarrow> nat" where
  "rank TmStop = 6" | "rank TmWait = 5" | "rank TmStores = 4" | "rank TmCloseKill = 3" | "rank TmCloseClosing = 2"
| "rank TmCloseBool = 1"
| "rank LiSelect = 8" | "rank LiPoolStop = 7" | "rank LiPoolWait = 6" | "rank LiCloseFailures = 5" | "rank LiCloseResults = 4"
| "rank LiSlaStop = 3" | "rank LiSlaWait = 2" | "rank LiReply = 1"
| "rank (MoSend _) = 3" | "rank MoSelect = 2" | "rank MoReply = 1"
| "rank (PoSelect _ _) = 4" | "rank PoCloseUpdates = 3" | "rank PoReply = 2" | "rank PoCloseWork = 1"
| "rank _ = 0"

definition left :: "life \<Rightarrow> nat" where "left s = sum_list (map rank (take 4 (procs s)))"

definition next_move :: "goroutine \<Rightarrow> goroutine \<Rightarrow> goroutine \<Rightarrow> goroutine \<Rightarrow> move" where
  "next_move tm li mo po =
     (if tm = TmStop then Two 0 0 1 2
      else if li = LiPoolStop then Two 1 0 3 2
      else if li = LiPoolWait then (if po = PoReply then Two 3 0 1 0 else One 3 0)
      else if li = LiSlaStop then (if mo = MoSelect then Two 1 0 2 0 else One 2 0)
      else if li = LiSlaWait then Two 2 0 1 0
      else if li = LiReply then Two 1 0 0 0
      else if li \<noteq> LiDone then One 1 0
      else if tm \<noteq> TmReturned None then One 0 0
      else One 3 0)"

lemma next_move_progress:
  assumes p: "procs s = tm # li # mo # po # qs" and c: "ctl tm li mo po" and cl: "closed s = closed_at tm li po"
    and "sh s = idle" and "buf s = (\<lambda>_. [])" and "\<not> panicked s" and env: "quiet_env env"
    and "tm = TmReturned None \<longrightarrow> po \<noteq> PoDone"
  shows "\<exists>s'. make_move (beh env) (chan_cap env) (next_move tm li mo po) s = Some s' \<and> left s' < left s"
proof -
  have e: "le_ticking env" "le_stopErr env = None" using quiet_envD(1,2) [OF env] .
  note move = next_move_def left_def offer_def beh_simps chan_cap_def closed_at_def p cl assms(4-6) e numeral_eq_Suc
  from c show ?thesis
  proof cases
    case 1
    then show ?thesis by (simp add: move)
  next
    case 2
    then show ?thesis by (simp add: move)
  next
    case 3
    then show ?thesis by (auto simp: move)
  next
    case 4
    then show ?thesis by - (elim insertE emptyE; simp add: move)
  next
    case 5
    then show ?thesis by (simp add: move)
  next
    case 6
    then show ?thesis by (simp add: move)
  next
    case 7
    then show ?thesis using assms(8) by - (elim insertE emptyE; simp add: move)
  qed
qed

lemma quiet_stop_start: "quiet_stop (stopping [])"
proof -
  have "\<forall>c. closed_at TmStop LiSelect (PoSelect None []) c = False" by (simp add: all_chan closed_at_def)
  then have "closed_at TmStop LiSelect (PoSelect None []) = (\<lambda>_. False)" by (simp add: fun_eq_iff)
  then show ?thesis
    by (auto simp: quiet_stop_def stopping_def system_def idle_def quiet_def intro: ctl.intros)
qed

lemma quiet_stop_reach:
  assumes "go_reach (beh env) (chan_cap env) s s'" and "quiet_stop s" and "quiet_env env"
  shows "quiet_stop s'"
  by (rule go_reach_invariant [OF assms(1), of quiet_stop]) (use assms(2,3) quiet_stop_step in blast)+

lemma quiet_stop_all_end:
  assumes "quiet_stop s" and env: "quiet_env env"
  shows "\<exists>s'. go_reach (beh env) (chan_cap env) s s' \<and> \<not> panicked s' \<and>
    take 4 (procs s') = [TmReturned None, LiDone, MoDone, PoDone] \<and>
    (\<forall>c \<in> {Updates, Work, Failures, Results, TasksToKill, Closing, BoolC}. closed s' c)"
proof -
  let ?ended = "\<lambda>s. hd (procs s) = TmReturned None \<and> procs s ! 3 = PoDone"
  have "\<exists>s'. go_reach (beh env) (chan_cap env) s s' \<and> quiet_stop s' \<and> ?ended s'"
  proof (rule go_reach_measure [of quiet_stop, OF assms(1)])
    fix s
    assume s: "quiet_stop s" and n: "\<not> ?ended s"
    then obtain tm li mo po qs where "procs s = tm # li # mo # po # qs" "ctl tm li mo po" "closed s = closed_at tm li po"
      "sh s = idle" "buf s = (\<lambda>_. [])" "\<not> panicked s" by (auto simp: quiet_stop_def)
    with n next_move_progress [OF this env] obtain m s' where "make_move (beh env) (chan_cap env) m s = Some s'" "left s' < left s"
      by (auto simp: nth_four_simps)
    then have "go_step (beh env) (chan_cap env) s s'" "left s' < left s" using make_move_step by blast+
    with quiet_stop_step [OF s env] show "\<exists>s'. go_step (beh env) (chan_cap env) s s' \<and> quiet_stop s' \<and> left s' < left s" by blast
  qed
  then obtain s' where s': "go_reach (beh env) (chan_cap env) s s'" "quiet_stop s'" "?ended s'" by blast
  then obtain li mo qs where "procs s' = TmReturned None # li # mo # PoDone # qs" "ctl (TmReturned None) li mo PoDone"
    "closed s' = closed_at (TmReturned None) li PoDone" "\<not> panicked s'"
    by (auto simp: quiet_stop_def numeral_eq_Suc)
  then show ?thesis using s'(1) by (intro exI [of _ s']) (auto elim!: ctl_cases simp: closed_at_def numeral_eq_Suc)
qed

section \<open>Properties\<close>

text \<open>C35. If a sweep of the SLA monitor can find something to change, \<open>Stop\<close> can deadlock: there is a state, reached while stopping, from
  which in every continuation \<open>Stop\<close> still waits for the listener, the listener for the monitor to take its request to close,
  and the monitor for somebody to take its next change, which only the listener ever did.\<close>

theorem Stop_can_deadlock:
  assumes "le_ticking env" and "c # cs \<in> set (le_sweeps env)"
  shows "\<exists>s. go_reach (beh env) (chan_cap env) (stopping []) s \<and>
    (\<forall>s'. go_reach (beh env) (chan_cap env) s s' \<longrightarrow>
       take 3 (procs s') = [TmWait, LiSlaStop, MoSend (c # cs)] \<and> \<not> panicked s')"
proof -
  obtain n where n: "n < length (le_sweeps env)" "le_sweeps env ! n = c # cs" using assms(2) by (auto simp: in_set_conv_nth)
  obtain ms s where s: "run_moves (beh env) (chan_cap env) ms (stopping []) = Some s" "stuck (c # cs) s"
    using stuck_run [OF assms(1) n] by blast
  have "take 3 (procs s') = [TmWait, LiSlaStop, MoSend (c # cs)] \<and> \<not> panicked s'" if "go_reach (beh env) (chan_cap env) s s'" for s'
  proof -
    have "stuck (c # cs) s'" by (rule go_reach_invariant [OF that, of "stuck (c # cs)"]) (rule s(2), rule stuck_step)
    then show ?thesis by (auto simp: stuck_def numeral_eq_Suc)
  qed
  then show ?thesis using run_moves_reach [OF s(1)] by blast
qed

definition sample_life :: "ChangeDeployCount list list \<Rightarrow> life_env" where
  "sample_life sweeps = \<lparr>le_pool = 5, le_ticking = True, le_sweeps = sweeps, le_known = (\<lambda>_. True), le_verdicts = (\<lambda>_. [True, False]),
     le_stopErr = None\<rparr>"

theorem Stop_can_deadlock_witness:
  "\<exists>s. go_reach (beh (sample_life [[], [\<lparr>cdc_App = None, cdc_Tasks = [], cdc_Count = 1\<rparr>]]))
       (chan_cap (sample_life [[], [\<lparr>cdc_App = None, cdc_Tasks = [], cdc_Count = 1\<rparr>]])) (stopping []) s \<and>
     hd (procs s) = TmWait"
proof -
  let ?c = "\<lparr>cdc_App = None, cdc_Tasks = [], cdc_Count = 1\<rparr>"
  let ?env = "sample_life [[], [?c]]"
  have "le_ticking ?env" "?c # [] \<in> set (le_sweeps ?env)" by (simp_all add: sample_life_def)
  from Stop_can_deadlock [OF this] obtain s where s: "go_reach (beh ?env) (chan_cap ?env) (stopping []) s"
    "take 3 (procs s) = [TmWait, LiSlaStop, MoSend [?c]]" by blast
  then have "hd (procs s) = TmWait" by (cases "procs s") simp_all
  with s(1) show ?thesis by blast
qed

text \<open>C37. \<open>Stop\<close> does not end the dequeue loop: once it has returned, with a check registered, the loop takes
  the check from the queue, sends it on the channel the pool closed, and panics.\<close>

theorem dequeue_loop_panics_after_Stop:
  assumes "le_ticking env" and "le_stopErr env = None"
  shows "\<exists>s s'. go_reach (beh env) (chan_cap env) (stopping (i # q)) s \<and> hd (procs s) = TmReturned None \<and> \<not> panicked s \<and>
    go_reach (beh env) (chan_cap env) s s' \<and> panicked s'"
proof -
  obtain ms s ms' s' where r: "run_moves (beh env) (chan_cap env) ms (stopping (i # q)) = Some s"
    "hd (procs s) = TmReturned None" "\<not> panicked s" "run_moves (beh env) (chan_cap env) ms' s = Some s'" "panicked s'"
    using stop_run [OF assms, of i q] by blast
  with run_moves_reach [OF r(1)] run_moves_reach [OF r(4)] show ?thesis by blast
qed

theorem dequeue_loop_panics_after_Stop_witness:
  "\<exists>s s'. go_reach (beh (sample_life [])) (chan_cap (sample_life [])) (stopping [''task-1'']) s \<and> hd (procs s) = TmReturned None \<and>
     go_reach (beh (sample_life [])) (chan_cap (sample_life [])) s s' \<and> panicked s'"
proof -
  have "le_ticking (sample_life [])" "le_stopErr (sample_life []) = None" by (simp_all add: sample_life_def)
  from dequeue_loop_panics_after_Stop [OF this] show ?thesis by blast
qed

text \<open>C38. \<open>Stop\<close> does not wait for the checks in flight. While it is still waiting for the listener, the pool can have closed
  its channel of updates before a worker has sent its result; that worker's send then panics. It is this send, and nothing else that
  runs: were the worker done, no step could panic.\<close>

theorem check_in_flight_panics_Stop:
  assumes "0 < le_pool env" and "v \<in> set (le_verdicts env i)"
  shows "\<exists>s k. go_reach (beh env) (chan_cap env) (stopping (i # q)) s \<and> hd (procs s) = TmWait \<and> \<not> panicked s \<and>
    closed s Updates \<and> k < length (procs s) \<and> procs s ! k = WkSend i v \<and>
    (\<exists>s'. go_step (beh env) (chan_cap env) s s' \<and> panicked s') \<and>
    (\<forall>s'. go_step (beh env) (chan_cap env) (s\<lparr>procs := (procs s)[k := WkDone]\<rparr>) s' \<longrightarrow> \<not> panicked s')"
proof -
  obtain n where n: "n < length (le_verdicts env i)" "le_verdicts env i ! n = v" using assms(2) by (auto simp: in_set_conv_nth)
  obtain ms s where s: "run_moves (beh env) (chan_cap env) ms (stopping (i # q)) = Some s" "\<not> panicked s"
    "closed s = (\<lambda>_. False)(Updates := True)" "procs s = [TmWait, LiPoolWait, MoSelect, PoReply, DiRange, DqLoop, KlRange, WkSend i v]"
    using in_flight_run [OF assms(1) n, of q] by blast
  let ?t = "s\<lparr>procs := (procs s)[7 := WkDone]\<rparr>"
  have "go_step (beh env) (chan_cap env) s (s\<lparr>panicked := True\<rparr>)"
    by (rule go_step.send_panics [where i = 7 and c = Updates]) (simp_all add: s(2-4) beh_simps)
  moreover have "\<forall>p \<in> set (procs ?t). \<not> offers_panic (beh env p) (closed ?t)"
    by (simp add: s(3,4) beh_simps offers_panic_def)
  then have "\<not> panicked s'" if "go_step (beh env) (chan_cap env) ?t s'" for s' by (rule no_offer_no_panic [OF that, rotated]) (simp add: s(2))
  ultimately show ?thesis using run_moves_reach [OF s(1)] s(2-4) by (intro exI [of _ s] exI [of _ 7]) auto
qed

theorem check_in_flight_panics_Stop_witness:
  "\<exists>s s'. go_reach (beh (sample_life [])) (chan_cap (sample_life [])) (stopping [''task-1'', ''task-2'']) s \<and>
     WkSend ''task-1'' False \<in> set (procs s) \<and> closed s Updates \<and> go_step (beh (sample_life [])) (chan_cap (sample_life [])) s s' \<and> panicked s'"
proof -
  have "0 < le_pool (sample_life [])" "False \<in> set (le_verdicts (sample_life []) ''task-1'')" by (simp_all add: sample_life_def)
  from check_in_flight_panics_Stop [OF this, of "[''task-2'']"] show ?thesis by (metis nth_mem)
qed

text \<open>C34. With no check registered and a monitor whose sweeps find nothing, \<open>Stop\<close> never deadlocks and nothing panics: however far the
  goroutines have got, in whatever order they ran, \<open>Stop\<close> can still return without an error, having
  stopped the pool, the health checker, the monitor and the listener and closed its channels.\<close>

theorem quiet_Stop_returns:
  assumes "le_ticking env" and "le_stopErr env = None" and "set (le_sweeps env) \<subseteq> {[]}"
    and "go_reach (beh env) (chan_cap env) (stopping []) s"
  shows "\<not> panicked s \<and> (\<exists>s'. go_reach (beh env) (chan_cap env) s s' \<and> \<not> panicked s' \<and>
    take 4 (procs s') = [TmReturned None, LiDone, MoDone, PoDone] \<and>
    (\<forall>c \<in> {Updates, Work, Failures, Results, TasksToKill, Closing, BoolC}. closed s' c))"
proof -
  have env: "quiet_env env" using assms(1-3) by (simp add: quiet_env_def)
  have s: "quiet_stop s" by (rule quiet_stop_reach [OF assms(4) quiet_stop_start env])
  from quiet_stop_all_end [OF s env] show ?thesis using s by (auto simp: quiet_stop_def)
qed

theorem quiet_Stop_returns_witness:
  "\<exists>s'. go_reach (beh (sample_life [[]])) (chan_cap (sample_life [[]])) (stopping []) s' \<and>
     take 4 (procs s') = [TmReturned None, LiDone, MoDone, PoDone]"
proof -
  have "le_ticking (sample_life [[]])" "le_stopErr (sample_life [[]]) = None" "set (le_sweeps (sample_life [[]])) \<subseteq> {[]}"
    by (simp_all add: sample_life_def)
  from quiet_Stop_returns [OF this rtranclp.rtrancl_refl] show ?thesis by blast
qed

end
