(* ===== verification/ProtocolEnums.thy ===== *)
theory ProtocolEnums
  imports Protocol GoStrings
begin

text \<open>
  The methods of the five enumerations of \<open>src/protocol/exeggutor.pb.go\<close> that read and write their names. They hand the tables of
  \<open>Protocol\<close> to two functions of the protobuf library, which are arguments: \<open>enumName\<close> is \<open>proto.EnumName\<close> and \<open>unmarshal\<close> is
  \<open>proto.UnmarshalJSONEnum\<close>. In Go an enumeration is an int32 that need not be one of the constants, so what is read into is a number.
  The locale \<open>enum_tables\<close> is what the generated tables of an enumeration promise; each of the five interprets it.
\<close>

type_synonym enum_namer = "(int \<rightharpoonup> string) \<Rightarrow> int \<Rightarrow> string"
type_synonym enum_reader = "(string \<rightharpoonup> int) \<Rightarrow> string \<Rightarrow> string \<Rightarrow> int result"

section \<open>AppStatus\<close>

definition AppStatus_Enum :: "AppStatus \<Rightarrow> AppStatus option" where
  "AppStatus_Enum x = Some x"

definition AppStatus_String :: "enum_namer \<Rightarrow> AppStatus \<Rightarrow> string" where
  "AppStatus_String enumName x = enumName AppStatus_name (AppStatus_num x)"

definition AppStatus_UnmarshalJSON :: "enum_reader \<Rightarrow> string \<Rightarrow> int \<Rightarrow> goerr option \<times> int" where
  "AppStatus_UnmarshalJSON unmarshal data x =
     (case unmarshal AppStatus_value data ''AppStatus'' of Inl err \<Rightarrow> (Some err, x) | Inr v \<Rightarrow> (None, v))"

section \<open>ComponentType\<close>

definition ComponentType_Enum :: "ComponentType \<Rightarrow> ComponentType option" where
  "ComponentType_Enum x = Some x"

definition ComponentType_String :: "enum_namer \<Rightarrow> ComponentType \<Rightarrow> string" where
  "ComponentType_String enumName x = enumName ComponentType_name (ComponentType_num x)"

definition ComponentType_UnmarshalJSON :: "enum_reader \<Rightarrow> string \<Rightarrow> int \<Rightarrow> goerr option \<times> int" where
  "ComponentType_UnmarshalJSON unmarshal data x =
     (case unmarshal ComponentType_value data ''ComponentType'' of Inl err \<Rightarrow> (Some err, x) | Inr v \<Rightarrow> (None, v))"

section \<open>Distribution\<close>

definition Distribution_Enum :: "Distribution \<Rightarrow> Distribution option" where
  "Distribution_Enum x = Some x"

definition Distribution_String :: "enum_namer \<Rightarrow> Distribution \<Rightarrow> string" where
  "Distribution_String enumName x = enumName Distribution_name (Distribution_num x)"

definition Distribution_UnmarshalJSON :: "enum_reader \<Rightarrow> string \<Rightarrow> int \<Rightarrow> goerr option \<times> int" where
  "Distribution_UnmarshalJSON unmarshal data x =
     (case unmarshal Distribution_value data ''Distribution'' of Inl err \<Rightarrow> (Some err, x) | Inr v \<Rightarrow> (None, v))"

section \<open>HealthCheckMode\<close>

definition HealthCheckMode_Enum :: "HealthCheckMode \<Rightarrow> HealthCheckMode option" where
  "HealthCheckMode_Enum x = Some x"

definition HealthCheckMode_String :: "enum_namer \<Rightarrow> HealthCheckMode \<Rightarrow> string" where
  "HealthCheckMode_String enumName x = enumName HealthCheckMode_name (HealthCheckMode_num x)"

definition HealthCheckMode_UnmarshalJSON :: "enum_reader \<Rightarrow> string \<Rightarrow> int \<Rightarrow> goerr option \<times> int" where
  "HealthCheckMode_UnmarshalJSON unmarshal data x =
     (case unmarshal HealthCheckMode_value data ''HealthCheckMode'' of Inl err \<Rightarrow> (Some err, x) | Inr v \<Rightarrow> (None, v))"

section \<open>HealthCheckResultCode\<close>

definition HealthCheckResultCode_Enum :: "HealthCheckResultCode \<Rightarrow> HealthCheckResultCode option" where
  "HealthCheckResultCode_Enum x = Some x"

definition HealthCheckResultCode_String :: "enum_namer \<Rightarrow> HealthCheckResultCode \<Rightarrow> string" where
  "HealthCheckResultCode_String enumName x = enumName HealthCheckResultCode_name (HealthCheckResultCode_num x)"

definition HealthCheckResultCode_UnmarshalJSON :: "enum_reader \<Rightarrow> string \<Rightarrow> int \<Rightarrow> goerr option \<times> int" where
  "HealthCheckResultCode_UnmarshalJSON unmarshal data x =
     (case unmarshal HealthCheckResultCode_value data ''HealthCheckResultCode'' of Inl err \<Rightarrow> (Some err, x) | Inr v \<Rightarrow> (None, v))"

section \<open>The library\<close>

text \<open>\<open>EnumName\<close> is documented to give the name of a number that has one.\<close>

definition enumName_ok :: "enum_namer \<Rightarrow> bool" where
  "enumName_ok enumName \<longleftrightarrow> (\<forall>m n s. m n = Some s \<longrightarrow> enumName m n = s)"

text \<open>\<open>UnmarshalJSONEnum\<close> is documented to read a JSON string as a name; what stands between the quotes here is not escaped.\<close>

definition quoted :: "string \<Rightarrow> string" where
  "quoted s = CHR 0x22 # s @ [CHR 0x22]"

definition unmarshal_ok :: "enum_reader \<Rightarrow> bool" where
  "unmarshal_ok unmarshal \<longleftrightarrow>
     (\<forall>m s t. CHR 0x22 \<notin> set s \<and> CHR 0x5C \<notin> set s \<longrightarrow>
        (case m s of Some n \<Rightarrow> unmarshal m (quoted s) t = Inr n | None \<Rightarrow> \<exists>err. unmarshal m (quoted s) t = Inl err))"

text \<open>Instances of the two.\<close>

definition sample_namer :: enum_namer where
  "sample_namer m n = (case m n of Some s \<Rightarrow> s | None \<Rightarrow> Itoa n)"

definition sample_reader :: enum_reader where
  "sample_reader m data t =
     (case data of
        [] \<Rightarrow> Inl (Err ''empty'')
      | c # s \<Rightarrow>
          if c = CHR 0x22
          then (case m (butlast s) of Some n \<Rightarrow> Inr n | None \<Rightarrow> Inl (Err (''unrecognized enum '' @ t)))
          else Inl (Err ''not a string''))"

lemma sample_library: "enumName_ok sample_namer" "unmarshal_ok sample_reader"
  by (auto simp: enumName_ok_def sample_namer_def unmarshal_ok_def sample_reader_def quoted_def split: option.split)

section \<open>The tables\<close>

definition plain_name :: "string \<Rightarrow> bool" where
  "plain_name s \<longleftrightarrow> CHR 0x22 \<notin> set s \<and> CHR 0x5C \<notin> set s"

locale enum_tables =
  fixes num :: "'e \<Rightarrow> int" and names :: "int \<rightharpoonup> string" and vals :: "string \<rightharpoonup> int"
  assumes named: "\<exists>s. names (num x) = Some s \<and> plain_name s"
    and valued: "names n = Some s \<Longrightarrow> vals s = Some n"
begin

lemma reads_back: "enumName_ok en \<Longrightarrow> unmarshal_ok um \<Longrightarrow> um vals (quoted (en names (num x))) t = Inr (num x)"
proof -
  assume lib: "enumName_ok en" "unmarshal_ok um"
  obtain s where s: "names (num x) = Some s" "plain_name s" using named by blast
  then have "en names (num x) = s" using lib(1) by (simp add: enumName_ok_def)
  moreover have "um vals (quoted s) t = Inr (num x)"
    using lib(2) s(2) valued [OF s(1)] unfolding unmarshal_ok_def plain_name_def by (fastforce split: option.splits)
  ultimately show ?thesis by simp
qed

lemma rejects:
  assumes "unmarshal_ok um" and "plain_name s" and "vals s = None"
  shows "\<exists>err. um vals (quoted s) t = Inl err"
proof -
  have "case vals s of Some n \<Rightarrow> um vals (quoted s) t = Inr n | None \<Rightarrow> \<exists>err. um vals (quoted s) t = Inl err"
    using assms(1,2) unfolding unmarshal_ok_def plain_name_def by blast
  with assms(3) show ?thesis by simp
qed

end

lemma map_of_valued: "list_all (\<lambda>(n, s). v s = Some n) t \<Longrightarrow> map_of t n = Some s \<Longrightarrow> v s = Some n"
  by (induction t) (auto split: if_splits)

interpretation status: enum_tables AppStatus_num AppStatus_name AppStatus_value
proof
  show "\<exists>s. AppStatus_name (AppStatus_num x) = Some s \<and> plain_name s" for x
    by (cases x) (simp_all add: AppStatus_name_def plain_name_def)
  show "AppStatus_name n = Some s \<Longrightarrow> AppStatus_value s = Some n" for n s
    unfolding AppStatus_name_def by (erule map_of_valued [rotated]) code_simp
qed

interpretation component_type: enum_tables ComponentType_num ComponentType_name ComponentType_value
proof
  show "\<exists>s. ComponentType_name (ComponentType_num x) = Some s \<and> plain_name s" for x
    by (cases x) (simp_all add: ComponentType_name_def plain_name_def)
  show "ComponentType_name n = Some s \<Longrightarrow> ComponentType_value s = Some n" for n s
    unfolding ComponentType_name_def by (erule map_of_valued [rotated]) code_simp
qed

interpretation distribution: enum_tables Distribution_num Distribution_name Distribution_value
proof
  show "\<exists>s. Distribution_name (Distribution_num x) = Some s \<and> plain_name s" for x
    by (cases x) (simp_all add: Distribution_name_def plain_name_def)
  show "Distribution_name n = Some s \<Longrightarrow> Distribution_value s = Some n" for n s
    unfolding Distribution_name_def by (erule map_of_valued [rotated]) code_simp
qed

interpretation mode: enum_tables HealthCheckMode_num HealthCheckMode_name HealthCheckMode_value
proof
  show "\<exists>s. HealthCheckMode_name (HealthCheckMode_num x) = Some s \<and> plain_name s" for x
    by (cases x) (simp_all add: HealthCheckMode_name_def plain_name_def)
  show "HealthCheckMode_name n = Some s \<Longrightarrow> HealthCheckMode_value s = Some n" for n s
    unfolding HealthCheckMode_name_def by (erule map_of_valued [rotated]) code_simp
qed

interpretation code: enum_tables HealthCheckResultCode_num HealthCheckResultCode_name HealthCheckResultCode_value
proof
  show "\<exists>s. HealthCheckResultCode_name (HealthCheckResultCode_num x) = Some s \<and> plain_name s" for x
    by (cases x) (simp_all add: HealthCheckResultCode_name_def plain_name_def)
  show "HealthCheckResultCode_name n = Some s \<Longrightarrow> HealthCheckResultCode_value s = Some n" for n s
    unfolding HealthCheckResultCode_name_def by (erule map_of_valued [rotated]) code_simp
qed

section \<open>Names are read back\<close>

text \<open>What an enumeration prints as, put between quotes, is read as the same constant, and a name it does not have is an error
  that leaves the value as it was.\<close>

theorem enum_names_are_read_back:
  assumes en: "enumName_ok en" and um: "unmarshal_ok um"
  shows "AppStatus_UnmarshalJSON um (quoted (AppStatus_String en a)) old = (None, AppStatus_num a)"
    and "ComponentType_UnmarshalJSON um (quoted (ComponentType_String en b)) old = (None, ComponentType_num b)"
    and "Distribution_UnmarshalJSON um (quoted (Distribution_String en c)) old = (None, Distribution_num c)"
    and "HealthCheckMode_UnmarshalJSON um (quoted (HealthCheckMode_String en d)) old = (None, HealthCheckMode_num d)"
    and "HealthCheckResultCode_UnmarshalJSON um (quoted (HealthCheckResultCode_String en e)) old = (None, HealthCheckResultCode_num e)"
    and "plain_name s \<Longrightarrow> AppStatus_value s = None \<Longrightarrow> \<exists>err. AppStatus_UnmarshalJSON um (quoted s) old = (Some err, old)"
proof -
  show "plain_name s \<Longrightarrow> AppStatus_value s = None \<Longrightarrow> \<exists>err. AppStatus_UnmarshalJSON um (quoted s) old = (Some err, old)"
    using status.rejects [OF um, of s "''AppStatus''"] unfolding AppStatus_UnmarshalJSON_def by fastforce
qed (simp_all add: AppStatus_UnmarshalJSON_def AppStatus_String_def status.reads_back [OF en um] ComponentType_UnmarshalJSON_def
      ComponentType_String_def component_type.reads_back [OF en um] Distribution_UnmarshalJSON_def Distribution_String_def
      distribution.reads_back [OF en um] HealthCheckMode_UnmarshalJSON_def HealthCheckMode_String_def mode.reads_back [OF en um]
      HealthCheckResultCode_UnmarshalJSON_def HealthCheckResultCode_String_def code.reads_back [OF en um])

end
