(* ===== verification/ProtocolMessages.thy ===== *)
theory ProtocolMessages
  imports Protocol
begin

text \<open>
  The methods every message of \<open>src/protocol/exeggutor.pb.go\<close> has besides its getters, and the defaults the getters answer with. \<open>Reset\<close>
  makes the message the zero value of its type; \<open>String\<close> hands it to the library's \<open>proto.CompactTextString\<close>, a parameter;
  \<open>ProtoMessage\<close> is a marker without a body.
\<close>

section \<open>Zero values\<close>

text \<open>Those \<open>Protocol\<close> does not have.\<close>

definition StringKeyValue_zero :: StringKeyValue where
  "StringKeyValue_zero = \<lparr>kv_Key = None, kv_Value = None\<rparr>"

definition StringIntKeyValue_zero :: StringIntKeyValue where
  "StringIntKeyValue_zero = \<lparr>ikv_Key = None, ikv_Value = None\<rparr>"

definition PortMapping_zero :: PortMapping where
  "PortMapping_zero = \<lparr>pm_Scheme = None, pm_PrivatePort = None, pm_PublicPort = None\<rparr>"

section \<open>Reset and String\<close>

definition StringKeyValue_Reset :: "StringKeyValue \<Rightarrow> StringKeyValue" where
  "StringKeyValue_Reset m = StringKeyValue_zero"

definition StringKeyValue_String :: "(StringKeyValue \<Rightarrow> string) \<Rightarrow> StringKeyValue \<Rightarrow> string" where
  "StringKeyValue_String compactTextString m = compactTextString m"

definition StringIntKeyValue_Reset :: "StringIntKeyValue \<Rightarrow> StringIntKeyValue" where
  "StringIntKeyValue_Reset m = StringIntKeyValue_zero"

definition StringIntKeyValue_String :: "(StringIntKeyValue \<Rightarrow> string) \<Rightarrow> StringIntKeyValue \<Rightarrow> string" where
  "StringIntKeyValue_String compactTextString m = compactTextString m"

definition PortMapping_Reset :: "PortMapping \<Rightarrow> PortMapping" where
  "PortMapping_Reset m = PortMapping_zero"

definition PortMapping_String :: "(PortMapping \<Rightarrow> string) \<Rightarrow> PortMapping \<Rightarrow> string" where
  "PortMapping_String compactTextString m = compactTextString m"

definition Deployment_Reset :: "Deployment \<Rightarrow> Deployment" where
  "Deployment_Reset m = Deployment_zero"

definition Deployment_String :: "(Deployment \<Rightarrow> string) \<Rightarrow> Deployment \<Rightarrow> string" where
  "Deployment_String compactTextString m = compactTextString m"

definition Application_Reset :: "Application \<Rightarrow> Application" where
  "Application_Reset m = Application_zero"

definition Application_String :: "(Application \<Rightarrow> string) \<Rightarrow> Application \<Rightarrow> string" where
  "Application_String compactTextString m = compactTextString m"

definition ScheduledApp_Reset :: "ScheduledApp \<Rightarrow> ScheduledApp" where
  "ScheduledApp_Reset m = ScheduledApp_zero"

definition ScheduledApp_String :: "(ScheduledApp \<Rightarrow> string) \<Rightarrow> ScheduledApp \<Rightarrow> string" where
  "ScheduledApp_String compactTextString m = compactTextString m"

definition HealthCheck_Reset :: "HealthCheck \<Rightarrow> HealthCheck" where
  "HealthCheck_Reset m = HealthCheck_zero"

definition HealthCheck_String :: "(HealthCheck \<Rightarrow> string) \<Rightarrow> HealthCheck \<Rightarrow> string" where
  "HealthCheck_String compactTextString m = compactTextString m"

definition ApplicationSLA_Reset :: "ApplicationSLA \<Rightarrow> ApplicationSLA" where
  "ApplicationSLA_Reset m = ApplicationSLA_zero"

definition ApplicationSLA_String :: "(ApplicationSLA \<Rightarrow> string) \<Rightarrow> ApplicationSLA \<Rightarrow> string" where
  "ApplicationSLA_String compactTextString m = compactTextString m"

section \<open>Defaults\<close>

definition Default_Deployment_Status :: AppStatus where
  "Default_Deployment_Status = AppStatus_ABSENT"

definition Default_Application_Distribution :: Distribution where
  "Default_Application_Distribution = Distribution_DOCKER"

definition Default_Application_ComponentType :: ComponentType where
  "Default_Application_ComponentType = ComponentType_SERVICE"

definition Default_HealthCheck_Mode :: HealthCheckMode where
  "Default_HealthCheck_Mode = HealthCheckMode_HTTP"

definition Default_HealthCheck_Path :: string where
  "Default_HealthCheck_Path = ''/api/api-docs''"

definition Default_HealthCheck_Scheme :: string where
  "Default_HealthCheck_Scheme = ''http''"

definition Default_ApplicationSLA_MinInstances :: int32 where
  "Default_ApplicationSLA_MinInstances = 1"

definition Default_ApplicationSLA_MaxInstances :: int32 where
  "Default_ApplicationSLA_MaxInstances = 1"

lemmas message_defs =
  StringKeyValue_Reset_def StringIntKeyValue_Reset_def PortMapping_Reset_def Deployment_Reset_def Application_Reset_def ScheduledApp_Reset_def HealthCheck_Reset_def ApplicationSLA_Reset_def
  StringKeyValue_zero_def StringIntKeyValue_zero_def PortMapping_zero_def Deployment_zero_def Application_zero_def ScheduledApp_zero_def HealthCheck_zero_def ApplicationSLA_zero_def
  Default_Deployment_Status_def Default_Application_Distribution_def Default_Application_ComponentType_def Default_HealthCheck_Mode_def
  Default_HealthCheck_Path_def Default_HealthCheck_Scheme_def Default_ApplicationSLA_MinInstances_def Default_ApplicationSLA_MaxInstances_def

text \<open>A message that was reset is read like a nil one: every getter with a declared default answers with it, whatever the message held before.\<close>

theorem Reset_answers_defaults:
  "Deployment_GetStatus (Some (Deployment_Reset d)) = Default_Deployment_Status \<and> Deployment_GetStatus None = Default_Deployment_Status"
  "Application_GetDistribution (Some (Application_Reset a)) = Default_Application_Distribution \<and>
   Application_GetDistribution None = Default_Application_Distribution"
  "Application_GetComponentType (Some (Application_Reset a)) = Default_Application_ComponentType \<and>
   Application_GetComponentType None = Default_Application_ComponentType"
  "HealthCheck_GetMode (Some (HealthCheck_Reset h)) = Default_HealthCheck_Mode \<and> HealthCheck_GetMode None = Default_HealthCheck_Mode"
  "HealthCheck_GetPath (Some (HealthCheck_Reset h)) = Default_HealthCheck_Path \<and> HealthCheck_GetPath None = Default_HealthCheck_Path"
  "HealthCheck_GetScheme (Some (HealthCheck_Reset h)) = Default_HealthCheck_Scheme \<and> HealthCheck_GetScheme None = Default_HealthCheck_Scheme"
  "ApplicationSLA_GetMinInstances (Some (ApplicationSLA_Reset s)) = Default_ApplicationSLA_MinInstances \<and>
   ApplicationSLA_GetMinInstances None = Default_ApplicationSLA_MinInstances"
  "ApplicationSLA_GetMaxInstances (Some (ApplicationSLA_Reset s)) = Default_ApplicationSLA_MaxInstances \<and>
   ApplicationSLA_GetMaxInstances None = Default_ApplicationSLA_MaxInstances"
  by (simp_all add: getter_simps message_defs)

end
