(* ===== verification/HealthSchedulers.thy ===== *)
theory HealthSchedulers
  imports HealthChecker
begin

text \<open>
  The interface \<open>HealthCheckScheduler\<close> of \<open>src/health/checker.go\<close> as a record of methods, with its two implementations: the health
  checker, and the one the tests run with, \<open>src/health/test_utils/noop_checker.go\<close>. The locale \<open>health_scheduler\<close> is what the task manager
  relies on: registering and unregistering always return, without an error. \<open>Failures\<close> is what has been published on the channel so
  far, nothing for a nil channel. \<open>Start\<close> and \<open>Stop\<close> of the health checker are in \<open>Lifecycle\<close>; those of the other do nothing.
\<close>

record 'c HealthCheckScheduler =
  hs_Contains :: "TaskID option \<Rightarrow> 'c \<Rightarrow> bool"
  hs_Register :: "go_time \<Rightarrow> Deployment option \<Rightarrow> Application option \<Rightarrow> 'c \<Rightarrow> (goerr option \<times> 'c) option"
  hs_Unregister :: "TaskID option \<Rightarrow> 'c \<Rightarrow> (goerr option \<times> 'c) option"
  hs_Failures :: "'c \<Rightarrow> Result list"

definition HealthChecker_methods :: "checker HealthCheckScheduler" where
  [iface_simps]: "HealthChecker_methods =
     \<lparr>hs_Contains = HealthChecker_Contains, hs_Register = HealthChecker_Register, hs_Unregister = HealthChecker_Unregister,
      hs_Failures = ck_failures\<rparr>"

definition NoopHealthChecker_Start :: "unit \<Rightarrow> goerr option" where
  "NoopHealthChecker_Start n = None"

definition NoopHealthChecker_Stop :: "unit \<Rightarrow> goerr option" where
  "NoopHealthChecker_Stop n = None"

definition NoopHealthChecker :: "unit HealthCheckScheduler" where
  [iface_simps]: "NoopHealthChecker =
     \<lparr>hs_Contains = (\<lambda>app n. True), hs_Register = (\<lambda>now deployment app n. Some (None, n)), hs_Unregister = (\<lambda>app n. Some (None, n)),
      hs_Failures = (\<lambda>n. [])\<rparr>"

section \<open>The contract\<close>

text \<open>A client's calls, in order, with the times of the registrations.\<close>

datatype health_call = CallRegister go_time "Deployment option" "Application option" | CallUnregister "TaskID option"

fun health_calls :: "'c HealthCheckScheduler \<Rightarrow> health_call list \<Rightarrow> 'c \<Rightarrow> (goerr option list \<times> 'c) option" where
  "health_calls hs [] c = Some ([], c)"
| "health_calls hs (CallRegister now d app # calls) c =
     (case hs_Register hs now d app c of
        None \<Rightarrow> None
      | Some (err, c') \<Rightarrow> map_option (\<lambda>(errs, c''). (err # errs, c'')) (health_calls hs calls c'))"
| "health_calls hs (CallUnregister tid # calls) c =
     (case hs_Unregister hs tid c of
        None \<Rightarrow> None
      | Some (err, c') \<Rightarrow> map_option (\<lambda>(errs, c''). (err # errs, c'')) (health_calls hs calls c'))"

locale health_scheduler =
  fixes hs :: "'c HealthCheckScheduler"
  assumes Register_returns: "\<exists>c'. hs_Register hs now d app c = Some (None, c') \<and> (hs_Contains hs t c \<longrightarrow> hs_Contains hs t c')"
    and Unregister_returns: "\<exists>c'. hs_Unregister hs tid c = Some (None, c') \<and>
          (TaskID_GetValue t \<noteq> TaskID_GetValue tid \<longrightarrow> hs_Contains hs t c' = hs_Contains hs t c)"
begin

lemma calls_return: "\<exists>c'. health_calls hs calls c = Some (replicate (length calls) None, c')"
proof (induction calls arbitrary: c)
  case (Cons call calls)
  show ?case
  proof (cases call)
    case (CallRegister now d app)
    then show ?thesis using Register_returns [of now d app c] Cons.IH by fastforce
  next
    case (CallUnregister tid)
    then show ?thesis using Unregister_returns [of tid c] Cons.IH by fastforce
  qed
qed simp

text \<open>A task stays known until it is unregistered.\<close>

lemma stays_known:
  "health_calls hs calls c = Some (errs, c') \<Longrightarrow> hs_Contains hs t c \<Longrightarrow>
     \<forall>tid. CallUnregister tid \<in> set calls \<longrightarrow> TaskID_GetValue tid \<noteq> TaskID_GetValue t \<Longrightarrow> hs_Contains hs t c'"
proof (induction calls arbitrary: c errs)
  case (Cons call calls)
  show ?case
  proof (cases call)
    case (CallRegister now d app)
    obtain c1 where c1: "hs_Register hs now d app c = Some (None, c1)" "hs_Contains hs t c1"
      using Register_returns [of now d app c t] Cons.prems(2) by blast
    then show ?thesis using Cons.IH [of c1] Cons.prems CallRegister by auto
  next
    case (CallUnregister tid)
    then have "TaskID_GetValue t \<noteq> TaskID_GetValue tid" using Cons.prems(3) by auto
    then obtain c1 where c1: "hs_Unregister hs tid c = Some (None, c1)" "hs_Contains hs t c1"
      using Unregister_returns [of tid c t] Cons.prems(2) by blast
    then show ?thesis using Cons.IH [of c1] Cons.prems CallUnregister by auto
  qed
qed simp

end

section \<open>The implementations keep it\<close>

lemma Register_keeps_known:
  "\<exists>h'. HealthChecker_Register now d app h = Some (None, h') \<and> (HealthChecker_Contains t h \<longrightarrow> HealthChecker_Contains t h')"
proof -
  obtain config port i hn where chk: "checkDisabled d app = (config, port, i, hn, None)"
    using checkDisabled_no_error [of d app] by (cases "checkDisabled d app") auto
  let ?x = "\<lparr>ahc_HealthCheck = check_New i (hn @ '':'' @ Itoa (sint port)) config,
    ahc_ExpiresAt = time_Add now (millis (HealthCheck_GetRampUp config)), ahc_index = 0\<rparr>"
  obtain q' where "hq_Push (ck_next h) ((ck_queue h)\<lparr>hq_checks := (hq_checks (ck_queue h))(ck_next h := ?x)\<rparr>) = Some q'"
    using hq_Push_ok by blast
  then show ?thesis by (simp add: HealthChecker_Register_def chk HealthChecker_Contains_def Let_def split: option.split)
qed

interpretation hcs: health_scheduler HealthChecker_methods
proof
  show "\<exists>c'. hs_Register HealthChecker_methods now d app c = Some (None, c') \<and>
      (hs_Contains HealthChecker_methods t c \<longrightarrow> hs_Contains HealthChecker_methods t c')" for now d app c t
    using Register_keeps_known [of now d app c t] by (simp add: iface_simps)
  show "\<exists>c'. hs_Unregister HealthChecker_methods tid c = Some (None, c') \<and>
      (TaskID_GetValue t \<noteq> TaskID_GetValue tid \<longrightarrow> hs_Contains HealthChecker_methods t c' = hs_Contains HealthChecker_methods t c)" for tid c t
    using hq_Remove_ok [of "TaskID_GetValue tid" "ck_queue c"]
    by (auto simp: iface_simps HealthChecker_Unregister_def HealthChecker_Contains_def)
qed

interpretation noop: health_scheduler NoopHealthChecker
  by unfold_locales (simp_all add: iface_simps)

text \<open>Whatever a client registers and unregisters, in whatever order and state, the health checker never panics and never reports an
  error, and a task stays known until it is unregistered.\<close>

theorem health_checker_calls_return:
  "\<exists>h'. health_calls HealthChecker_methods calls h = Some (replicate (length calls) None, h')"
  by (rule hcs.calls_return)

end
