(* ===== verification/Simulation.thy ===== *)
theory Simulation
  imports HttpApi "HOL-Library.Signed_Division"
begin

text \<open>
  The two small programs beside the server: \<open>src/health/simulation/main.go\<close>, which lets the health checker check four web servers
  that fail every fifth request, under forty task ids, and \<open>src/samples/helloworld/main.go\<close>, a service to deploy. The goroutine of the simulation that
  registers the checks runs beside the loops of the checker; \<open>sim_step\<close> interleaves them.
\<close>

section \<open>The sample service\<close>

definition helloWold :: "rw_call list" where
  "helloWold = [SetHeader ''Content-Type'' ''text/plain'', Write (''Hello, World'' @ [CHR 0x0A])]"

definition hello_addr :: string where
  "hello_addr = '':'' @ Itoa 3000"

section \<open>The simulated applications\<close>

text \<open>\<open>Application.ID\<close> of \<open>src/protocol/extensions.go\<close>.\<close>

definition Application_ID :: "Application \<Rightarrow> string" where
  "Application_ID app =
     Join [Application_GetAppName (Some app), Application_GetName (Some app), Application_GetVersion (Some app)] '':''"

text \<open>\<open>proto.Int\<close> keeps the low 32 bits.\<close>

definition proto_Int :: "int64 \<Rightarrow> int32 option" where
  "proto_Int v = Some (ucast v)"

definition makeDeployedApp ::
  "int64 \<Rightarrow> string \<Rightarrow> string \<Rightarrow> string \<Rightarrow> int64 \<Rightarrow> int64 \<Rightarrow> int64 \<Rightarrow> Deployment \<times> Application" where
  "makeDeployedApp port name component i delay interval timeout =
     (let app =
        \<lparr>app_Id = Some (Join [name, component, ''0.0.1''] ''-''), app_Name = Some component,
         app_Cpus = Some (Fin 1), app_Mem = Some (Fin 64), app_DiskSpace = Some 0, app_DistUrl = Some ''docker://blah'',
         app_Command = Some ''bin/blah'', app_Env = [], app_Ports = [\<lparr>ikv_Key = Some ''HTTP'', ikv_Value = proto_Int port\<rparr>],
         app_Version = Some ''0.0.1'', app_AppName = Some name, app_Active = None,
         app_Distribution = Some Distribution_DOCKER, app_ComponentType = Some ComponentType_SERVICE,
         app_LogDir = Some ''./logs'', app_WorkDir = Some ''./work'', app_ConfDir = Some ''./conf'',
         app_Sla = Some
           \<lparr>sla_MinInstances = Some 1, sla_MaxInstances = Some 1,
            sla_HealthCheck = Some
              \<lparr>hc_Mode = Some HealthCheckMode_HTTP, hc_RampUp = Some delay, hc_IntervalMillis = Some interval, hc_Timeout = Some timeout,
               hc_Path = None, hc_Scheme = None\<rparr>,
            sla_UnhealthyAt = Some 1\<rparr>\<rparr>;
        deployment =
        \<lparr>dep_AppId = Some (Application_ID app), dep_TaskId = Some \<lparr>tid_Value = Some i\<rparr>, dep_Status = None, dep_DeployedAt = None,
         dep_Slave = None, dep_HostName = Some ''127.0.0.1'',
         dep_PortMapping = [\<lparr>pm_Scheme = Some ''HTTP'', pm_PrivatePort = proto_Int port, pm_PublicPort = proto_Int port\<rparr>]\<rparr>
      in (deployment, app))"

text \<open>The handler of a server is a closure over its counter.\<close>

definition sim_handler :: "int64 \<Rightarrow> rw_call list \<times> int64" where
  "sim_handler counter =
     (let counter = counter + 1
      in (if sint counter smod 5 = 0 then [WriteHeader 500] else [WriteHeader 200], counter))"

section \<open>The program\<close>

definition sim_concurrency :: nat where
  "sim_concurrency = 50"

definition port1 :: int64 where "port1 = 39393"
definition port2 :: int64 where "port2 = 8472"
definition port3 :: int64 where "port3 = 4482"
definition port4 :: int64 where "port4 = 3922"

definition sim_servers :: "string list" where
  "sim_servers = map (\<lambda>port. ''127.0.0.1:'' @ Itoa (sint port)) [port1, port2, port3, port4]"

text \<open>The calls of \<open>Register\<close>, in their order: ten turns of a loop with four calls each.\<close>

definition sim_turn :: "nat \<Rightarrow> (Deployment \<times> Application) list" where
  "sim_turn i =
     (let comp = ''comp-'' @ Itoa (int i) @ ''-app-1''; task = (\<lambda>app. ''task-'' @ Itoa (int i) @ app)
      in [makeDeployedApp port1 ''application-1'' comp (task ''-app-1'') 5000 1000 1000,
          makeDeployedApp port2 ''application-2'' comp (task ''-app-2'') 3000 1000 1000,
          makeDeployedApp port3 ''application-3'' comp (task ''-app-3'') 10000 1000 1000,
          makeDeployedApp port4 ''application-4'' comp (task ''-app-4'') 20000 1000 1000])"

definition registrations :: "(Deployment \<times> Application) list" where
  "registrations = concat (map sim_turn [0..<10])"

definition sim_register :: "go_time \<Rightarrow> nat \<Rightarrow> checker \<Rightarrow> (goerr option \<times> checker) option" where
  "sim_register now k h =
     HealthChecker_Register now (Some (fst (registrations ! k))) (Some (snd (registrations ! k))) h"

text \<open>The program beside the checker: how many calls it has made, and the checker's state. It ignores what \<open>Register\<close> returns.\<close>

inductive sim_step :: "nat \<times> checker \<Rightarrow> nat \<times> checker \<Rightarrow> bool" where
  sim_registers: "k < length registrations \<Longrightarrow> sim_register now k h = Some (err, h') \<Longrightarrow> sim_step (k, h) (Suc k, h')"
| sim_checker: "checker_step sim_concurrency act h h' \<Longrightarrow> act \<notin> {DoRegister, DoUnregister} \<Longrightarrow> sim_step (k, h) (k, h')"

inductive sim_reach :: "nat \<times> checker \<Rightarrow> bool" where
  sim_starts: "sim_reach (0, HealthChecker_New)"
| sim_steps: "sim_reach s \<Longrightarrow> sim_step s s' \<Longrightarrow> sim_reach s'"

inductive_cases sim_stepE: "sim_step (k, h) s'"

section \<open>What is registered\<close>

lemma length_concat_map: "\<forall>x \<in> set xs. length (f x) = n \<Longrightarrow> length (concat (map f xs)) = n * length xs"
  by (induction xs) auto

lemma nth_concat_map:
  "\<forall>x \<in> set xs. length (f x) = n \<Longrightarrow> 0 < n \<Longrightarrow> k < n * length xs \<Longrightarrow> concat (map f xs) ! k = f (xs ! (k div n)) ! (k mod n)"
proof (induction xs arbitrary: k)
  case (Cons x xs)
  show ?case
  proof (cases "k < n")
    case True
    with Cons.prems show ?thesis by (simp add: nth_append)
  next
    case False
    then have "k div n = Suc ((k - n) div n)" "k mod n = (k - n) mod n"
      using Cons.prems(2) by (simp_all add: le_div_geq le_mod_geq)
    with False Cons show ?thesis by (simp add: nth_append)
  qed
qed simp

lemma sim_turn_length: "length (sim_turn i) = 4"
  by (simp add: sim_turn_def Let_def)

lemma length_registrations [simp]: "length registrations = 40"
  unfolding registrations_def by (subst length_concat_map [where n = 4]) (simp_all add: sim_turn_length)

lemma registrations_nth: "k < 40 \<Longrightarrow> registrations ! k = sim_turn (k div 4) ! (k mod 4)"
  unfolding registrations_def by (subst nth_concat_map [where n = 4]) (auto simp: sim_turn_length less_mult_imp_div_less)

definition sim_config :: "nat \<Rightarrow> HealthCheck" where
  "sim_config k = \<lparr>hc_Mode = Some HealthCheckMode_HTTP, hc_RampUp = Some ([5000, 3000, 10000, 20000] ! (k mod 4)),
     hc_IntervalMillis = Some 1000, hc_Timeout = Some 1000, hc_Path = None, hc_Scheme = None\<rparr>"

definition sim_task :: "nat \<Rightarrow> string" where
  "sim_task k = ''task-'' @ [digit (k div 4)] @ ''-app-'' @ [digit (Suc (k mod 4))]"

definition sim_port :: "nat \<Rightarrow> int32" where
  "sim_port k = [39393, 8472, 4482, 3922] ! (k mod 4)"

lemma digit_inj: "m < 10 \<Longrightarrow> n < 10 \<Longrightarrow> digit m = digit n \<longleftrightarrow> m = n"
  by (metis add_left_imp_eq of_char_digit)

lemma Itoa_digit: "n < 10 \<Longrightarrow> Itoa (int n) = [digit n]"
  by (simp add: Itoa_def nat_digits.simps)

lemma sim_task_inj: "j < 40 \<Longrightarrow> k < 40 \<Longrightarrow> sim_task j = sim_task k \<longleftrightarrow> j = k"
proof
  assume k: "j < 40" "k < 40" "sim_task j = sim_task k"
  then have "j div 4 = k div 4" "j mod 4 = k mod 4" by (auto simp: sim_task_def digit_inj)
  then show "j = k" by (metis div_mult_mod_eq)
qed simp

lemma below_4: "n < 4 \<Longrightarrow> n = 0 \<or> n = 1 \<or> n = 2 \<or> n = (3 :: nat)"
  by auto

lemma HTTP_is_http: "EqualFold ''HTTP'' ''http''"
  by code_simp

lemma digit_names: "digit (Suc 0) = CHR ''1''" "digit (Suc (Suc 0)) = CHR ''2''" "digit 3 = CHR ''3''" "digit 4 = CHR ''4''"
  by code_simp+

lemma sim_enabled:
  assumes "k < 40"
  shows "checkDisabled (Some (fst (registrations ! k))) (Some (snd (registrations ! k))) =
     (Some (sim_config k), sim_port k, sim_task k, ''127.0.0.1'', None)"
proof -
  have "k div 4 < 10" using assms by simp
  note it = Itoa_digit [OF this]
  have "k mod 4 < 4" by simp
  then show ?thesis
    using below_4 [OF \<open>k mod 4 < 4\<close>] unfolding registrations_nth [OF assms]
    by (elim disjE)
       (simp_all add: sim_turn_def makeDeployedApp_def it checkDisabled_def sim_config_def sim_port_def sim_task_def Let_def proto_Int_def
         getter_simps HTTP_is_http digit_names port1_def port2_def port3_def port4_def)
qed

lemma sim_port_nonzero: "sim_port k \<noteq> 0"
  using below_4 [of "k mod 4"] by (auto simp: sim_port_def)

text \<open>The check of a registration: one HTTP request a second to the server of its application.\<close>

definition sim_check :: "nat \<Rightarrow> check" where
  "sim_check k = HTTP
     \<lparr>tc_ID = sim_task k, tc_Address = sim_servers ! (k mod 4), tc_Scheme = ''http'', tc_Timeout = 1000000000, tc_Interval = 1000000000,
      hh_client = 1000000000, hh_Path = ''/api/api-docs'', hh_validator = StatusCodeValidator, hh_currentRequest = None\<rparr>"

lemma sim_check_New: "check_New (sim_task k) (''127.0.0.1'' @ '':'' @ Itoa (sint (sim_port k))) (Some (sim_config k)) = sim_check k"
  using below_4 [of "k mod 4"]
  by (auto simp: check_New_def newHTTPHealthCheck_def createTCPHealthCheck_def sim_check_def sim_config_def sim_port_def sim_servers_def
      getter_simps millis_def port1_def port2_def port3_def port4_def tcpHealthCheck.defs httpHealthCheck.defs)

section \<open>No check of the simulation is lost\<close>

definition sim_ok :: "nat \<Rightarrow> checker \<Rightarrow> bool" where
  "sim_ok k h \<longleftrightarrow> k \<le> 40 \<and> supervised h \<and> ck_next h = k \<and> (\<forall>i a. ck_register h i = Some a \<longleftrightarrow> a < k \<and> i = sim_task a) \<and>
     (\<forall>a < k. ahc_HealthCheck (hq_checks (ck_queue h) a) = sim_check a)"

text \<open>The loops of the checker change neither the register nor what is checked.\<close>

definition checks_kept :: "checker \<Rightarrow> checker \<Rightarrow> bool" where
  "checks_kept h h' \<longleftrightarrow> ck_register h' = ck_register h \<and> ck_next h' = ck_next h \<and>
     (\<forall>a. ahc_HealthCheck (hq_checks (ck_queue h') a) = ahc_HealthCheck (hq_checks (ck_queue h) a))"

lemma dequeue_keeps:
  assumes "supervised h" and "dequeue_turn now later h = Some h'"
  shows "checks_kept h h'"
proof -
  obtain item due q where p: "hq_Pop now later (ck_queue h) = Some ((item, due, item \<noteq> None), q)" "hq_frame q = hq_frame (ck_queue h)"
    using hq_Pop_ok [of "ck_queue h" now later] assms(1) unfolding supervised_def by blast
  then show ?thesis using assms(2) hq_frame_eqD [OF p(2)]
    by (auto simp: checks_kept_def dequeue_turn_def split: if_splits option.splits)
qed

lemma dispatch_keeps:
  assumes "dispatch_result h = Some h'"
  shows "checks_kept h h'"
proof -
  obtain item result rest where r: "ck_results h = (item, result) # rest"
    using assms by (auto simp: dispatch_result_def split: list.splits)
  let ?q = "ck_queue h"
  let ?q1 = "?q\<lparr>hq_checks := (hq_checks ?q)(item := (hq_checks ?q item)\<lparr>ahc_ExpiresAt := r_NextCheck result\<rparr>)\<rparr>"
  obtain q2 where q2: "hq_Push item ?q1 = Some q2" "hq_frame q2 = hq_frame ?q1" using hq_Push_ok by blast
  show ?thesis using assms q2(1) hq_frame_eqD [OF q2(2)] by (auto simp: checks_kept_def dispatch_result_def r Let_def)
qed

lemma loop_keeps:
  assumes "supervised h" and "checker_step nrw act h h'" and "act \<notin> {DoRegister, DoUnregister}"
  shows "checks_kept h h'"
  using assms(2,3)
  by (elim checker_stepE)
     (auto intro: dequeue_keeps [OF assms(1)] dispatch_keeps,
      auto simp: checks_kept_def pool_accept_def perform_check_def pool_forward_def split: list.splits if_splits)

text \<open>A registration of an enabled check under a new id succeeds.\<close>

lemma Register_new:
  assumes sup: "supervised h" and chk: "checkDisabled d app = (Some c, p, i, hn, None)" "p \<noteq> 0" and new: "ck_register h i = None"
  shows "\<exists>h'. HealthChecker_Register now d app h = Some (None, h') \<and> supervised h' \<and>
    ck_register h' = (ck_register h)(i \<mapsto> ck_next h) \<and> ck_next h' = Suc (ck_next h) \<and>
    (\<forall>a. ahc_HealthCheck (hq_checks (ck_queue h') a) =
       (if a = ck_next h then check_New i (hn @ '':'' @ Itoa (sint p)) (Some c) else ahc_HealthCheck (hq_checks (ck_queue h) a)))"
proof -
  let ?x = "\<lparr>ahc_HealthCheck = check_New i (hn @ '':'' @ Itoa (sint p)) (Some c),
    ahc_ExpiresAt = time_Add now (millis (HealthCheck_GetRampUp (Some c))), ahc_index = 0\<rparr>"
  let ?q = "(ck_queue h)\<lparr>hq_checks := (hq_checks (ck_queue h))(ck_next h := ?x)\<rparr>"
  obtain q' where q': "hq_Push (ck_next h) ?q = Some q'" "hq_frame q' = hq_frame ?q" using hq_Push_ok by blast
  let ?h' = "h\<lparr>ck_register := (ck_register h)(i \<mapsto> ck_next h), ck_next := Suc (ck_next h), ck_queue := q'\<rparr>"
  have r: "HealthChecker_Register now d app h = Some (None, ?h')" using q'(1) by (simp add: HealthChecker_Register_def chk new Let_def)
  from r Register_supervised [OF sup r] hq_frame_eqD [OF q'(2)] show ?thesis by simp
qed

lemma sim_registers_next:
  assumes ok: "sim_ok k h" and k: "k < 40"
  shows "\<exists>h'. sim_register now k h = Some (None, h') \<and> sim_ok (Suc k) h'"
proof -
  have "ck_register h (sim_task k) = None"
  proof (cases "ck_register h (sim_task k)")
    case (Some a)
    with ok have "a < k" "sim_task k = sim_task a" unfolding sim_ok_def by blast+
    then show ?thesis using sim_task_inj [of k a] k by simp
  qed
  then obtain h' where h': "sim_register now k h = Some (None, h')" "supervised h'"
    "ck_register h' = (ck_register h)(sim_task k \<mapsto> ck_next h)" "ck_next h' = Suc (ck_next h)"
    "\<forall>a. ahc_HealthCheck (hq_checks (ck_queue h') a) = (if a = ck_next h then sim_check k else ahc_HealthCheck (hq_checks (ck_queue h) a))"
    using Register_new [OF _ sim_enabled [OF k] sim_port_nonzero, of h now] ok unfolding sim_register_def sim_check_New sim_ok_def by blast
  moreover have "\<forall>a < k. sim_task a \<noteq> sim_task k" using sim_task_inj [of _ k] k by auto
  with ok k h'(2-5) have "sim_ok (Suc k) h'" unfolding sim_ok_def by (auto simp: less_Suc_eq)
  ultimately show ?thesis by blast
qed

lemma sim_reach_ok: "sim_reach s \<Longrightarrow> sim_ok (fst s) (snd s)"
proof (induction rule: sim_reach.induct)
  case sim_starts
  then show ?case by (simp add: sim_ok_def supervised_New) (simp add: HealthChecker_New_def)
next
  case (sim_steps s s')
  from sim_steps(2,3) show ?case
  proof (cases rule: sim_step.cases)
    case (sim_registers k now h err h')
    then show ?thesis using sim_registers_next [of k h now] sim_steps(3) by simp
  next
    case (sim_checker act h h' k)
    then have "supervised h" using sim_steps(3) by (simp add: sim_ok_def)
    then show ?thesis
      using loop_keeps [OF _ sim_checker(3,4)] step_supervised [OF sim_checker(3)] sim_steps(3) sim_checker
      by (auto simp: sim_ok_def checks_kept_def)
  qed
qed

section \<open>What the servers answer\<close>

lemma smod_dvd: "0 \<le> x \<Longrightarrow> (x :: int) smod 5 = 0 \<longleftrightarrow> 5 dvd x"
  by (cases "x = 0") (auto simp: signed_modulo_int_def dvd_eq_mod_eq_0)

lemma sim_handler_status:
  assumes "n < 2 ^ 63 - 1"
  shows "sim_handler (of_nat n) = ([WriteHeader (if 5 dvd Suc n then 500 else 200)], of_nat (Suc n))"
proof -
  have "sint (of_nat (Suc n) :: int64) = int (Suc n)" using assms by (intro sint_of_nat_int64) simp
  moreover have "(of_nat n :: int64) + 1 = of_nat (Suc n)" by simp
  ultimately have "sint ((of_nat n :: int64) + 1) smod 5 = 0 \<longleftrightarrow> 5 dvd int (Suc n)" using smod_dvd [of "int (Suc n)"] by presburger
  also have "\<dots> \<longleftrightarrow> 5 dvd Suc n" using int_dvd_int_iff [of 5 "Suc n"] by simp
  finally show ?thesis by (simp add: sim_handler_def Let_def add.commute)
qed

text \<open>The answers of a server to its first \<open>n\<close> requests: every fifth check fails, and only failures are published.\<close>

fun sim_answers :: "nat \<Rightarrow> int64 \<Rightarrow> nat list" where
  "sim_answers 0 counter = []"
| "sim_answers (Suc n) counter = (let (rs, counter') = sim_handler counter in rw_status rs # sim_answers n counter')"

lemma sim_answers_from:
  "m + n < 2 ^ 63 \<Longrightarrow> sim_answers n (of_nat m) = map (\<lambda>i. if 5 dvd i then 500 else 200) [Suc m..<Suc (m + n)]"
proof (induction n arbitrary: m)
  case (Suc n)
  have "sim_handler (of_nat m) = ([WriteHeader (if 5 dvd Suc m then 500 else 200)], of_nat (Suc m))"
    using Suc.prems by (intro sim_handler_status) simp
  then have "sim_answers (Suc n) (of_nat m) = (if 5 dvd Suc m then 500 else 200) # sim_answers n (of_nat (Suc m))"
    by (simp del: of_nat_Suc)
  also have "sim_answers n (of_nat (Suc m)) = map (\<lambda>i. if 5 dvd i then 500 else 200) [Suc (Suc m)..<Suc (Suc m + n)]"
    by (rule Suc.IH) (use Suc.prems in simp)
  also have "(if 5 dvd Suc m then 500 else 200) # \<dots> = map (\<lambda>i. if 5 dvd i then 500 else 200) (Suc m # [Suc (Suc m)..<Suc (Suc m + n)])"
    by (simp del: upt_Suc)
  also have "Suc m # [Suc (Suc m)..<Suc (Suc m + n)] = [Suc m..<Suc (m + Suc n)]" by (simp add: upt_conv_Cons del: upt_Suc)
  finally show ?case .
qed simp

section \<open>Properties\<close>

text \<open>C27. In every interleaving of the simulation with the checker's loops, the checker knows exactly the tasks registered so far, each with
  the check of its server, and every one of these checks is in exactly one place; and the next registration succeeds at any time.\<close>

theorem simulation_checks_every_task:
  assumes "sim_reach (k, h)"
  shows "k \<le> 40 \<and> (\<forall>i a. ck_register h i = Some a \<longleftrightarrow> a < k \<and> i = sim_task a) \<and>
    (\<forall>a < k. ahc_HealthCheck (hq_checks (ck_queue h) a) = sim_check a \<and> count (in_flight h) a = 1) \<and>
    (k < 40 \<longrightarrow> (\<exists>h'. sim_register now k h = Some (None, h') \<and> sim_reach (Suc k, h')))"
proof -
  have ok: "sim_ok k h" using sim_reach_ok [OF assms] by simp
  have "count (in_flight h) a = 1" if "a < k" for a
  proof -
    have "supervised h" "ck_register h (sim_task a) = Some a" using ok that by (simp_all add: sim_ok_def)
    then show ?thesis using supervisedD(1) [of h] by (simp add: supervised_def ranI)
  qed
  moreover have "\<exists>h'. sim_register now k h = Some (None, h') \<and> sim_reach (Suc k, h')" if "k < 40"
    using sim_registers_next [OF ok that, of now] sim_steps [OF assms sim_registers] that by fastforce
  ultimately show ?thesis using ok by (simp add: sim_ok_def)
qed

theorem simulation_checks_every_task_witness:
  "\<exists>h'. sim_register 5 0 HealthChecker_New = Some (None, h') \<and> sim_reach (1, h')"
  using simulation_checks_every_task [OF sim_starts, of 5] by auto

text \<open>A server answers every fifth of its requests with 500 and the others with 200; a check that is answered with 500 is reported as an
  error, one that is answered with 200 as healthy.\<close>

theorem every_fifth_check_fails:
  assumes "n < 2 ^ 63"
  shows "sim_answers n 0 = map (\<lambda>i. if 5 dvd i then 500 else 200) [1..<Suc n]"
    and "r_Code (StatusCodeValidator 500 i next_at) = HealthCheckResultCode_ERROR"
    and "r_Code (StatusCodeValidator 200 i next_at) = HealthCheckResultCode_HEALTHY"
  using sim_answers_from [of 0 n] assms by (simp_all add: StatusCodeValidator_def faultyResult_def successResult_def)

text \<open>The simulated deployments name their application by \<open>Application.ID\<close>, which is joined with colons, not by the id it is stored under, which
  is joined with dashes.\<close>

theorem simulated_deployment_names_no_app:
  "dep_AppId (fst (makeDeployedApp port name component i delay interval timeout)) = Some (name @ '':'' @ component @ '':0.0.1'')"
  "app_Id (snd (makeDeployedApp port name component i delay interval timeout)) = Some (name @ ''-'' @ component @ ''-0.0.1'')"
  by (simp_all add: makeDeployedApp_def Application_ID_def getter_simps)

end
