(* ===== verification/Fixtures.thy ===== *)
theory Fixtures
  imports TaskManagerFacts
begin

text \<open>
  The data the tests of the program run on, \<open>src/test_utils/utils.go\<close>: a component, an offer it fits, the deployment that results, and what is
  put into the stores. A function that builds a task can panic, so it returns an \<open>option\<close>; one that saves something returns the new
  stores, whose errors it ignores. \<open>bytes_of\<close> is the first result of \<open>proto.Marshal\<close>, which is used whether or not there is an error; the
  lemmas relate it to the codec of the stores. The clock is in milliseconds.
\<close>

section \<open>Components, offers and deployments\<close>

definition ConstantPortPicker_GetPorts :: "int64 \<Rightarrow> Offer \<Rightarrow> int64 \<Rightarrow> (PortRange list \<times> int32 list) option" where
  "ConstantPortPicker_GetPorts port offer cnt = Some (PortRangeFor port)"

definition TestComponent :: "string \<Rightarrow> string \<Rightarrow> gofloat \<Rightarrow> gofloat \<Rightarrow> Application" where
  "TestComponent appName compName cpus mem =
     (let distURL = ''package://'' @ compName; command = ''./bin/'' @ compName; version = ''0.1.0''; scheme = ''http''; port = 8000
      in \<lparr>app_Id = Some (Join [appName, compName, version] ''-''), app_Name = Some compName, app_Cpus = Some cpus, app_Mem = Some mem,
          app_DiskSpace = Some 0, app_DistUrl = Some distURL, app_Command = Some command, app_Env = [],
          app_Ports = [\<lparr>ikv_Key = Some scheme, ikv_Value = Some port\<rparr>], app_Version = Some version, app_AppName = Some appName,
          app_Active = Some True, app_Distribution = Some Distribution_PACKAGE, app_ComponentType = Some ComponentType_SERVICE,
          app_LogDir = Some ''./logs'', app_WorkDir = Some ''./work'', app_ConfDir = Some ''./conf'', app_Sla = None\<rparr>)"

definition DeployedApp :: "int64 \<Rightarrow> Application \<Rightarrow> TaskInfo \<Rightarrow> Deployment" where
  "DeployedApp nowMillis component task =
     \<lparr>dep_AppId = app_Id component, dep_TaskId = ti_TaskId task, dep_Status = Some AppStatus_STARTED, dep_DeployedAt = Some nowMillis,
      dep_Slave = ti_SlaveId task, dep_HostName = Some ''exeggutor-slave-instance-1'', dep_PortMapping = []\<rparr>"

text \<open>\<open>component\<close> is the address of the component \<open>c\<close>.\<close>

definition ScheduledComponent :: "nat \<Rightarrow> Application \<Rightarrow> ScheduledApp" where
  "ScheduledComponent component c = \<lparr>sa_AppId = app_Id c, sa_App = Some component, sa_Position = Some 0, sa_Since = Some 5\<rparr>"

definition CreateOffer :: "(string \<Rightarrow> gofloat \<Rightarrow> Resource) \<Rightarrow> string \<Rightarrow> gofloat \<Rightarrow> gofloat \<Rightarrow> Offer" where
  "CreateOffer scalar i cpus mem =
     \<lparr>off_Id = Some \<lparr>oid_Value = Some i\<rparr>,
      off_FrameworkId = Some \<lparr>fid_Value = Some ''exeggutor-tests-tasks-framework''\<rparr>,
      off_SlaveId = Some \<lparr>sid_Value = Some ''exeggutor-tests-tasks-slave''\<rparr>,
      off_Hostname = Some ''exeggutor-slave-instance-1'',
      off_Resources =
        [scalar ''cpus'' cpus, scalar ''mem'' mem,
         \<lparr>res_Name = Some ''ports'', res_Type = Some Value_RANGES, res_Scalar = None,
          res_Ranges = Some \<lparr>vrs_Range = [\<lparr>vr_Begin = Some 32000, vr_End = Some 32999\<rparr>]\<rparr>\<rparr>]\<rparr>"

section \<open>Test data for the stores\<close>

text \<open>\<open>MesosMessageBuilder\<close>: its port picker, and \<open>mesos.ScalarResource\<close>.\<close>

record builder =
  mb_getPorts :: "Offer \<Rightarrow> int64 \<Rightarrow> (PortRange list \<times> int32 list) option"
  mb_scalar :: "string \<Rightarrow> gofloat \<Rightarrow> Resource"

text \<open>The two functions build the component at address 0.\<close>

definition BuildStoreTestData :: "int64 \<Rightarrow> int \<Rightarrow> builder \<Rightarrow> (Deployment \<times> Application) option" where
  "BuildStoreTestData nowMillis index b =
     (let component = TestComponent (''app-store-'' @ Itoa index) (''app-'' @ Itoa index) (Fin 1) (Fin 64);
          scheduled = ScheduledComponent 0 component;
          offer = CreateOffer (mb_scalar b) (''slave-'' @ Itoa index) (Fin 8) (Fin 1024)
      in map_option (\<lambda>(task, _). (DeployedApp nowMillis component task, component))
           (BuildTaskInfo (mb_getPorts b) (mb_scalar b) (''task-app-id-'' @ Itoa index) offer (Some component) scheduled))"

definition BuildStoreTestData2 :: "int64 \<Rightarrow> int \<Rightarrow> int \<Rightarrow> int \<Rightarrow> builder \<Rightarrow> (Deployment \<times> Application) option" where
  "BuildStoreTestData2 nowMillis app componentID taskID b =
     (let component = TestComponent (''app-store-'' @ Itoa app) (''app-'' @ Itoa componentID) (Fin 1) (Fin 64);
          scheduled = ScheduledComponent 0 component;
          offer = CreateOffer (mb_scalar b) (''slave-'' @ Itoa taskID) (Fin 8) (Fin 1024)
      in map_option (\<lambda>(task, _). (DeployedApp nowMillis component task, component))
           (BuildTaskInfo (mb_getPorts b) (mb_scalar b)
              (''task-app-'' @ Itoa app @ ''-'' @ Itoa componentID @ ''-id-'' @ Itoa taskID) offer (Some component) scheduled))"

text \<open>\<open>proto.Marshal\<close> on the two messages: its first result.\<close>

record codecs =
  bytes_of :: "Deployment \<Rightarrow> slice"
  app_bytes_of :: "Application \<Rightarrow> slice"

definition SaveStoreTestData ::
  "codecs \<Rightarrow> 's KVStore \<Rightarrow> 'a KVStore \<Rightarrow> Deployment \<Rightarrow> Application \<Rightarrow> 's \<times> 'a \<Rightarrow> 's \<times> 'a" where
  "SaveStoreTestData m kv akv deployed app st =
     (let (backing, as) = st
      in (snd (kv_Set kv (TaskID_GetValue (dep_TaskId deployed)) (bytes_of m deployed) backing),
          snd (kv_Set akv (Application_GetId (Some app)) (app_bytes_of m app) as)))"

definition CreateFilterData ::
  "int64 \<Rightarrow> codecs \<Rightarrow> 's KVStore \<Rightarrow> 'a KVStore \<Rightarrow> builder \<Rightarrow> 's \<times> 'a \<Rightarrow> ((Deployment list \<times> Application list) \<times> 's \<times> 'a) option" where
  "CreateFilterData now m kv akv b st =
     do { (d1, app1) \<leftarrow> BuildStoreTestData2 now 1 1 1 b;
          (d2, app2) \<leftarrow> BuildStoreTestData2 now 1 2 3 b;
          (d3, app3) \<leftarrow> BuildStoreTestData2 now 1 3 2 b;
          (d4, app4) \<leftarrow> BuildStoreTestData2 now 2 1 2 b;
          (d5, app5) \<leftarrow> BuildStoreTestData2 now 3 1 3 b;
          (d6, app6) \<leftarrow> BuildStoreTestData2 now 2 1 3 b;
          let st = SaveStoreTestData m kv akv d1 app1 st;
          let st = SaveStoreTestData m kv akv d2 app2 st;
          let st = SaveStoreTestData m kv akv d3 app3 st;
          let st = SaveStoreTestData m kv akv d4 app4 st;
          let st = SaveStoreTestData m kv akv d5 app5 st;
          let st = SaveStoreTestData m kv akv d6 app6 st;
          Some (([d1, d2, d3, d4, d5, d6], [app1, app2, app3, app4, app5, app6]), st) }"

definition SetupCallbackTestData ::
  "int64 \<Rightarrow> codecs \<Rightarrow> 's KVStore \<Rightarrow> 'a KVStore \<Rightarrow> builder \<Rightarrow> 's \<times> 'a \<Rightarrow>
     ((TaskID option \<times> Deployment \<times> Application) \<times> 's \<times> 'a) option" where
  "SetupCallbackTestData now m kv akv b st =
     (let offer = CreateOffer (mb_scalar b) ''offer id'' (Fin 1) (Fin 64);
          component = TestComponent ''app name'' ''component name'' (Fin 1) (Fin 64);
          scheduled = ScheduledComponent 0 component
      in do { (task, _) \<leftarrow> BuildTaskInfo (mb_getPorts b) (mb_scalar b) ''task id'' offer (Some component) scheduled;
              let i = ti_TaskId task;
              let deployed = DeployedApp now component task;
              let ts = snd (kv_Set kv (TaskID_GetValue i) (bytes_of m deployed) (fst st));
              let as = snd (kv_Set akv (Application_GetId (Some component)) (app_bytes_of m component) (snd st));
              Some ((i, deployed, component), ts, as) })"

definition CreateStoreTestData ::
  "int64 \<Rightarrow> codecs \<Rightarrow> 's KVStore \<Rightarrow> builder \<Rightarrow> 's \<Rightarrow> ((TaskID option \<times> Deployment) \<times> 's) option" where
  "CreateStoreTestData now m kv b backing =
     do { (deployed, _) \<leftarrow> BuildStoreTestData now 1 b;
          let backing = snd (kv_Set kv (TaskID_GetValue (dep_TaskId deployed)) (bytes_of m deployed) backing);
          Some ((dep_TaskId deployed, deployed), backing) }"

definition CreateAppStoreTestData :: "int64 \<Rightarrow> codecs \<Rightarrow> 'a KVStore \<Rightarrow> builder \<Rightarrow> 'a \<Rightarrow> (Application \<times> 'a) option" where
  "CreateAppStoreTestData now m kv b backing =
     do { (_, app) \<leftarrow> BuildStoreTestData now 1 b;
          let backing = snd (kv_Set kv (Application_GetId (Some app)) (app_bytes_of m app) backing);
          Some (app, backing) }"

definition CreateMulti :: "int64 \<Rightarrow> codecs \<Rightarrow> 's KVStore \<Rightarrow> builder \<Rightarrow> 's \<Rightarrow> (Deployment list \<times> 's) option" where
  "CreateMulti now m kv b backing =
     do { (d1, _) \<leftarrow> BuildStoreTestData now 1 b;
          (d2, _) \<leftarrow> BuildStoreTestData now 2 b;
          (d3, _) \<leftarrow> BuildStoreTestData now 3 b;
          let b1 = bytes_of m d1;
          let b2 = bytes_of m d2;
          let b3 = bytes_of m d3;
          let backing = snd (kv_Set kv (TaskID_GetValue (Deployment_GetTaskId (Some d1))) b1 backing);
          let backing = snd (kv_Set kv (TaskID_GetValue (Deployment_GetTaskId (Some d2))) b2 backing);
          let backing = snd (kv_Set kv (TaskID_GetValue (Deployment_GetTaskId (Some d3))) b3 backing);
          Some ([d1, d2, d3], backing) }"

definition CreateAppStoreMulti :: "int64 \<Rightarrow> codecs \<Rightarrow> 'a KVStore \<Rightarrow> builder \<Rightarrow> 'a \<Rightarrow> (Application list \<times> 'a) option" where
  "CreateAppStoreMulti now m kv b backing =
     do { (_, app1) \<leftarrow> BuildStoreTestData now 1 b;
          (_, app2) \<leftarrow> BuildStoreTestData now 2 b;
          (_, app3) \<leftarrow> BuildStoreTestData now 3 b;
          let b1 = app_bytes_of m app1;
          let b2 = app_bytes_of m app2;
          let b3 = app_bytes_of m app3;
          let backing = snd (kv_Set kv (Application_GetId (Some app1)) b1 backing);
          let backing = snd (kv_Set kv (Application_GetId (Some app2)) b2 backing);
          let backing = snd (kv_Set kv (Application_GetId (Some app3)) b3 backing);
          Some ([app1, app2, app3], backing) }"

section \<open>The fixtures are what they are meant to be\<close>

lemmas TestComponent_simps = TestComponent_def Let_def getter_simps

text \<open>Building a task for the one port of a component does not panic with a constant port, and gives the task its id.\<close>

lemma task_of_component:
  assumes "mb_getPorts b = ConstantPortPicker_GetPorts port"
  shows "\<exists>task pm. BuildTaskInfo (mb_getPorts b) (mb_scalar b) taskID offer (Some (TestComponent a c cpus mem)) scheduled = Some (task, pm) \<and>
    ti_TaskId task = Some \<lparr>tid_Value = Some (''exeggutor-task-'' @ taskID)\<rparr> \<and> ti_SlaveId task = off_SlaveId offer"
  unfolding assms
  by (simp add: BuildTaskInfo_def ConstantPortPicker_GetPorts_def PortRangeFor_def BuildMesosCommand_def BuildContainerInfo_def
      BuildTaskEnvironment_def TestComponent_simps)

text \<open>The deployment the test data has for a task id.\<close>

definition test_deployment :: "int64 \<Rightarrow> Application \<Rightarrow> string \<Rightarrow> Deployment" where
  "test_deployment now app taskID =
     \<lparr>dep_AppId = app_Id app, dep_TaskId = Some \<lparr>tid_Value = Some (''exeggutor-task-'' @ taskID)\<rparr>, dep_Status = Some AppStatus_STARTED,
      dep_DeployedAt = Some now, dep_Slave = Some \<lparr>sid_Value = Some ''exeggutor-tests-tasks-slave''\<rparr>,
      dep_HostName = Some ''exeggutor-slave-instance-1'', dep_PortMapping = []\<rparr>"

definition test_app :: "int \<Rightarrow> int \<Rightarrow> Application" where
  "test_app app componentID = TestComponent (''app-store-'' @ Itoa app) (''app-'' @ Itoa componentID) (Fin 1) (Fin 64)"

definition test_task :: "int \<Rightarrow> int \<Rightarrow> int \<Rightarrow> string" where
  "test_task app componentID taskID = ''task-app-'' @ Itoa app @ ''-'' @ Itoa componentID @ ''-id-'' @ Itoa taskID"

lemma BuildStoreTestData2_builds:
  assumes "mb_getPorts b = ConstantPortPicker_GetPorts port"
  shows "BuildStoreTestData2 now a c t b = Some (test_deployment now (test_app a c) (test_task a c t), test_app a c)"
proof -
  obtain task pm where task: "BuildTaskInfo (mb_getPorts b) (mb_scalar b) (test_task a c t)
      (CreateOffer (mb_scalar b) (''slave-'' @ Itoa t) (Fin 8) (Fin 1024)) (Some (test_app a c)) (ScheduledComponent 0 (test_app a c)) = Some (task, pm)"
    "ti_TaskId task = Some \<lparr>tid_Value = Some (''exeggutor-task-'' @ test_task a c t)\<rparr>"
    "ti_SlaveId task = off_SlaveId (CreateOffer (mb_scalar b) (''slave-'' @ Itoa t) (Fin 8) (Fin 1024))"
    using task_of_component [OF assms] unfolding test_app_def by blast
  show ?thesis
    unfolding BuildStoreTestData2_def Let_def test_app_def [symmetric] test_task_def [symmetric] task(1)
    by (simp add: DeployedApp_def test_deployment_def task(2,3)) (simp add: CreateOffer_def)
qed

lemma BuildStoreTestData_builds:
  assumes "mb_getPorts b = ConstantPortPicker_GetPorts port"
  shows "BuildStoreTestData now i b = Some (test_deployment now (test_app i i) (''task-app-id-'' @ Itoa i), test_app i i)"
proof -
  obtain task pm where task: "BuildTaskInfo (mb_getPorts b) (mb_scalar b) (''task-app-id-'' @ Itoa i)
      (CreateOffer (mb_scalar b) (''slave-'' @ Itoa i) (Fin 8) (Fin 1024)) (Some (test_app i i)) (ScheduledComponent 0 (test_app i i)) = Some (task, pm)"
    "ti_TaskId task = Some \<lparr>tid_Value = Some (''exeggutor-task-'' @ ''task-app-id-'' @ Itoa i)\<rparr>"
    "ti_SlaveId task = off_SlaveId (CreateOffer (mb_scalar b) (''slave-'' @ Itoa i) (Fin 8) (Fin 1024))"
    using task_of_component [OF assms] unfolding test_app_def by blast
  show ?thesis
    unfolding BuildStoreTestData_def Let_def test_app_def [symmetric] task(1)
    by (simp add: DeployedApp_def test_deployment_def task(2,3)) (simp add: CreateOffer_def)
qed

text \<open>Saving test data, over stores that keep the contract: the two entries are added and nothing else changes.\<close>

context kv_store begin

lemma Set_abs: "inv s \<Longrightarrow> inv (snd (kv_Set kv k v s)) \<and> abs (snd (kv_Set kv k v s)) = (abs s)(k \<mapsto> v)"
  using Set_ok [of s k v] by fastforce

end

definition test_pairs :: "int64 \<Rightarrow> (Deployment \<times> Application) list" where
  "test_pairs now = map (\<lambda>(a, c, t). (test_deployment now (test_app a c) (test_task a c t), test_app a c))
     [(1, 1, 1), (1, 2, 3), (1, 3, 2), (2, 1, 2), (3, 1, 3), (2, 1, 3)]"

lemma CreateFilterData_saves:
  assumes "mb_getPorts b = ConstantPortPicker_GetPorts port"
  shows "CreateFilterData now m kv akv b st =
    Some ((map fst (test_pairs now), map snd (test_pairs now)), fold (\<lambda>(d, app). SaveStoreTestData m kv akv d app) (test_pairs now) st)"
  by (simp add: CreateFilterData_def BuildStoreTestData2_builds [OF assms] test_pairs_def Let_def)

abbreviation task_id :: "Deployment \<Rightarrow> string" where "task_id d \<equiv> TaskID_GetValue (dep_TaskId d)"
abbreviation app_id :: "Application \<Rightarrow> string" where "app_id app \<equiv> Application_GetId (Some app)"

lemma saved_abs:
  assumes "ims_wf ts" and "ims_wf as"
    and "fold (\<lambda>(d, app). SaveStoreTestData m (InMemoryStore_kv it) (InMemoryStore_kv ita) d app) ps (ts, as) = (ts', as')"
  shows "ims_wf ts' \<and> ims_wf as' \<and>
    ims_abs ts' = fold (\<lambda>(d, _) f. f(task_id d \<mapsto> bytes_of m d)) ps (ims_abs ts) \<and>
    ims_abs as' = fold (\<lambda>(_, app) f. f(app_id app \<mapsto> app_bytes_of m app)) ps (ims_abs as)"
  using assms
proof (induction ps arbitrary: ts "as")
  case (Cons p ps)
  obtain d app where p: "p = (d, app)" by (cases p)
  let ?ts = "snd (kv_Set (InMemoryStore_kv it) (task_id d) (bytes_of m d) ts)"
    and ?as = "snd (kv_Set (InMemoryStore_kv ita) (app_id app) (app_bytes_of m app) as)"
  have "fold (\<lambda>(d, app). SaveStoreTestData m (InMemoryStore_kv it) (InMemoryStore_kv ita) d app) ps (?ts, ?as) = (ts', as')"
    using Cons.prems(3) unfolding p fold_simps prod.case SaveStoreTestData_def [of _ _ _ _ _ "(ts, as)"] Let_def .
  from Cons.IH [OF _ _ this] mem.Set_abs [OF Cons.prems(1), of it "task_id d" "bytes_of m d"]
    mem.Set_abs [OF Cons.prems(2), of ita "app_id app" "app_bytes_of m app"]
  show ?case by (simp add: p)
qed simp

lemma Itoa_small: "Itoa 1 = ''1''" "Itoa 2 = ''2''" "Itoa 3 = ''3''"
  by code_simp+

lemma test_keys:
  "map (\<lambda>(d, _). task_id d) (test_pairs now) =
     [''exeggutor-task-task-app-1-1-id-1'', ''exeggutor-task-task-app-1-2-id-3'', ''exeggutor-task-task-app-1-3-id-2'',
      ''exeggutor-task-task-app-2-1-id-2'', ''exeggutor-task-task-app-3-1-id-3'', ''exeggutor-task-task-app-2-1-id-3'']"
  "map (\<lambda>(_, app). app_id app) (test_pairs now) =
     [''app-store-1-app-1-0.1.0'', ''app-store-1-app-2-0.1.0'', ''app-store-1-app-3-0.1.0'', ''app-store-2-app-1-0.1.0'',
      ''app-store-3-app-1-0.1.0'', ''app-store-2-app-1-0.1.0'']"
  by (simp_all add: test_pairs_def test_deployment_def test_task_def test_app_def TestComponent_simps TaskID_GetValue_def Itoa_small)

lemma fold_update_notin: "k \<notin> set (map f ps) \<Longrightarrow> fold (\<lambda>p m. m(f p \<mapsto> g p)) ps m k = m k"
  by (induction ps arbitrary: m) auto

lemma fold_update_in: "distinct (map f ps) \<Longrightarrow> p \<in> set ps \<Longrightarrow> fold (\<lambda>p m. m(f p \<mapsto> g p)) ps m (f p) = Some (g p)"
proof (induction ps arbitrary: m)
  case (Cons q ps)
  then show ?case by (cases "p = q") (auto simp: fold_update_notin simp del: fun_upd_apply simp add: fun_upd_same)
qed simp

lemma fold_update_dom: "dom (fold (\<lambda>p m. m(f p \<mapsto> g p)) ps m) = dom m \<union> f ` set ps"
  by (induction ps arbitrary: m) auto

text \<open>The data of the filter tests: six deployments, which the task store reads back, of five applications.\<close>

theorem CreateFilterData_fills_the_stores:
  assumes b: "mb_getPorts b = ConstantPortPicker_GetPorts port"
    and codec: "codec_ok enc dec" "\<forall>d \<in> fst ` set (test_pairs now). enc d = Inr (bytes_of m d)"
  shows "\<exists>ts as. CreateFilterData now m (InMemoryStore_kv it) (InMemoryStore_kv ita) b (NewEmptyInMemoryStore, NewEmptyInMemoryStore) =
      Some ((map fst (test_pairs now), map snd (test_pairs now)), ts, as) \<and>
    (\<forall>d \<in> fst ` set (test_pairs now). DefaultTaskStore_Get (InMemoryStore_kv it) dec (task_id d) (TaskStore_NewWithStore ts) = Inr (Some d)) \<and>
    kv_Size (InMemoryStore_kv it) ts = Inr 6 \<and> kv_Size (InMemoryStore_kv ita) as = Inr 5"
proof -
  obtain ts "as" where st: "fold (\<lambda>(d, app). SaveStoreTestData m (InMemoryStore_kv it) (InMemoryStore_kv ita) d app) (test_pairs now)
    (NewEmptyInMemoryStore, NewEmptyInMemoryStore) = (ts, as)" by fastforce
  have e: "ims_wf NewEmptyInMemoryStore" "ims_abs NewEmptyInMemoryStore = Map.empty"
    by (simp_all add: ims_wf_def ims_abs_def NewEmptyInMemoryStore_def)
  note s = saved_abs [OF e(1) e(1) st]
  let ?f = "\<lambda>p. task_id (fst p)"
  have maps: "ims_abs ts = fold (\<lambda>p f. f(?f p \<mapsto> bytes_of m (fst p))) (test_pairs now) Map.empty"
    "ims_abs as = fold (\<lambda>p f. f(app_id (snd p) \<mapsto> app_bytes_of m (snd p))) (test_pairs now) Map.empty"
    using s by (simp_all add: e(2) case_prod_unfold)
  have keys: "distinct (map ?f (test_pairs now))" "card (?f ` set (test_pairs now)) = 6" "card ((\<lambda>p. app_id (snd p)) ` set (test_pairs now)) = 5"
    unfolding list.set_map [symmetric] test_keys [of now, unfolded case_prod_unfold] by (simp_all add: card_insert_if)
  have "DefaultTaskStore_Get (InMemoryStore_kv it) dec (?f p) (TaskStore_NewWithStore ts) = Inr (Some (fst p))" if "p \<in> set (test_pairs now)" for p
  proof -
    have "ims_abs ts (?f p) = Some (bytes_of m (fst p))"
      unfolding maps(1) by (rule fold_update_in [OF keys(1) that])
    with s have "kv_Get (InMemoryStore_kv it) (?f p) ts = Inr (bytes_of m (fst p))" using mem.Get_present by blast
    moreover have "dec (bytes_of m (fst p)) = Inr (fst p)" using codec that by (auto simp: codec_ok_def)
    ultimately show ?thesis by (simp add: DefaultTaskStore_Get_def TaskStore_NewWithStore_def task_readBytes_def)
  qed
  moreover have "kv_Size (InMemoryStore_kv it) ts = Inr 6" "kv_Size (InMemoryStore_kv ita) as = Inr 5"
    using s mem.Size_ok [of ts it] mem.Size_ok [of "as" ita] keys(2,3) unfolding maps fold_update_dom by simp_all
  ultimately show ?thesis unfolding CreateFilterData_saves [OF b] st by fastforce
qed

text \<open>The offer of the test data fits its component, which has one port.\<close>

theorem test_offer_fits:
  assumes "mb_scalar b = sample_scalar"
  shows "fitsInOffer (CreateOffer (mb_scalar b) i (Fin 8) (Fin 1024)) (Some (test_app a c))"
proof -
  have "round64 8 = Fin 8" "round64 1024 = Fin 1024" using round64_of_int [of 8] round64_of_int [of 1024] by simp_all
  then show ?thesis
    by (simp add: assms fitsInOffer_def CreateOffer_def sample_scalar_def offer_step_def test_app_def TestComponent_simps f_zero_def f_ge_def)
qed

end
