(* ===== verification/Spec2Isabelle.thy ===== *)
theory Spec2Isabelle
  imports System Races Recovery TaskQueueContract StoreContracts Wiring FFJsonString MdbStore LifecycleFacts ProtocolEnums ProtocolMessages
    HealthSchedulers Simulation Fixtures
begin

text \<open>
  Exeggutor (\<open>github.com/reverb/exeggutor\<close>): a Mesos framework that deploys applications. This
  development models the part of it that decides: what is queued and in which order, which
  offer launches what, how the instances of an application are counted against its SLA, and how
  running tasks are checked.

  \<^bold>\<open>How the program is put together.\<close> The task manager owns a task queue, a task store, an
  application store, an SLA monitor and a health checker. \<open>SubmitApp\<close> saves applications and puts
  one scheduled app per missing instance on the queue. When Mesos offers resources the manager
  takes the first queued app that fits, saves a deployment and builds the Mesos
  task, with ports from the port picker. The callbacks \<open>TaskStaging\<close>, \<open>TaskRunning\<close>,
  \<open>TaskFinished\<close> and so on write a task's status to the task store and register the task with the health
  checker or unregister it. The health checker keeps the active checks in a queue ordered by
  when they expire, moves them through a worker pool, reports failures and puts
  every check back. The SLA monitor compares, at every tick, the instances it finds in the
  task store and on the queue with the application's minimum and maximum.

  \<^bold>\<open>Theories, from the bottom up.\<close>
  \<^item> \<open>Prelude\<close>: Go's integers, nil and empty slices, errors, panics; weak orders; swaps in a list;
    int32 counters; the order of iteration over a Go map (\<open>go_range\<close>, an argument).
  \<^item> \<open>GoHeap\<close>: \<open>container/heap\<close> over a client's five methods. The locale \<open>heap_client\<close> is the
    contract of \<open>heap.Interface\<close>; inside it \<open>Init\<close>, \<open>Push\<close>, \<open>Pop\<close> and \<open>Remove\<close> refine sifting
    functions on lists, keep the heap order and lose or invent no entry.
  \<^item> \<open>GoFloat\<close>, \<open>GoStrings\<close>: the floats and the string functions the program uses.
  \<^item> \<open>Protocol\<close>: \<open>src/protocol/exeggutor.pb.go\<close>, one record and the getters per message.
  \<^item> \<open>Mesos\<close>: the messages of \<open>go-mesos\<close> the program reads and builds, fields and getters only.
  \<^item> \<open>ProtocolMessages\<close>: the other methods of the messages, and the defaults of the getters.
  \<^item> \<open>TaskQueue\<close>: \<open>src/tasks/queue/task_queue.go\<close>. Interpretations \<open>pq\<close> and \<open>pq_init\<close> of
    \<open>heap_client\<close>; the invariant \<open>queue_wf\<close>; every operation of \<open>PrioQueue\<close> and \<open>taskQueue\<close>.
  \<^item> \<open>TaskQueueContract\<close>: the interface \<open>TaskQueue\<close>, a bag with priorities as its specification (\<open>bag_step\<close>, \<open>bag_run\<close>), locale
    \<open>task_queue\<close>, interpretation \<open>tq\<close>.
  \<^item> \<open>Store\<close>: \<open>src/store/store.go\<close> and \<open>in_memory_store.go\<close>. The interface \<open>KVStore\<close> is a record
    of methods, the locale \<open>kv_store\<close> its contract, \<open>mem\<close> the interpretation on the in-memory store.
  \<^item> \<open>TaskStore\<close>, \<open>AppStore\<close>: \<open>src/store/tasks/task_store.go\<close>, \<open>src/store/apps/app_store.go\<close>, over any
    \<open>KVStore\<close>; their lemmas are proved in the locale, the properties on the in-memory store.
  \<^item> \<open>StoreContracts\<close>: the interfaces \<open>TaskStore\<close> and \<open>AppStore\<close>, a finite map as their specification (\<open>map_step\<close>, \<open>map_run\<close>), locale
    \<open>typed_store\<close>, interpretations \<open>tasks\<close> and \<open>applications\<close>.
  \<^item> \<open>SLA\<close>: \<open>src/health/sla/sla.go\<close>, the running counts, \<open>CanDeployMoreInstances\<close>,
    \<open>NeedsMoreInstances\<close> and the sweep \<open>checkSLAConformance\<close>.
  \<^item> \<open>Builders\<close>: \<open>src/tasks/builders/builders.go\<close>, the port picker and the message builders.
  \<^item> \<open>HealthCheckKinds\<close>: \<open>src/health/check/\<close>, the TCP and HTTP checks.
  \<^item> \<open>HealthQueue\<close>: \<open>src/health/queue.go\<close>, interpretation \<open>hq\<close> of \<open>heap_client\<close>.
  \<^item> \<open>HealthChecker\<close>: \<open>src/health/checker.go\<close>. The bodies of its loops are functions on its
    state; \<open>checker_step\<close> interleaves them; \<open>supervised\<close> is invariant under every interleaving.
  \<^item> \<open>TaskManager\<close>, \<open>TaskManagerFacts\<close>: \<open>src/tasks/default_task_manager.go\<close>, its
    invariant \<open>tm_wf\<close> and its properties.
  \<^item> \<open>TaskManagerContract\<close>: the interface of \<open>src/tasks/task_manager.go\<close> as a record of methods, the
    locale \<open>task_manager\<close> its contract, \<open>dtm\<close> the interpretation on the default task manager.
  \<^item> \<open>TaskManagerInvariant\<close>: the task manager from \<open>NewDefaultTaskManager\<close> on, under any sequence of calls.
  \<^item> \<open>GoChan\<close>: goroutines and channels: a step relation over what every goroutine offers next, and runs of given schedules.
  \<^item> \<open>Lifecycle\<close>, \<open>LifecycleFacts\<close>: the goroutines of the task manager, the SLA monitor, the health checker with its pool and
    workers, and the framework's kill loop, with every channel they share: what \<open>Start\<close> starts and how \<open>Stop\<close> ends.
  \<^item> \<open>Scheduler\<close>, \<open>SchedulerFacts\<close>: \<open>src/scheduler/scheduler.go\<close>, the Mesos callbacks and the requests
    of the API over any task manager; what they ask of the Mesos driver is a sequence of \<open>driver_call\<close>s.
  \<^item> \<open>FrameworkIDState\<close>: \<open>src/state/\<close>, the framework id in ZooKeeper, locale \<open>framework_id\<close>, interpretation \<open>zk\<close>.
  \<^item> \<open>Config\<close>: \<open>src/config.go\<close>, its records and the URLs of the Docker index.
  \<^item> \<open>ApiModel\<close>: \<open>src/agora/api/model/\<close>, the model of the HTTP API, its validation and its
    conversion to and from the protocol messages.
  \<^item> \<open>MdbStore\<close>: \<open>src/store/mdb_store.go\<close> over an LMDB library that is an argument; \<open>lmdb_ok\<close> is the library's documented
    behaviour, \<open>sim_lib\<close> a library that has it.
  \<^item> \<open>HttpApi\<close>, \<open>HttpApiFacts\<close>: \<open>src/agora/api/\<close>, \<open>src/agora/middlewares/\<close> and the configuration and logging
    of \<open>src/agora/main.go\<close>: handlers as functions to what they write to the client.
  \<^item> \<open>Agora\<close>: the rest of \<open>src/agora/main.go\<close>: the routing table, the chain of middlewares in front of it, the order in which
    \<open>main\<close> starts the parts and an interrupt stops them. The router is an argument, \<open>router_ok\<close> its documented behaviour,
    \<open>first_match\<close> an instance.
  \<^item> \<open>ProtocolEnums\<close>: the methods of the enumerations of \<open>exeggutor.pb.go\<close>; locale \<open>enum_tables\<close>, interpreted on each of the five.
  \<^item> \<open>HealthSchedulers\<close>: the interface \<open>HealthCheckScheduler\<close>, locale \<open>health_scheduler\<close>, interpretations \<open>hcs\<close> on the health
    checker and \<open>noop\<close> on the checker of the tests.
  \<^item> \<open>Simulation\<close>: \<open>src/health/simulation/main.go\<close> beside the loops of the checker, and the sample service.
  \<^item> \<open>Fixtures\<close>: \<open>src/test_utils/utils.go\<close>, the data the tests run on.
  \<^item> \<open>EndToEnd\<close>: the components together, from a request to the server to a task that Mesos reports as running.
  \<^item> \<open>System\<close>: the whole program as a transition system: requests to the server, the callbacks of Mesos, failures of health checks
    and turns of the kill loop, in any order (\<open>sys_run\<close>), with an invariant over all runs.
  \<^item> \<open>Races\<close>: status updates in two steps, reading and writing, with those of other goroutines and forgotten tasks in between
    (\<open>races\<close>): what every interleaving keeps, and a forgotten task that comes back.
  \<^item> \<open>Recovery\<close>: what happens when Mesos loses a task, up to its replacement.
  \<^item> \<open>Wiring\<close>: the structures that hold the parts of the program and the functions that make them, with the channels they make.
  \<^item> \<open>FFJson\<close>, \<open>FFJsonString\<close>: the generated JSON encoder \<open>app_component_ffjson.go\<close>; the references are the
    digits of a number in a base (\<open>base_digits\<close>) and a reader of JSON strings (\<open>json_string\<close>).

  \<^bold>\<open>State.\<close> A Go struct is a record with the source's fields. Where two owners share an object and one
  of them writes it (the queue's items and their applications, the health checker's checks), the object has an
  address and lives in a store that is part of the state; elsewhere a pointer is an \<open>option\<close>.
  A panic is \<open>None\<close>, a returned error \<open>Inl\<close>. Every operation of the queues and stores takes the lock
  for its whole body, so it is one step.

  \<^bold>\<open>What is an argument.\<close> The clock, \<open>rand.Intn\<close>, the id generator, the order in which Go ranges over a
  map, \<open>proto.Marshal\<close> and \<open>proto.Unmarshal\<close> (hypothesis \<open>codec_ok\<close>: what was marshalled
  unmarshals to itself; \<open>table_enc\<close> and \<open>table_dec\<close> are an instance), \<open>mesos.ScalarResource\<close>,
  the network of a health check, the LMDB library, the validation library, the ZooKeeper node cache, \<open>json.Marshal\<close> on a map,
  \<open>httprouter\<close>, the file server, the Docker proxy, the event source and the recovery and logging middlewares of other packages, and what Go
  makes of a float that does not fit an integer type.

  \<^bold>\<open>Bounds and termination.\<close> Integers have the width they have in Go. The lemmas on the
  queue ask for fewer than \<open>2^31\<close> items where a \<open>Position\<close> or a count is an \<open>int32\<close>, the lemmas on
  ports for ports below \<open>2^31\<close>; where the code wraps instead, the definitions wrap. The heap's loops are total
  functions with a measure; the port picker's loop can be endless, so it is a
  \<open>partial_function\<close>, and the properties show that it returns. \<open>run_all\<close> performs a given sequence of
  steps of the checker, it needs no fuel.

  \<^bold>\<open>What the groups of lemmas show.\<close>
  \<^item> Queues: every operation keeps the queue well formed, adds or removes exactly the item it
    should, and takes one no other precedes; draining is sorted; \<open>heap.Init\<close> orders any slice.
  \<^item> Stores: what is saved is found again, deleted is gone, other keys keep their value; the cached count
    of running applications is the number of deployments in status started.
  \<^item> SLA: the counts, when an instance may or must be added, and that a sweep's messages bring
    every application to its bounds.
  \<^item> Task manager: scheduling keeps the started and the queued instances within the SLA's maximum, but not those being deployed; an offer launches the first fitting app with the
    ports it reserved, a callback records its status and no other.
  \<^item> Health: a check's verdict, no registered check is lost in any interleaving, the queue's
    check that is taken expires first.
  \<^item> Scheduler: every offer is answered once, and every Mesos state leads to the status that matches it.
  \<^item> Stopping: \<open>Stop\<close> returns from every state if there is nothing to check and nothing to scale (a rank of the goroutines that some
    step decreases); it deadlocks or panics otherwise.
  \<^item> LMDB store: its methods refine a finite map and leave no transaction open, \<open>Start\<close> and \<open>Stop\<close> included.
  \<^item> HTTP API: what is posted through the server is shown again and gone once deleted; what clients are told of failures; what
    \<open>main\<close> makes of errors.
  \<^item> Composition: with a monitor that grants it, a deploy request, an offer and a status update of Mesos together give one running,
    recorded task, and a lost task is recorded as failed and replaced; with the monitor that \<open>main.go\<close> puts in (\<open>wired\<close>) neither
    is ever launched. In every run of the whole program each recorded task was launched, each offer is answered once, in order,
    and no task is killed that was neither launched nor reported as staging or starting.
  \<^item> Contracts: over every sequence of calls the task queue behaves as a bag with priorities and the two stores as finite maps.
  \<^item> API model: the converters are inverse to each other up to two fields, the durations they lose are stated; what
    the JSON encoder writes is read back.
  \<^item> Where the code departs from what its comments or tests say, a property states what it does:
    aliasing in \<open>SubmitApp\<close>, the panic on an exact port range, checks of unregistered tasks that
    come back, the panic of the pool when a task is registered twice.

  \<^bold>\<open>What is not modelled.\<close> Logging and metrics, which change no state of the program, and the library calls behind the
  messages of the generated protobuf code. \<open>System\<close> takes each event as one step, as it is when one goroutine at a time works on the task
  manager. The callbacks of Mesos, the handlers of the API and the listeners run beside each other without a common lock; of this,
  \<open>Races\<close> has the status updates and the forgotten tasks, with each access to a store as one step. The checker's goroutines are modelled twice:
  \<open>HealthChecker\<close> has what they do to the checks and the queue, \<open>Lifecycle\<close> their communication, with a check reduced to its id
  and a sweep of the monitor to the changes it finds. Idealised are the upper and lower case of letters beyond ASCII, the range of Go's clock
  (durations wrap, times do not), the ticker of the health checker, which here may tick at any time, also once it is stopped, and in
  \<open>lmdb_ok\<close> LMDB's errors other than a full map and a missing key; the theorem on open transactions allows every error.
\<close>

end
